(* ===== verification/Prelude.thy ===== *)
theory Prelude
  imports Main "HOL-Library.Char_ord" "HOL-Library.List_Lexorder" "HOL-Library.Sublist"
    "HOL-Library.Multiset" "HOL-Library.Word"
begin

text \<open>
  Shared vocabulary of the development: results of fallible Go functions, Go maps as
  association lists, and the generic list lemmas that the component theories use. A Go
  function returning \<open>(T, error)\<close> is a function into \<open>'e + 'a\<close>, with \<^term>\<open>Inl\<close> for a
  non-nil error; a nilable pointer is an \<open>option\<close>; a Go string is a byte string, that is
  a \<^typ>\<open>string\<close>; a Go \<open>int32\<close> is a \<open>32 word\<close> read with \<open>sint\<close>.
\<close>

section \<open>Collections of proof rules\<close>

named_theorems go_simps \<open>equations that evaluate models of Go library functions\<close>
named_theorems names_simps \<open>shape and length facts about generated object names\<close>
named_theorems pod_simps \<open>what each pod-building step does to each field of the pod\<close>

section \<open>Types\<close>

type_synonym ('k, 'v) go_map = "('k \<times> 'v) list"
type_synonym labels = "(string, string) go_map"
type_synonym int32 = "32 word"
type_synonym int64 = "64 word"

text \<open>
  A Kubernetes value which the operator only copies from a custom resource into a built
  object, never inspecting it (a toleration, a resource quantity, an environment source).
\<close>

type_synonym opaque = string

section \<open>Results\<close>

fun is_ok :: "'e + 'a \<Rightarrow> bool" where
  "is_ok (Inl e) = False"
| "is_ok (Inr a) = True"

fun bind_res :: "'e + 'a \<Rightarrow> ('a \<Rightarrow> 'e + 'b) \<Rightarrow> 'e + 'b" where
  "bind_res (Inl e) f = Inl e"
| "bind_res (Inr a) f = f a"

fun map_err :: "('e \<Rightarrow> 'f) \<Rightarrow> 'e + 'a \<Rightarrow> 'f + 'a" where
  "map_err f (Inl e) = Inl (f e)"
| "map_err f (Inr a) = Inr a"

text \<open>The usual loop of a fallible step over a slice: stop at the first error.\<close>

fun fold_res :: "('x \<Rightarrow> 'a \<Rightarrow> 'e + 'a) \<Rightarrow> 'x list \<Rightarrow> 'a \<Rightarrow> 'e + 'a" where
  "fold_res f [] a = Inr a"
| "fold_res f (x # xs) a = bind_res (f x a) (fold_res f xs)"

definition deref :: "'a option \<Rightarrow> 'a \<Rightarrow> 'a" where
  "deref p d = (case p of None \<Rightarrow> d | Some v \<Rightarrow> v)"

lemma deref_simps [simp]: "deref None d = d" "deref (Some v) d = v"
  by (simp_all add: deref_def)

lemma bind_res_Inr [simp]:
  "bind_res r f = Inr b \<longleftrightarrow> (\<exists>a. r = Inr a \<and> f a = Inr b)"
  by (cases r) auto

lemma bind_res_Inl:
  "bind_res r f = Inl e \<longleftrightarrow> r = Inl e \<or> (\<exists>a. r = Inr a \<and> f a = Inl e)"
  by (cases r) auto

lemma map_err_Inr [simp]: "map_err f r = Inr a \<longleftrightarrow> r = Inr a"
  by (cases r) auto

lemma is_ok_iff: "is_ok r \<longleftrightarrow> (\<exists>a. r = Inr a)"
  by (cases r) auto

lemma bind_res_Inr_right [simp]: "bind_res r Inr = r"
  by (cases r) auto

lemma fold_res_append:
  "fold_res f (xs @ ys) a = bind_res (fold_res f xs a) (fold_res f ys)"
proof (induction xs arbitrary: a)
  case (Cons x xs)
  then show ?case by (cases "f x a") auto
qed simp

section \<open>Go maps\<close>

text \<open>
  A Go map is an association list read with \<^const>\<open>map_of\<close>; assignment overwrites the
  entry in place or adds one. Iteration order, which Go leaves unspecified, is never
  used: code that ranges over a map is modelled on its key set.
\<close>

fun map_put :: "'k \<Rightarrow> 'v \<Rightarrow> ('k, 'v) go_map \<Rightarrow> ('k, 'v) go_map" where
  "map_put k v [] = [(k, v)]"
| "map_put k v (p # m) = (if fst p = k then (k, v) # m else p # map_put k v m)"

lemma map_of_map_put [simp]: "map_of (map_put k v m) = (map_of m)(k \<mapsto> v)"
  by (induction m) (auto simp: fun_eq_iff)

lemma keys_map_put: "fst ` set (map_put k v m) = insert k (fst ` set m)"
  by (induction m) auto

lemma distinct_map_put: "distinct (map fst m) \<Longrightarrow> distinct (map fst (map_put k v m))"
proof (induction m)
  case (Cons p m)
  then show ?case using keys_map_put [of k v m] by (cases p) (auto simp: image_iff)
qed simp

text \<open>Filling a map by one assignment per entry.\<close>

lemma map_of_fold_put:
  "map_of (fold (\<lambda>(k, v). map_put k v) kvs m) = map_of m ++ map_of (rev kvs)"
  by (induction kvs arbitrary: m) (auto simp: map_add_def fun_eq_iff split: option.splits)

lemma distinct_fold_put:
  "distinct (map fst m) \<Longrightarrow> distinct (map fst (fold (\<lambda>(k, v). map_put k v) kvs m))"
  by (induction kvs arbitrary: m) (auto simp: distinct_map_put)

lemma map_put_append: "k \<notin> fst ` set m \<Longrightarrow> map_put k v m = m @ [(k, v)]"
  by (induction m) auto

lemma fold_put_distinct:
  "distinct (map fst (m @ kvs)) \<Longrightarrow> fold (\<lambda>(k, v). map_put k v) kvs m = m @ kvs"
proof (induction kvs arbitrary: m)
  case (Cons kv kvs)
  then have "fst kv \<notin> fst ` set m" by auto
  with Cons show ?case by (cases kv) (auto simp: map_put_append)
qed simp

definition sub_labels :: "labels \<Rightarrow> labels \<Rightarrow> bool" where
  "sub_labels sel ls \<longleftrightarrow> list_all (\<lambda>(k, v). map_of ls k = Some v) sel"

text \<open>Membership in a set built by \<open>toSet\<close>: a missing key reads as false.\<close>

definition in_set :: "(string, bool) go_map \<Rightarrow> string \<Rightarrow> bool" where
  "in_set m k = (map_of m k = Some True)"

section \<open>Lists\<close>

lemma filter_eq_single:
  assumes "distinct zs" and "k \<in> set zs" and "inj_on f (set zs)"
  shows "filter (\<lambda>x. f k = f x) zs = [k]"
  using assms
proof (induction zs)
  case (Cons z zs)
  show ?case
  proof (cases "z = k")
    case True
    with Cons.prems have "filter (\<lambda>x. f k = f x) zs = []"
      by (auto simp: filter_empty_conv inj_on_def)
    with True show ?thesis by simp
  next
    case False
    with Cons.prems have "f k \<noteq> f z" by (auto simp: inj_on_def)
    with False Cons show ?thesis by auto
  qed
qed simp

text \<open>Sorting by a key that identifies the elements does not depend on their order.\<close>

lemma sort_key_perm_eq:
  assumes "mset xs = mset ys" and "distinct (map f xs)"
  shows "sort_key f xs = sort_key f ys"
proof (rule properties_for_sort_key)
  have inj: "inj_on f (set xs)" "inj_on f (set ys)" and d: "distinct xs" "distinct ys"
    using assms by (metis distinct_map mset_eq_setD mset_eq_imp_distinct_iff)+
  show "mset (sort_key f ys) = mset xs" using assms(1) by simp
  show "filter (\<lambda>x. f k = f x) (sort_key f ys) = filter (\<lambda>x. f k = f x) xs"
    if "k \<in> set (sort_key f ys)" for k
    using filter_eq_single [of xs k f] filter_eq_single [of "sort_key f ys" k f]
      that inj d mset_eq_setD [OF assms(1)] by simp
qed simp

end
