(* ===== verification/Json.thy ===== *)
theory Json
  imports Prelude
begin

text \<open>
  JSON as Go's \<open>encoding/json\<close> gives it to the operator. A \<open>json.RawMessage\<close> is modelled
  by its syntax tree, so white space between tokens and the spelling of escapes are not
  represented; key order, duplicate keys and number literals are. \<^term>\<open>JStr\<close> holds the
  decoded text and \<^term>\<open>JNum\<close> the literal.

  Decoding into an \<open>any\<close> turns a number into a \<open>float64\<close>. A \<open>float64\<close> is represented by
  the literal \<open>json.Marshal\<close> prints for it, so the rounding of \<open>strconv.ParseFloat\<close>
  followed by that printing is one function \<open>fnum\<close> from literals to canonical literals,
  \<^term>\<open>None\<close> when the literal is out of range. It is a parameter; what the proofs use of
  it is \<open>canon_num\<close>: a canonical literal is read back as itself.
\<close>

datatype json =
    JNull
  | JBool bool
  | JNum string
  | JStr string
  | JArr "json list"
  | JObj "(string \<times> json) list"

text \<open>
  \<^term>\<open>RawEmpty\<close>: nil, or nothing but white space; \<^term>\<open>RawBad\<close>: text that is not JSON.
\<close>

datatype raw = RawEmpty | RawBad string | Raw json

datatype json_error = JsonSyntaxError string | JsonTypeError | JsonRangeError

type_synonym num_codec = "string \<Rightarrow> string option"

definition canon_num :: "num_codec \<Rightarrow> bool" where
  "canon_num fnum \<longleftrightarrow> (\<forall>l c. fnum l = Some c \<longrightarrow> fnum c = Some c)"

section \<open>Maps and their canonical form\<close>

text \<open>Decoding an object into a Go map: of duplicate keys the last one counts.\<close>

definition obj_map :: "(string \<times> 'v) list \<Rightarrow> (string, 'v) go_map" where
  "obj_map kvs = fold (\<lambda>(k, v). map_put k v) kvs []"

text \<open>\<open>json.Marshal\<close> of a map prints the keys in increasing byte order.\<close>

definition sort_map :: "(string, 'v) go_map \<Rightarrow> (string \<times> 'v) list" where
  "sort_map m = sort_key fst m"

fun map_opt :: "('a \<Rightarrow> 'b option) \<Rightarrow> 'a list \<Rightarrow> 'b list option" where
  "map_opt f [] = Some []"
| "map_opt f (x # xs) =
     (case f x of None \<Rightarrow> None
      | Some y \<Rightarrow> (case map_opt f xs of None \<Rightarrow> None | Some ys \<Rightarrow> Some (y # ys)))"

lemma map_opt_cong [fundef_cong]:
  "xs = ys \<Longrightarrow> (\<And>x. x \<in> set ys \<Longrightarrow> f x = g x) \<Longrightarrow> map_opt f xs = map_opt g ys"
proof (induction ys arbitrary: xs)
  case (Cons y ys)
  then have "map_opt f ys = map_opt g ys" and "f y = g y" by auto
  with Cons.prems(1) show ?case by (simp split: option.split)
qed simp

text \<open>
  \<open>json.Unmarshal\<close> into an \<open>any\<close>, with the decoded value written as the tree
  \<open>json.Marshal\<close> prints for it: canonical numbers, no duplicate keys, sorted keys.
  Two decoded values are equal exactly when these trees are.
\<close>

fun decode_any :: "num_codec \<Rightarrow> json \<Rightarrow> json option" where
  "decode_any fnum JNull = Some JNull"
| "decode_any fnum (JBool b) = Some (JBool b)"
| "decode_any fnum (JNum l) = map_option JNum (fnum l)"
| "decode_any fnum (JStr s) = Some (JStr s)"
| "decode_any fnum (JArr xs) = map_option JArr (map_opt (decode_any fnum) xs)"
| "decode_any fnum (JObj kvs) =
     map_option (\<lambda>kvs'. JObj (sort_map (obj_map kvs')))
       (map_opt (\<lambda>kv. map_option (Pair (fst kv)) (decode_any fnum (snd kv))) kvs)"

section \<open>Lemmas on decoded maps\<close>

lemma map_of_obj_map: "map_of (obj_map kvs) = map_of (rev kvs)"
  by (simp add: obj_map_def map_of_fold_put)

lemma distinct_obj_map [simp]: "distinct (map fst (obj_map kvs))"
  by (simp add: obj_map_def distinct_fold_put)

lemma keys_fold_put: "fst ` set (fold (\<lambda>(k, v). map_put k v) kvs m) = fst ` set m \<union> fst ` set kvs"
proof (induction kvs arbitrary: m)
  case (Cons kv kvs)
  show ?case by (simp add: Cons.IH split: prod.splits) (simp add: keys_map_put insert_commute)
qed simp

lemma set_map_put: "set (map_put k v m) \<subseteq> insert (k, v) (set m)"
  by (induction m) auto

lemma set_fold_put: "set (fold (\<lambda>(k, v). map_put k v) kvs m) \<subseteq> set m \<union> set kvs"
proof (induction kvs arbitrary: m)
  case (Cons kv kvs)
  then show ?case using set_map_put by (cases kv) fastforce
qed simp

lemma set_obj_map: "set (obj_map kvs) \<subseteq> set kvs"
  using set_fold_put [of kvs "[]"] by (simp add: obj_map_def)

lemma obj_map_distinct: "distinct (map fst kvs) \<Longrightarrow> obj_map kvs = kvs"
  by (simp add: obj_map_def fold_put_distinct)

lemma distinct_sort_map [simp]: "distinct (map fst (sort_map m)) = distinct (map fst m)"
  unfolding sort_map_def by (metis distinct_sort mset_eq_imp_distinct_iff mset_map mset_sort)

lemma map_of_sort_map [simp]:
  "distinct (map fst m) \<Longrightarrow> map_of (sort_map m) = map_of m"
  by (rule map_of_eqI) (auto simp: sort_map_def, metis distinct_sort_map map_of_eq_Some_iff set_sort sort_map_def)

lemma set_sort_map [simp]: "set (sort_map m) = set m"
  by (simp add: sort_map_def)

lemma obj_map_Nil [simp]: "obj_map [] = []"
  by (simp add: obj_map_def)

lemma sort_map_Nil [simp]: "sort_map [] = []"
  by (simp add: sort_map_def)

lemma sort_map_idem [simp]: "sort_map (sort_map m) = sort_map m"
  by (simp add: sort_map_def sort_key_id_if_sorted)

text \<open>Sorted association lists with distinct keys are equal when they are equal as maps.\<close>

lemma sort_map_eqI:
  assumes "distinct (map fst m)" and "distinct (map fst n)" and "map_of m = map_of n"
  shows "sort_map m = sort_map n"
proof -
  have "set m = set n"
    using assms by (metis map_of_eq_Some_iff subrelI subset_antisym)
  moreover have "distinct m" "distinct n"
    using assms by (auto simp: distinct_map)
  ultimately have "mset m = mset n"
    by (simp add: set_eq_iff_mset_eq_distinct)
  with assms(1) show ?thesis unfolding sort_map_def by (intro sort_key_perm_eq)
qed

lemma map_opt_Some_iff:
  "map_opt f xs = Some ys \<longleftrightarrow> list_all2 (\<lambda>x y. f x = Some y) xs ys"
proof (induction xs arbitrary: ys)
  case (Cons x xs)
  have "map_opt f (x # xs) = Some ys \<longleftrightarrow> (\<exists>y zs. f x = Some y \<and> map_opt f xs = Some zs \<and> ys = y # zs)"
    by (auto split: option.split)
  also have "\<dots> \<longleftrightarrow> list_all2 (\<lambda>x y. f x = Some y) (x # xs) ys"
    by (auto simp: Cons.IH list_all2_Cons1)
  finally show ?case .
qed auto

lemma map_opt_id: "\<forall>x \<in> set xs. f x = Some x \<Longrightarrow> map_opt f xs = Some xs"
  by (induction xs) auto

lemma list_all2_right: "list_all2 P xs ys \<Longrightarrow> y \<in> set ys \<Longrightarrow> \<exists>x \<in> set xs. P x y"
  by (induction rule: list_all2_induct) auto

text \<open>A decoded tree decodes to itself: decoding is canonicalisation.\<close>

lemma decode_any_idem:
  assumes "canon_num fnum"
  shows "decode_any fnum j = Some c \<Longrightarrow> decode_any fnum c = Some c"
proof (induction j arbitrary: c)
  case (JNum l)
  with assms show ?case by (auto simp: canon_num_def)
next
  case (JArr xs)
  then obtain ys where ys: "list_all2 (\<lambda>x y. decode_any fnum x = Some y) xs ys" and c: "c = JArr ys"
    by (auto simp: map_opt_Some_iff)
  have "\<forall>y \<in> set ys. decode_any fnum y = Some y"
    using JArr.IH list_all2_right [OF ys] by blast
  with c show ?case by (simp add: map_opt_id)
next
  case (JObj kvs)
  let ?d = "\<lambda>kv. map_option (Pair (fst kv)) (decode_any fnum (snd kv))"
  obtain ys where ys: "list_all2 (\<lambda>x y. ?d x = Some y) kvs ys" and c: "c = JObj (sort_map (obj_map ys))"
    using JObj.prems by (auto simp: map_opt_Some_iff)
  have "?d y = Some y" if "y \<in> set ys" for y
  proof -
    from that ys obtain x where "x \<in> set kvs" and "?d x = Some y"
      using list_all2_right [OF ys] by blast
    then obtain v where "decode_any fnum (snd x) = Some v" and "y = (fst x, v)" by auto
    moreover from this(1) have "decode_any fnum v = Some v"
      using JObj.IH [of x "snd x"] \<open>x \<in> set kvs\<close> by (simp add: snds.intros prod_set_defs)
    ultimately show ?thesis by simp
  qed
  then have "\<forall>y \<in> set (sort_map (obj_map ys)). ?d y = Some y"
    using set_obj_map by fastforce
  then have "map_opt ?d (sort_map (obj_map ys)) = Some (sort_map (obj_map ys))"
    by (rule map_opt_id)
  with c show ?case by (simp add: obj_map_distinct)
qed auto

end
