(* ===== verification/Api_Types.thy ===== *)
theory Api_Types
  imports Json
begin

text \<open>
  The custom resources of \<open>src/api/v1alpha1\<close>, one record per Go struct and one field per
  Go field, and the parts of the Kubernetes object types that the operator writes or
  reads. Optional pointers are options; enumerated strings stay strings with the constants
  of the source. Fields of Kubernetes types that the operator neither sets nor reads are
  carried in one \<open>..._rest\<close> field where a user-supplied value is copied through, and are
  left out where the operator builds the value itself.
\<close>

section \<open>Kubernetes core types\<close>

text \<open>\<open>resource.Quantity\<close>, in units of \<open>10^-9\<close>, the finest it can represent.\<close>

type_synonym quantity = int

record VolumeMount =
  vm_name :: string
  vm_mountPath :: string
  vm_subPath :: string
  vm_readOnly :: bool
  vm_rest :: opaque

definition mount :: "string \<Rightarrow> string \<Rightarrow> string \<Rightarrow> bool \<Rightarrow> VolumeMount" where
  "mount n p sub ro = \<lparr>vm_name = n, vm_mountPath = p, vm_subPath = sub, vm_readOnly = ro, vm_rest = ''''\<rparr>"

datatype VolumeSource =
    VS_NFS string string bool
  | VS_PVC string bool
  | VS_Image string string
  | VS_HostPath string string
  | VS_Other opaque

record Volume =
  v_name :: string
  v_source :: VolumeSource

record EnvVar =
  ev_name :: string
  ev_value :: string
  ev_valueFrom :: "opaque option"

definition env :: "string \<Rightarrow> string \<Rightarrow> EnvVar" where
  "env n v = \<lparr>ev_name = n, ev_value = v, ev_valueFrom = None\<rparr>"

record ContainerPort =
  cp_name :: string
  cp_containerPort :: int32
  cp_protocol :: string
  cp_rest :: opaque

record ResourceRequirements =
  rr_limits :: "(string, quantity) go_map"
  rr_requests :: "(string, quantity) go_map"
  rr_claims :: opaque

definition no_resources :: ResourceRequirements where
  "no_resources = \<lparr>rr_limits = [], rr_requests = [], rr_claims = ''''\<rparr>"

record SecurityContext =
  sc_runAsNonRoot :: "bool option"
  sc_runAsUser :: "int option"
  sc_runAsGroup :: "int option"
  sc_allowPrivilegeEscalation :: "bool option"
  sc_capabilitiesDrop :: "string list option"

definition no_sc :: SecurityContext where
  "no_sc = \<lparr>sc_runAsNonRoot = None, sc_runAsUser = None, sc_runAsGroup = None,
     sc_allowPrivilegeEscalation = None, sc_capabilitiesDrop = None\<rparr>"

record PodSecurityContext =
  psc_seccompProfile :: "string option"
  psc_runAsNonRoot :: "bool option"
  psc_runAsUser :: "int option"
  psc_runAsGroup :: "int option"
  psc_fsGroup :: "int option"
  psc_supplementalGroups :: "int list"

definition no_psc :: PodSecurityContext where
  "no_psc = \<lparr>psc_seccompProfile = None, psc_runAsNonRoot = None, psc_runAsUser = None,
     psc_runAsGroup = None, psc_fsGroup = None, psc_supplementalGroups = []\<rparr>"

definition seccomp_default :: PodSecurityContext where
  "seccomp_default = no_psc\<lparr>psc_seccompProfile := Some ''RuntimeDefault''\<rparr>"

datatype Probe = HTTPGetProbe string int32 int32 int32 | OtherProbe opaque

record Container =
  c_name :: string
  c_image :: string
  c_imagePullPolicy :: string
  c_command :: "string list"
  c_args :: "string list"
  c_ports :: "ContainerPort list"
  c_env :: "EnvVar list"
  c_resources :: ResourceRequirements
  c_volumeMounts :: "VolumeMount list"
  c_securityContext :: "SecurityContext option"
  c_readinessProbe :: "Probe option"
  c_livenessProbe :: "Probe option"
  c_startupProbe :: "Probe option"

definition no_container :: Container where
  "no_container = \<lparr>c_name = '''', c_image = '''', c_imagePullPolicy = '''', c_command = [], c_args = [],
     c_ports = [], c_env = [], c_resources = no_resources, c_volumeMounts = [],
     c_securityContext = None, c_readinessProbe = None, c_livenessProbe = None, c_startupProbe = None\<rparr>"

record PodSpec =
  ps_containers :: "Container list"
  ps_initContainers :: "Container list"
  ps_volumes :: "Volume list"
  ps_imagePullSecrets :: "string list"
  ps_securityContext :: "PodSecurityContext option"
  ps_runtimeClassName :: "string option"
  ps_nodeSelector :: labels
  ps_tolerations :: "opaque list"
  ps_priorityClassName :: string
  ps_terminationGracePeriodSeconds :: "int option"

definition no_pod :: PodSpec where
  "no_pod = \<lparr>ps_containers = [], ps_initContainers = [], ps_volumes = [], ps_imagePullSecrets = [],
     ps_securityContext = None, ps_runtimeClassName = None, ps_nodeSelector = [], ps_tolerations = [],
     ps_priorityClassName = '''', ps_terminationGracePeriodSeconds = None\<rparr>"

record PodTemplateSpec =
  pt_labels :: labels
  pt_annotations :: labels
  pt_spec :: PodSpec

record Deployment =
  d_name :: string
  d_namespace :: string
  d_labels :: labels
  d_replicas :: "int32 option"
  d_selector :: labels
  d_strategy :: string
  d_template :: PodTemplateSpec

record ServicePort =
  sp_name :: string
  sp_port :: int32
  sp_targetPort :: int32
  sp_protocol :: string

record Service =
  s_name :: string
  s_namespace :: string
  s_labels :: labels
  s_annotations :: labels
  s_type :: string
  s_selector :: labels
  s_ports :: "ServicePort list"

record Condition =
  cond_type :: string
  cond_status :: string
  cond_reason :: string
  cond_message :: string
  cond_observedGeneration :: int

text \<open>\<open>metav1.LabelSelector\<close>: match labels and match expressions (key, operator, values).\<close>

record LabelSelector =
  ls_matchLabels :: labels
  ls_matchExpressions :: "(string \<times> string \<times> string list) list"

section \<open>Storage, services, web and gateway\<close>

record PVCSpec =
  pvc_existingClaim :: string
  pvc_size :: quantity
  pvc_storageClassName :: string
  pvc_accessModes :: "string list"
  pvc_mountPath :: string

record NFSSource =
  nfs_server :: string
  nfs_path :: string
  nfs_readOnly :: bool
  nfs_provision :: bool
  nfs_storageClassName :: string
  nfs_mountOptions :: "string list"

record LibrarySpec =
  ls_name :: string
  ls_collectionType :: string
  ls_options :: "raw option"

record MediaFolder =
  mf_name :: string
  mf_mountPath :: string
  mf_readOnly :: bool
  mf_nfs :: "NFSSource option"
  mf_pvc :: "PVCSpec option"
  mf_existingClaim :: string
  mf_library :: "LibrarySpec option"

record JellyfinStorage =
  st_config :: PVCSpec
  st_cache :: "PVCSpec option"
  st_trickplay :: "PVCSpec option"
  st_media :: "MediaFolder list"

record ServiceSpec =
  svc_type :: string
  svc_port :: int32
  svc_annotations :: labels

record IngressSpec =
  ing_className :: string
  ing_host :: string
  ing_tls :: "string option"
  ing_annotations :: labels

record HardwareAccel =
  hw_type :: string
  hw_devicePath :: string
  hw_deviceResource :: string
  hw_renderGroupGID :: "int option"
  hw_runtimeClassName :: string

record PodSecuritySpec =
  pss_runAsNonRoot :: "bool option"
  pss_runAsUser :: "int option"
  pss_runAsGroup :: "int option"
  pss_fsGroup :: "int option"
  pss_supplementalGroups :: "int list"

definition WebModeDeployment :: string where "WebModeDeployment = ''deployment''"
definition WebModeVolume :: string where "WebModeVolume = ''volume''"

record WebSpec =
  web_image :: string
  web_mode :: string
  web_subPath :: string
  web_pullPolicy :: string
  web_replicas :: "int32 option"
  web_resources :: ResourceRequirements
  web_service :: ServiceSpec
  web_podAnnotations :: labels

text \<open>\<open>(*WebSpec).EffectiveMode\<close>; the receiver may be nil.\<close>

definition EffectiveMode :: "WebSpec option \<Rightarrow> string" where
  "EffectiveMode w =
     (case w of None \<Rightarrow> WebModeDeployment
      | Some w \<Rightarrow> if web_mode w = '''' then WebModeDeployment else web_mode w)"

record GatewayReference =
  gr_name :: string
  gr_namespace :: string
  gr_sectionName :: string

record GatewaySSO =
  sso_autoLoginRedirect :: bool
  sso_authorizePath :: string

record GatewaySpec =
  gw_gatewayRef :: GatewayReference
  gw_hostname :: string
  gw_annotations :: labels
  gw_sso :: "GatewaySSO option"

section \<open>Day-2 settings\<close>

record JellyfinAPISpec =
  api_mode :: string
  api_credentialsSecret :: "string option"
  api_generatedSecretName :: string
  api_manageLibraries :: bool
  api_prune :: bool
  api_refreshLibraryOnChange :: bool

record ThrottleSpec =
  th_enabled :: "bool option"
  th_delaySeconds :: "int32 option"

record SegmentDeletionSpec =
  sd_enabled :: "bool option"
  sd_keepSeconds :: "int32 option"

record TranscodingSpec =
  tc_throttle :: "ThrottleSpec option"
  tc_segmentDeletion :: "SegmentDeletionSpec option"

record GeneralSpec =
  g_serverName :: "string option"
  g_uiCulture :: "string option"
  g_quickConnectAvailable :: "bool option"
  g_enableMetrics :: "bool option"
  g_enableNormalizedItemByNameIds :: "bool option"
  g_allowClientLogUpload :: "bool option"
  g_enableSlowResponseWarning :: "bool option"
  g_slowResponseThresholdMs :: "int64 option"
  g_libraryScanFanoutConcurrency :: "int32 option"
  g_libraryMetadataRefreshConcurrency :: "int32 option"
  g_parallelImageEncodingLimit :: "int32 option"
  g_activityLogRetentionDays :: "int32 option"
  g_libraryMonitorDelay :: "int32 option"
  g_libraryUpdateDuration :: "int32 option"
  g_inactiveSessionThreshold :: "int32 option"
  g_logFileRetentionDays :: "int32 option"
  g_cachePath :: "string option"
  g_metadataPath :: "string option"
  g_corsHosts :: "string list option"

record PlaybackSpec =
  p_minResumePct :: "int32 option"
  p_maxResumePct :: "int32 option"
  p_minResumeDurationSeconds :: "int32 option"
  p_minAudiobookResumeMinutes :: "int32 option"
  p_maxAudiobookResumeMinutes :: "int32 option"
  p_remoteClientBitrateLimit :: "int32 option"

record BrandingSpec =
  b_loginDisclaimer :: "string option"
  b_customCss :: "string option"
  b_splashscreenEnabled :: "bool option"

section \<open>The Jellyfin resource\<close>

record JellyfinSpec =
  js_image :: string
  js_replicas :: "int32 option"
  js_storage :: JellyfinStorage
  js_service :: ServiceSpec
  js_ingress :: "IngressSpec option"
  js_web :: "WebSpec option"
  js_gateway :: "GatewaySpec option"
  js_resources :: ResourceRequirements
  js_hardwareAcceleration :: "HardwareAccel option"
  js_podSecurity :: "PodSecuritySpec option"
  js_api :: "JellyfinAPISpec option"
  js_transcoding :: "TranscodingSpec option"
  js_general :: "GeneralSpec option"
  js_branding :: "BrandingSpec option"
  js_playback :: "PlaybackSpec option"
  js_pluginSelector :: "LabelSelector option"
  js_podAnnotations :: labels
  js_imagePullSecrets :: "string list"

record LoadedPlugin =
  lp_name :: string
  lp_pluginName :: string
  lp_version :: string
  lp_guid :: string

record JellyfinStatus =
  jst_phase :: string
  jst_observedGeneration :: int
  jst_endpointService :: string
  jst_endpointIngress :: string
  jst_loadedPlugins :: "LoadedPlugin list"
  jst_apiCredentialsSecret :: string
  jst_managedLibraries :: "string list"
  jst_conditions :: "Condition list"

record Jellyfin =
  jf_name :: string
  jf_namespace :: string
  jf_uid :: string
  jf_generation :: int
  jf_deleting :: bool
  jf_spec :: JellyfinSpec
  jf_status :: JellyfinStatus

section \<open>The JellyfinPlugin resource\<close>

definition InjectionImageVolume :: string where "InjectionImageVolume = ''imageVolume''"
definition InjectionImageVolumeCopy :: string where "InjectionImageVolumeCopy = ''imageVolumeCopy''"
definition FailurePolicyIgnore :: string where "FailurePolicyIgnore = ''Ignore''"
definition FailurePolicyFail :: string where "FailurePolicyFail = ''Fail''"

record ImageSource =
  is_reference :: string
  is_pullPolicy :: string
  is_subPath :: string

record PluginMeta =
  pm_guid :: string
  pm_name :: string
  pm_version :: string
  pm_targetABI :: string
  pm_subPath :: string

record InstanceMediaSelection =
  ims_mode :: string
  ims_include :: "string list"
  ims_readWrite :: "string list"

record PluginWorkload =
  w_name :: string
  w_image :: ImageSource
  w_replicas :: "int32 option"
  w_command :: "string list"
  w_args :: "string list"
  w_env :: "EnvVar list"
  w_ports :: "ContainerPort list"
  w_resources :: ResourceRequirements
  w_volumeMounts :: "VolumeMount list"
  w_volumes :: "Volume list"
  w_instanceMedia :: "InstanceMediaSelection option"
  w_terminationGracePeriodSeconds :: "int option"
  w_nodeSelector :: labels
  w_tolerations :: "opaque list"
  w_priorityClassName :: string
  w_runtimeClassName :: string
  w_podSecurity :: "PodSecuritySpec option"
  w_readinessProbe :: "Probe option"
  w_livenessProbe :: "Probe option"
  w_startupProbe :: "Probe option"

record PluginService =
  pls_name :: string
  pls_selector :: string
  pls_ports :: "ServicePort list"
  pls_type :: string

record PluginInstall =
  pi_image :: "ImageSource option"
  pi_script :: string
  pi_command :: "string list"
  pi_args :: "string list"
  pi_env :: "EnvVar list"
  pi_volumeMounts :: "VolumeMount list"
  pi_resources :: ResourceRequirements
  pi_failurePolicy :: string
  pi_timeoutSeconds :: "int32 option"
  pi_runOnce :: bool

record JellyfinPluginSpec =
  jps_jellyfinRef :: "string option"
  jps_pluginImage :: ImageSource
  jps_meta :: PluginMeta
  jps_injection :: string
  jps_install :: "PluginInstall option"
  jps_workloads :: "PluginWorkload list"
  jps_services :: "PluginService list"

record JellyfinPluginStatus =
  jpst_phase :: string
  jpst_observedGeneration :: int
  jpst_injected :: bool
  jpst_installed :: bool
  jpst_abiCompatible :: bool
  jpst_loadedVersion :: string
  jpst_workloadReadyReplicas :: int32
  jpst_conditions :: "Condition list"

record JellyfinPlugin =
  jp_name :: string
  jp_namespace :: string
  jp_labels :: labels
  jp_generation :: int
  jp_deleting :: bool
  jp_finalizers :: "string list"
  jp_spec :: JellyfinPluginSpec
  jp_status :: JellyfinPluginStatus

end
