(* ===== verification/Samples.thy ===== *)
theory Samples
  imports Api_Types
begin

text \<open>
  Concrete resources on which the properties are evaluated: the zero values of the
  custom-resource types (every field as an absent YAML key leaves it) and a few variations.
\<close>

definition no_pvc :: PVCSpec where
  "no_pvc = \<lparr>pvc_existingClaim = '''', pvc_size = 0, pvc_storageClassName = '''',
     pvc_accessModes = [], pvc_mountPath = ''''\<rparr>"

definition no_service :: ServiceSpec where
  "no_service = \<lparr>svc_type = '''', svc_port = 0, svc_annotations = []\<rparr>"

definition no_jf_spec :: JellyfinSpec where
  "no_jf_spec = \<lparr>js_image = '''', js_replicas = None,
     js_storage = \<lparr>st_config = no_pvc, st_cache = None, st_trickplay = None, st_media = []\<rparr>,
     js_service = no_service, js_ingress = None, js_web = None, js_gateway = None,
     js_resources = no_resources, js_hardwareAcceleration = None, js_podSecurity = None,
     js_api = None, js_transcoding = None, js_general = None, js_branding = None,
     js_playback = None, js_pluginSelector = None, js_podAnnotations = [], js_imagePullSecrets = []\<rparr>"

definition no_jf_status :: JellyfinStatus where
  "no_jf_status = \<lparr>jst_phase = '''', jst_observedGeneration = 0, jst_endpointService = '''',
     jst_endpointIngress = '''', jst_loadedPlugins = [], jst_apiCredentialsSecret = '''',
     jst_managedLibraries = [], jst_conditions = []\<rparr>"

definition sample_jf :: Jellyfin where
  "sample_jf = \<lparr>jf_name = ''jf'', jf_namespace = ''media'', jf_uid = ''u1'', jf_generation = 1,
     jf_deleting = False, jf_spec = no_jf_spec, jf_status = no_jf_status\<rparr>"

definition no_image :: ImageSource where
  "no_image = \<lparr>is_reference = '''', is_pullPolicy = '''', is_subPath = ''''\<rparr>"

definition no_meta :: PluginMeta where
  "no_meta = \<lparr>pm_guid = '''', pm_name = '''', pm_version = '''', pm_targetABI = '''', pm_subPath = ''''\<rparr>"

definition no_plugin_spec :: JellyfinPluginSpec where
  "no_plugin_spec = \<lparr>jps_jellyfinRef = None, jps_pluginImage = no_image, jps_meta = no_meta,
     jps_injection = '''', jps_install = None, jps_workloads = [], jps_services = []\<rparr>"

definition no_plugin_status :: JellyfinPluginStatus where
  "no_plugin_status = \<lparr>jpst_phase = '''', jpst_observedGeneration = 0, jpst_injected = False,
     jpst_installed = False, jpst_abiCompatible = False, jpst_loadedVersion = '''',
     jpst_workloadReadyReplicas = 0, jpst_conditions = []\<rparr>"

definition sample_plugin :: "string \<Rightarrow> JellyfinPlugin" where
  "sample_plugin n = \<lparr>jp_name = n, jp_namespace = ''media'', jp_labels = [], jp_generation = 1,
     jp_deleting = False, jp_finalizers = [], jp_spec = no_plugin_spec, jp_status = no_plugin_status\<rparr>"

definition no_install :: PluginInstall where
  "no_install = \<lparr>pi_image = None, pi_script = '''', pi_command = [], pi_args = [], pi_env = [],
     pi_volumeMounts = [], pi_resources = no_resources, pi_failurePolicy = '''',
     pi_timeoutSeconds = None, pi_runOnce = False\<rparr>"

definition no_nfs :: NFSSource where
  "no_nfs = \<lparr>nfs_server = '''', nfs_path = '''', nfs_readOnly = False, nfs_provision = False,
     nfs_storageClassName = '''', nfs_mountOptions = []\<rparr>"

definition sample_media :: "string \<Rightarrow> string \<Rightarrow> MediaFolder" where
  "sample_media n mp = \<lparr>mf_name = n, mf_mountPath = mp, mf_readOnly = False, mf_nfs = None,
     mf_pvc = Some no_pvc, mf_existingClaim = '''', mf_library = None\<rparr>"

definition sample_workload :: "string \<Rightarrow> PluginWorkload" where
  "sample_workload n = \<lparr>w_name = n, w_image = no_image, w_replicas = None, w_command = [], w_args = [],
     w_env = [], w_ports = [], w_resources = no_resources, w_volumeMounts = [], w_volumes = [],
     w_instanceMedia = None, w_terminationGracePeriodSeconds = None, w_nodeSelector = [],
     w_tolerations = [], w_priorityClassName = '''', w_runtimeClassName = '''', w_podSecurity = None,
     w_readinessProbe = None, w_livenessProbe = None, w_startupProbe = None\<rparr>"

lemmas sample_defs = no_pvc_def no_service_def no_jf_spec_def no_jf_status_def sample_jf_def no_image_def
  no_meta_def no_plugin_spec_def no_plugin_status_def sample_plugin_def no_install_def no_nfs_def
  sample_media_def sample_workload_def

end
