(* ===== verification/Podsecurity.thy ===== *)
theory Podsecurity
  imports Samples
begin

text \<open>
  \<open>src/internal/plugins/podsecurity.go\<close>: the hardened security context of containers and
  pods. Go passes a pointer to the container and a pointer to the pod that holds it; here
  the updated pair is returned and the caller stores the container back. 64-bit user and
  group ids are only copied, never computed with, so they are integers.
\<close>

definition DefaultRunAsUser :: int where "DefaultRunAsUser = 1000"
definition DefaultRunAsGroup :: int where "DefaultRunAsGroup = 1000"
definition DefaultFsGroup :: int where "DefaultFsGroup = 1000"

definition opted_out :: "PodSecuritySpec option \<Rightarrow> bool" where
  "opted_out ps = (case ps of None \<Rightarrow> False | Some s \<Rightarrow> pss_runAsNonRoot s = Some False)"

definition legacy_context :: "SecurityContext option \<Rightarrow> SecurityContext option" where
  "legacy_context sc = Some ((deref sc no_sc)\<lparr>sc_allowPrivilegeEscalation := Some False\<rparr>)"

definition hardened_context ::
  "bool \<Rightarrow> int \<Rightarrow> int \<Rightarrow> SecurityContext option \<Rightarrow> SecurityContext option" where
  "hardened_context nonRoot uid gid sc =
     Some ((deref sc no_sc)\<lparr>sc_runAsNonRoot := Some nonRoot, sc_runAsUser := Some uid,
       sc_runAsGroup := Some gid, sc_allowPrivilegeEscalation := Some False,
       sc_capabilitiesDrop := Some [''ALL'']\<rparr>)"

definition applyPodSecurity ::
  "Container \<Rightarrow> PodSpec \<Rightarrow> PodSecuritySpec option \<Rightarrow> Container \<times> PodSpec" where
  "applyPodSecurity c pod ps =
     (if opted_out ps
      then (c\<lparr>c_securityContext := legacy_context (c_securityContext c)\<rparr>, pod)
      else
        let (nonRoot, uid, gid, fsGroup, supplemental) =
              (case ps of
                 None \<Rightarrow> (True, DefaultRunAsUser, DefaultRunAsGroup, DefaultFsGroup, [])
               | Some s \<Rightarrow> (deref (pss_runAsNonRoot s) True, deref (pss_runAsUser s) DefaultRunAsUser,
                   deref (pss_runAsGroup s) DefaultRunAsGroup, deref (pss_fsGroup s) DefaultFsGroup,
                   pss_supplementalGroups s));
            psc = deref (ps_securityContext pod) no_psc
        in (c\<lparr>c_securityContext := hardened_context nonRoot uid gid (c_securityContext c)\<rparr>,
            pod\<lparr>ps_securityContext := Some (psc\<lparr>psc_runAsNonRoot := Some nonRoot,
              psc_runAsUser := Some uid, psc_runAsGroup := Some gid, psc_fsGroup := Some fsGroup,
              psc_supplementalGroups := psc_supplementalGroups psc @ supplemental\<rparr>)\<rparr>))"

definition applyContainerSecurity :: "Container \<Rightarrow> PodSecuritySpec option \<Rightarrow> Container" where
  "applyContainerSecurity c ps =
     (if opted_out ps
      then c\<lparr>c_securityContext := legacy_context (c_securityContext c)\<rparr>
      else
        let (nonRoot, uid, gid) =
              (case ps of
                 None \<Rightarrow> (True, DefaultRunAsUser, DefaultRunAsGroup)
               | Some s \<Rightarrow> (deref (pss_runAsNonRoot s) True, deref (pss_runAsUser s) DefaultRunAsUser,
                   deref (pss_runAsGroup s) DefaultRunAsGroup))
        in c\<lparr>c_securityContext := hardened_context nonRoot uid gid (c_securityContext c)\<rparr>)"

section \<open>The profile a container must have\<close>

text \<open>
  The restricted profile, stated on the finished container: no privilege escalation in any
  case, and unless the spec opts out, non-root with the requested identity and with every
  capability dropped.
\<close>

definition restricted :: "PodSecuritySpec option \<Rightarrow> Container \<Rightarrow> bool" where
  "restricted ps c \<longleftrightarrow>
     (case c_securityContext c of None \<Rightarrow> False
      | Some sc \<Rightarrow> sc_allowPrivilegeEscalation sc = Some False
          \<and> (\<not> opted_out ps \<longrightarrow>
               sc_runAsNonRoot sc = Some True \<and> sc_capabilitiesDrop sc = Some [''ALL'']
               \<and> sc_runAsUser sc = Some (deref (Option.bind ps pss_runAsUser) DefaultRunAsUser)
               \<and> sc_runAsGroup sc = Some (deref (Option.bind ps pss_runAsGroup) DefaultRunAsGroup)))"

lemma not_opted_out: "\<not> opted_out (Some s) \<Longrightarrow> deref (pss_runAsNonRoot s) True = True"
  by (cases "pss_runAsNonRoot s") (auto simp: opted_out_def)

text \<open>
  What a pass over containers must guarantee to be used on every container of a pod: it
  yields the restricted profile and touches nothing but the security context.
\<close>

locale security_pass =
  fixes harden :: "Container \<Rightarrow> PodSecuritySpec option \<Rightarrow> Container"
  assumes yields: "restricted ps (harden c ps)"
    and only_context: "harden c ps = c\<lparr>c_securityContext := c_securityContext (harden c ps)\<rparr>"
begin

lemma keeps:
  "c_name (harden c ps) = c_name c" "c_volumeMounts (harden c ps) = c_volumeMounts c"
  "c_env (harden c ps) = c_env c" "c_command (harden c ps) = c_command c"
  "c_image (harden c ps) = c_image c" "c_resources (harden c ps) = c_resources c"
  by (subst only_context, simp)+

lemma all_restricted: "\<forall>c \<in> set (map (\<lambda>c. harden c ps) cs). restricted ps c"
  using yields by simp

end

interpretation container_pass: security_pass applyContainerSecurity
  by unfold_locales
    (auto simp: restricted_def applyContainerSecurity_def legacy_context_def hardened_context_def
       Let_def not_opted_out split: option.splits)

interpretation pod_pass: security_pass "\<lambda>c ps. fst (applyPodSecurity c pod ps)"
  by unfold_locales
    (auto simp: restricted_def applyPodSecurity_def legacy_context_def hardened_context_def
       Let_def not_opted_out split: option.splits)

lemmas security_keeps [pod_simps] = container_pass.keeps pod_pass.keeps

lemma applyPodSecurity_pod:
  "snd (applyPodSecurity c pod ps) = pod\<lparr>ps_securityContext := ps_securityContext (snd (applyPodSecurity c pod ps))\<rparr>"
  by (simp add: applyPodSecurity_def Let_def split: option.split)

lemma applyPodSecurity_keeps [pod_simps]:
  "ps_volumes (snd (applyPodSecurity c pod ps)) = ps_volumes pod"
  "ps_containers (snd (applyPodSecurity c pod ps)) = ps_containers pod"
  "ps_initContainers (snd (applyPodSecurity c pod ps)) = ps_initContainers pod"
  by (subst applyPodSecurity_pod, simp)+

text \<open>
  The pod-level pass and the container-level pass give one container the same context, so
  main and init containers run with one identity; and the pod-level pass only extends the pod's
  security context: the seccomp profile and the supplemental groups already there are kept.
\<close>

theorem pod_and_container_pass_agree:
  "fst (applyPodSecurity c pod ps) = applyContainerSecurity c ps
   \<and> (\<forall>old new. ps_securityContext pod = Some old
        \<and> ps_securityContext (snd (applyPodSecurity c pod ps)) = Some new
        \<longrightarrow> psc_seccompProfile new = psc_seccompProfile old
          \<and> Sublist.prefix (psc_supplementalGroups old) (psc_supplementalGroups new))"
  by (auto simp: applyPodSecurity_def applyContainerSecurity_def Let_def split: option.split)

theorem pod_and_container_pass_agree_witness:
  "psc_seccompProfile (the (ps_securityContext (snd (applyPodSecurity no_container
       (no_pod\<lparr>ps_securityContext := Some seccomp_default\<rparr>) None)))) = Some ''RuntimeDefault''"
proof -
  let ?pod = "no_pod\<lparr>ps_securityContext := Some seccomp_default\<rparr>"
  obtain new where "ps_securityContext (snd (applyPodSecurity no_container ?pod None)) = Some new"
    by (simp add: applyPodSecurity_def opted_out_def)
  then show ?thesis
    using pod_and_container_pass_agree [of no_container ?pod None]
    by (simp add: seccomp_default_def)
qed

end
