(* ===== verification/Go_Strings.thy ===== *)
theory Go_Strings
  imports Prelude
begin

text \<open>
  The functions of Go's \<open>strings\<close>, \<open>strconv\<close>, \<open>path\<close> and \<open>regexp\<close> packages that the
  operator calls, on byte strings, each restricted to the arguments it is called with.
\<close>

section \<open>Searching and cutting\<close>

definition has_prefix :: "string \<Rightarrow> string \<Rightarrow> bool" where
  "has_prefix s p = (take (length p) s = p)"

definition trim_prefix :: "string \<Rightarrow> string \<Rightarrow> string" where
  "trim_prefix s p = (if has_prefix s p then drop (length p) s else s)"

text \<open>\<open>s[:i]\<close> for the first position \<open>i\<close> of a byte satisfying \<open>P\<close> (\<open>Index\<close>, \<open>IndexAny\<close>).\<close>

definition cut_at :: "(char \<Rightarrow> bool) \<Rightarrow> string \<Rightarrow> string" where
  "cut_at P s = takeWhile (\<lambda>c. \<not> P c) s"

text \<open>\<open>s[i+1:]\<close> for the last position \<open>i\<close> of byte \<open>c\<close> (\<open>LastIndex\<close>), if there is one.\<close>

definition after_last :: "char \<Rightarrow> string \<Rightarrow> string option" where
  "after_last c s = (if c \<in> set s then Some (rev (takeWhile (\<lambda>d. d \<noteq> c) (rev s))) else None)"

text \<open>\<open>strings.Split\<close> with a one-byte separator: always at least one piece.\<close>

fun split_char :: "char \<Rightarrow> string \<Rightarrow> string list" where
  "split_char c [] = [[]]"
| "split_char c (x # xs) =
     (if x = c then [] # split_char c xs
      else (x # hd (split_char c xs)) # tl (split_char c xs))"

fun join :: "string \<Rightarrow> string list \<Rightarrow> string" where
  "join sep [] = []"
| "join sep [x] = x"
| "join sep (x # y # ys) = x @ sep @ join sep (y # ys)"

text \<open>\<open>strings.ReplaceAll\<close> of a one-byte pattern.\<close>

definition replace_all :: "string \<Rightarrow> char \<Rightarrow> string \<Rightarrow> string" where
  "replace_all s c new = concat (map (\<lambda>d. if d = c then new else [d]) s)"

definition trim_right :: "string \<Rightarrow> char \<Rightarrow> string" where
  "trim_right s c = rev (dropWhile (\<lambda>d. d = c) (rev s))"

lemma split_char_nonempty [simp]: "split_char c s \<noteq> []"
  by (induction s) auto

text \<open>The recursive call is shared when the function is evaluated.\<close>

lemma split_char_code [code]:
  "split_char c [] = [[]]"
  "split_char c (x # xs) =
     (if x = c then [] # split_char c xs
      else case split_char c xs of p # ps \<Rightarrow> (x # p) # ps)"
  by (auto split: list.split)

lemma join_Cons_Cons: "join sep ((x # a) # xs) = x # join sep (a # xs)"
  by (cases xs) auto

lemma join_split_char: "join [c] (split_char c s) = s"
proof (induction s)
  case (Cons x s)
  then show ?case by (cases "split_char c s") (auto simp: join_Cons_Cons)
qed simp

lemma split_char_no_sep: "c \<notin> set s \<Longrightarrow> split_char c s = [s]"
  by (induction s) auto

lemma split_char_append_sep:
  "c \<notin> set s \<Longrightarrow> split_char c (s @ c # t) = s # split_char c t"
  by (induction s) auto

lemma split_char_join:
  assumes "xs \<noteq> []" and "\<forall>x \<in> set xs. c \<notin> set x"
  shows "split_char c (join [c] xs) = xs"
  using assms
proof (induction xs)
  case (Cons x xs)
  then show ?case by (cases xs) (auto simp: split_char_no_sep split_char_append_sep)
qed simp

lemma split_char_pieces: "p \<in> set (split_char c s) \<Longrightarrow> c \<notin> set p"
proof (induction s arbitrary: p)
  case (Cons x s)
  then show ?case by (cases "split_char c s") (auto split: if_splits)
qed simp

section \<open>Case and white space\<close>

text \<open>
  \<open>strings.ToLower\<close>. Two runes outside ASCII have an ASCII lower case: U+0130 (bytes
  C4 B0) becomes \<open>i\<close> and U+212A (bytes E2 84 AA) becomes \<open>k\<close>. Neither C4 nor E2 can be a
  continuation byte, so the byte patterns are found exactly where the UTF-8 decoder finds
  the runes. Every other rune outside ASCII lowers to one outside ASCII and is left as it
  is; the only caller then replaces all of them alike.
\<close>

definition lower_byte :: "char \<Rightarrow> char" where
  "lower_byte c = (if CHR ''A'' \<le> c \<and> c \<le> CHR ''Z'' then char_of (of_char c + 32 :: nat) else c)"

function to_lower :: "string \<Rightarrow> string" where
  "to_lower s =
     (if s = [] then []
      else if has_prefix s [CHR 0xC4, CHR 0xB0] then CHR ''i'' # to_lower (drop 2 s)
      else if has_prefix s [CHR 0xE2, CHR 0x84, CHR 0xAA] then CHR ''k'' # to_lower (drop 3 s)
      else lower_byte (hd s) # to_lower (tl s))"
  by pat_completeness auto
termination
  by (relation "measure length") auto

declare to_lower.simps [simp del]

text \<open>The UTF-8 encodings of the runes \<open>unicode.IsSpace\<close> accepts.\<close>

definition space_runes :: "string list" where
  "space_runes =
     map (\<lambda>c. [c]) [CHR 0x09, CHR 0x0A, CHR 0x0B, CHR 0x0C, CHR 0x0D, CHR 0x20]
     @ [[CHR 0xC2, CHR 0x85], [CHR 0xC2, CHR 0xA0], [CHR 0xE1, CHR 0x9A, CHR 0x80]]
     @ map (\<lambda>c. [CHR 0xE2, CHR 0x80, c])
         [CHR 0x80, CHR 0x81, CHR 0x82, CHR 0x83, CHR 0x84, CHR 0x85, CHR 0x86, CHR 0x87,
          CHR 0x88, CHR 0x89, CHR 0x8A, CHR 0xA8, CHR 0xA9, CHR 0xAF]
     @ [[CHR 0xE2, CHR 0x81, CHR 0x9F], [CHR 0xE3, CHR 0x80, CHR 0x80]]"

text \<open>Drop leading members of a list of patterns; \<open>fuel\<close> is the length of the text.\<close>

fun drop_pats :: "string list \<Rightarrow> nat \<Rightarrow> string \<Rightarrow> string" where
  "drop_pats ps 0 s = s"
| "drop_pats ps (Suc fuel) s =
     (case find (has_prefix s) ps of None \<Rightarrow> s | Some p \<Rightarrow> drop_pats ps fuel (drop (length p) s))"

definition trim_left_space :: "string \<Rightarrow> string" where
  "trim_left_space s = drop_pats space_runes (length s) s"

definition trim_right_space :: "string \<Rightarrow> string" where
  "trim_right_space s = rev (drop_pats (map rev space_runes) (length s) (rev s))"

definition trim_space :: "string \<Rightarrow> string" where
  "trim_space s = trim_right_space (trim_left_space s)"

lemma drop_pats_stops:
  assumes "\<forall>p \<in> set ps. p \<noteq> []" and "length s \<le> fuel"
  shows "find (has_prefix (drop_pats ps fuel s)) ps = None"
  using assms(2)
proof (induction fuel arbitrary: s)
  case 0
  with assms(1) show ?case by (auto simp: find_None_iff has_prefix_def)
next
  case (Suc fuel)
  show ?case
  proof (cases "find (has_prefix s) ps")
    case (Some p)
    then have "p \<in> set ps" and hp: "has_prefix s p" by (auto simp: find_Some_iff)
    with assms(1) have "0 < length p" by auto
    moreover from hp have "length p \<le> length s"
      by (metis has_prefix_def length_take min.cobounded1)
    ultimately have "length (drop (length p) s) \<le> fuel"
      using Suc.prems by (simp del: length_greater_0_conv)
    with Suc.IH Some show ?thesis by simp
  qed simp
qed

lemma drop_pats_fix: "find (has_prefix s) ps = None \<Longrightarrow> drop_pats ps fuel s = s"
  by (cases fuel) auto

text \<open>A text whose bytes all lie in \<open>0x21..0x7E\<close> has nothing to trim.\<close>

definition graphic :: "char \<Rightarrow> bool" where
  "graphic c \<longleftrightarrow> CHR 0x21 \<le> c \<and> c \<le> CHR 0x7E"

lemma space_runes_not_graphic:
  assumes "p \<in> set space_runes"
  shows "p \<noteq> []" and "\<not> graphic (hd p)" and "\<not> graphic (last p)"
  using assms by (auto simp: space_runes_def graphic_def)

lemma no_space_prefix:
  assumes "\<forall>c \<in> set s. graphic c" and "\<forall>p \<in> set ps. p \<noteq> [] \<and> \<not> graphic (hd p)"
  shows "find (has_prefix s) ps = None"
proof -
  have "\<not> has_prefix s p" if "p \<in> set ps" for p
  proof
    assume "has_prefix s p"
    with that assms(2) have "hd p \<in> set s"
      by (metis has_prefix_def hd_in_set in_set_takeD)
    with assms that show False by blast
  qed
  then show ?thesis by (auto simp: find_None_iff)
qed

lemma trim_space_graphic:
  assumes "\<forall>c \<in> set s. graphic c"
  shows "trim_space s = s"
proof -
  have "trim_left_space s = s"
    using assms space_runes_not_graphic
    by (auto simp: trim_left_space_def intro!: drop_pats_fix no_space_prefix)
  moreover have "find (has_prefix (rev s)) (map rev space_runes) = None"
    using assms space_runes_not_graphic by (intro no_space_prefix) (auto simp: hd_rev)
  then have "trim_right_space s = s"
    by (simp add: trim_right_space_def drop_pats_fix)
  ultimately show ?thesis by (simp add: trim_space_def)
qed

section \<open>Regular-expression replacement\<close>

text \<open>\<open>ReplaceAllString\<close> for the pattern \<open>X+\<close>: each maximal run becomes \<open>r\<close>.\<close>

function replace_runs :: "(char \<Rightarrow> bool) \<Rightarrow> string \<Rightarrow> string \<Rightarrow> string" where
  "replace_runs P r [] = []"
| "replace_runs P r (x # xs) =
     (if P x then r @ replace_runs P r (dropWhile P xs) else x # replace_runs P r xs)"
  by pat_completeness auto
termination
  by (relation "measure (\<lambda>(P, r, s). length s)") (auto simp: le_imp_less_Suc length_dropWhile_le)

text \<open>The same for the pattern \<open>X{2,}\<close>: a run of one is left alone.\<close>

function replace_runs2 :: "(char \<Rightarrow> bool) \<Rightarrow> string \<Rightarrow> string \<Rightarrow> string" where
  "replace_runs2 P r [] = []"
| "replace_runs2 P r (x # xs) =
     (if P x then (if takeWhile P xs = [] then [x] else r) @ replace_runs2 P r (dropWhile P xs)
      else x # replace_runs2 P r xs)"
  by pat_completeness auto
termination
  by (relation "measure (\<lambda>(P, r, s). length s)") (auto simp: le_imp_less_Suc length_dropWhile_le)

text \<open>Removing \<open>(^X+)|(X+$)\<close>.\<close>

definition trim_both :: "(char \<Rightarrow> bool) \<Rightarrow> string \<Rightarrow> string" where
  "trim_both P s = rev (dropWhile P (rev (dropWhile P s)))"

lemma trim_both_subset: "set (trim_both P s) \<subseteq> set s"
  by (auto simp: trim_both_def dest!: set_dropWhileD)

lemma length_trim_both: "length (trim_both P s) \<le> length s"
  unfolding trim_both_def by (metis length_dropWhile_le length_rev order_trans)

lemma trim_both_last: "trim_both P s \<noteq> [] \<Longrightarrow> \<not> P (last (trim_both P s))"
  unfolding trim_both_def by (metis hd_dropWhile last_rev rev.simps(1) rev_rev_ident)

lemma trim_both_hd:
  assumes "trim_both P s \<noteq> []"
  shows "\<not> P (hd (trim_both P s))"
proof -
  let ?d = "dropWhile P s"
  have "\<exists>us. ?d = trim_both P s @ us"
    unfolding trim_both_def
    by (metis rev_append rev_rev_ident takeWhile_dropWhile_id)
  with assms obtain us where "?d = trim_both P s @ us" and "trim_both P s \<noteq> []" by blast
  then have "hd ?d = hd (trim_both P s)" and "?d \<noteq> []" by (metis hd_append2, metis append_is_Nil_conv)
  then show ?thesis by (metis hd_dropWhile)
qed

lemma trim_both_id:
  "s = [] \<or> \<not> P (hd s) \<and> \<not> P (last s) \<Longrightarrow> trim_both P s = s"
  unfolding trim_both_def
  by (metis dropWhile_eq_self_iff hd_rev rev_is_Nil_conv rev_rev_ident)

lemma replace_runs_set: "set (replace_runs P r s) \<subseteq> {c \<in> set s. \<not> P c} \<union> set r"
proof (induction P r s rule: replace_runs.induct)
  case (2 P r x xs)
  then show ?case by (auto dest: set_dropWhileD)
qed simp

lemma replace_runs_none: "\<forall>c \<in> set s. \<not> P c \<Longrightarrow> replace_runs P r s = s"
  by (induction s) auto

lemma replace_runs2_set: "set (replace_runs2 P r s) \<subseteq> set s \<union> set r"
proof (induction P r s rule: replace_runs2.induct)
  case (2 P r x xs)
  then show ?case by (auto dest: set_dropWhileD split: if_splits)
qed simp

section \<open>Decimal numbers\<close>

definition is_digit :: "char \<Rightarrow> bool" where
  "is_digit c \<longleftrightarrow> CHR ''0'' \<le> c \<and> c \<le> CHR ''9''"

definition digit_val :: "char \<Rightarrow> nat" where
  "digit_val c = of_char c - 48"

definition digit_char :: "nat \<Rightarrow> char" where
  "digit_char d = char_of (48 + d)"

fun nat_text :: "nat \<Rightarrow> string" where
  "nat_text n = (if n < 10 then [digit_char n] else nat_text (n div 10) @ [digit_char (n mod 10)])"

declare nat_text.simps [simp del]

text \<open>The \<open>%d\<close> verb.\<close>

definition itoa :: "int \<Rightarrow> string" where
  "itoa n = (if n < 0 then CHR ''-'' # nat_text (nat (- n)) else nat_text (nat n))"

definition digits_val :: "string \<Rightarrow> nat" where
  "digits_val s = foldl (\<lambda>a c. 10 * a + digit_val c) 0 s"

text \<open>
  \<open>strconv.Atoi\<close> where \<open>int\<close> has 64 bits: an optional sign, then at least one decimal
  digit; a value outside the range is an error.
\<close>

definition atoi :: "string \<Rightarrow> int option" where
  "atoi s =
     (let neg = (s \<noteq> [] \<and> hd s = CHR ''-'');
          ds = (if s \<noteq> [] \<and> (hd s = CHR ''-'' \<or> hd s = CHR ''+'') then tl s else s);
          v = (if neg then - int (digits_val ds) else int (digits_val ds))
      in if ds \<noteq> [] \<and> list_all is_digit ds \<and> - (2 ^ 63) \<le> v \<and> v < 2 ^ 63 then Some v else None)"

lemma digit_char_props:
  assumes "d < 10"
  shows "is_digit (digit_char d)" and "digit_val (digit_char d) = d"
proof -
  have "d \<in> {0, 1, 2, 3, 4, 5, 6, 7, 8, 9}" using assms by auto
  then show "is_digit (digit_char d)" and "digit_val (digit_char d) = d"
    by (auto simp: is_digit_def digit_char_def digit_val_def less_eq_char_def)
qed

lemma digits_val_snoc: "digits_val (s @ [c]) = 10 * digits_val s + digit_val c"
  by (simp add: digits_val_def)

lemma nat_text_props:
  "nat_text n \<noteq> [] \<and> list_all is_digit (nat_text n) \<and> digits_val (nat_text n) = n"
proof (induction n rule: nat_text.induct)
  case (1 n)
  show ?case
  proof (cases "n < 10")
    case True
    then show ?thesis
      by (subst (1 2 3) nat_text.simps) (simp add: digit_char_props digits_val_def)
  next
    case False
    with 1 show ?thesis
      by (subst (1 2 3) nat_text.simps) (auto simp: digit_char_props digits_val_snoc)
  qed
qed

lemma is_digit_graphic: "is_digit c \<Longrightarrow> graphic c"
  by (auto simp: is_digit_def graphic_def less_eq_char_def)

lemma is_digit_neq: "is_digit c \<Longrightarrow> c \<noteq> CHR ''-'' \<and> c \<noteq> CHR ''+'' \<and> c \<noteq> CHR ''.''"
  by (auto simp: is_digit_def less_eq_char_def)

lemma atoi_itoa:
  assumes "- (2 ^ 63) \<le> n" and "n < 2 ^ 63"
  shows "atoi (itoa n) = Some n"
proof (cases "n < 0")
  case True
  with assms nat_text_props [of "nat (- n)"] show ?thesis
    by (simp add: atoi_def itoa_def)
next
  case False
  have "hd (nat_text (nat n)) \<noteq> CHR ''-'' \<and> hd (nat_text (nat n)) \<noteq> CHR ''+''"
    using nat_text_props [of "nat n"] is_digit_neq
    by (cases "nat_text (nat n)") auto
  with False assms nat_text_props [of "nat n"] show ?thesis
    by (simp add: atoi_def itoa_def)
qed

lemma itoa_nat_chars: "0 \<le> n \<Longrightarrow> list_all is_digit (itoa n)"
  using nat_text_props by (simp add: itoa_def)

end
