(* ===== verification/Naming.thy ===== *)
theory Naming
  imports Samples Go_Sha256
begin

text \<open>
  \<open>src/internal/plugins/naming.go\<close>: the well-known names and paths, and the generation of
  Kubernetes object names. The interface that the builders rely on is the locale
  \<open>namer\<close> at the end: a scheme that turns resource names into DNS-1123 labels and keeps
  plain names apart.
\<close>

section \<open>Constants\<close>

definition AppName :: string where "AppName = ''jellyfin''"
definition WebAppName :: string where "WebAppName = ''jellyfin-web''"
definition ManagedByValue :: string where "ManagedByValue = ''jellyops''"
definition NameLabel :: string where "NameLabel = ''app.kubernetes.io/name''"
definition InstanceLabel :: string where "InstanceLabel = ''app.kubernetes.io/instance''"
definition ManagedByLabel :: string where "ManagedByLabel = ''app.kubernetes.io/managed-by''"
definition ComponentLabel :: string where "ComponentLabel = ''app.kubernetes.io/component''"
definition PluginLabel :: string where "PluginLabel = ''jellyfin.jellyops.io/plugin''"

definition JellyfinContainerName :: string where "JellyfinContainerName = ''jellyfin''"
definition WebComponentName :: string where "WebComponentName = ''web''"
definition PortNameHTTP :: string where "PortNameHTTP = ''http''"
definition ConfigVolumeName :: string where "ConfigVolumeName = ''config''"
definition CacheVolumeName :: string where "CacheVolumeName = ''cache''"
definition TrickplayVolumeName :: string where "TrickplayVolumeName = ''trickplay''"
definition ConfigMountPath :: string where "ConfigMountPath = ''/config''"
definition CacheMountPath :: string where "CacheMountPath = ''/cache''"
definition TrickplayMountPath :: string where "TrickplayMountPath = ''/config/data/trickplay''"
definition PluginsDirPath :: string where "PluginsDirPath = ''/config/plugins''"
definition InstalledMarkerDir :: string where "InstalledMarkerDir = ''/config/.jellyops/installed''"
definition FirstRunMarkerDir :: string where "FirstRunMarkerDir = ''/config/.jellyops/firstrun''"
definition StagingSrcBase :: string where "StagingSrcBase = ''/plugins-src''"
definition DefaultJellyfinPort :: int32 where "DefaultJellyfinPort = 8096"
definition DefaultJellyfinImage :: string where "DefaultJellyfinImage = ''jellyfin/jellyfin:latest''"
definition WebContentVolumeName :: string where "WebContentVolumeName = ''jellyfin-web-content''"
definition WebContentMountPath :: string where "WebContentMountPath = ''/jellyfin-web''"
definition DefaultJellyfinCommand :: string where "DefaultJellyfinCommand = ''/jellyfin/jellyfin''"
definition maxNameLen :: nat where "maxNameLen = 63"

lemmas label_key_defs = NameLabel_def InstanceLabel_def ManagedByLabel_def ComponentLabel_def PluginLabel_def

section \<open>Name generation\<close>

definition alnum :: "char \<Rightarrow> bool" where
  "alnum c \<longleftrightarrow> CHR ''a'' \<le> c \<and> c \<le> CHR ''z'' \<or> is_digit c"

definition dash :: "char \<Rightarrow> bool" where
  "dash c \<longleftrightarrow> c = CHR ''-''"

definition shortHash :: "string \<Rightarrow> string" where
  "shortHash s = take 8 (sha256_hex s)"

definition truncateName :: "string \<Rightarrow> string" where
  "truncateName s =
     (if length s \<le> maxNameLen then s
      else let h = shortHash s; keep = maxNameLen - length h - 1
           in trim_both dash (take keep s) @ ''-'' @ h)"

definition SanitizeDNS1123 :: "string \<Rightarrow> string" where
  "SanitizeDNS1123 s =
     (let lower = to_lower s;
          lower = replace_runs (\<lambda>c. \<not> alnum c) ''-'' lower;
          lower = replace_runs2 dash ''-'' lower;
          lower = trim_both dash lower
      in if lower = '''' then ''x'' @ shortHash s else truncateName lower)"

definition prefixed :: "string \<Rightarrow> string \<Rightarrow> string" where
  "prefixed pre name = truncateName (pre @ ''-'' @ SanitizeDNS1123 name)"

definition InstanceLabels :: "Jellyfin \<Rightarrow> labels" where
  "InstanceLabels jf = [(NameLabel, AppName), (InstanceLabel, jf_name jf), (ManagedByLabel, ManagedByValue)]"

definition InstanceSelectorLabels :: "Jellyfin \<Rightarrow> labels" where
  "InstanceSelectorLabels jf = [(NameLabel, AppName), (InstanceLabel, jf_name jf)]"

definition imageVolumeName :: "JellyfinPlugin \<Rightarrow> string" where
  "imageVolumeName p = prefixed ''plugin'' (jp_name p)"

definition stagingContainerName :: "JellyfinPlugin \<Rightarrow> string" where
  "stagingContainerName p = prefixed ''stage'' (jp_name p)"

definition installContainerName :: "JellyfinPlugin \<Rightarrow> string" where
  "installContainerName p = prefixed ''install'' (jp_name p)"

definition hookContainerName :: "JellyfinPlugin \<Rightarrow> string" where
  "hookContainerName p = prefixed ''hook'' (jp_name p)"

definition mediaVolumeName :: "MediaFolder \<Rightarrow> string" where
  "mediaVolumeName mf = prefixed ''media'' (mf_name mf)"

definition ConfigClaimName :: "Jellyfin \<Rightarrow> string" where
  "ConfigClaimName jf =
     (let c = pvc_existingClaim (st_config (js_storage (jf_spec jf)))
      in if c \<noteq> '''' then c else truncateName (jf_name jf @ ''-config''))"

definition CacheClaimName :: "Jellyfin \<Rightarrow> string" where
  "CacheClaimName jf =
     (case st_cache (js_storage (jf_spec jf)) of
        Some c \<Rightarrow> if pvc_existingClaim c \<noteq> '''' then pvc_existingClaim c
                  else truncateName (jf_name jf @ ''-cache'')
      | None \<Rightarrow> truncateName (jf_name jf @ ''-cache''))"

definition TrickplayClaimName :: "Jellyfin \<Rightarrow> string" where
  "TrickplayClaimName jf =
     (case st_trickplay (js_storage (jf_spec jf)) of
        Some c \<Rightarrow> if pvc_existingClaim c \<noteq> '''' then pvc_existingClaim c
                  else truncateName (jf_name jf @ ''-trickplay'')
      | None \<Rightarrow> truncateName (jf_name jf @ ''-trickplay''))"

definition MediaClaimName :: "Jellyfin \<Rightarrow> MediaFolder \<Rightarrow> string" where
  "MediaClaimName jf mf =
     (if mf_existingClaim mf \<noteq> '''' then mf_existingClaim mf
      else case mf_pvc mf of
             Some c \<Rightarrow> if pvc_existingClaim c \<noteq> '''' then pvc_existingClaim c
                       else prefixed (jf_name jf @ ''-media'') (mf_name mf)
           | None \<Rightarrow> prefixed (jf_name jf @ ''-media'') (mf_name mf))"

section \<open>DNS-1123 labels\<close>

definition label_char :: "char \<Rightarrow> bool" where
  "label_char c \<longleftrightarrow> alnum c \<or> dash c"

definition dns_label :: "string \<Rightarrow> bool" where
  "dns_label s \<longleftrightarrow> s \<noteq> '''' \<and> length s \<le> 63 \<and> list_all label_char s \<and> alnum (hd s) \<and> alnum (last s)"

text \<open>A label in which no two dashes are adjacent: what sanitising leaves unchanged.\<close>

definition no_dd :: "string \<Rightarrow> bool" where
  "no_dd = successively (\<lambda>a b. \<not> (dash a \<and> dash b))"

definition plain_label :: "string \<Rightarrow> bool" where
  "plain_label s \<longleftrightarrow> dns_label s \<and> no_dd s"

lemma alnum_not_dash [simp]: "alnum c \<Longrightarrow> \<not> dash c"
  by (auto simp: alnum_def dash_def is_digit_def less_eq_char_def)

lemma hex_alnum: "is_hex c \<Longrightarrow> alnum c"
  by (auto simp: is_hex_def alnum_def less_eq_char_def)

lemma label_char_not_dash: "label_char c \<Longrightarrow> \<not> dash c \<longleftrightarrow> alnum c"
  by (auto simp: label_char_def)

lemma shortHash_props [names_simps]:
  "length (shortHash s) = 8" "list_all alnum (shortHash s)" "shortHash s \<noteq> []"
proof -
  show l: "length (shortHash s) = 8" by (simp add: shortHash_def sha256_hex_props)
  show "list_all alnum (shortHash s)"
    using sha256_hex_props(2) [of s] hex_alnum
    by (auto simp: shortHash_def list_all_iff dest!: in_set_takeD)
  from l show "shortHash s \<noteq> []" by auto
qed

lemma alnum_list_no_dd: "list_all alnum s \<Longrightarrow> no_dd s"
  unfolding no_dd_def by (induction s rule: induct_list012) auto

lemma no_dd_append:
  "no_dd (s @ t) \<longleftrightarrow> no_dd s \<and> no_dd t \<and> (s \<noteq> [] \<longrightarrow> t \<noteq> [] \<longrightarrow> \<not> (dash (last s) \<and> dash (hd t)))"
  by (auto simp: no_dd_def successively_append_iff)

lemma no_dd_take: "no_dd s \<Longrightarrow> no_dd (take n s)"
  using no_dd_append [of "take n s" "drop n s"] by simp

lemma no_dd_trim: "no_dd s \<Longrightarrow> no_dd (trim_both P s)"
proof -
  assume "no_dd s"
  moreover have "\<exists>us vs. s = us @ trim_both P s @ vs"
    unfolding trim_both_def
    by (metis rev_append rev_rev_ident takeWhile_dropWhile_id)
  ultimately show ?thesis by (metis no_dd_append)
qed

section \<open>Truncation\<close>

text \<open>
  What \<^const>\<open>truncateName\<close> guarantees of any text over label characters that starts with
  an alphanumeric one and, if it is short, ends with one.
\<close>

lemma truncateName_short [names_simps]: "length s \<le> 63 \<Longrightarrow> truncateName s = s"
  by (simp add: truncateName_def maxNameLen_def)

lemma truncateName_long:
  assumes "63 < length s"
  shows "truncateName s = trim_both dash (take 54 s) @ ''-'' @ shortHash s"
  using assms by (simp add: truncateName_def maxNameLen_def names_simps Let_def)

lemma trim_keeps_head:
  assumes "s \<noteq> []" and "\<not> P (hd s)"
  shows "trim_both P s \<noteq> []" and "hd (trim_both P s) = hd s"
proof -
  have d: "dropWhile P s = s" using assms by (cases s) auto
  have "\<exists>us. s = trim_both P s @ us"
    unfolding trim_both_def d by (metis rev_append rev_rev_ident takeWhile_dropWhile_id)
  then obtain us where us: "s = trim_both P s @ us" by blast
  show ne: "trim_both P s \<noteq> []"
  proof
    assume "trim_both P s = []"
    then have "\<forall>c \<in> set (rev s). P c" unfolding trim_both_def d by simp
    with assms show False by (simp add: hd_in_set)
  qed
  show "hd (trim_both P s) = hd s" using us ne by (metis hd_append2)
qed

lemma truncateName_label:
  assumes "list_all label_char s" and "s \<noteq> []" and "alnum (hd s)" and "alnum (last s)"
  shows "dns_label (truncateName s)"
proof (cases "length s \<le> 63")
  case True
  with assms show ?thesis by (simp add: dns_label_def names_simps)
next
  case False
  let ?t = "trim_both dash (take 54 s)"
  have h: "take 54 s \<noteq> []" "hd (take 54 s) = hd s" using assms(2) by auto
  have t: "?t \<noteq> []" "hd ?t = hd s"
    using trim_keeps_head [of "take 54 s" dash] h assms(3) by auto
  have "length ?t \<le> 54" using length_trim_both [of dash "take 54 s"] by simp
  moreover have "list_all label_char ?t"
    using assms(1) trim_both_subset [of dash "take 54 s"] set_take_subset [of 54 s]
    by (auto simp: list_all_iff)
  moreover have "alnum (last (shortHash s))" "list_all label_char (shortHash s)"
    using shortHash_props [of s] by (auto simp: list_all_iff label_char_def)
  ultimately show ?thesis
    using t assms(3) False shortHash_props [of s]
    by (simp add: dns_label_def truncateName_long label_char_def dash_def)
qed

lemma truncateName_no_dd:
  assumes "no_dd s"
  shows "no_dd (truncateName s)"
proof (cases "length s \<le> 63")
  case False
  let ?t = "trim_both dash (take 54 s)"
  have h: "no_dd (shortHash s)" "shortHash s \<noteq> []" "\<not> dash (hd (shortHash s))"
    using shortHash_props [of s] alnum_list_no_dd by (auto simp: list_all_iff hd_in_set)
  then have "no_dd (''-'' @ shortHash s)" by (subst no_dd_append) (simp add: no_dd_def)
  moreover have "no_dd ?t" by (intro no_dd_trim no_dd_take assms)
  moreover have "?t \<noteq> [] \<Longrightarrow> \<not> dash (last ?t)" by (rule trim_both_last)
  ultimately have "no_dd (?t @ ''-'' @ shortHash s)" by (subst no_dd_append) auto
  with False show ?thesis by (simp add: truncateName_long)
qed (simp add: assms names_simps)

section \<open>Sanitising\<close>

lemma replace_runs_no_dd:
  assumes "\<And>c. P c \<longleftrightarrow> \<not> alnum c"
  shows "no_dd (replace_runs P ''-'' s) \<and> (s \<noteq> [] \<and> \<not> P (hd s) \<longrightarrow> replace_runs P ''-'' s \<noteq> [] \<and> hd (replace_runs P ''-'' s) = hd s)"
proof (induction s rule: length_induct)
  case (1 s)
  show ?case
  proof (cases s)
    case Nil
    then show ?thesis by (simp add: no_dd_def)
  next
    case (Cons x xs)
    let ?d = "dropWhile P xs"
    have IH: "no_dd (replace_runs P ''-'' ys)"
      "ys \<noteq> [] \<Longrightarrow> \<not> P (hd ys) \<Longrightarrow> replace_runs P ''-'' ys \<noteq> [] \<and> hd (replace_runs P ''-'' ys) = hd ys"
      if "length ys \<le> length xs" for ys
      using 1 Cons that by (metis le_imp_less_Suc length_Cons)+
    show ?thesis
    proof (cases "P x")
      case True
      have "no_dd (''-'' @ replace_runs P ''-'' ?d)"
      proof (cases "?d = []")
        case False
        then have "\<not> P (hd ?d)" by (rule hd_dropWhile)
        with IH(2) [OF length_dropWhile_le False] assms
        have "\<not> dash (hd (replace_runs P ''-'' ?d))" by auto
        with IH(1) [OF length_dropWhile_le] show ?thesis
          by (subst no_dd_append) (simp add: no_dd_def)
      qed (simp only: replace_runs.simps, simp add: no_dd_def)
      with True Cons show ?thesis by simp
    next
      case False
      then have "\<not> dash x" using assms by auto
      with IH(1) [of xs] False Cons show ?thesis
        by (subst (1) Cons) (auto simp: no_dd_def successively_Cons)
    qed
  qed
qed

lemma replace_runs2_id: "no_dd s \<Longrightarrow> replace_runs2 dash ''-'' s = s"
proof (induction s)
  case (Cons x s)
  then have s: "replace_runs2 dash ''-'' s = s"
    using no_dd_append [of "[x]" s] by simp
  show ?case
  proof (cases "dash x")
    case True
    with Cons.prems have "takeWhile dash s = []" "dropWhile dash s = s"
      by (cases s; auto simp: no_dd_def)+
    with True s show ?thesis by simp
  qed (simp add: s)
qed simp

text \<open>The text before the emptiness test: label characters, no two adjacent dashes.\<close>

definition dashed :: "string \<Rightarrow> string" where
  "dashed s = trim_both dash (replace_runs (\<lambda>c. \<not> alnum c) ''-'' (to_lower s))"

lemma SanitizeDNS1123_dashed:
  "SanitizeDNS1123 s = (if dashed s = [] then ''x'' @ shortHash s else truncateName (dashed s))"
  using replace_runs_no_dd [of "\<lambda>c. \<not> alnum c" "to_lower s"]
  by (simp add: SanitizeDNS1123_def dashed_def Let_def replace_runs2_id)

lemma dashed_props:
  "list_all label_char (dashed s)" "no_dd (dashed s)"
  "dashed s \<noteq> [] \<Longrightarrow> alnum (hd (dashed s)) \<and> alnum (last (dashed s))"
proof -
  let ?r = "replace_runs (\<lambda>c. \<not> alnum c) ''-'' (to_lower s)"
  have "list_all label_char ?r"
    using replace_runs_set [of "\<lambda>c. \<not> alnum c" "''-''" "to_lower s"]
    by (auto simp: list_all_iff label_char_def dash_def)
  then show lc: "list_all label_char (dashed s)"
    using trim_both_subset [of dash ?r] by (auto simp: dashed_def list_all_iff)
  show "no_dd (dashed s)"
    unfolding dashed_def using replace_runs_no_dd [of "\<lambda>c. \<not> alnum c"] by (simp add: no_dd_trim)
  assume "dashed s \<noteq> []"
  then have "\<not> dash (hd (dashed s))" "\<not> dash (last (dashed s))"
    unfolding dashed_def by (auto dest: trim_both_hd trim_both_last)
  with lc \<open>dashed s \<noteq> []\<close> show "alnum (hd (dashed s)) \<and> alnum (last (dashed s))"
    by (metis hd_in_set label_char_not_dash last_in_set list_all_iff)
qed

lemma SanitizeDNS1123_plain: "plain_label (SanitizeDNS1123 s)"
proof (cases "dashed s = []")
  case True
  have "list_all alnum (''x'' @ shortHash s)"
    using shortHash_props(2) [of s] by (simp add: alnum_def)
  moreover from this have "alnum (last (''x'' @ shortHash s))"
    by (metis append_is_Nil_conv last_in_set list_all_iff not_Cons_self2)
  ultimately show ?thesis
    using True shortHash_props [of s] alnum_list_no_dd [of "''x'' @ shortHash s"]
    by (auto simp: SanitizeDNS1123_dashed plain_label_def dns_label_def list_all_iff label_char_def alnum_def)
next
  case False
  with dashed_props show ?thesis
    by (simp add: SanitizeDNS1123_dashed plain_label_def truncateName_label truncateName_no_dd)
qed

lemma lower_byte_label: "label_char c \<Longrightarrow> lower_byte c = c"
  by (auto simp: lower_byte_def label_char_def alnum_def dash_def is_digit_def less_eq_char_def)

lemma label_char_ascii: "label_char c \<Longrightarrow> c \<noteq> CHR 0xC4 \<and> c \<noteq> CHR 0xE2"
  by (auto simp: label_char_def alnum_def dash_def is_digit_def less_eq_char_def)

lemma to_lower_label: "list_all label_char s \<Longrightarrow> to_lower s = s"
proof (induction s)
  case Nil
  show ?case by (simp add: to_lower.simps)
next
  case (Cons c s)
  then show ?case
    using label_char_ascii [of c]
    by (subst to_lower.simps) (auto simp: has_prefix_def lower_byte_label)
qed

lemma replace_runs_plain:
  "list_all label_char s \<Longrightarrow> no_dd s \<Longrightarrow> replace_runs (\<lambda>c. \<not> alnum c) ''-'' s = s"
proof (induction s)
  case (Cons x s)
  then have s: "replace_runs (\<lambda>c. \<not> alnum c) ''-'' s = s"
    using no_dd_append [of "[x]" s] by simp
  show ?case
  proof (cases "alnum x")
    case False
    with Cons.prems have x: "dash x" by (auto simp: label_char_def)
    with Cons.prems have "s = [] \<or> alnum (hd s)"
      by (cases s) (auto simp: no_dd_def label_char_def)
    then have "dropWhile (\<lambda>c. \<not> alnum c) s = s" by (cases s) auto
    with x s False show ?thesis by (simp add: dash_def)
  qed (simp add: s)
qed simp

lemma SanitizeDNS1123_id:
  assumes "plain_label s"
  shows "SanitizeDNS1123 s = s"
proof -
  have "dashed s = s"
    using assms by (auto simp: dashed_def plain_label_def dns_label_def to_lower_label
        replace_runs_plain intro!: trim_both_id)
  with assms show ?thesis
    by (auto simp: SanitizeDNS1123_dashed plain_label_def dns_label_def names_simps)
qed

section \<open>Prefixed names\<close>

lemma prefixed_label:
  assumes "list_all label_char pre" and "pre \<noteq> []" and "alnum (hd pre)"
  shows "dns_label (prefixed pre s)"
proof -
  have "dns_label (SanitizeDNS1123 s)" using SanitizeDNS1123_plain by (simp add: plain_label_def)
  with assms show ?thesis
    unfolding prefixed_def
    by (intro truncateName_label) (auto simp: dns_label_def label_char_def dash_def)
qed

lemma prefixed_short:
  assumes "plain_label s" and "length pre + length s \<le> 62"
  shows "prefixed pre s = pre @ ''-'' @ s"
  using assms by (simp add: prefixed_def SanitizeDNS1123_id names_simps)

lemma trim_both_append:
  assumes "xs \<noteq> []" and "\<not> P (hd xs)" and "\<not> P (last xs)"
  shows "trim_both P (xs @ ys) = xs @ rev (dropWhile P (rev ys))"
proof -
  have "dropWhile P (xs @ ys) = xs @ ys" using assms by (cases xs) auto
  moreover have "dropWhile P (rev xs) = rev xs"
    using assms by (simp add: dropWhile_eq_self_iff hd_rev)
  then have "dropWhile P (rev ys @ rev xs) = dropWhile P (rev ys) @ rev xs"
  proof (cases "\<forall>y \<in> set ys. P y")
    case True
    then have d: "dropWhile P (rev ys) = []" by simp
    have "dropWhile P (rev ys @ rev xs) = dropWhile P (rev xs)"
      using True by (intro dropWhile_append2) simp
    with \<open>dropWhile P (rev xs) = rev xs\<close> show ?thesis by (simp only: d append_Nil)
  qed (auto simp: dropWhile_append1)
  ultimately show ?thesis by (simp add: trim_both_def)
qed

lemma rtrim_prefix: "\<exists>us. ys = rev (dropWhile P (rev ys)) @ us"
  by (metis rev_append rev_rev_ident takeWhile_dropWhile_id)

lemma prefixed_head:
  assumes "list_all alnum pre" and "pre \<noteq> []" and "length pre < 54"
  shows "\<exists>t. prefixed pre s = pre @ CHR ''-'' # t"
proof (cases "length (pre @ ''-'' @ SanitizeDNS1123 s) \<le> 63")
  case True
  then show ?thesis by (simp add: prefixed_def names_simps)
next
  case False
  let ?n = "pre @ ''-'' @ SanitizeDNS1123 s"
  let ?r = "CHR ''-'' # take (53 - length pre) (SanitizeDNS1123 s)"
  define d where "d = rev (dropWhile dash (rev ?r))"
  have "prefixed pre s = trim_both dash (take 54 ?n) @ ''-'' @ shortHash ?n"
    using False by (simp only: prefixed_def truncateName_long not_le)
  moreover have "take 54 ?n = pre @ ?r"
    using assms(3) by (simp add: take_Cons')
  moreover have "alnum (hd pre)" "alnum (last pre)"
    using assms by (auto simp: list_all_iff)
  then have "trim_both dash (pre @ ?r) = pre @ d"
    using assms(2) unfolding d_def by (intro trim_both_append) auto
  moreover have "d = [] \<or> hd d = CHR ''-''"
    using rtrim_prefix [of ?r dash] unfolding d_def by (metis hd_append2 list.sel(1))
  then have "d = [] \<or> (\<exists>t. d = CHR ''-'' # t)" by (metis list.collapse)
  ultimately show ?thesis by auto
qed

section \<open>The naming interface\<close>

text \<open>
  What the builders need of a naming scheme: every name is a DNS-1123 label headed by the
  scheme's prefix, and a plain name that leaves room for the prefix is kept verbatim.
\<close>

locale namer =
  fixes name_of :: "string \<Rightarrow> string" and pre :: string
  assumes pre_alnum: "list_all alnum pre"
    and label: "dns_label (name_of s)"
    and headed: "\<exists>t. name_of s = pre @ CHR ''-'' # t"
    and verbatim: "plain_label s \<Longrightarrow> length pre + length s \<le> 62 \<Longrightarrow> name_of s = pre @ ''-'' @ s"
begin

definition fits :: "string \<Rightarrow> bool" where
  "fits s \<longleftrightarrow> plain_label s \<and> length pre + length s \<le> 62"

lemma name_inj: "fits s \<Longrightarrow> fits t \<Longrightarrow> name_of s = name_of t \<longleftrightarrow> s = t"
  by (auto simp: fits_def verbatim)

lemma distinct_names:
  assumes "distinct xs" and "\<forall>x \<in> set xs. fits x"
  shows "distinct (map name_of xs)"
  using assms by (auto simp: distinct_map inj_on_def name_inj)

lemma head_is_pre: "takeWhile (\<lambda>c. \<not> dash c) (name_of s) = pre"
proof -
  obtain t where "name_of s = pre @ CHR ''-'' # t" using headed by blast
  moreover have "\<forall>c \<in> set pre. \<not> dash c" using pre_alnum by (auto simp: list_all_iff)
  ultimately show ?thesis by (simp add: takeWhile_append dash_def)
qed

lemma dash_in_name: "\<exists>c \<in> set (name_of s). dash c"
  using headed [of s] by (auto simp: dash_def)

end

lemma prefixed_namer:
  assumes "list_all alnum pre" and "pre \<noteq> []" and "length pre < 54"
  shows "namer (prefixed pre) pre"
proof
  show "dns_label (prefixed pre s)" for s
    using assms by (intro prefixed_label) (auto simp: list_all_iff label_char_def)
qed (use assms prefixed_head prefixed_short in auto)

interpretation plugin_vol: namer "prefixed ''plugin''" "''plugin''"
  by (rule prefixed_namer) (simp_all add: alnum_def)

interpretation media_vol: namer "prefixed ''media''" "''media''"
  by (rule prefixed_namer) (simp_all add: alnum_def)

interpretation stage_ctr: namer "prefixed ''stage''" "''stage''"
  by (rule prefixed_namer) (simp_all add: alnum_def)

interpretation install_ctr: namer "prefixed ''install''" "''install''"
  by (rule prefixed_namer) (simp_all add: alnum_def)

interpretation hook_ctr: namer "prefixed ''hook''" "''hook''"
  by (rule prefixed_namer) (simp_all add: alnum_def)

text \<open>
  C30. \<open>SanitizeDNS1123\<close> turns every byte string into a DNS-1123 label (1 to 63 bytes of
  \<open>a-z\<close>, \<open>0-9\<close> and \<open>-\<close>, alphanumeric at both ends) and is idempotent: a second pass
  changes nothing.
\<close>

theorem SanitizeDNS1123_label_idem:
  "dns_label (SanitizeDNS1123 s) \<and> SanitizeDNS1123 (SanitizeDNS1123 s) = SanitizeDNS1123 s"
  using SanitizeDNS1123_plain SanitizeDNS1123_id by (simp add: plain_label_def)

text \<open>
  C31. The volume and init-container names generated for plugins and media folders are DNS-1123
  labels whatever the resource names are, and two plugins whose names are labels without
  adjacent dashes and of at most 55 bytes get the same volume name, or the same staging,
  install or hook container name, only if they have the same name.
\<close>

theorem generated_names_valid_inj:
  "(\<forall>p. dns_label (imageVolumeName p) \<and> dns_label (stagingContainerName p)
        \<and> dns_label (installContainerName p) \<and> dns_label (hookContainerName p))
   \<and> (\<forall>mf. dns_label (mediaVolumeName mf))
   \<and> (\<forall>p q. plain_label (jp_name p) \<and> plain_label (jp_name q)
             \<and> length (jp_name p) \<le> 55 \<and> length (jp_name q) \<le> 55
        \<longrightarrow> (imageVolumeName p = imageVolumeName q \<longleftrightarrow> jp_name p = jp_name q)
          \<and> (stagingContainerName p = stagingContainerName q \<longleftrightarrow> jp_name p = jp_name q)
          \<and> (installContainerName p = installContainerName q \<longleftrightarrow> jp_name p = jp_name q)
          \<and> (hookContainerName p = hookContainerName q \<longleftrightarrow> jp_name p = jp_name q))"
  unfolding imageVolumeName_def stagingContainerName_def installContainerName_def
    hookContainerName_def mediaVolumeName_def
  using plugin_vol.label stage_ctr.label install_ctr.label hook_ctr.label media_vol.label
    plugin_vol.name_inj stage_ctr.name_inj install_ctr.name_inj hook_ctr.name_inj
  by (auto simp: plugin_vol.fits_def stage_ctr.fits_def install_ctr.fits_def hook_ctr.fits_def)

theorem generated_names_valid_inj_witness:
  "imageVolumeName (sample_plugin ''seerr'') \<noteq> imageVolumeName (sample_plugin ''sonarr'')
   \<and> hookContainerName (sample_plugin ''seerr'') \<noteq> hookContainerName (sample_plugin ''sonarr'')"
proof -
  have "plain_label ''seerr''" "plain_label ''sonarr''" by code_simp+
  then show ?thesis
    using generated_names_valid_inj by (simp add: sample_plugin_def)
qed

end
