(* ===== verification/Shell.thy ===== *)
theory Shell
  imports Go_Strings
begin

text \<open>
  \<open>src/internal/plugins/shell.go\<close>: quoting of words for \<open>sh -c\<close>, against a specification
  of how a POSIX shell cuts a command line into words.
\<close>

definition quote :: char where
  "quote = CHR 0x27"

definition backslash :: char where
  "backslash = CHR 0x5C"

definition shellQuote :: "string \<Rightarrow> string" where
  "shellQuote s = [quote] @ replace_all s quote [quote, backslash, quote, quote] @ [quote]"

definition shellJoin :: "string list \<Rightarrow> string" where
  "shellJoin tokens = join '' '' (map shellQuote tokens)"

section \<open>Word splitting of a simple command\<close>

text \<open>
  The lexer of a POSIX shell (Shell Command Language, 2.2 and 2.3) on text without
  expansions: blanks separate words; inside single quotes every byte but the closing quote
  stands for itself; a backslash outside quotes makes the next byte literal. Any other
  special byte outside quotes (an expansion, an operator, a double quote, a comment, a
  newline) is outside this fragment, and the lexer answers \<^term>\<open>None\<close>. An accumulator of
  \<^term>\<open>None\<close> means that no word has been started.
\<close>

definition sh_special :: "char \<Rightarrow> bool" where
  "sh_special c \<longleftrightarrow> c \<in> set ''|&;<>()$`*?[#~=%!{}'' \<union> {CHR 0x22, CHR 0x0A}"

fun sh_words :: "bool \<Rightarrow> string option \<Rightarrow> string \<Rightarrow> string list option" where
  "sh_words True acc [] = None"
| "sh_words False None [] = Some []"
| "sh_words False (Some w) [] = Some [w]"
| "sh_words True acc (c # s) =
     (if c = quote then sh_words False acc s
      else sh_words True (Some (deref acc [] @ [c])) s)"
| "sh_words False acc (c # s) =
     (if c = quote then sh_words True (Some (deref acc [])) s
      else if c = backslash
        then (case s of [] \<Rightarrow> None
              | d # s' \<Rightarrow> if d = CHR 0x0A then None else sh_words False (Some (deref acc [] @ [d])) s')
      else if c = CHR '' '' \<or> c = CHR 0x09
        then (case acc of None \<Rightarrow> sh_words False None s
              | Some w \<Rightarrow> map_option (Cons w) (sh_words False None s))
      else if sh_special c then None
      else sh_words False (Some (deref acc [] @ [c])) s)"

section \<open>Quoting is inverse to splitting\<close>

lemma quote_backslash [simp]: "quote \<noteq> backslash" "backslash \<noteq> quote" "backslash \<noteq> CHR 0x0A"
  "quote \<noteq> CHR 0x0A"
  by (simp_all add: quote_def backslash_def)

text \<open>Inside quotes, an escaped text and its closing quote add the text to the word.\<close>

lemma sh_words_quoted:
  "sh_words True (Some w) (replace_all s quote [quote, backslash, quote, quote] @ quote # t)
   = sh_words False (Some (w @ s)) t"
  by (induction s arbitrary: w) (auto simp: replace_all_def)

lemma sh_words_shellQuote:
  "sh_words False None (shellQuote s @ t) = sh_words False (Some s) t"
  by (simp add: shellQuote_def sh_words_quoted)

text \<open>
  C32. Quoting is faithful: a POSIX shell that splits the command line \<open>shellJoin tokens\<close>
  gets exactly the tokens back, whatever bytes they contain (a NUL byte aside, which no
  process argument can carry) and even if they are empty.
\<close>

theorem shellJoin_roundtrip: "sh_words False None (shellJoin tokens) = Some tokens"
proof (induction tokens)
  case Nil
  show ?case by (simp add: shellJoin_def)
next
  case (Cons t ts)
  show ?case
  proof (cases ts)
    case Nil
    then show ?thesis
      using sh_words_shellQuote [of t "[]"] by (simp add: shellJoin_def)
  next
    case (Cons u us)
    then have "shellJoin (t # ts) = shellQuote t @ CHR '' '' # shellJoin ts"
      by (simp add: shellJoin_def)
    with Cons.IH show ?thesis
      by (simp add: sh_words_shellQuote quote_def backslash_def)
  qed
qed

end
