(* ===== verification/Hwaccel.thy ===== *)
theory Hwaccel
  imports Podsecurity Naming Shell
begin

text \<open>
  \<open>src/internal/plugins/hwaccel.go\<close>: attaching a transcoding device to the Jellyfin
  container, and the start-up script that points Jellyfin's encoder configuration at it.
  The Go function writes through a pointer into \<open>pod.Containers[0]\<close>; the model replaces
  the head of the container list. \<open>setResourceLimitOne\<close> returns the container with the
  changed limits; that the Go map it writes is shared with the custom resource's spec has
  no counterpart, as the reconciler does not read the limits again.
\<close>

definition AccelVAAPI :: string where "AccelVAAPI = ''vaapi''"
definition AccelQSV :: string where "AccelQSV = ''qsv''"
definition AccelNvidia :: string where "AccelNvidia = ''nvidia''"
definition DRIDeviceVolumeName :: string where "DRIDeviceVolumeName = ''dri-device''"
definition DRIDirPath :: string where "DRIDirPath = ''/dev/dri''"
definition RenderDeviceEnvVar :: string where "RenderDeviceEnvVar = ''JELLYOPS_RENDER_DEVICE''"
definition RenderVendorEnvVar :: string where "RenderVendorEnvVar = ''JELLYOPS_RENDER_VENDOR''"
definition AccelTypeEnvVar :: string where "AccelTypeEnvVar = ''JELLYOPS_ACCEL_TYPE''"
definition intelPCIVendorID :: string where "intelPCIVendorID = ''0x8086''"
definition jellyfinNvenc :: string where "jellyfinNvenc = ''nvenc''"
definition nvidiaGPUResource :: string where "nvidiaGPUResource = ''nvidia.com/gpu''"

lemmas accel_consts = AccelVAAPI_def AccelQSV_def AccelNvidia_def

definition newline :: char where "newline = CHR 0x0A"

definition renderSetupScript :: string where \<open>
  renderSetupScript = concat (map (\<lambda>l. l @ [newline])
    [''accel="${JELLYOPS_ACCEL_TYPE:-}"'',
     ''dev="${JELLYOPS_RENDER_DEVICE:-}"'',
     ''if [ "$accel" != "nvenc" ]; then'',
     ''  if [ -z "$dev" ] && [ -n "${JELLYOPS_RENDER_VENDOR:-}" ]; then'',
     ''    for d in /dev/dri/renderD*; do'',
     ''      [ -c "$d" ] || continue'',
     ''      v="$(cat "/sys/class/drm/$(basename "$d")/device/vendor" 2>/dev/null || true)"'',
     ''      if [ "$v" = "$JELLYOPS_RENDER_VENDOR" ]; then dev="$d"; break; fi'',
     ''    done'',
     ''  fi'',
     ''  if [ -z "$dev" ]; then'',
     ''    for d in /dev/dri/renderD*; do'',
     ''      if [ -c "$d" ]; then dev="$d"; break; fi'',
     ''    done'',
     ''  fi'',
     ''  if [ -z "$dev" ]; then'',
     ''    echo "jellyops: no render device found under /dev/dri; leaving encoding config untouched" >&2'',
     ''    accel=""'',
     ''  fi'',
     ''fi'',
     ''if [ -n "$accel" ] || [ -n "$dev" ]; then'',
     ''  cfgdir="${JELLYFIN_CONFIG_DIR:-${JELLYFIN_DATA_DIR:-/config}/config}"'',
     ''  mkdir -p "$cfgdir"'',
     ''  f="$cfgdir/encoding.xml"'',
     ''  if [ ! -f "$f" ]; then'',
     ''    printf '' @ [quote] @ ''<?xml version="1.0" encoding="utf-8"?>'' @ [backslash] @ ''n<EncodingOptions>'' @ [backslash] @ ''n</EncodingOptions>'' @ [backslash] @ ''n'' @ [quote] @ '' >"$f"'',
     ''  fi'',
     ''  set_tag() {'',
     ''    if grep -q "<$1>" "$f"; then'',
     ''      sed -i "s#<$1>[^<]*</$1>#<$1>$2</$1>#" "$f"'',
     ''    else'',
     ''      sed -i "s#</EncodingOptions>#  <$1>$2</$1>'' @ [backslash] @ ''n</EncodingOptions>#" "$f"'',
     ''    fi'',
     ''  }'',
     ''  if [ -n "$dev" ]; then'',
     ''    echo "jellyops: using render device $dev"'',
     ''    set_tag VaapiDevice "$dev"'',
     ''    set_tag QsvDevice "$dev"'',
     ''  fi'',
     ''  if [ -n "$accel" ]; then'',
     ''    echo "jellyops: hardware acceleration type $accel"'',
     ''    set_tag HardwareAccelerationType "$accel"'',
     ''  fi'',
     ''fi''])\<close>

text \<open>\<open>resourceQuantityOne\<close> of \<open>shell.go\<close>: the quantity 1, in units of \<open>10^-9\<close>.\<close>

definition resourceQuantityOne :: quantity where
  "resourceQuantityOne = 1000000000"

definition setResourceLimitOne :: "Container \<Rightarrow> string \<Rightarrow> Container" where
  "setResourceLimitOne c name =
     c\<lparr>c_resources := (c_resources c)\<lparr>rr_limits :=
         map_put name resourceQuantityOne (rr_limits (c_resources c))\<rparr>\<rparr>"

definition add_env :: "string \<Rightarrow> string \<Rightarrow> Container \<Rightarrow> Container" where
  "add_env n v c = c\<lparr>c_env := c_env c @ [env n v]\<rparr>"

definition add_mount :: "VolumeMount \<Rightarrow> Container \<Rightarrow> Container" where
  "add_mount m c = c\<lparr>c_volumeMounts := c_volumeMounts c @ [m]\<rparr>"

definition add_volume :: "string \<Rightarrow> VolumeSource \<Rightarrow> PodSpec \<Rightarrow> PodSpec" where
  "add_volume n src pod = pod\<lparr>ps_volumes := ps_volumes pod @ [\<lparr>v_name = n, v_source = src\<rparr>]\<rparr>"

definition startup_command :: "string list" where
  "startup_command = [''/bin/sh'', ''-c'', renderSetupScript @ ''exec '' @ DefaultJellyfinCommand]"

text \<open>The volumes, mounts and limits of the inner switch of the \<open>vaapi\<close>/\<open>qsv\<close> case.\<close>

definition attach_render_device :: "HardwareAccel \<Rightarrow> PodSpec \<times> Container \<Rightarrow> PodSpec \<times> Container" where
  "attach_render_device hw = (\<lambda>(pod, c).
     if hw_deviceResource hw \<noteq> '''' then (pod, setResourceLimitOne c (hw_deviceResource hw))
     else if hw_devicePath hw \<noteq> '''' then
       (add_volume DRIDeviceVolumeName (VS_HostPath (hw_devicePath hw) ''CharDevice'') pod,
        add_mount (mount DRIDeviceVolumeName (hw_devicePath hw) '''' False) c)
     else
       (add_volume DRIDeviceVolumeName (VS_HostPath DRIDirPath ''Directory'') pod,
        add_mount (mount DRIDeviceVolumeName DRIDirPath '''' False) c))"

definition applyHardwareAccel :: "PodSpec \<Rightarrow> HardwareAccel option \<Rightarrow> PodSpec" where
  "applyHardwareAccel pod hwo =
     (case hwo of None \<Rightarrow> pod
      | Some hw \<Rightarrow>
          let c = hd (ps_containers pod); rest = tl (ps_containers pod) in
          if hw_type hw = AccelVAAPI \<or> hw_type hw = AccelQSV then
            let (pod1, c1) = attach_render_device hw (pod, c);
                c2 = add_env AccelTypeEnvVar (hw_type hw) c1;
                c3 = (if hw_devicePath hw \<noteq> '''' then add_env RenderDeviceEnvVar (hw_devicePath hw) c2 else c2);
                c4 = (if hw_type hw = AccelQSV then add_env RenderVendorEnvVar intelPCIVendorID c3 else c3);
                c5 = c4\<lparr>c_command := startup_command\<rparr>;
                pod2 = (case hw_renderGroupGID hw of None \<Rightarrow> pod1
                        | Some gid \<Rightarrow>
                            let psc = deref (ps_securityContext pod1) no_psc
                            in pod1\<lparr>ps_securityContext := Some (psc\<lparr>psc_supplementalGroups :=
                                 psc_supplementalGroups psc @ [gid]\<rparr>)\<rparr>)
            in pod2\<lparr>ps_containers := c5 # rest\<rparr>
          else if hw_type hw = AccelNvidia then
            let c1 = setResourceLimitOne c nvidiaGPUResource;
                pod1 = (if hw_runtimeClassName hw \<noteq> ''''
                        then pod\<lparr>ps_runtimeClassName := Some (hw_runtimeClassName hw)\<rparr> else pod);
                c2 = (add_env AccelTypeEnvVar jellyfinNvenc c1)\<lparr>c_command := startup_command\<rparr>
            in pod1\<lparr>ps_containers := c2 # rest\<rparr>
          else pod)"

section \<open>What the step changes\<close>

lemma setResourceLimitOne_simps [pod_simps]:
  "c_volumeMounts (setResourceLimitOne c r) = c_volumeMounts c"
  "c_name (setResourceLimitOne c r) = c_name c"
  "c_env (setResourceLimitOne c r) = c_env c"
  "c_securityContext (setResourceLimitOne c r) = c_securityContext c"
  "map_of (rr_limits (c_resources (setResourceLimitOne c r))) = (map_of (rr_limits (c_resources c)))(r \<mapsto> resourceQuantityOne)"
  by (simp_all add: setResourceLimitOne_def)

lemma add_simps [pod_simps]:
  "c_volumeMounts (add_env n v c) = c_volumeMounts c" "c_name (add_env n v c) = c_name c"
  "c_securityContext (add_env n v c) = c_securityContext c" "c_resources (add_env n v c) = c_resources c"
  "c_env (add_env n v c) = c_env c @ [env n v]"
  "c_volumeMounts (add_mount m c) = c_volumeMounts c @ [m]" "c_name (add_mount m c) = c_name c"
  "c_securityContext (add_mount m c) = c_securityContext c" "c_resources (add_mount m c) = c_resources c"
  "c_env (add_mount m c) = c_env c"
  by (simp_all add: add_env_def add_mount_def)

lemma add_volume_simps [pod_simps]:
  "ps_volumes (add_volume n src pod) = ps_volumes pod @ [\<lparr>v_name = n, v_source = src\<rparr>]"
  "ps_containers (add_volume n src pod) = ps_containers pod"
  "ps_initContainers (add_volume n src pod) = ps_initContainers pod"
  "ps_securityContext (add_volume n src pod) = ps_securityContext pod"
  by (simp_all add: add_volume_def)

text \<open>The volumes and mounts that the step adds.\<close>

definition accel_volumes :: "HardwareAccel option \<Rightarrow> Volume list" where
  "accel_volumes hwo =
     (case hwo of None \<Rightarrow> []
      | Some hw \<Rightarrow>
          if (hw_type hw = AccelVAAPI \<or> hw_type hw = AccelQSV) \<and> hw_deviceResource hw = ''''
          then [\<lparr>v_name = DRIDeviceVolumeName, v_source =
                  (if hw_devicePath hw \<noteq> '''' then VS_HostPath (hw_devicePath hw) ''CharDevice''
                   else VS_HostPath DRIDirPath ''Directory'')\<rparr>]
          else [])"

definition accel_mounts :: "HardwareAccel option \<Rightarrow> VolumeMount list" where
  "accel_mounts hwo =
     (case hwo of None \<Rightarrow> []
      | Some hw \<Rightarrow>
          if (hw_type hw = AccelVAAPI \<or> hw_type hw = AccelQSV) \<and> hw_deviceResource hw = ''''
          then [mount DRIDeviceVolumeName
                  (if hw_devicePath hw \<noteq> '''' then hw_devicePath hw else DRIDirPath) '''' False]
          else [])"

lemma accel_mounts_volumes: "map vm_name (accel_mounts hw) = map v_name (accel_volumes hw)"
  by (simp add: accel_mounts_def accel_volumes_def mount_def split: option.split)

lemma applyHardwareAccel_volumes [pod_simps]:
  "ps_volumes (applyHardwareAccel pod hw) = ps_volumes pod @ accel_volumes hw"
  by (auto simp: applyHardwareAccel_def attach_render_device_def accel_volumes_def Let_def
      accel_consts pod_simps split: option.split)

lemma applyHardwareAccel_inits [pod_simps]:
  "ps_initContainers (applyHardwareAccel pod hw) = ps_initContainers pod"
  by (auto simp: applyHardwareAccel_def attach_render_device_def Let_def pod_simps split: option.split)

lemma applyHardwareAccel_container:
  assumes "ps_containers pod = [c]"
  obtains c' where "ps_containers (applyHardwareAccel pod hw) = [c']" and "c_name c' = c_name c"
    and "c_securityContext c' = c_securityContext c"
    and "c_volumeMounts c' = c_volumeMounts c @ accel_mounts hw"
  using assms
  by (fastforce simp: applyHardwareAccel_def attach_render_device_def accel_mounts_def Let_def
      accel_consts pod_simps split: option.splits if_splits)



end
