(* ===== verification/Meta.thy ===== *)
theory Meta
  imports Samples Go_Strings
begin

text \<open>
  \<open>src/internal/plugins/meta.go\<close>: plugin folder names, version parsing, and the ABI check
  against the version in the server image's tag.
\<close>

section \<open>Metadata\<close>

definition EffectiveMeta :: "JellyfinPlugin \<Rightarrow> PluginMeta" where
  "EffectiveMeta p = jps_meta (jp_spec p)"

definition PluginFolderName :: "PluginMeta \<Rightarrow> string" where
  "PluginFolderName m =
     (let name = (if pm_name m = '''' then ''plugin'' else pm_name m)
      in if pm_version m = '''' then name else name @ ''_'' @ pm_version m)"

definition PluginSubPath :: "JellyfinPlugin \<Rightarrow> string" where
  "PluginSubPath p =
     (if pm_subPath (jps_meta (jp_spec p)) \<noteq> '''' then pm_subPath (jps_meta (jp_spec p))
      else is_subPath (jps_pluginImage (jp_spec p)))"

section \<open>Versions\<close>

datatype version_error =
    EmptyVersion
  | TooManyComponents string
  | InvalidComponent string string
  | NegativeComponent string

type_synonym version = "int \<times> int \<times> int \<times> int"

text \<open>
  One iteration of the loop stores a component at index \<open>i\<close>; unset components stay 0. The
  array \<open>[4]int\<close> is the list of the components stored so far, padded at the end.
\<close>

fun parse_components :: "string \<Rightarrow> string list \<Rightarrow> int list \<Rightarrow> version_error + int list" where
  "parse_components s [] out = Inr out"
| "parse_components s (p # ps) out =
     (case atoi (trim_space p) of
        None \<Rightarrow> Inl (InvalidComponent s p)
      | Some n \<Rightarrow> if n < 0 then Inl (NegativeComponent s) else parse_components s ps (out @ [n]))"

definition pad4 :: "int list \<Rightarrow> version" where
  "pad4 xs = (let ys = xs @ [0, 0, 0, 0] in (ys ! 0, ys ! 1, ys ! 2, ys ! 3))"

definition parseVersion :: "string \<Rightarrow> version_error + version" where
  "parseVersion s0 =
     (let s = trim_space s0 in
      if s = '''' then Inl EmptyVersion
      else let parts = split_char CHR ''.'' s in
        if length parts > 4 then Inl (TooManyComponents s)
        else bind_res (parse_components s parts []) (\<lambda>out. Inr (pad4 out)))"

fun compareVersions :: "version \<Rightarrow> version \<Rightarrow> int" where
  "compareVersions (a0, a1, a2, a3) (b0, b1, b2, b3) =
     (if a0 < b0 then - 1 else if a0 > b0 then 1
      else if a1 < b1 then - 1 else if a1 > b1 then 1
      else if a2 < b2 then - 1 else if a2 > b2 then 1
      else if a3 < b3 then - 1 else if a3 > b3 then 1
      else 0)"

definition DefaultServerVersion :: string where
  "DefaultServerVersion = ''10.9.0.0''"

definition imageTag :: "string \<Rightarrow> string" where
  "imageTag image0 =
     (let img = cut_at (\<lambda>c. c = CHR ''@'') image0;
          seg = deref (after_last CHR ''/'' img) img
      in deref (after_last CHR '':'' seg) '''')"

definition ServerVersionFromImage :: "string \<Rightarrow> string" where
  "ServerVersionFromImage img =
     (let tag = imageTag img in
      if tag = '''' then ''''
      else let ver = trim_prefix (cut_at (\<lambda>c. c \<in> set ''-+_'') tag) ''v''
           in if is_ok (parseVersion ver) then ver else '''')"

datatype abi_error = TargetAbiError version_error | ServerVersionError version_error

definition ABICompatible :: "string \<Rightarrow> string \<Rightarrow> abi_error + bool" where
  "ABICompatible targetABI serverVersion =
     bind_res (map_err TargetAbiError (parseVersion targetABI)) (\<lambda>t.
     bind_res (map_err ServerVersionError (parseVersion serverVersion)) (\<lambda>s.
     Inr (compareVersions s t \<ge> 0)))"

section \<open>Ordering of versions\<close>

text \<open>The reference order: versions as lists of components, compared lexicographically.\<close>

fun version_list :: "version \<Rightarrow> int list" where
  "version_list (a, b, c, d) = [a, b, c, d]"

lemma cons_le_lex: "x # xs \<le> y # ys \<longleftrightarrow> x < y \<or> x = y \<and> xs \<le> ys" for x :: int
  by (auto simp: order.order_iff_strict)

lemma compareVersions_lex:
  "0 \<le> compareVersions (a0, a1, a2, a3) (b0, b1, b2, b3)
     \<longleftrightarrow> [b0, b1, b2, b3] \<le> [a0, a1, a2, a3]"
  unfolding cons_le_lex by simp

section \<open>Parsing of versions\<close>

definition parse_part :: "string \<Rightarrow> int option" where
  "parse_part p = (case atoi (trim_space p) of Some n \<Rightarrow> if n < 0 then None else Some n | None \<Rightarrow> None)"

lemma parse_components_ok:
  "parse_components s ps out = Inr vs \<longleftrightarrow> (\<exists>ns. map parse_part ps = map Some ns \<and> vs = out @ ns)"
proof (induction ps arbitrary: out)
  case (Cons p ps)
  show ?case
    by (cases "atoi (trim_space p)") (auto simp: Cons.IH parse_part_def map_eq_Cons_conv Cons_eq_map_conv)
qed auto

lemma parseVersion_ok:
  "parseVersion s = Inr v \<longleftrightarrow>
     (\<exists>ns. trim_space s \<noteq> '''' \<and> length ns \<le> 4
        \<and> map parse_part (split_char CHR ''.'' (trim_space s)) = map Some ns \<and> v = pad4 ns)"
proof -
  have "length ns = length (split_char CHR ''.'' (trim_space s))"
    if "map parse_part (split_char CHR ''.'' (trim_space s)) = map Some ns" for ns
    using that by (metis length_map)
  then show ?thesis by (auto simp: parseVersion_def Let_def parse_components_ok)
qed

text \<open>The printed form of a version, the inverse of parsing.\<close>

definition version_text :: "int list \<Rightarrow> string" where
  "version_text ns = join ''.'' (map itoa ns)"

lemma itoa_nonneg_chars:
  assumes "0 \<le> n"
  shows "\<forall>c \<in> set (itoa n). graphic c" and "CHR ''.'' \<notin> set (itoa n)" and "itoa n \<noteq> []"
  using itoa_nat_chars [OF assms] is_digit_graphic is_digit_neq nat_text_props [of "nat n"] assms
  by (auto simp: list_all_iff itoa_def)

lemma parse_part_itoa: "0 \<le> n \<Longrightarrow> n < 2 ^ 63 \<Longrightarrow> parse_part (itoa n) = Some n"
  by (simp add: parse_part_def trim_space_graphic itoa_nonneg_chars atoi_itoa)

lemma join_set: "set (join sep xs) \<subseteq> set sep \<union> (\<Union>x \<in> set xs. set x)"
  by (induction sep xs rule: join.induct) auto

lemma version_text_graphic:
  assumes "\<forall>n \<in> set ns. 0 \<le> n"
  shows "\<forall>c \<in> set (version_text ns). graphic c"
  using assms join_set [of "''.''" "map itoa ns"] itoa_nonneg_chars(1)
  by (fastforce simp: version_text_def graphic_def less_eq_char_def)

lemma version_text_nonempty: "ns \<noteq> [] \<Longrightarrow> 0 \<le> hd ns \<Longrightarrow> version_text ns \<noteq> []"
  by (cases ns; cases "tl ns") (auto simp: version_text_def itoa_nonneg_chars)

text \<open>
  C33. Version parsing is inverse to printing: one to four components below \<open>2^63\<close>, printed
  in decimal and joined by dots, parse to those components padded with zeros.
\<close>

theorem parseVersion_roundtrip:
  assumes "ns \<noteq> []" and "length ns \<le> 4" and "\<forall>n \<in> set ns. 0 \<le> n \<and> n < 2 ^ 63"
  shows "parseVersion (version_text ns) = Inr (pad4 ns)"
proof -
  have t: "trim_space (version_text ns) = version_text ns"
    using assms(3) by (intro trim_space_graphic version_text_graphic) blast
  have "version_text ns \<noteq> []"
    using assms by (intro version_text_nonempty) auto
  moreover have "split_char CHR ''.'' (version_text ns) = map itoa ns"
    unfolding version_text_def using assms itoa_nonneg_chars(2) by (intro split_char_join) auto
  moreover have "map parse_part (map itoa ns) = map Some ns"
    using assms(3) by (simp add: parse_part_itoa)
  ultimately show ?thesis
    using t assms(2) unfolding parseVersion_ok by (intro exI [of _ ns]) simp
qed

theorem parseVersion_roundtrip_witness:
  "parseVersion (version_text [12, 0, 3]) = Inr (12, 0, 3, 0)"
  using parseVersion_roundtrip [of "[12, 0, 3]"] by (simp add: pad4_def)

text \<open>
  C34. A plugin is ABI-compatible exactly when its target ABI is at most the server version
  in the lexicographic order of the four components; the check fails only when one of the
  two texts does not parse, the target being tried first.
\<close>

theorem ABICompatible_spec:
  "ABICompatible t s =
     (case parseVersion t of Inl e \<Rightarrow> Inl (TargetAbiError e)
      | Inr tv \<Rightarrow> (case parseVersion s of Inl e \<Rightarrow> Inl (ServerVersionError e)
                   | Inr sv \<Rightarrow> Inr (version_list tv \<le> version_list sv)))"
proof -
  have "compareVersions sv tv \<ge> 0 \<longleftrightarrow> version_list tv \<le> version_list sv" for sv tv
    by (cases sv; cases tv) (simp only: compareVersions_lex version_list.simps)
  then show ?thesis
    by (simp add: ABICompatible_def split: sum.split)
qed

section \<open>Server versions from image references\<close>

lemma ServerVersionFromImage_parses:
  "ServerVersionFromImage img = '''' \<or> is_ok (parseVersion (ServerVersionFromImage img))"
  by (simp add: ServerVersionFromImage_def Let_def)

lemma DefaultServerVersion_parses: "parseVersion DefaultServerVersion = Inr (10, 9, 0, 0)"
  by code_simp

lemma cut_at_none: "\<forall>c \<in> set s. \<not> P c \<Longrightarrow> cut_at P s = s"
  by (simp add: cut_at_def takeWhile_eq_all_conv)

lemma cut_at_first: "\<forall>c \<in> set s. \<not> P c \<Longrightarrow> P d \<Longrightarrow> cut_at P (s @ d # t) = s"
  by (simp add: cut_at_def takeWhile_append2)

lemma after_last_append: "c \<notin> set t \<Longrightarrow> after_last c (s @ c # t) = Some t"
  by (simp add: after_last_def takeWhile_append2 takeWhile_tail) (subst takeWhile_eq_all_conv [THEN iffD2]; auto)

lemma imageTag_tagged:
  assumes "CHR ''@'' \<notin> set host" and "set name \<inter> set ''@/:'' = {}" and "set tag \<inter> set ''@/:'' = {}"
    and "rest = [] \<or> hd rest = CHR ''@''"
  shows "imageTag (host @ ''/'' @ name @ '':'' @ tag @ rest) = tag"
proof -
  let ?ref = "host @ CHR ''/'' # (name @ CHR '':'' # tag)"
  have "cut_at (\<lambda>c. c = CHR ''@'') (?ref @ rest) = ?ref"
  proof (cases rest)
    case Nil
    with assms show ?thesis by (auto intro!: cut_at_none)
  next
    case (Cons r rs)
    with assms have "r = CHR ''@''" by simp
    with Cons assms show ?thesis by (simp only: Cons) (rule cut_at_first; auto)
  qed
  moreover have "after_last CHR ''/'' ?ref = Some (name @ CHR '':'' # tag)"
    using assms by (intro after_last_append) auto
  moreover have "after_last CHR '':'' (name @ CHR '':'' # tag) = Some tag"
    using assms by (intro after_last_append) auto
  ultimately show ?thesis by (simp add: imageTag_def)
qed

lemma version_chars:
  assumes "set ver \<subseteq> set ''0123456789.''" and "c \<in> set ver"
  shows "c \<notin> set ''-+_@/:v''"
  using assms by auto

text \<open>
  The server version is read off the tag of an image reference, whatever the registry
  host and port are and whatever digest follows: a tag \<open>v<version>-<suffix>\<close> or a tag
  \<open><version>\<close>, over a dotted version that parses, yields exactly that version.
\<close>

theorem ServerVersionFromImage_tag:
  assumes "ver \<noteq> ''''" and "is_ok (parseVersion ver)" and "set ver \<subseteq> set ''0123456789.''"
    and "CHR ''@'' \<notin> set host" and "set name \<inter> set ''@/:'' = {}" and "set sfx \<inter> set ''@/:'' = {}"
  shows "ServerVersionFromImage (host @ ''/'' @ name @ '':'' @ (''v'' @ ver @ ''-'' @ sfx) @ ''@'' @ digest) = ver
    \<and> ServerVersionFromImage (host @ ''/'' @ name @ '':'' @ ver) = ver"
proof -
  note vc = version_chars [OF assms(3)]
  have vt: "set ver \<inter> set ''@/:'' = {}" using vc by auto
  have "imageTag (host @ ''/'' @ name @ '':'' @ (''v'' @ ver @ ''-'' @ sfx) @ ''@'' @ digest)
      = ''v'' @ ver @ ''-'' @ sfx"
    using assms(4,5,6) vt by (intro imageTag_tagged) auto
  moreover have "cut_at (\<lambda>c. c \<in> set ''-+_'') ((''v'' @ ver) @ CHR ''-'' # sfx) = ''v'' @ ver"
    using vc by (intro cut_at_first) auto
  moreover have "imageTag (host @ ''/'' @ name @ '':'' @ ver @ []) = ver"
    using assms(4,5) vt by (intro imageTag_tagged) auto
  moreover have "cut_at (\<lambda>c. c \<in> set ''-+_'') ver = ver"
    using vc by (intro cut_at_none) auto
  moreover have "hd ver \<noteq> CHR ''v''" using vc [of "hd ver"] assms(1) by auto
  then have "trim_prefix ver ''v'' = ver"
    using assms(1) by (cases ver) (auto simp: trim_prefix_def has_prefix_def)
  ultimately show ?thesis
    using assms(1,2) by (simp add: ServerVersionFromImage_def trim_prefix_def has_prefix_def)
qed

theorem ServerVersionFromImage_tag_witness:
  "ServerVersionFromImage ''ghcr.io:443/x/jellyfin:v12.0.0-rc@sha256:ab'' = ''12.0.0''"
proof -
  have "is_ok (parseVersion ''12.0.0'')" by code_simp
  from ServerVersionFromImage_tag [of "''12.0.0''" "''ghcr.io:443/x''" "''jellyfin''" "''rc''" "''sha256:ab''", OF _ this]
  show ?thesis by simp
qed

end
