(* ===== verification/Go_Path.thy ===== *)
theory Go_Path
  imports Go_Strings
begin

text \<open>
  \<open>path.Clean\<close> and \<open>path.Join\<close> of Go's standard library, on slash-separated components:
  empty and \<open>.\<close> components are dropped, and \<open>..\<close> removes the component before it, is
  dropped at the root, and is kept at the start of a relative path.
\<close>

definition real_comp :: "string \<Rightarrow> bool" where
  "real_comp c \<longleftrightarrow> c \<noteq> '''' \<and> c \<noteq> ''.''"

fun clean_comps :: "bool \<Rightarrow> string list \<Rightarrow> string list \<Rightarrow> string list" where
  "clean_comps rooted out [] = rev out"
| "clean_comps rooted out (c # cs) =
     (if \<not> real_comp c then clean_comps rooted out cs
      else if c = ''..'' then
        (if out \<noteq> [] \<and> hd out \<noteq> ''..'' then clean_comps rooted (tl out) cs
         else if rooted then clean_comps rooted out cs
         else clean_comps rooted (c # out) cs)
      else clean_comps rooted (c # out) cs)"

definition path_clean :: "string \<Rightarrow> string" where
  "path_clean p =
     (if p = '''' then ''.''
      else let rooted = (hd p = CHR ''/'');
               cs = clean_comps rooted [] (split_char CHR ''/'' p)
           in if rooted then ''/'' @ join ''/'' cs
              else if cs = [] then ''.'' else join ''/'' cs)"

definition path_join :: "string list \<Rightarrow> string" where
  "path_join elems =
     (let es = filter (\<lambda>e. e \<noteq> '''') elems
      in if es = [] then '''' else path_clean (join ''/'' es))"

lemma clean_comps_plain:
  "''..'' \<notin> set cs \<Longrightarrow> clean_comps rooted out cs = rev out @ filter real_comp cs"
  by (induction rooted out cs rule: clean_comps.induct) auto

lemma clean_comps_append:
  "''..'' \<notin> set cs \<Longrightarrow>
     clean_comps rooted out (cs @ ds) = clean_comps rooted (rev (filter real_comp cs) @ out) ds"
  by (induction rooted out cs rule: clean_comps.induct) auto

lemma split_char_append: "split_char c (a @ c # b) = split_char c a @ split_char c b"
  by (induction a) (auto simp: Let_def neq_Nil_conv)

lemma join_real:
  assumes "\<forall>d \<in> set ds. CHR ''/'' \<notin> set d" and "ds \<noteq> []"
  shows "split_char CHR ''/'' (join ''/'' ds) = ds"
  using assms by (intro split_char_join) auto

text \<open>Joining onto a clean absolute directory.\<close>

lemma path_join_abs:
  assumes "ds \<noteq> []" and "\<forall>d \<in> set ds. real_comp d \<and> d \<noteq> ''..'' \<and> CHR ''/'' \<notin> set d"
    and "f \<noteq> ''''" and "''..'' \<notin> set (split_char CHR ''/'' f)"
  shows "path_join [''/'' @ join ''/'' ds, f]
           = ''/'' @ join ''/'' (ds @ filter real_comp (split_char CHR ''/'' f))"
proof -
  have s: "split_char CHR ''/'' (''/'' @ join ''/'' ds @ CHR ''/'' # f)
        = [''''] @ ds @ split_char CHR ''/'' f"
    using assms(1,2) by (simp add: split_char_append join_real)
  have r: "filter real_comp ds = ds" using assms(2) by (simp add: filter_id_conv)
  have nd: "''..'' \<notin> set ds" using assms(2) by blast
  show ?thesis
    using assms(3,4) s r nd
    by (simp add: path_join_def path_clean_def clean_comps_plain real_comp_def [of "''''"])
qed

text \<open>One component that is not \<open>.\<close> or \<open>..\<close> is appended to the directory.\<close>

corollary path_join_component:
  assumes "ds \<noteq> []" and "\<forall>d \<in> set ds. real_comp d \<and> d \<noteq> ''..'' \<and> CHR ''/'' \<notin> set d"
    and "real_comp f" and "f \<noteq> ''..''" and "CHR ''/'' \<notin> set f"
  shows "path_join [''/'' @ join ''/'' ds, f] = ''/'' @ join ''/'' (ds @ [f])"
  using path_join_abs [of ds f] assms by (simp add: split_char_no_sep real_comp_def)

lemma join_snoc: "ds \<noteq> [] \<Longrightarrow> join sep (ds @ [f]) = join sep ds @ sep @ f"
  by (induction sep ds rule: join.induct) auto

lemma join_append:
  "ds \<noteq> [] \<Longrightarrow> es \<noteq> [] \<Longrightarrow> join sep (ds @ es) = join sep ds @ sep @ join sep es"
proof (induction sep ds rule: join.induct)
  case (2 sep x)
  then show ?case by (cases es) auto
qed auto

end
