(* ===== verification/Builder.thy ===== *)
theory Builder
  imports Hwaccel Meta Go_Path
begin

text \<open>
  \<open>src/internal/plugins/builder.go\<close>: the Jellyfin Deployment of an instance and its bound
  plugins. \<open>BuildPodTemplateSpec\<close> grows two slices (the volumes and the init containers) and
  the main container; each block of it is a step on the pair of volumes and container here,
  in the order of the source. \<open>slices.SortFunc\<close> is not stable, but the plugins it gets are
  objects of one namespace, whose names differ; a stable sort stands for it.
\<close>

definition installScriptEnvVar :: string where
  "installScriptEnvVar = ''JELLYOPS_INSTALL_SCRIPT''"

definition PullIfNotPresent :: string where "PullIfNotPresent = ''IfNotPresent''"

section \<open>Volumes\<close>

definition configVolume :: "Jellyfin \<Rightarrow> Volume" where
  "configVolume jf = \<lparr>v_name = ConfigVolumeName, v_source = VS_PVC (ConfigClaimName jf) False\<rparr>"

definition mediaReadOnly :: "MediaFolder \<Rightarrow> bool" where
  "mediaReadOnly mf =
     (if mf_readOnly mf then True
      else case mf_nfs mf of None \<Rightarrow> False | Some nfs \<Rightarrow> nfs_readOnly nfs)"

definition mediaVolumeAndMount :: "Jellyfin \<Rightarrow> MediaFolder \<Rightarrow> Volume \<times> VolumeMount" where
  "mediaVolumeAndMount jf mf =
     (let ro = mediaReadOnly mf;
          claim = VS_PVC (MediaClaimName jf mf) ro;
          src = (case mf_nfs mf of None \<Rightarrow> claim
                 | Some nfs \<Rightarrow> if \<not> nfs_provision nfs \<and> nfs_mountOptions nfs = []
                              then VS_NFS (nfs_server nfs) (nfs_path nfs) ro else claim)
      in (\<lparr>v_name = mediaVolumeName mf, v_source = src\<rparr>,
          mount (mediaVolumeName mf) (mf_mountPath mf) '''' ro))"

definition pull_or_default :: "string \<Rightarrow> string" where
  "pull_or_default pull = (if pull = '''' then PullIfNotPresent else pull)"

definition imageVolume :: "JellyfinPlugin \<Rightarrow> Volume" where
  "imageVolume p =
     (let img = jps_pluginImage (jp_spec p)
      in \<lparr>v_name = imageVolumeName p,
          v_source = VS_Image (is_reference img) (pull_or_default (is_pullPolicy img))\<rparr>)"

definition webContentVolume :: "WebSpec \<Rightarrow> Volume" where
  "webContentVolume web =
     \<lparr>v_name = WebContentVolumeName,
      v_source = VS_Image (web_image web) (pull_or_default (web_pullPolicy web))\<rparr>"

section \<open>Init containers\<close>

definition config_mount :: VolumeMount where
  "config_mount = mount ConfigVolumeName ConfigMountPath '''' False"

definition stagingContainer :: "string \<Rightarrow> JellyfinPlugin \<Rightarrow> Container" where
  "stagingContainer defaultImage p =
     (let folder = PluginFolderName (EffectiveMeta p);
          src = path_join [StagingSrcBase, jp_name p];
          from = (if PluginSubPath p \<noteq> '''' then path_join [src, PluginSubPath p] else src);
          dest = path_join [PluginsDirPath, folder];
          cmd = ''set -e'' @ [newline] @ ''mkdir -p '' @ shellQuote dest @ [newline]
                @ ''cp -r '' @ shellQuote from @ ''/. '' @ shellQuote dest @ ''/''
      in no_container\<lparr>c_name := stagingContainerName p, c_image := defaultImage,
           c_imagePullPolicy := pull_or_default (is_pullPolicy (jps_pluginImage (jp_spec p))),
           c_command := [''sh'', ''-c'', cmd],
           c_volumeMounts := [mount (imageVolumeName p) src '''' True, config_mount]\<rparr>)"

definition indent :: "string \<Rightarrow> string" where
  "indent s =
     (if s = '''' then ''''
      else join [newline] (map (\<lambda>l. ''  '' @ l) (split_char newline (trim_right s newline))) @ [newline])"

definition timeout_prefix :: "int32 option \<Rightarrow> string" where
  "timeout_prefix t = (case t of None \<Rightarrow> '''' | Some n \<Rightarrow> ''timeout '' @ itoa (sint n) @ '' '')"

definition buildInstallWrapper :: "string \<Rightarrow> string \<Rightarrow> PluginInstall \<Rightarrow> string" where \<open>
  buildInstallWrapper folder pluginName inst =
     (let marker = path_join [InstalledMarkerDir, folder];
          run = timeout_prefix (pi_timeoutSeconds inst) @ ''sh -c "$'' @ installScriptEnvVar @ ''"'';
          head = (if pi_runOnce inst
                  then ''MARKER='' @ shellQuote marker @ [newline]
                       @ ''if [ -f "$MARKER" ]; then exit 0; fi'' @ [newline]
                  else '''');
          touch = (if pi_runOnce inst
                   then ''mkdir -p "$(dirname "$MARKER")"'' @ [newline] @ ''touch "$MARKER"'' @ [newline]
                   else '''')
      in if pi_failurePolicy inst = FailurePolicyFail
         then head @ ''set -e'' @ [newline] @ run @ [newline] @ touch
         else head @ ''if '' @ run @ ''; then'' @ [newline] @ indent touch
              @ ''else'' @ [newline] @ ''  echo "jellyops: install for '' @ pluginName
              @ '' failed (failurePolicy=Ignore)"'' @ [newline] @ ''fi'' @ [newline]
              @ ''exit 0'' @ [newline])\<close>

datatype install_error = ScriptAndCommand | ScriptOrCommandRequired

definition installContainer :: "string \<Rightarrow> JellyfinPlugin \<Rightarrow> PluginInstall \<Rightarrow> install_error + Container" where
  "installContainer defaultImage p inst =
     (if pi_script inst \<noteq> '''' \<and> pi_command inst \<noteq> [] then Inl ScriptAndCommand
      else if pi_script inst = '''' \<and> pi_command inst = [] then Inl ScriptOrCommandRequired
      else
        let body = (if pi_script inst = '''' then shellJoin (pi_command inst @ pi_args inst)
                    else pi_script inst);
            (img, pull) = (case pi_image inst of None \<Rightarrow> (defaultImage, '''')
                             | Some i \<Rightarrow> (is_reference i, is_pullPolicy i));
            wrapper = buildInstallWrapper (PluginFolderName (EffectiveMeta p)) (jp_name p) inst
        in Inr (no_container\<lparr>c_name := installContainerName p, c_image := img,
             c_imagePullPolicy := pull, c_command := [''sh'', ''-c'', wrapper],
             c_env := env installScriptEnvVar body # pi_env inst,
             c_volumeMounts := config_mount # pi_volumeMounts inst,
             c_resources := pi_resources inst\<rparr>))"

definition buildHookWrapper :: "string \<Rightarrow> string \<Rightarrow> PluginInstall option \<Rightarrow> string" where \<open>
  buildHookWrapper folder pluginName inst =
     (let stage = path_join [PluginsDirPath, folder];
          marker = path_join [FirstRunMarkerDir, folder];
          failClosed = (case inst of None \<Rightarrow> False | Some i \<Rightarrow> pi_failurePolicy i = FailurePolicyFail);
          timeoutPrefix = (case inst of None \<Rightarrow> '''' | Some i \<Rightarrow> timeout_prefix (pi_timeoutSeconds i));
          vars = ''STAGE='' @ shellQuote stage @ [newline] @ ''MARKER='' @ shellQuote marker @ [newline];
          firstrun =
            ''if [ -f "$STAGE/firstrun.sh" ] && [ ! -f "$MARKER" ]; then'' @ [newline]
            @ (if failClosed
               then ''  '' @ timeoutPrefix @ ''sh "$STAGE/firstrun.sh"'' @ [newline]
                    @ ''  mkdir -p "$(dirname "$MARKER")"'' @ [newline] @ ''  touch "$MARKER"'' @ [newline]
               else ''  if '' @ timeoutPrefix @ ''sh "$STAGE/firstrun.sh"; then'' @ [newline]
                    @ ''    mkdir -p "$(dirname "$MARKER")"'' @ [newline] @ ''    touch "$MARKER"'' @ [newline]
                    @ ''  else'' @ [newline] @ ''    echo "jellyops: firstrun for '' @ pluginName
                    @ '' failed (failurePolicy=Ignore)"'' @ [newline] @ ''  fi'' @ [newline])
            @ ''fi'' @ [newline];
          bootstrap =
            ''if [ -f "$STAGE/bootstrap.sh" ]; then'' @ [newline]
            @ (if failClosed
               then ''  '' @ timeoutPrefix @ ''sh "$STAGE/bootstrap.sh"'' @ [newline]
               else ''  '' @ timeoutPrefix @ ''sh "$STAGE/bootstrap.sh" || echo "jellyops: bootstrap for ''
                    @ pluginName @ '' failed (failurePolicy=Ignore)"'' @ [newline])
            @ ''fi'' @ [newline]
      in if failClosed then ''set -e'' @ [newline] @ vars @ firstrun @ bootstrap
         else vars @ firstrun @ bootstrap @ ''exit 0'' @ [newline])\<close>

definition hookContainer :: "string \<Rightarrow> JellyfinPlugin \<Rightarrow> Container" where
  "hookContainer defaultImage p =
     (let inst = jps_install (jp_spec p);
          (img, pull) =
            (case Option.bind inst pi_image of None \<Rightarrow> (defaultImage, '''')
             | Some i \<Rightarrow> (is_reference i, is_pullPolicy i));
          wrapper = buildHookWrapper (PluginFolderName (EffectiveMeta p)) (jp_name p) inst
      in no_container\<lparr>c_name := hookContainerName p, c_image := img, c_imagePullPolicy := pull,
           c_command := [''sh'', ''-c'', wrapper],
           c_env := (case inst of None \<Rightarrow> [] | Some i \<Rightarrow> pi_env i),
           c_volumeMounts := config_mount # (case inst of None \<Rightarrow> [] | Some i \<Rightarrow> pi_volumeMounts i),
           c_resources := (case inst of None \<Rightarrow> no_resources | Some i \<Rightarrow> pi_resources i)\<rparr>)"

section \<open>The pod template\<close>

type_synonym vols_container = "Volume list \<times> Container"

definition server_image :: "Jellyfin \<Rightarrow> string" where
  "server_image jf = (if js_image (jf_spec jf) = '''' then DefaultJellyfinImage else js_image (jf_spec jf))"

definition base_pod :: "Jellyfin \<Rightarrow> vols_container" where
  "base_pod jf =
     ([configVolume jf],
      no_container\<lparr>c_name := JellyfinContainerName, c_image := server_image jf,
        c_ports := [\<lparr>cp_name = PortNameHTTP, cp_containerPort = DefaultJellyfinPort,
                     cp_protocol = ''TCP'', cp_rest = ''''\<rparr>],
        c_resources := js_resources (jf_spec jf), c_volumeMounts := [config_mount]\<rparr>)"

definition add_cache :: "Jellyfin \<Rightarrow> vols_container \<Rightarrow> vols_container" where
  "add_cache jf = (\<lambda>(vols, c).
     case st_cache (js_storage (jf_spec jf)) of None \<Rightarrow> (vols, c)
     | Some cache \<Rightarrow>
         let cachePath = (if pvc_mountPath cache \<noteq> '''' then pvc_mountPath cache else CacheMountPath)
         in (vols @ [\<lparr>v_name = CacheVolumeName, v_source = VS_PVC (CacheClaimName jf) False\<rparr>],
             add_env ''JELLYFIN_CACHE_DIR'' cachePath (add_mount (mount CacheVolumeName cachePath '''' False) c)))"

definition add_trickplay :: "Jellyfin \<Rightarrow> vols_container \<Rightarrow> vols_container" where
  "add_trickplay jf = (\<lambda>(vols, c).
     case st_trickplay (js_storage (jf_spec jf)) of None \<Rightarrow> (vols, c)
     | Some tp \<Rightarrow>
         let trickplayPath = (if pvc_mountPath tp \<noteq> '''' then pvc_mountPath tp else TrickplayMountPath)
         in (vols @ [\<lparr>v_name = TrickplayVolumeName, v_source = VS_PVC (TrickplayClaimName jf) False\<rparr>],
             add_mount (mount TrickplayVolumeName trickplayPath '''' False) c))"

fun add_media :: "Jellyfin \<Rightarrow> MediaFolder list \<Rightarrow> vols_container \<Rightarrow> vols_container" where
  "add_media jf [] st = st"
| "add_media jf (mf # mfs) (vols, c) =
     (let (vol, m) = mediaVolumeAndMount jf mf
      in add_media jf mfs (vols @ [vol], add_mount m c))"

definition add_web :: "Jellyfin \<Rightarrow> vols_container \<Rightarrow> vols_container" where
  "add_web jf = (\<lambda>(vols, c).
     case js_web (jf_spec jf) of None \<Rightarrow> (vols, c)
     | Some web \<Rightarrow>
         if EffectiveMode (Some web) = WebModeVolume then
           (vols @ [webContentVolume web],
            add_env ''JELLYFIN_WEB_DIR'' WebContentMountPath
              ((add_mount (mount WebContentVolumeName WebContentMountPath (web_subPath web) True) c)
                 \<lparr>c_command := [DefaultJellyfinCommand]\<rparr>))
         else (vols, c))"

datatype build_error = PluginError string install_error

type_synonym plugin_state = "Volume list \<times> Container \<times> Container list"

definition plugin_mount :: "JellyfinPlugin \<Rightarrow> VolumeMount" where
  "plugin_mount p =
     mount (imageVolumeName p) (path_join [PluginsDirPath, PluginFolderName (EffectiveMeta p)])
       (PluginSubPath p) True"

definition add_plugin :: "string \<Rightarrow> JellyfinPlugin \<Rightarrow> plugin_state \<Rightarrow> build_error + plugin_state" where
  "add_plugin img p = (\<lambda>(vols, c, inits).
     let vols1 = vols @ [imageVolume p];
         copy = (jps_injection (jp_spec p) = InjectionImageVolumeCopy);
         (c1, inits1) = (if copy then (c, inits @ [stagingContainer img p])
                         else (add_mount (plugin_mount p) c, inits));
         installed =
           (case jps_install (jp_spec p) of None \<Rightarrow> Inr inits1
            | Some inst \<Rightarrow>
                if pi_script inst \<noteq> '''' \<or> pi_command inst \<noteq> []
                then bind_res (map_err (PluginError (jp_name p)) (installContainer img p inst))
                       (\<lambda>ic. Inr (inits1 @ [ic]))
                else Inr inits1)
     in bind_res installed (\<lambda>inits2.
          Inr (vols1, c1, if copy then inits2 @ [hookContainer img p] else inits2)))"

definition sorted_plugins :: "JellyfinPlugin list \<Rightarrow> JellyfinPlugin list" where
  "sorted_plugins plugins = sort_key jp_name plugins"

definition finish_pod :: "Jellyfin \<Rightarrow> plugin_state \<Rightarrow> PodTemplateSpec" where
  "finish_pod jf = (\<lambda>(vols, c, inits).
     let podSpec = no_pod\<lparr>ps_containers := [c], ps_initContainers := inits, ps_volumes := vols,
           ps_imagePullSecrets := js_imagePullSecrets (jf_spec jf),
           ps_securityContext := Some seccomp_default\<rparr>;
         ps = js_podSecurity (jf_spec jf);
         (c1, pod1) = applyPodSecurity (hd (ps_containers podSpec)) podSpec ps;
         pod2 = pod1\<lparr>ps_containers := c1 # tl (ps_containers podSpec),
           ps_initContainers := map (\<lambda>ic. applyContainerSecurity ic ps) (ps_initContainers pod1)\<rparr>;
         pod3 = applyHardwareAccel pod2 (js_hardwareAcceleration (jf_spec jf))
     in \<lparr>pt_labels = InstanceSelectorLabels jf, pt_annotations = js_podAnnotations (jf_spec jf),
         pt_spec = pod3\<rparr>)"

definition BuildPodTemplateSpec :: "Jellyfin \<Rightarrow> JellyfinPlugin list \<Rightarrow> build_error + PodTemplateSpec" where
  "BuildPodTemplateSpec jf plugins =
     (let (vols, c) = add_web jf (add_media jf (st_media (js_storage (jf_spec jf)))
                        (add_trickplay jf (add_cache jf (base_pod jf))))
      in bind_res (fold_res (add_plugin (server_image jf)) (sorted_plugins plugins) (vols, c, []))
           (\<lambda>st. Inr (finish_pod jf st)))"

definition BuildDeployment :: "Jellyfin \<Rightarrow> JellyfinPlugin list \<Rightarrow> build_error + Deployment" where
  "BuildDeployment jf plugins =
     bind_res (BuildPodTemplateSpec jf plugins) (\<lambda>pod.
       Inr \<lparr>d_name = jf_name jf, d_namespace = jf_namespace jf, d_labels = InstanceLabels jf,
            d_replicas = Some (deref (js_replicas (jf_spec jf)) 1),
            d_selector = InstanceSelectorLabels jf, d_strategy = ''Recreate'', d_template = pod\<rparr>)"

section \<open>Closed form of the build\<close>

text \<open>
  The loop over the plugins in one equation: the first plugin, in name order, that sets both
  an install script and an install command stops the build; otherwise each plugin adds its
  image volume, its read-only mount unless it is copied, and its init containers.
\<close>

definition copies :: "JellyfinPlugin \<Rightarrow> bool" where
  "copies p \<longleftrightarrow> jps_injection (jp_spec p) = InjectionImageVolumeCopy"

definition install_conflict :: "JellyfinPlugin \<Rightarrow> bool" where
  "install_conflict p =
     (case jps_install (jp_spec p) of None \<Rightarrow> False
      | Some inst \<Rightarrow> pi_script inst \<noteq> '''' \<and> pi_command inst \<noteq> [])"

definition install_inits :: "string \<Rightarrow> JellyfinPlugin \<Rightarrow> Container list" where
  "install_inits img p =
     (case jps_install (jp_spec p) of None \<Rightarrow> []
      | Some inst \<Rightarrow> (case installContainer img p inst of Inl e \<Rightarrow> [] | Inr c \<Rightarrow> [c]))"

definition plugin_inits :: "string \<Rightarrow> JellyfinPlugin \<Rightarrow> Container list" where
  "plugin_inits img p =
     (if copies p then [stagingContainer img p] else []) @ install_inits img p
     @ (if copies p then [hookContainer img p] else [])"

definition plugin_mounts :: "JellyfinPlugin \<Rightarrow> VolumeMount list" where
  "plugin_mounts p = (if copies p then [] else [plugin_mount p])"

definition with_mounts :: "Container \<Rightarrow> VolumeMount list \<Rightarrow> Container" where
  "with_mounts c ms = c\<lparr>c_volumeMounts := c_volumeMounts c @ ms\<rparr>"

lemma with_mounts_simps [simp]:
  "with_mounts c [] = c" "with_mounts (with_mounts c ms) ns = with_mounts c (ms @ ns)"
  "add_mount m c = with_mounts c [m]"
  "c_volumeMounts (with_mounts c ms) = c_volumeMounts c @ ms" "c_name (with_mounts c ms) = c_name c"
  "c_env (with_mounts c ms) = c_env c" "c_securityContext (with_mounts c ms) = c_securityContext c"
  by (simp_all add: with_mounts_def add_mount_def)

lemma add_plugin_eq:
  "add_plugin img p (vols, c, inits) =
     (if install_conflict p then Inl (PluginError (jp_name p) ScriptAndCommand)
      else Inr (vols @ [imageVolume p], with_mounts c (plugin_mounts p), inits @ plugin_inits img p))"
  by (simp add: add_plugin_def install_conflict_def plugin_inits_def plugin_mounts_def copies_def
      install_inits_def installContainer_def Let_def split: option.split)

lemma add_plugins_eq:
  "fold_res (add_plugin img) ps (vols, c, inits) =
     (case find install_conflict ps of
        Some p \<Rightarrow> Inl (PluginError (jp_name p) ScriptAndCommand)
      | None \<Rightarrow> Inr (vols @ map imageVolume ps, with_mounts c (concat (map plugin_mounts ps)),
                    inits @ concat (map (plugin_inits img) ps)))"
  by (induction ps arbitrary: vols c inits) (simp_all add: add_plugin_eq split: option.split)

text \<open>Volumes and mounts of the instance's own storage.\<close>

definition cache_part :: "Jellyfin \<Rightarrow> (Volume \<times> VolumeMount) list" where
  "cache_part jf = (case st_cache (js_storage (jf_spec jf)) of None \<Rightarrow> []
     | Some k \<Rightarrow> [(\<lparr>v_name = CacheVolumeName, v_source = VS_PVC (CacheClaimName jf) False\<rparr>,
          mount CacheVolumeName (if pvc_mountPath k \<noteq> '''' then pvc_mountPath k else CacheMountPath) '''' False)])"

definition trickplay_part :: "Jellyfin \<Rightarrow> (Volume \<times> VolumeMount) list" where
  "trickplay_part jf = (case st_trickplay (js_storage (jf_spec jf)) of None \<Rightarrow> []
     | Some k \<Rightarrow> [(\<lparr>v_name = TrickplayVolumeName, v_source = VS_PVC (TrickplayClaimName jf) False\<rparr>,
          mount TrickplayVolumeName (if pvc_mountPath k \<noteq> '''' then pvc_mountPath k else TrickplayMountPath) '''' False)])"

definition web_part :: "Jellyfin \<Rightarrow> (Volume \<times> VolumeMount) list" where
  "web_part jf = (case js_web (jf_spec jf) of None \<Rightarrow> []
     | Some web \<Rightarrow> if EffectiveMode (Some web) = WebModeVolume
          then [(webContentVolume web, mount WebContentVolumeName WebContentMountPath (web_subPath web) True)]
          else [])"

definition storage_parts :: "Jellyfin \<Rightarrow> (Volume \<times> VolumeMount) list" where
  "storage_parts jf =
     (configVolume jf, config_mount) # cache_part jf @ trickplay_part jf
     @ map (mediaVolumeAndMount jf) (st_media (js_storage (jf_spec jf))) @ web_part jf"

text \<open>A container state to which some (volume, mount) pairs have been added.\<close>

definition grown :: "vols_container \<Rightarrow> (Volume \<times> VolumeMount) list \<Rightarrow> vols_container \<Rightarrow> bool" where
  "grown st parts st' \<longleftrightarrow> fst st' = fst st @ map fst parts
     \<and> c_volumeMounts (snd st') = c_volumeMounts (snd st) @ map snd parts
     \<and> c_name (snd st') = c_name (snd st) \<and> c_securityContext (snd st') = c_securityContext (snd st)"

lemma grown_trans: "grown a xs b \<Longrightarrow> grown b ys c \<Longrightarrow> grown a (xs @ ys) c"
  by (auto simp: grown_def)

lemma grown_steps:
  "grown st (cache_part jf) (add_cache jf st)"
  "grown st (trickplay_part jf) (add_trickplay jf st)"
  "grown st (web_part jf) (add_web jf st)"
  by (cases st; simp add: grown_def add_cache_def cache_part_def add_trickplay_def trickplay_part_def
      add_web_def web_part_def Let_def add_env_def split: option.split)+

lemma grown_media: "grown st (map (mediaVolumeAndMount jf) mfs) (add_media jf mfs st)"
proof (induction mfs arbitrary: st)
  case (Cons mf mfs)
  obtain vols c where st: "st = (vols, c)" by (cases st)
  obtain v m where vm: "mediaVolumeAndMount jf mf = (v, m)" by (cases "mediaVolumeAndMount jf mf")
  have "grown st [(v, m)] (vols @ [v], with_mounts c [m])" by (simp add: grown_def st)
  from grown_trans [OF this Cons.IH] show ?case by (simp add: st vm)
qed (simp add: grown_def)

definition storage_pod :: "Jellyfin \<Rightarrow> vols_container" where
  "storage_pod jf = add_web jf (add_media jf (st_media (js_storage (jf_spec jf)))
     (add_trickplay jf (add_cache jf (base_pod jf))))"

lemma storage_pod:
  "fst (storage_pod jf) = map fst (storage_parts jf)"
  "c_volumeMounts (snd (storage_pod jf)) = map snd (storage_parts jf)"
  "c_name (snd (storage_pod jf)) = JellyfinContainerName"
proof -
  have "grown (base_pod jf) (cache_part jf @ trickplay_part jf
     @ map (mediaVolumeAndMount jf) (st_media (js_storage (jf_spec jf))) @ web_part jf) (storage_pod jf)"
    unfolding storage_pod_def 
    by (rule grown_trans [OF grown_steps(1) grown_trans [OF grown_steps(2)
          grown_trans [OF grown_media grown_steps(3)]]])
  then show "fst (storage_pod jf) = map fst (storage_parts jf)"
    and "c_volumeMounts (snd (storage_pod jf)) = map snd (storage_parts jf)"
    and "c_name (snd (storage_pod jf)) = JellyfinContainerName"
    by (auto simp: grown_def base_pod_def storage_parts_def)
qed

lemma BuildPodTemplateSpec_eq:
  "BuildPodTemplateSpec jf plugins =
     (case find install_conflict (sorted_plugins plugins) of
        Some p \<Rightarrow> Inl (PluginError (jp_name p) ScriptAndCommand)
      | None \<Rightarrow> Inr (finish_pod jf (fst (storage_pod jf) @ map imageVolume (sorted_plugins plugins),
                  with_mounts (snd (storage_pod jf)) (concat (map plugin_mounts (sorted_plugins plugins))),
                  concat (map (plugin_inits (server_image jf)) (sorted_plugins plugins)))))"
  unfolding BuildPodTemplateSpec_def storage_pod_def [symmetric]
  by (simp add: add_plugins_eq split_beta split: option.split)

lemma finish_pod:
  "ps_volumes (pt_spec (finish_pod jf (vols, c, inits))) = vols @ accel_volumes (js_hardwareAcceleration (jf_spec jf))"
  "ps_initContainers (pt_spec (finish_pod jf (vols, c, inits)))
     = map (\<lambda>ic. applyContainerSecurity ic (js_podSecurity (jf_spec jf))) inits"
  by (simp_all add: finish_pod_def split_beta Let_def pod_simps)

lemma finish_pod_container:
  obtains c' where "ps_containers (pt_spec (finish_pod jf (vols, c, inits))) = [c']"
    and "c_name c' = c_name c"
    and "c_volumeMounts c' = c_volumeMounts c @ accel_mounts (js_hardwareAcceleration (jf_spec jf))"
    and "restricted (js_podSecurity (jf_spec jf)) c'"
proof -
  define pod where "pod = no_pod\<lparr>ps_containers := [c], ps_initContainers := inits, ps_volumes := vols,
           ps_imagePullSecrets := js_imagePullSecrets (jf_spec jf), ps_securityContext := Some seccomp_default\<rparr>"
  define c1 where "c1 = fst (applyPodSecurity c pod (js_podSecurity (jf_spec jf)))"
  define pod2 where "pod2 = (snd (applyPodSecurity c pod (js_podSecurity (jf_spec jf))))
    \<lparr>ps_containers := [c1], ps_initContainers := map (\<lambda>ic. applyContainerSecurity ic (js_podSecurity (jf_spec jf))) inits\<rparr>"
  have f: "pt_spec (finish_pod jf (vols, c, inits)) = applyHardwareAccel pod2 (js_hardwareAcceleration (jf_spec jf))"
    by (simp add: finish_pod_def split_beta Let_def pod_simps pod2_def c1_def pod_def)
  have "ps_containers pod2 = [c1]" by (simp add: pod2_def)
  then obtain c' where "ps_containers (applyHardwareAccel pod2 (js_hardwareAcceleration (jf_spec jf))) = [c']"
    and "c_name c' = c_name c1" and sc: "c_securityContext c' = c_securityContext c1"
    and "c_volumeMounts c' = c_volumeMounts c1 @ accel_mounts (js_hardwareAcceleration (jf_spec jf))"
    by (rule applyHardwareAccel_container)
  moreover have "restricted (js_podSecurity (jf_spec jf)) c1"
    unfolding c1_def by (rule pod_pass.yields)
  then have "restricted (js_podSecurity (jf_spec jf)) c'" by (simp add: restricted_def sc)
  ultimately show thesis using that [of c'] f by (simp add: c1_def pod_simps)
qed

end
