(* ===== verification/Builder_Correct.thy ===== *)
theory Builder_Correct
  imports Builder
begin

text \<open>
  Correctness of the pod builder: what a built Deployment contains, that it depends only on
  the set of plugins, when building fails, that every volume mount resolves, that volume
  names do not clash, in which order the init containers run, and that every container
  has the restricted security profile.
\<close>

section \<open>The built template\<close>

lemma BuildDeployment_Inr:
  assumes "BuildDeployment jf ps = Inr d"
  obtains c where "ps_containers (pt_spec (d_template d)) = [c]"
    and "c_name c = JellyfinContainerName"
    and "c_volumeMounts c = map snd (storage_parts jf) @ concat (map plugin_mounts (sorted_plugins ps))
           @ accel_mounts (js_hardwareAcceleration (jf_spec jf))"
    and "restricted (js_podSecurity (jf_spec jf)) c"
    and "ps_volumes (pt_spec (d_template d)) = map fst (storage_parts jf)
           @ map imageVolume (sorted_plugins ps) @ accel_volumes (js_hardwareAcceleration (jf_spec jf))"
    and "ps_initContainers (pt_spec (d_template d))
           = map (\<lambda>ic. applyContainerSecurity ic (js_podSecurity (jf_spec jf)))
               (concat (map (plugin_inits (server_image jf)) (sorted_plugins ps)))"
    and "d_selector d = InstanceSelectorLabels jf" and "pt_labels (d_template d) = InstanceSelectorLabels jf"
    and "\<forall>p \<in> set ps. \<not> install_conflict p"
proof -
  let ?st = "(fst (storage_pod jf) @ map imageVolume (sorted_plugins ps),
     with_mounts (snd (storage_pod jf)) (concat (map plugin_mounts (sorted_plugins ps))),
     concat (map (plugin_inits (server_image jf)) (sorted_plugins ps)))"
  from assms have none: "find install_conflict (sorted_plugins ps) = None"
    and d: "d_template d = finish_pod jf ?st" "d_selector d = InstanceSelectorLabels jf"
    by (auto simp: BuildDeployment_def BuildPodTemplateSpec_eq split: option.splits)
  obtain c where c: "ps_containers (pt_spec (finish_pod jf ?st)) = [c]"
    "c_name c = c_name (with_mounts (snd (storage_pod jf)) (concat (map plugin_mounts (sorted_plugins ps))))"
    "c_volumeMounts c = c_volumeMounts (with_mounts (snd (storage_pod jf)) (concat (map plugin_mounts (sorted_plugins ps))))
       @ accel_mounts (js_hardwareAcceleration (jf_spec jf))"
    "restricted (js_podSecurity (jf_spec jf)) c"
    by (rule finish_pod_container)
  have "\<forall>p \<in> set ps. \<not> install_conflict p"
    using none by (simp add: find_None_iff sorted_plugins_def)
  then show thesis
    using that [of c] c d
    by (simp add: finish_pod storage_pod) (simp add: finish_pod_def split_beta Let_def)
qed

lemma BuildDeployment_returns:
  assumes "\<forall>p \<in> set ps. \<not> install_conflict p"
  obtains d where "BuildDeployment jf ps = Inr d"
proof -
  have "find install_conflict (sorted_plugins ps) = None"
    using assms by (simp add: find_None_iff sorted_plugins_def)
  then show thesis using that by (simp add: BuildDeployment_def BuildPodTemplateSpec_eq)
qed

lemma find_sort_key:
  assumes "find P (sort_key f xs) = Some p"
  shows "p \<in> set xs" and "P p" and "\<forall>q \<in> set xs. P q \<longrightarrow> f p \<le> f q"
proof -
  obtain i where i: "i < length xs" "P (sort_key f xs ! i)" "p = sort_key f xs ! i"
    and before: "\<forall>j < i. \<not> P (sort_key f xs ! j)"
    using assms by (auto simp: find_Some_iff)
  show "p \<in> set xs" using i by (metis length_sort nth_mem set_sort)
  show "P p" using i by simp
  show "\<forall>q \<in> set xs. P q \<longrightarrow> f p \<le> f q"
  proof (intro ballI impI)
    fix q assume "q \<in> set xs" "P q"
    then obtain j where j: "j < length xs" "sort_key f xs ! j = q"
      by (metis in_set_conv_nth length_sort set_sort)
    with before \<open>P q\<close> have "i \<le> j" by (meson leI)
    then have "map f (sort_key f xs) ! i \<le> map f (sort_key f xs) ! j"
      using j by (intro sorted_nth_mono) auto
    then show "f p \<le> f q" using i j by simp
  qed
qed

text \<open>
  C23. The Deployment depends only on which plugins are bound, not on the order in which the
  API server lists them: two listings of the same plugins, with pairwise different names,
  give the same Deployment (or the same error), so a reconcile never causes a spurious
  rollout.
\<close>

theorem BuildDeployment_order_independent:
  assumes "mset ps = mset qs" and "distinct (map jp_name ps)"
  shows "BuildDeployment jf ps = BuildDeployment jf qs"
  using sort_key_perm_eq [OF assms]
  by (simp add: BuildDeployment_def BuildPodTemplateSpec_def sorted_plugins_def)

theorem BuildDeployment_order_independent_witness:
  "BuildDeployment sample_jf [sample_plugin ''b'', sample_plugin ''a'']
     = BuildDeployment sample_jf [sample_plugin ''a'', sample_plugin ''b'']"
  by (rule BuildDeployment_order_independent) (simp_all add: sample_plugin_def)

text \<open>
  C35. Building fails exactly when some plugin sets both an install script and an install command,
  and the error names the first such plugin in name order; with no such plugin a Deployment is
  returned.
\<close>

theorem BuildDeployment_fails_iff:
  "BuildDeployment jf ps = Inl e \<longleftrightarrow>
     (\<exists>p \<in> set ps. install_conflict p \<and> e = PluginError (jp_name p) ScriptAndCommand
        \<and> list_all (\<lambda>q. \<not> install_conflict q \<or> jp_name p \<le> jp_name q) ps)"
proof (cases "find install_conflict (sorted_plugins ps)")
  case None
  then have "\<forall>p \<in> set ps. \<not> install_conflict p"
    by (simp add: find_None_iff sorted_plugins_def)
  with None show ?thesis
    by (auto simp: BuildDeployment_def BuildPodTemplateSpec_eq bind_res_Inl)
next
  case (Some p)
  then have p: "p \<in> set ps" "install_conflict p"
    "\<forall>q \<in> set ps. install_conflict q \<longrightarrow> jp_name p \<le> jp_name q"
    using find_sort_key [of install_conflict jp_name ps p] by (auto simp: sorted_plugins_def)
  then have "jp_name q = jp_name p"
    if "q \<in> set ps" "install_conflict q" "\<forall>r \<in> set ps. install_conflict r \<longrightarrow> jp_name q \<le> jp_name r" for q
    using that by (meson order.antisym)
  note same = this
  have "BuildDeployment jf ps = Inl (PluginError (jp_name p) ScriptAndCommand)"
    using Some by (simp add: BuildDeployment_def BuildPodTemplateSpec_eq)
  moreover have "(\<exists>q \<in> set ps. install_conflict q \<and> e = PluginError (jp_name q) ScriptAndCommand
      \<and> list_all (\<lambda>r. \<not> install_conflict r \<or> jp_name q \<le> jp_name r) ps)
    \<longleftrightarrow> e = PluginError (jp_name p) ScriptAndCommand" (is "?L \<longleftrightarrow> ?R")
  proof
    show ?R if ?L using that same unfolding list_all_iff by metis
    show ?L if ?R using that p unfolding list_all_iff by blast
  qed
  ultimately show ?thesis by auto
qed

theorem BuildDeployment_fails_iff_witness:
  "\<not> is_ok (BuildDeployment sample_jf [(sample_plugin ''a'')\<lparr>jp_spec :=
      no_plugin_spec\<lparr>jps_install := Some (no_install\<lparr>pi_script := ''x'', pi_command := [''y'']\<rparr>)\<rparr>\<rparr>])"
  (is "\<not> is_ok (BuildDeployment _ [?p])")
proof -
  have "BuildDeployment sample_jf [?p] = Inl (PluginError ''a'' ScriptAndCommand)"
    unfolding BuildDeployment_fails_iff by (simp add: install_conflict_def sample_defs)
  then show ?thesis by simp
qed

section \<open>Volumes and mounts\<close>

lemma part_names:
  "vp \<in> set (storage_parts jf) \<Longrightarrow> v_name (fst vp) = vm_name (snd vp)"
  by (auto simp: storage_parts_def configVolume_def config_mount_def cache_part_def trickplay_part_def
      web_part_def webContentVolume_def mediaVolumeAndMount_def mount_def Let_def split: option.splits if_splits)

definition user_mounts :: "JellyfinPlugin \<Rightarrow> VolumeMount list" where
  "user_mounts p = (case jps_install (jp_spec p) of None \<Rightarrow> [] | Some inst \<Rightarrow> pi_volumeMounts inst)"

lemma install_inits_mounts:
  "ic \<in> set (install_inits img p) \<Longrightarrow> c_volumeMounts ic = config_mount # user_mounts p \<and> c_name ic = installContainerName p"
  by (auto simp: install_inits_def installContainer_def user_mounts_def Let_def
      split: option.splits sum.splits if_splits)

lemma plugin_inits_mounts:
  assumes "ic \<in> set (plugin_inits img p)" and "m \<in> set (c_volumeMounts ic)"
  shows "vm_name m \<in> {ConfigVolumeName, imageVolumeName p} \<or> c_name ic \<in> {installContainerName p, hookContainerName p} \<and> m \<in> set (user_mounts p)"
proof -
  have "m \<in> {config_mount} \<or> vm_name m = imageVolumeName p \<or> c_name ic \<in> {installContainerName p, hookContainerName p} \<and> m \<in> set (user_mounts p)"
    using assms install_inits_mounts
    by (auto simp: plugin_inits_def stagingContainer_def hookContainer_def user_mounts_def mount_def Let_def
        split: option.splits if_splits)
  then show ?thesis by (auto simp: config_mount_def mount_def)
qed

lemma plugin_inits_config:
  "ic \<in> set (plugin_inits img p) \<Longrightarrow> config_mount \<in> set (c_volumeMounts ic)"
  using install_inits_mounts
  by (fastforce simp: plugin_inits_def stagingContainer_def hookContainer_def Let_def
      split: option.splits if_splits)

lemma sorted_plugins_set [simp]: "set (sorted_plugins ps) = set ps"
  by (simp add: sorted_plugins_def)

lemma imageVolume_name: "v_name (imageVolume p) = imageVolumeName p"
  by (simp add: imageVolume_def Let_def)

text \<open>The mounts of the server container, against the volumes of the pod.\<close>

lemma server_mounts_resolve:
  assumes "m \<in> set (map snd (storage_parts jf) @ concat (map plugin_mounts ps) @ accel_mounts hw)"
  shows "vm_name m \<in> v_name ` set (map fst (storage_parts jf) @ map imageVolume ps @ accel_volumes hw)"
proof -
  from assms consider (part) vp where "vp \<in> set (storage_parts jf)" "m = snd vp"
    | (plugin) p where "p \<in> set ps" "m \<in> set (plugin_mounts p)" | (device) "m \<in> set (accel_mounts hw)" by auto
  then show ?thesis
  proof cases
    case part
    then have "vm_name m = v_name (fst vp)" by (simp add: part_names)
    with part(1) show ?thesis by auto
  next
    case plugin
    then have "vm_name m = v_name (imageVolume p)"
      by (auto simp: plugin_mounts_def plugin_mount_def mount_def imageVolume_name split: if_splits)
    with plugin(1) show ?thesis by simp
  next
    case device
    then have "vm_name m \<in> set (map v_name (accel_volumes hw))" unfolding accel_mounts_volumes [symmetric] by simp
    then show ?thesis by auto
  qed
qed

text \<open>
  C21. Every mount of a built Deployment that the builder itself makes names a volume of the pod: all mounts of the server and
  of the staging containers do, and of an install or hook container all but those that the install block of its plugin lists, which
  are the user's. The main container mounts \<open>/config\<close>
  first, so that nested mounts come after it, and every init container mounts \<open>/config\<close> too.
\<close>

theorem BuildDeployment_mounts_resolve:
  assumes "BuildDeployment jf ps = Inr d"
    and "c \<in> set (ps_containers (pt_spec (d_template d)) @ ps_initContainers (pt_spec (d_template d)))"
    and "m \<in> set (c_volumeMounts c)"
  shows "(vm_name m \<in> v_name ` set (ps_volumes (pt_spec (d_template d))) 
      \<or> (\<exists>p \<in> set ps. c_name c \<in> {installContainerName p, hookContainerName p} \<and> m \<in> set (user_mounts p)))
    \<and> config_mount \<in> set (c_volumeMounts c)
    \<and> c_volumeMounts (hd (ps_containers (pt_spec (d_template d)))) ! 0 = config_mount"
proof -
  let ?vols = "ps_volumes (pt_spec (d_template d))"
  obtain j where j: "ps_containers (pt_spec (d_template d)) = [j]"
    and jm: "c_volumeMounts j = map snd (storage_parts jf) @ concat (map plugin_mounts (sorted_plugins ps))
           @ accel_mounts (js_hardwareAcceleration (jf_spec jf))"
    and v: "?vols = map fst (storage_parts jf)
           @ map imageVolume (sorted_plugins ps) @ accel_volumes (js_hardwareAcceleration (jf_spec jf))"
    and i: "ps_initContainers (pt_spec (d_template d)) = map (\<lambda>ic. applyContainerSecurity ic (js_podSecurity (jf_spec jf)))
               (concat (map (plugin_inits (server_image jf)) (sorted_plugins ps)))"
    using assms(1) by (rule BuildDeployment_Inr)
  have first: "c_volumeMounts j ! 0 = config_mount" "config_mount \<in> set (c_volumeMounts j)"
    by (simp_all add: jm storage_parts_def)
  have img: "imageVolumeName p \<in> v_name ` set ?vols" if "p \<in> set ps" for p
    unfolding v using that by (simp flip: imageVolume_name)
  have cfg: "ConfigVolumeName \<in> v_name ` set ?vols"
    unfolding v by (simp add: storage_parts_def configVolume_def)
  consider (main) "c = j" | (init) p ic where "p \<in> set ps" "ic \<in> set (plugin_inits (server_image jf) p)"
      "c = applyContainerSecurity ic (js_podSecurity (jf_spec jf))"
    using assms(2) unfolding j i by auto
  then show ?thesis
  proof cases
    case main
    have "vm_name m \<in> v_name ` set ?vols" using server_mounts_resolve assms(3) unfolding main jm v by blast
    with first j main show ?thesis by simp
  next
    case init
    with assms(3) have "m \<in> set (c_volumeMounts ic)" by (simp add: pod_simps)
    from plugin_inits_mounts [OF init(2) this] plugin_inits_config [OF init(2)] init first j img cfg
    show ?thesis by (auto simp: pod_simps)
  qed
qed

theorem BuildDeployment_mounts_resolve_witness:
  "\<exists>d. BuildDeployment sample_jf [sample_plugin ''a''] = Inr d
     \<and> c_volumeMounts (hd (ps_containers (pt_spec (d_template d)))) ! 0 = config_mount"
proof -
  have "\<forall>p \<in> set [sample_plugin ''a'']. \<not> install_conflict p" by (simp add: install_conflict_def sample_defs)
  then obtain d where d: "BuildDeployment sample_jf [sample_plugin ''a''] = Inr d" by (rule BuildDeployment_returns)
  then obtain c where "ps_containers (pt_spec (d_template d)) = [c]" "config_mount \<in> set (c_volumeMounts c)"
    by (rule BuildDeployment_Inr) (simp add: storage_parts_def)
  with BuildDeployment_mounts_resolve [OF d, of c config_mount] d show ?thesis by auto
qed

section \<open>Distinct names\<close>

text \<open>Generated names are told apart by the part before their first dash.\<close>

definition name_kind :: "string \<Rightarrow> string" where
  "name_kind s = takeWhile (\<lambda>c. \<not> dash c) s"

lemma distinct_blocks:
  assumes "distinct (map fst bs)" and "\<forall>(k, ns) \<in> set bs. distinct ns \<and> (\<forall>n \<in> set ns. name_kind n = k)"
  shows "distinct (concat (map snd bs))"
  using assms
proof (induction bs)
  case (Cons b bs)
  obtain k ns where b: "b = (k, ns)" by (cases b)
  have "set ns \<inter> set (concat (map snd bs)) = {}"
    using Cons.prems unfolding b by (fastforce simp: image_iff)
  with Cons b show ?case by auto
qed simp

lemma kind_simps [names_simps]:
  "name_kind (imageVolumeName p) = ''plugin''" "name_kind (mediaVolumeName mf) = ''media''"
  "name_kind (stagingContainerName p) = ''stage''" "name_kind (installContainerName p) = ''install''"
  "name_kind (hookContainerName p) = ''hook''"
  unfolding name_kind_def imageVolumeName_def mediaVolumeName_def stagingContainerName_def
    installContainerName_def hookContainerName_def
  by (rule plugin_vol.head_is_pre media_vol.head_is_pre stage_ctr.head_is_pre
      install_ctr.head_is_pre hook_ctr.head_is_pre)+

lemma kind_consts [names_simps]:
  "name_kind ConfigVolumeName = ''config''" "name_kind CacheVolumeName = ''cache''"
  "name_kind TrickplayVolumeName = ''trickplay''" "name_kind WebContentVolumeName = ''jellyfin''"
  "name_kind DRIDeviceVolumeName = ''dri''" "name_kind JellyfinContainerName = ''jellyfin''"
  by code_simp+

lemma optional_part_names:
  "map (v_name \<circ> fst) (cache_part jf) \<in> {[], [CacheVolumeName]}"
  "map (v_name \<circ> fst) (trickplay_part jf) \<in> {[], [TrickplayVolumeName]}"
  "map (v_name \<circ> fst) (web_part jf) \<in> {[], [WebContentVolumeName]}"
  "map v_name (accel_volumes hw) \<in> {[], [DRIDeviceVolumeName]}"
  by (auto simp: cache_part_def trickplay_part_def web_part_def webContentVolume_def accel_volumes_def
      split: option.split)

definition nameable :: "string \<Rightarrow> bool" where
  "nameable s \<longleftrightarrow> plain_label s \<and> length s \<le> 55"

lemma plugin_names_inj:
  assumes "nameable (jp_name p)" and "nameable (jp_name q)"
  shows "imageVolumeName p = imageVolumeName q \<longleftrightarrow> jp_name p = jp_name q"
    and "stagingContainerName p = stagingContainerName q \<longleftrightarrow> jp_name p = jp_name q"
    and "installContainerName p = installContainerName q \<longleftrightarrow> jp_name p = jp_name q"
    and "hookContainerName p = hookContainerName q \<longleftrightarrow> jp_name p = jp_name q"
  using assms plugin_vol.name_inj stage_ctr.name_inj install_ctr.name_inj hook_ctr.name_inj
  by (auto simp: imageVolumeName_def stagingContainerName_def installContainerName_def
      hookContainerName_def nameable_def plugin_vol.fits_def stage_ctr.fits_def
      install_ctr.fits_def hook_ctr.fits_def)

lemma media_names_distinct:
  assumes "distinct (map mf_name mfs)" and "\<forall>mf \<in> set mfs. nameable (mf_name mf)"
  shows "distinct (map mediaVolumeName mfs)"
proof -
  have "distinct (map (prefixed ''media'') (map mf_name mfs))"
    using assms by (intro media_vol.distinct_names) (auto simp: nameable_def media_vol.fits_def)
  then show ?thesis by (simp add: mediaVolumeName_def [abs_def] comp_def)
qed

lemma image_names_distinct:
  assumes "distinct (map jp_name ps)" and "\<forall>p \<in> set ps. nameable (jp_name p)"
  shows "distinct (map imageVolumeName ps)"
proof -
  have "distinct (map (prefixed ''plugin'') (map jp_name ps))"
    using assms by (intro plugin_vol.distinct_names) (auto simp: nameable_def plugin_vol.fits_def)
  then show ?thesis by (simp add: imageVolumeName_def [abs_def] comp_def)
qed

lemma distinct_concat_map:
  assumes "distinct xs" and "\<forall>x \<in> set xs. distinct (f x)"
    and "\<forall>x \<in> set xs. \<forall>y \<in> set xs. x \<noteq> y \<longrightarrow> set (f x) \<inter> set (f y) = {}"
  shows "distinct (concat (map f xs))"
  using assms by (induction xs) (simp, fastforce)

definition has_install :: "JellyfinPlugin \<Rightarrow> bool" where
  "has_install p = (case jps_install (jp_spec p) of None \<Rightarrow> False
     | Some inst \<Rightarrow> pi_script inst \<noteq> '''' \<or> pi_command inst \<noteq> [])"

definition init_names :: "JellyfinPlugin \<Rightarrow> string list" where
  "init_names p =
     (if copies p then [stagingContainerName p] else [])
     @ (if has_install p then [installContainerName p] else [])
     @ (if copies p then [hookContainerName p] else [])"

lemma plugin_inits_names:
  "\<not> install_conflict p \<Longrightarrow> map c_name (plugin_inits img p) = init_names p"
  by (auto simp: plugin_inits_def init_names_def install_inits_def has_install_def install_conflict_def
      installContainer_def stagingContainer_def hookContainer_def Let_def split: option.splits)

lemma init_names_kinds:
  "distinct (init_names p)" "n \<in> set (init_names p) \<Longrightarrow> name_kind n \<in> {''stage'', ''install'', ''hook''}"
proof -
  have "distinct [stagingContainerName p, installContainerName p, hookContainerName p]"
    using kind_simps(3-5) [of p] by auto
  then show "distinct (init_names p)" by (auto simp: init_names_def)
  show "name_kind n \<in> {''stage'', ''install'', ''hook''}" if "n \<in> set (init_names p)"
    using that by (auto simp: init_names_def names_simps split: if_splits)
qed

lemma init_names_disjoint:
  assumes "nameable (jp_name p)" and "nameable (jp_name q)" and "jp_name p \<noteq> jp_name q"
  shows "set (init_names p) \<inter> set (init_names q) = {}"
proof (rule ccontr)
  assume "set (init_names p) \<inter> set (init_names q) \<noteq> {}"
  then obtain n where "n \<in> set (init_names p)" "n \<in> set (init_names q)" by blast
  moreover have "stagingContainerName p \<noteq> stagingContainerName q"
    "installContainerName p \<noteq> installContainerName q" "hookContainerName p \<noteq> hookContainerName q"
    using plugin_names_inj [OF assms(1,2)] assms(3) by auto
  ultimately show False
    using kind_simps(3-5) [of p] kind_simps(3-5) [of q] by (auto simp: init_names_def split: if_splits)
qed

lemma init_names_distinct:
  assumes "distinct (map jp_name ps)" and "\<forall>p \<in> set ps. nameable (jp_name p)"
  shows "distinct (JellyfinContainerName # concat (map init_names ps))"
proof -
  have "distinct (concat (map init_names ps))"
  proof (intro distinct_concat_map ballI impI)
    show "distinct ps" using assms(1) by (simp add: distinct_map)
    show "set (init_names x) \<inter> set (init_names y) = {}" if "x \<in> set ps" "y \<in> set ps" "x \<noteq> y" for x y
      using that assms by (intro init_names_disjoint) (auto simp: distinct_map inj_on_def)
  qed (rule init_names_kinds)
  moreover have "JellyfinContainerName \<notin> set (init_names p)" for p
    using init_names_kinds(2) [of JellyfinContainerName p] kind_consts(6) by auto
  ultimately show ?thesis by auto
qed

text \<open>
  C22. A built pod has no two volumes and no two containers of one name, whatever optional storage,
  web mode and hardware acceleration are configured, provided that the plugins have different
  names, the media folders have different names, and these names are labels without adjacent
  dashes of at most 55 bytes. (The names of media folders are free text, and without the last condition two may share a
  volume name, see \<open>media_volume_collision\<close>.) Per plugin, in name order, the init containers are: staging
  copy, install, hook runner, each present exactly when the plugin asks for it.
\<close>

theorem BuildDeployment_names_distinct:
  assumes "BuildDeployment jf ps = Inr d"
    and "distinct (map jp_name ps)" and "\<forall>p \<in> set ps. nameable (jp_name p)"
    and "distinct (map mf_name (st_media (js_storage (jf_spec jf))))"
    and "\<forall>mf \<in> set (st_media (js_storage (jf_spec jf))). nameable (mf_name mf)"
  shows "distinct (map v_name (ps_volumes (pt_spec (d_template d))))
    \<and> distinct (map c_name (ps_containers (pt_spec (d_template d)) @ ps_initContainers (pt_spec (d_template d))))
    \<and> map c_name (ps_initContainers (pt_spec (d_template d))) = concat (map init_names (sort_key jp_name ps))"
proof -
  let ?s = "sorted_plugins ps" and ?media = "st_media (js_storage (jf_spec jf))"
  let ?hw = "js_hardwareAcceleration (jf_spec jf)"
  obtain c where c: "ps_containers (pt_spec (d_template d)) = [c]" "c_name c = JellyfinContainerName"
    and v: "ps_volumes (pt_spec (d_template d)) = map fst (storage_parts jf) @ map imageVolume ?s @ accel_volumes ?hw"
    and i: "ps_initContainers (pt_spec (d_template d)) = map (\<lambda>ic. applyContainerSecurity ic (js_podSecurity (jf_spec jf)))
               (concat (map (plugin_inits (server_image jf)) ?s))"
    and ok: "\<forall>p \<in> set ps. \<not> install_conflict p"
    using assms(1) by (rule BuildDeployment_Inr)
  have "mset (map jp_name ?s) = mset (map jp_name ps)" by (simp add: sorted_plugins_def)
  then have ds: "distinct (map jp_name ?s)" using assms(2) by (metis mset_eq_imp_distinct_iff)
  define bs where "bs =
    [(''config'', [ConfigVolumeName]), (''cache'', map (v_name \<circ> fst) (cache_part jf)),
     (''trickplay'', map (v_name \<circ> fst) (trickplay_part jf)), (''media'', map mediaVolumeName ?media),
     (''jellyfin'', map (v_name \<circ> fst) (web_part jf)), (''plugin'', map imageVolumeName ?s),
     (''dri'', map v_name (accel_volumes ?hw))]"
  have "map v_name (ps_volumes (pt_spec (d_template d))) = concat (map snd bs)"
    by (simp add: v bs_def storage_parts_def configVolume_def mediaVolumeAndMount_def imageVolume_def Let_def comp_def)
  moreover have "distinct (concat (map snd bs))"
  proof (rule distinct_blocks)
    show "\<forall>(k, ns) \<in> set bs. distinct ns \<and> (\<forall>n \<in> set ns. name_kind n = k)"
      using optional_part_names(1-3) [of jf] optional_part_names(4) [of ?hw]
        media_names_distinct [OF assms(4,5)] image_names_distinct [OF ds] assms(3)
      by (auto simp: bs_def names_simps)
  qed (simp add: bs_def)
  moreover have names: "map c_name (ps_initContainers (pt_spec (d_template d))) = concat (map init_names ?s)"
  proof -
    have "map (map c_name \<circ> plugin_inits (server_image jf)) ?s = map init_names ?s"
      using ok by (simp add: plugin_inits_names)
    then show ?thesis by (simp del: map_eq_conv add: i map_concat comp_def pod_simps)
  qed
  moreover have "distinct (JellyfinContainerName # concat (map init_names ?s))"
    using ds assms(3) by (intro init_names_distinct) auto
  ultimately show ?thesis using c by (simp add: sorted_plugins_def)
qed

theorem BuildDeployment_names_distinct_witness:
  "\<exists>d. BuildDeployment sample_jf [sample_plugin ''a'', sample_plugin ''b''] = Inr d
     \<and> distinct (map v_name (ps_volumes (pt_spec (d_template d))))"
proof -
  let ?ps = "[sample_plugin ''a'', sample_plugin ''b'']"
  have "\<forall>p \<in> set ?ps. \<not> install_conflict p" by (simp add: install_conflict_def sample_defs)
  then obtain d where "BuildDeployment sample_jf ?ps = Inr d"
    by (rule BuildDeployment_returns)
  moreover have "plain_label ''a''" "plain_label ''b''" by code_simp+
  ultimately show ?thesis
    using BuildDeployment_names_distinct [of sample_jf ?ps d] by (auto simp: sample_defs nameable_def)
qed

text \<open>Two media folders of different names, both of which the custom resource admits, with one volume name: the pod has it twice.\<close>

lemma media_volume_collision:
  assumes "st_media (js_storage (jf_spec jf)) = [mf, mf']" and "mf_name mf = ''TV Shows''" and "mf_name mf' = ''tv-shows''"
    and "BuildDeployment jf ps = Inr d"
  shows "mf_name mf \<noteq> mf_name mf' \<and> \<not> distinct (map v_name (ps_volumes (pt_spec (d_template d))))"
proof -
  have "prefixed ''media'' ''TV Shows'' = prefixed ''media'' ''tv-shows''" by code_simp
  then have "\<not> distinct (map v_name (map fst (storage_parts jf)))"
    by (simp add: storage_parts_def assms(1-3) mediaVolumeAndMount_def mediaVolumeName_def Let_def)
  then show ?thesis using assms(2-4) by (auto elim!: BuildDeployment_Inr)
qed

section \<open>Security\<close>

text \<open>
  C20. Every container of a built Deployment, the server and all init containers, forbids privilege
  escalation; unless the instance sets \<open>runAsNonRoot: false\<close> it also runs as the requested (or
  default) non-root user and group with every capability dropped.
\<close>

theorem BuildDeployment_restricted:
  assumes "BuildDeployment jf ps = Inr d"
  shows "list_all (restricted (js_podSecurity (jf_spec jf)))
     (ps_containers (pt_spec (d_template d)) @ ps_initContainers (pt_spec (d_template d)))"
proof -
  obtain c where "ps_containers (pt_spec (d_template d)) = [c]"
    and "restricted (js_podSecurity (jf_spec jf)) c"
    and "ps_initContainers (pt_spec (d_template d)) = map (\<lambda>ic. applyContainerSecurity ic (js_podSecurity (jf_spec jf)))
               (concat (map (plugin_inits (server_image jf)) (sorted_plugins ps)))"
    using assms by (rule BuildDeployment_Inr)
  then show ?thesis using container_pass.yields by (simp add: list_all_iff)
qed

theorem BuildDeployment_restricted_witness:
  "\<exists>d. BuildDeployment sample_jf [sample_plugin ''a''] = Inr d
     \<and> list_all (restricted None) (ps_containers (pt_spec (d_template d)) @ ps_initContainers (pt_spec (d_template d)))"
proof -
  have "\<forall>p \<in> set [sample_plugin ''a'']. \<not> install_conflict p" by (simp add: install_conflict_def sample_defs)
  then obtain d where "BuildDeployment sample_jf [sample_plugin ''a''] = Inr d" by (rule BuildDeployment_returns)
  with BuildDeployment_restricted [OF this] show ?thesis by (simp add: sample_jf_def no_jf_spec_def)
qed

section \<open>Where plugin files go\<close>

lemma plugins_dir: "PluginsDirPath = ''/'' @ join ''/'' [''config'', ''plugins'']"
  by (simp add: PluginsDirPath_def)

lemma folder_nonempty: "PluginFolderName m \<noteq> ''''"
  by (simp add: PluginFolderName_def Let_def)

text \<open>
  C24. A plugin whose folder name has no \<open>..\<close> component is mounted at or below \<open>/config/plugins\<close>, and one
  whose folder name is a single proper component is mounted directly below it, at that name.
\<close>

theorem plugin_mount_confined:
  assumes "''..'' \<notin> set (split_char CHR ''/'' (PluginFolderName (EffectiveMeta p)))"
  shows "(\<exists>cs. vm_mountPath (plugin_mount p) = join ''/'' ([''/config'', ''plugins''] @ cs))
    \<and> (CHR ''/'' \<notin> set (PluginFolderName (EffectiveMeta p)) \<and> PluginFolderName (EffectiveMeta p) \<noteq> ''.'' \<longrightarrow>
        vm_mountPath (plugin_mount p) = PluginsDirPath @ ''/'' @ PluginFolderName (EffectiveMeta p))"
proof -
  let ?f = "PluginFolderName (EffectiveMeta p)"
  have ds: "\<forall>d \<in> set [''config'', ''plugins'']. real_comp d \<and> d \<noteq> ''..'' \<and> CHR ''/'' \<notin> set d"
    by (simp add: real_comp_def)
  have path: "path_join [PluginsDirPath, ?f]
      = ''/'' @ join ''/'' ([''config'', ''plugins''] @ filter real_comp (split_char CHR ''/'' ?f))"
    unfolding plugins_dir using assms ds folder_nonempty by (intro path_join_abs) auto
  moreover have "''/'' @ join ''/'' ([''config'', ''plugins''] @ cs) = join ''/'' ([''/config'', ''plugins''] @ cs)" for cs
    by simp
  moreover have "path_join [PluginsDirPath, ?f] = PluginsDirPath @ ''/'' @ ?f"
    if "CHR ''/'' \<notin> set ?f" "?f \<noteq> ''.''"
    using that folder_nonempty unfolding path by (simp add: split_char_no_sep real_comp_def PluginsDirPath_def)
  ultimately show ?thesis by (auto simp: plugin_mount_def mount_def)
qed

theorem plugin_mount_confined_witness:
  "vm_mountPath (plugin_mount ((sample_plugin ''a'')\<lparr>jp_spec :=
     no_plugin_spec\<lparr>jps_meta := no_meta\<lparr>pm_name := ''Distributed Transcoding'', pm_version := ''0.0.1.0''\<rparr>\<rparr>\<rparr>))
   = ''/config/plugins/Distributed Transcoding_0.0.1.0''"
  (is "vm_mountPath (plugin_mount ?p) = _")
proof -
  have f: "PluginFolderName (EffectiveMeta ?p) = ''Distributed Transcoding_0.0.1.0''"
    by (simp add: PluginFolderName_def EffectiveMeta_def Let_def)
  have s: "CHR ''/'' \<notin> set ''Distributed Transcoding_0.0.1.0''" by simp
  show ?thesis
    using plugin_mount_confined [of ?p] s unfolding f split_char_no_sep [OF s] PluginsDirPath_def by simp
qed

text \<open>
  The folder name is not restricted to one path component: a plugin whose metadata name climbs
  with \<open>..\<close> is mounted outside the plugins directory, over another part of the file system.
\<close>

theorem plugin_mount_escapes:
  "vm_mountPath (plugin_mount ((sample_plugin ''a'')\<lparr>jp_spec :=
     no_plugin_spec\<lparr>jps_meta := no_meta\<lparr>pm_name := ''../../jellyfin''\<rparr>\<rparr>\<rparr>)) = ''/jellyfin''"
  (is "vm_mountPath (plugin_mount ?p) = _")
proof -
  have "PluginFolderName (EffectiveMeta ?p) = ''../../jellyfin''"
    by (simp add: PluginFolderName_def EffectiveMeta_def no_meta_def)
  moreover have "path_join [PluginsDirPath, ''../../jellyfin''] = ''/jellyfin''" by code_simp
  ultimately show ?thesis by (simp add: plugin_mount_def mount_def)
qed

end
