(* ===== verification/Workloads.thy ===== *)
theory Workloads
  imports Builder
begin

text \<open>
  \<open>src/internal/plugins/workloads.go\<close>: the companion Deployments and Services of a plugin,
  with the bound instance's media folders mounted into the companion at the same paths.
\<close>

definition WorkloadLabel :: string where "WorkloadLabel = ''jellyfin.jellyops.io/workload''"
definition InstanceMediaAll :: string where "InstanceMediaAll = ''All''"
definition InstanceMediaSelected :: string where "InstanceMediaSelected = ''Selected''"
definition InstanceMediaNone :: string where "InstanceMediaNone = ''None''"
definition ServiceTargetInstance :: string where "ServiceTargetInstance = ''instance''"

definition WorkloadName :: "JellyfinPlugin \<Rightarrow> PluginWorkload \<Rightarrow> string" where
  "WorkloadName p w = prefixed (jp_name p) (w_name w)"

definition workloadSelectorLabels :: "JellyfinPlugin \<Rightarrow> PluginWorkload \<Rightarrow> labels" where
  "workloadSelectorLabels p w =
     [(NameLabel, w_name w), (PluginLabel, jp_name p), (WorkloadLabel, w_name w)]"

section \<open>Instance media\<close>

text \<open>\<open>toSet\<close>, and the sets \<open>haveVol\<close> and \<open>havePath\<close> that the loop fills: maps to true.\<close>

definition toSet :: "string list \<Rightarrow> (string, bool) go_map" where
  "toSet items = fold (\<lambda>s. map_put s True) items []"

fun set_read_only :: "bool \<Rightarrow> VolumeSource \<Rightarrow> VolumeSource" where
  "set_read_only ro (VS_NFS server path old) = VS_NFS server path ro"
| "set_read_only ro (VS_PVC claim old) = VS_PVC claim ro"
| "set_read_only ro src = src"

record media_scope =
  ms_mode :: string
  ms_include :: "(string, bool) go_map"
  ms_readWrite :: "(string, bool) go_map"

fun media_loop :: "Jellyfin \<Rightarrow> media_scope \<Rightarrow> MediaFolder list \<Rightarrow> Volume list \<Rightarrow> VolumeMount list
    \<Rightarrow> (string, bool) go_map \<Rightarrow> (string, bool) go_map \<Rightarrow> Volume list \<times> VolumeMount list" where
  "media_loop jf sc [] volumes mounts haveVol havePath = (volumes, mounts)"
| "media_loop jf sc (mf # mfs) volumes mounts haveVol havePath =
     (if ms_mode sc = InstanceMediaSelected \<and> \<not> in_set (ms_include sc) (mf_name mf)
      then media_loop jf sc mfs volumes mounts haveVol havePath
      else
        let (vol, m) = mediaVolumeAndMount jf mf in
        if in_set haveVol (v_name vol) \<or> in_set havePath (vm_mountPath m)
        then media_loop jf sc mfs volumes mounts haveVol havePath
        else
          let ro = (\<not> in_set (ms_readWrite sc) (mf_name mf));
              m1 = m\<lparr>vm_readOnly := ro\<rparr>;
              vol1 = vol\<lparr>v_source := set_read_only ro (v_source vol)\<rparr>
          in media_loop jf sc mfs (volumes @ [vol1]) (mounts @ [m1])
               (map_put (v_name vol1) True haveVol) (map_put (vm_mountPath m1) True havePath))"

definition appendInstanceMedia ::
  "Jellyfin option \<Rightarrow> InstanceMediaSelection option \<Rightarrow> Volume list \<Rightarrow> VolumeMount list
    \<Rightarrow> Volume list \<times> VolumeMount list" where
  "appendInstanceMedia jfo sel volumes mounts =
     (case jfo of None \<Rightarrow> (volumes, mounts)
      | Some jf \<Rightarrow>
          let sc = (case sel of
                      None \<Rightarrow> \<lparr>ms_mode = InstanceMediaAll, ms_include = [], ms_readWrite = []\<rparr>
                    | Some s \<Rightarrow> \<lparr>ms_mode = (if ims_mode s \<noteq> '''' then ims_mode s else InstanceMediaAll),
                        ms_include = toSet (ims_include s), ms_readWrite = toSet (ims_readWrite s)\<rparr>)
          in if ms_mode sc = InstanceMediaNone then (volumes, mounts)
             else media_loop jf sc (st_media (js_storage (jf_spec jf))) volumes mounts
                    (toSet (map v_name volumes)) (toSet (map vm_mountPath mounts)))"

section \<open>Deployments and Services\<close>

definition workload_container :: "PluginWorkload \<Rightarrow> VolumeMount list \<Rightarrow> Container" where
  "workload_container w mounts =
     no_container\<lparr>c_name := w_name w, c_image := is_reference (w_image w),
       c_imagePullPolicy := is_pullPolicy (w_image w), c_command := w_command w, c_args := w_args w,
       c_env := w_env w, c_ports := w_ports w, c_resources := w_resources w, c_volumeMounts := mounts,
       c_readinessProbe := w_readinessProbe w, c_livenessProbe := w_livenessProbe w,
       c_startupProbe := w_startupProbe w\<rparr>"

definition workload_pod :: "PluginWorkload \<Rightarrow> Volume list \<Rightarrow> VolumeMount list \<Rightarrow> PodSpec" where
  "workload_pod w volumes mounts =
     no_pod\<lparr>ps_containers := [workload_container w mounts], ps_volumes := volumes,
       ps_nodeSelector := w_nodeSelector w, ps_tolerations := w_tolerations w,
       ps_priorityClassName := w_priorityClassName w,
       ps_terminationGracePeriodSeconds := w_terminationGracePeriodSeconds w,
       ps_securityContext := Some seccomp_default\<rparr>"

definition effective_security :: "Jellyfin option \<Rightarrow> PluginWorkload \<Rightarrow> PodSecuritySpec option" where
  "effective_security jfo w =
     (case w_podSecurity w of Some ps \<Rightarrow> Some ps
      | None \<Rightarrow> (case jfo of None \<Rightarrow> None | Some jf \<Rightarrow> js_podSecurity (jf_spec jf)))"

definition BuildWorkloadDeployment :: "Jellyfin option \<Rightarrow> JellyfinPlugin \<Rightarrow> PluginWorkload \<Rightarrow> Deployment" where
  "BuildWorkloadDeployment jfo p w =
     (let (volumes, mounts) = appendInstanceMedia jfo (w_instanceMedia w) (w_volumes w) (w_volumeMounts w);
          podSpec = workload_pod w volumes mounts;
          (c1, pod1) = applyPodSecurity (hd (ps_containers podSpec)) podSpec (effective_security jfo w);
          pod2 = pod1\<lparr>ps_containers := c1 # tl (ps_containers podSpec)\<rparr>;
          pod3 = (if w_runtimeClassName w \<noteq> ''''
                  then pod2\<lparr>ps_runtimeClassName := Some (w_runtimeClassName w)\<rparr> else pod2)
      in \<lparr>d_name = WorkloadName p w, d_namespace = jp_namespace p,
          d_labels = map_put ManagedByLabel ManagedByValue (workloadSelectorLabels p w),
          d_replicas = Some (deref (w_replicas w) 1), d_selector = workloadSelectorLabels p w,
          d_strategy = '''',
          d_template = \<lparr>pt_labels = workloadSelectorLabels p w, pt_annotations = [], pt_spec = pod3\<rparr>\<rparr>)"

datatype service_error = NotBound string | EmptyWorkloadSelector string | UnknownSelector string string

definition workload_prefix :: string where "workload_prefix = ''workload:''"

definition resolveServiceSelector :: "JellyfinPlugin \<Rightarrow> PluginService \<Rightarrow> string \<Rightarrow> service_error + labels" where
  "resolveServiceSelector p s instanceName =
     (if pls_selector s = ServiceTargetInstance then
        (if instanceName = '''' then Inl (NotBound (pls_name s))
         else Inr [(NameLabel, AppName), (InstanceLabel, instanceName)])
      else if has_prefix (pls_selector s) workload_prefix then
        let wl = trim_prefix (pls_selector s) workload_prefix in
        if wl = '''' then Inl (EmptyWorkloadSelector (pls_name s))
        else Inr [(NameLabel, wl), (PluginLabel, jp_name p), (WorkloadLabel, wl)]
      else Inl (UnknownSelector (pls_name s) (pls_selector s)))"

definition BuildPluginService :: "JellyfinPlugin \<Rightarrow> PluginService \<Rightarrow> string \<Rightarrow> service_error + Service" where
  "BuildPluginService p s instanceName =
     bind_res (resolveServiceSelector p s instanceName) (\<lambda>sel.
       Inr \<lparr>s_name = pls_name s, s_namespace = jp_namespace p,
            s_labels = [(PluginLabel, jp_name p), (ManagedByLabel, ManagedByValue)], s_annotations = [],
            s_type = (if pls_type s = '''' then ''ClusterIP'' else pls_type s),
            s_selector = sel, s_ports = pls_ports s\<rparr>)"

section \<open>Mounting instance media\<close>

lemma in_set_map_put [simp]: "in_set (map_put x True m) k \<longleftrightarrow> k = x \<or> in_set m k"
  by (auto simp: in_set_def)

lemma in_set_toSet [simp]: "in_set (toSet items) k \<longleftrightarrow> k \<in> set items"
proof -
  have "in_set (fold (\<lambda>s. map_put s True) xs m) k \<longleftrightarrow> k \<in> set xs \<or> in_set m k" for xs m
    by (induction xs arbitrary: m) auto
  then show ?thesis by (simp add: toSet_def in_set_def)
qed

definition companion_volume :: "Jellyfin \<Rightarrow> bool \<Rightarrow> MediaFolder \<Rightarrow> Volume" where
  "companion_volume jf rw mf =
     (let v = fst (mediaVolumeAndMount jf mf) in v\<lparr>v_source := set_read_only (\<not> rw) (v_source v)\<rparr>)"

definition companion_mount :: "bool \<Rightarrow> MediaFolder \<Rightarrow> VolumeMount" where
  "companion_mount rw mf = mount (mediaVolumeName mf) (mf_mountPath mf) '''' (\<not> rw)"

lemma media_vm_simps:
  "v_name (fst (mediaVolumeAndMount jf mf)) = mediaVolumeName mf"
  "vm_mountPath (snd (mediaVolumeAndMount jf mf)) = mf_mountPath mf"
  "(snd (mediaVolumeAndMount jf mf))\<lparr>vm_readOnly := ro\<rparr> = companion_mount (\<not> ro) mf"
  by (simp_all add: mediaVolumeAndMount_def companion_mount_def mount_def Let_def)

definition loop_wants :: "media_scope \<Rightarrow> MediaFolder \<Rightarrow> bool" where
  "loop_wants sc mf \<longleftrightarrow> ms_mode sc = InstanceMediaSelected \<longrightarrow> in_set (ms_include sc) (mf_name mf)"

definition mounted_media ::
  "(MediaFolder \<Rightarrow> bool) \<Rightarrow> (string \<Rightarrow> bool) \<Rightarrow> (string \<Rightarrow> bool) \<Rightarrow> MediaFolder list \<Rightarrow> MediaFolder list \<Rightarrow> bool" where
  "mounted_media wants hv hp mfs added \<longleftrightarrow>
     subseq added mfs
     \<and> list_all (\<lambda>mf. wants mf \<and> \<not> hv (mediaVolumeName mf) \<and> \<not> hp (mf_mountPath mf)) added
     \<and> distinct (map mediaVolumeName added) \<and> distinct (map mf_mountPath added)
     \<and> list_all (\<lambda>mf. \<not> wants mf \<or> hv (mediaVolumeName mf) \<or> hp (mf_mountPath mf)
          \<or> mediaVolumeName mf \<in> mediaVolumeName ` set added \<or> mf_mountPath mf \<in> mf_mountPath ` set added) mfs"

lemma mounted_media_skip:
  assumes "mounted_media wants hv hp mfs added"
    and "\<not> wants mf \<or> hv (mediaVolumeName mf) \<or> hp (mf_mountPath mf)"
  shows "mounted_media wants hv hp (mf # mfs) added"
  using assms by (auto simp: mounted_media_def list_emb_Cons)

lemma mounted_media_take:
  assumes "mounted_media wants (\<lambda>k. k = mediaVolumeName mf \<or> hv k) (\<lambda>k. k = mf_mountPath mf \<or> hp k) mfs added"
    and "wants mf" and "\<not> hv (mediaVolumeName mf)" and "\<not> hp (mf_mountPath mf)"
  shows "mounted_media wants hv hp (mf # mfs) (mf # added)"
  using assms by (auto simp: mounted_media_def list_all_iff)

lemma media_loop_spec:
  "\<exists>added. mounted_media (loop_wants sc) (in_set hv) (in_set hp) mfs added
     \<and> media_loop jf sc mfs vs ms hv hp
         = (vs @ map (\<lambda>mf. companion_volume jf (in_set (ms_readWrite sc) (mf_name mf)) mf) added,
            ms @ map (\<lambda>mf. companion_mount (in_set (ms_readWrite sc) (mf_name mf)) mf) added)"
proof (induction mfs arbitrary: vs ms hv hp)
  case (Cons mf mfs)
  let ?rw = "in_set (ms_readWrite sc) (mf_name mf)"
  show ?case
  proof (cases "loop_wants sc mf \<and> \<not> in_set hv (mediaVolumeName mf) \<and> \<not> in_set hp (mf_mountPath mf)")
    case True
    have step: "media_loop jf sc (mf # mfs) vs ms hv hp
        = media_loop jf sc mfs (vs @ [companion_volume jf ?rw mf]) (ms @ [companion_mount ?rw mf])
            (map_put (mediaVolumeName mf) True hv) (map_put (mf_mountPath mf) True hp)"
      using True by (auto simp: split_beta media_vm_simps loop_wants_def companion_volume_def Let_def
          companion_mount_def mount_def)
    obtain added where IH: "mounted_media (loop_wants sc) (in_set (map_put (mediaVolumeName mf) True hv))
        (in_set (map_put (mf_mountPath mf) True hp)) mfs added"
      "media_loop jf sc mfs (vs @ [companion_volume jf ?rw mf]) (ms @ [companion_mount ?rw mf])
          (map_put (mediaVolumeName mf) True hv) (map_put (mf_mountPath mf) True hp)
        = ((vs @ [companion_volume jf ?rw mf]) @ map (\<lambda>mf. companion_volume jf (in_set (ms_readWrite sc) (mf_name mf)) mf) added,
           (ms @ [companion_mount ?rw mf]) @ map (\<lambda>mf. companion_mount (in_set (ms_readWrite sc) (mf_name mf)) mf) added)"
      using Cons.IH by blast
    have "mounted_media (loop_wants sc) (in_set hv) (in_set hp) (mf # mfs) (mf # added)"
      using IH(1) True by (intro mounted_media_take) (simp_all add: in_set_map_put [abs_def])
    with step IH(2) show ?thesis by (intro exI [of _ "mf # added"]) simp
  next
    case False
    then have "media_loop jf sc (mf # mfs) vs ms hv hp = media_loop jf sc mfs vs ms hv hp"
      by (auto simp: split_beta media_vm_simps loop_wants_def)
    moreover obtain added where "mounted_media (loop_wants sc) (in_set hv) (in_set hp) mfs added"
      "media_loop jf sc mfs vs ms hv hp
         = (vs @ map (\<lambda>mf. companion_volume jf (in_set (ms_readWrite sc) (mf_name mf)) mf) added,
            ms @ map (\<lambda>mf. companion_mount (in_set (ms_readWrite sc) (mf_name mf)) mf) added)"
      using Cons.IH by blast
    ultimately show ?thesis using False by (intro exI [of _ added]) (auto intro: mounted_media_skip)
  qed
qed (simp add: mounted_media_def)

text \<open>Which folders a workload asks for, and which of them read-write.\<close>

definition wants_media :: "InstanceMediaSelection option \<Rightarrow> MediaFolder \<Rightarrow> bool" where
  "wants_media sel mf =
     (case sel of None \<Rightarrow> True
      | Some s \<Rightarrow> ims_mode s \<noteq> InstanceMediaNone
                  \<and> (ims_mode s = InstanceMediaSelected \<longrightarrow> mf_name mf \<in> set (ims_include s)))"

definition wants_write :: "InstanceMediaSelection option \<Rightarrow> MediaFolder \<Rightarrow> bool" where
  "wants_write sel mf = (case sel of None \<Rightarrow> False | Some s \<Rightarrow> mf_name mf \<in> set (ims_readWrite s))"

lemma mounted_media_None: "\<forall>mf \<in> set mfs. \<not> wants mf \<Longrightarrow> mounted_media wants hv hp mfs []"
  by (simp add: mounted_media_def list_all_iff)

text \<open>
  A companion workload gets the bound instance's media as follows. Hand-declared volumes and mounts
  are kept, first and unchanged. To them are added, in the order of the spec, folders the selection
  asks for, each at the instance's own path and read-only unless listed in \<open>readWrite\<close> (volume and mount
  agree). No added volume name or path repeats a hand-declared one or another added one, and a
  folder that was asked for is left out only for such a clash.
\<close>

theorem appendInstanceMedia_spec:
  "\<exists>added. mounted_media (wants_media sel) (\<lambda>n. n \<in> v_name ` set volumes) (\<lambda>d. d \<in> vm_mountPath ` set mounts)
             (st_media (js_storage (jf_spec jf))) added
     \<and> appendInstanceMedia (Some jf) sel volumes mounts
         = (volumes @ map (\<lambda>mf. companion_volume jf (wants_write sel mf) mf) added,
            mounts @ map (\<lambda>mf. companion_mount (wants_write sel mf) mf) added)"
proof (cases "\<exists>s. sel = Some s \<and> ims_mode s = InstanceMediaNone")
  case True
  then show ?thesis
    by (intro exI [of _ "[]"] conjI mounted_media_None)
      (auto simp: wants_media_def appendInstanceMedia_def InstanceMediaNone_def)
next
  case False
  define sc where "sc = (case sel of
      None \<Rightarrow> \<lparr>ms_mode = InstanceMediaAll, ms_include = [], ms_readWrite = []\<rparr>
    | Some s \<Rightarrow> \<lparr>ms_mode = (if ims_mode s \<noteq> '''' then ims_mode s else InstanceMediaAll),
        ms_include = toSet (ims_include s), ms_readWrite = toSet (ims_readWrite s)\<rparr>)"
  have eq: "appendInstanceMedia (Some jf) sel volumes mounts
      = media_loop jf sc (st_media (js_storage (jf_spec jf))) volumes mounts
          (toSet (map v_name volumes)) (toSet (map vm_mountPath mounts))"
    using False by (cases sel) (auto simp: appendInstanceMedia_def sc_def InstanceMediaAll_def InstanceMediaNone_def)
  have w: "loop_wants sc = wants_media sel"
    using False by (cases sel) (auto simp: fun_eq_iff sc_def loop_wants_def wants_media_def InstanceMediaAll_def
        InstanceMediaNone_def InstanceMediaSelected_def)
  have rw: "in_set (ms_readWrite sc) (mf_name mf) = wants_write sel mf" for mf
    by (cases sel) (simp_all add: sc_def wants_write_def, simp add: in_set_def)
  show ?thesis
    using media_loop_spec [of sc "toSet (map v_name volumes)" "toSet (map vm_mountPath mounts)"
        "st_media (js_storage (jf_spec jf))" jf volumes mounts]
    unfolding eq rw w by (simp add: in_set_toSet [abs_def])
qed

end
