(* ===== verification/Web.thy ===== *)
theory Web
  imports Workloads
begin

text \<open>
  \<open>src/internal/plugins/web.go\<close>: the optional web tier of an instance, a Deployment and a Service of
  its own; and the label selectors by which the Services of the operator find their pods.
  \<open>BuildWebDeployment\<close> dereferences \<open>spec.web\<close>, so it has no result when the field is nil.
\<close>

definition DefaultWebPort :: int32 where "DefaultWebPort = 80"
definition webHealthPath :: string where "webHealthPath = ''/health''"

definition WebDeploymentName :: "Jellyfin \<Rightarrow> string" where
  "WebDeploymentName jf = truncateName (jf_name jf @ ''-web'')"

definition WebServiceName :: "Jellyfin \<Rightarrow> string" where
  "WebServiceName jf = truncateName (jf_name jf @ ''-web'')"

definition WebLabels :: "Jellyfin \<Rightarrow> labels" where
  "WebLabels jf = [(NameLabel, WebAppName), (InstanceLabel, jf_name jf), (ManagedByLabel, ManagedByValue),
     (ComponentLabel, WebComponentName)]"

definition WebSelectorLabels :: "Jellyfin \<Rightarrow> labels" where
  "WebSelectorLabels jf = [(NameLabel, WebAppName), (InstanceLabel, jf_name jf), (ComponentLabel, WebComponentName)]"

definition BuildWebDeployment :: "Jellyfin \<Rightarrow> Deployment option" where
  "BuildWebDeployment jf =
     (case js_web (jf_spec jf) of None \<Rightarrow> None
      | Some web \<Rightarrow>
          let container = no_container\<lparr>c_name := WebComponentName, c_image := web_image web,
                c_ports := [\<lparr>cp_name = PortNameHTTP, cp_containerPort = DefaultWebPort,
                             cp_protocol = ''TCP'', cp_rest = ''''\<rparr>],
                c_resources := web_resources web,
                c_readinessProbe := Some (HTTPGetProbe webHealthPath DefaultWebPort 5 10),
                c_livenessProbe := Some (HTTPGetProbe webHealthPath DefaultWebPort 15 20)\<rparr>;
              podSpec = no_pod\<lparr>ps_containers := [container], ps_securityContext := Some seccomp_default\<rparr>;
              (c1, pod1) = applyPodSecurity (hd (ps_containers podSpec)) podSpec (js_podSecurity (jf_spec jf));
              pod2 = pod1\<lparr>ps_containers := c1 # tl (ps_containers podSpec)\<rparr>
          in Some \<lparr>d_name = WebDeploymentName jf, d_namespace = jf_namespace jf, d_labels = WebLabels jf,
                   d_replicas = Some (deref (web_replicas web) 1), d_selector = WebSelectorLabels jf,
                   d_strategy = '''',
                   d_template = \<lparr>pt_labels = WebSelectorLabels jf, pt_annotations = web_podAnnotations web,
                                 pt_spec = pod2\<rparr>\<rparr>)"

definition BuildWebService :: "Jellyfin \<Rightarrow> Service" where
  "BuildWebService jf =
     \<lparr>s_name = WebServiceName jf, s_namespace = jf_namespace jf, s_labels = WebLabels jf,
      s_annotations = [], s_type = ''ClusterIP'', s_selector = WebSelectorLabels jf,
      s_ports = [\<lparr>sp_name = PortNameHTTP, sp_port = DefaultWebPort, sp_targetPort = DefaultWebPort,
                  sp_protocol = ''TCP''\<rparr>]\<rparr>"

section \<open>Selectors find their own pods\<close>

lemmas label_consts = NameLabel_def InstanceLabel_def ComponentLabel_def PluginLabel_def WorkloadLabel_def
  AppName_def WebAppName_def WebComponentName_def

lemma sub_labels_simps [simp]:
  "sub_labels [] ls" "sub_labels ((k, v) # sel) ls \<longleftrightarrow> map_of ls k = Some v \<and> sub_labels sel ls"
  by (simp_all add: sub_labels_def)

text \<open>
  The selector interface: a labelling of owners such that the selector of one owner is
  contained in the pod labels of another exactly when the owners agree.
\<close>

locale selector =
  fixes sel :: "'o \<Rightarrow> labels" and pods :: "'o \<Rightarrow> labels" and ident :: "'o \<Rightarrow> 'i"
  assumes exact: "sub_labels (sel a) (pods b) \<longleftrightarrow> ident a = ident b"
begin

lemma selects_own: "sub_labels (sel a) (pods a)"
  by (simp add: exact)

lemma partition: "sub_labels (sel a) (pods c) \<Longrightarrow> sub_labels (sel b) (pods c) \<Longrightarrow> ident a = ident b"
  by (simp add: exact)

end

interpretation server_sel: selector InstanceSelectorLabels InstanceSelectorLabels jf_name
  by unfold_locales (auto simp: InstanceSelectorLabels_def label_consts)

interpretation web_sel: selector WebSelectorLabels WebSelectorLabels jf_name
  by unfold_locales (auto simp: WebSelectorLabels_def label_consts)

interpretation workload_sel: selector "\<lambda>(p, w). workloadSelectorLabels p w" "\<lambda>(p, w). workloadSelectorLabels p w"
    "\<lambda>(p, w). (jp_name p, w_name w)"
  by unfold_locales (auto simp: workloadSelectorLabels_def label_consts)

lemma cross_selectors:
  "\<not> sub_labels (InstanceSelectorLabels jf) (WebSelectorLabels jf')"
  "\<not> sub_labels (InstanceSelectorLabels jf) (workloadSelectorLabels p w)"
  "\<not> sub_labels (WebSelectorLabels jf) (InstanceSelectorLabels jf')"
  "\<not> sub_labels (WebSelectorLabels jf) (workloadSelectorLabels p w)"
  "\<not> sub_labels (workloadSelectorLabels p w) (InstanceSelectorLabels jf)"
  "\<not> sub_labels (workloadSelectorLabels p w) (WebSelectorLabels jf)"
  by (auto simp: InstanceSelectorLabels_def WebSelectorLabels_def workloadSelectorLabels_def label_consts)

text \<open>
  C37. The three kinds of pods never share a Service: the selector of the server of an instance matches
  the server pods of exactly that instance, the web selector the web pods of exactly that
  instance, the selector of a companion workload the pods of exactly that workload of that plugin;
  and none of them matches a pod of another kind.
\<close>

theorem selectors_partition_pods:
  "(sub_labels (InstanceSelectorLabels a) (InstanceSelectorLabels b) \<longleftrightarrow> jf_name a = jf_name b)
   \<and> (sub_labels (WebSelectorLabels a) (WebSelectorLabels b) \<longleftrightarrow> jf_name a = jf_name b)
   \<and> (sub_labels (workloadSelectorLabels p w) (workloadSelectorLabels q u)
        \<longleftrightarrow> jp_name p = jp_name q \<and> w_name w = w_name u)
   \<and> \<not> sub_labels (InstanceSelectorLabels a) (WebSelectorLabels b)
   \<and> \<not> sub_labels (InstanceSelectorLabels a) (workloadSelectorLabels p w)
   \<and> \<not> sub_labels (WebSelectorLabels a) (InstanceSelectorLabels b)
   \<and> \<not> sub_labels (WebSelectorLabels a) (workloadSelectorLabels p w)
   \<and> \<not> sub_labels (workloadSelectorLabels p w) (InstanceSelectorLabels a)
   \<and> \<not> sub_labels (workloadSelectorLabels p w) (WebSelectorLabels a)"
  using workload_sel.exact [of "(p, w)" "(q, u)"]
  by (simp add: server_sel.exact web_sel.exact cross_selectors)

lemma has_prefix_trim: "has_prefix s pre \<Longrightarrow> s = pre @ trim_prefix s pre"
  unfolding has_prefix_def trim_prefix_def by (metis append_take_drop_id)

text \<open>
  A plugin Service is built exactly for the two selector forms: \<open>instance\<close> selects the pods that
  the bound instance's Deployment creates, \<open>workload:<name>\<close> the pods of that companion of the same plugin;
  an unbound instance target, an empty workload name and any other text are errors.
\<close>

theorem BuildPluginService_spec:
  "case BuildPluginService p s (jf_name jf) of
     Inr svc \<Rightarrow>
       (pls_selector s = ''instance'' \<and> jf_name jf \<noteq> '''' \<and> s_selector svc = InstanceSelectorLabels jf
        \<or> (\<exists>w. w_name w \<noteq> '''' \<and> pls_selector s = ''workload:'' @ w_name w
               \<and> s_selector svc = workloadSelectorLabels p w))
       \<and> s_namespace svc = jp_namespace p \<and> s_ports svc = pls_ports s
   | Inl (NotBound n) \<Rightarrow> n = pls_name s \<and> pls_selector s = ''instance'' \<and> jf_name jf = ''''
   | Inl (EmptyWorkloadSelector n) \<Rightarrow> n = pls_name s \<and> pls_selector s = ''workload:''
   | Inl (UnknownSelector n t) \<Rightarrow> n = pls_name s \<and> t = pls_selector s \<and> t \<noteq> ''instance''
        \<and> \<not> has_prefix t ''workload:''"
proof -
  have w: "\<exists>w. w_name w \<noteq> '''' \<and> pls_selector s = ''workload:'' @ w_name w
        \<and> [(NameLabel, n), (PluginLabel, jp_name p), (WorkloadLabel, n)] = workloadSelectorLabels p w"
    if "has_prefix (pls_selector s) ''workload:''" "n = trim_prefix (pls_selector s) ''workload:''" "n \<noteq> ''''" for n
    using that has_prefix_trim [OF that(1)]
    by (intro exI [of _ "sample_workload n"]) (simp add: workloadSelectorLabels_def sample_workload_def)
  show ?thesis
    using w has_prefix_trim [of "pls_selector s" "''workload:''"]
    by (auto simp: BuildPluginService_def resolveServiceSelector_def ServiceTargetInstance_def
        workload_prefix_def InstanceSelectorLabels_def Let_def)
qed

text \<open>
  Workload names are not injective: the companions \<open>b-c\<close> of plugin \<open>a\<close> and \<open>c\<close> of plugin
  \<open>a-b\<close> get the same Deployment name, although their selectors differ.
\<close>

theorem WorkloadName_collision:
  "WorkloadName (sample_plugin ''a'') (sample_workload ''b-c'')
     = WorkloadName (sample_plugin ''a-b'') (sample_workload ''c'')"
proof -
  have "plain_label ''b-c''" "plain_label ''c''" by code_simp+
  then have "SanitizeDNS1123 ''b-c'' = ''b-c''" "SanitizeDNS1123 ''c'' = ''c''"
    using SanitizeDNS1123_id by blast+
  then show ?thesis by (simp add: WorkloadName_def prefixed_def sample_plugin_def sample_workload_def)
qed

section \<open>Companions and the web tier are hardened\<close>

lemma BuildWorkloadDeployment_containers:
  "ps_containers (pt_spec (d_template (BuildWorkloadDeployment jfo p w))) =
     (let (volumes, mounts) = appendInstanceMedia jfo (w_instanceMedia w) (w_volumes w) (w_volumeMounts w)
      in [fst (applyPodSecurity (workload_container w mounts) (workload_pod w volumes mounts) (effective_security jfo w))])"
  by (simp add: BuildWorkloadDeployment_def workload_pod_def split_beta Let_def)

text \<open>
  Companion workloads and the web tier have the restricted profile as well: a companion follows its own
  security block, else that of the bound instance, else the default; the web tier follows the
  instance. The pods of each Deployment carry the labels of its selector.
\<close>

theorem companions_restricted:
  "list_all (restricted (effective_security jfo w))
     (ps_containers (pt_spec (d_template (BuildWorkloadDeployment jfo p w))))
   \<and> sub_labels (d_selector (BuildWorkloadDeployment jfo p w)) (pt_labels (d_template (BuildWorkloadDeployment jfo p w)))
   \<and> (case BuildWebDeployment jf of None \<Rightarrow> js_web (jf_spec jf) = None
      | Some d \<Rightarrow> list_all (restricted (js_podSecurity (jf_spec jf))) (ps_containers (pt_spec (d_template d)))
                \<and> sub_labels (d_selector d) (pt_labels (d_template d))
                \<and> sub_labels (s_selector (BuildWebService jf)) (pt_labels (d_template d)))"
proof -
  have "sub_labels (d_selector (BuildWorkloadDeployment jfo p w)) (pt_labels (d_template (BuildWorkloadDeployment jfo p w)))"
    using workload_sel.selects_own [of "(p, w)"] by (simp add: BuildWorkloadDeployment_def split_beta Let_def)
  moreover have "case BuildWebDeployment jf of None \<Rightarrow> js_web (jf_spec jf) = None
      | Some d \<Rightarrow> list_all (restricted (js_podSecurity (jf_spec jf))) (ps_containers (pt_spec (d_template d)))
                \<and> sub_labels (d_selector d) (pt_labels (d_template d))
                \<and> sub_labels (s_selector (BuildWebService jf)) (pt_labels (d_template d))"
    using pod_pass.yields web_sel.selects_own [of jf]
    by (simp add: BuildWebDeployment_def BuildWebService_def split_beta Let_def split: option.split)
  ultimately show ?thesis
    using pod_pass.yields by (simp add: BuildWorkloadDeployment_containers split_beta Let_def)
qed

end
