(* ===== verification/Gateway.thy ===== *)
theory Gateway
  imports Web
begin

text \<open>
  \<open>src/internal/plugins/gateway.go\<close>: the HTTPRoute of an instance, and where requests go under it.
  The gateway that serves the route is not part of the repository. It is a parameter of the routing
  theorem: any function that chooses, among the matches of a route that a request satisfies, one
  that the Gateway API gives precedence (an exact path first, then the longest path prefix,
  then the most header matches).
\<close>

section \<open>Routes\<close>

datatype path_match = PathExact string | PathPrefix string

record route_match =
  rm_path :: path_match
  rm_headers :: "(string \<times> string) list"

datatype route_action = RedirectTo nat string | Backend string int32

record route_rule =
  ru_matches :: "route_match list"
  ru_action :: route_action

record HTTPRoute =
  hr_name :: string
  hr_namespace :: string
  hr_labels :: labels
  hr_annotations :: labels
  hr_parentGroup :: string
  hr_parentKind :: string
  hr_parentName :: string
  hr_parentNamespace :: "string option"
  hr_parentSection :: "string option"
  hr_hostnames :: "string list"
  hr_rules :: "route_rule list"

definition HTTPRouteName :: "Jellyfin \<Rightarrow> string" where
  "HTTPRouteName jf = truncateName (jf_name jf)"

definition webBasePath :: string where "webBasePath = ''/web/''"
definition defaultAuthorizePath :: string where "defaultAuthorizePath = ''/sso/authorize''"
definition headerSecFetchMode :: string where "headerSecFetchMode = ''Sec-Fetch-Mode''"
definition secFetchNavigate :: string where "secFetchNavigate = ''navigate''"

definition rootRedirectTarget :: "GatewaySpec \<Rightarrow> string" where
  "rootRedirectTarget gw =
     (case gw_sso gw of None \<Rightarrow> webBasePath
      | Some sso \<Rightarrow>
          if sso_autoLoginRedirect sso then
            (if sso_authorizePath sso \<noteq> '''' then sso_authorizePath sso else defaultAuthorizePath)
          else webBasePath)"

definition on_prefix :: "string \<Rightarrow> route_match" where
  "on_prefix p = \<lparr>rm_path = PathPrefix p, rm_headers = []\<rparr>"

definition on_navigation :: "string \<Rightarrow> route_match" where
  "on_navigation p = \<lparr>rm_path = PathPrefix p, rm_headers = [(headerSecFetchMode, secFetchNavigate)]\<rparr>"

definition root_rule :: "GatewaySpec \<Rightarrow> route_rule" where
  "root_rule gw = \<lparr>ru_matches = [\<lparr>rm_path = PathExact ''/'', rm_headers = []\<rparr>],
     ru_action = RedirectTo 302 (rootRedirectTarget gw)\<rparr>"

definition default_rule :: "Jellyfin \<Rightarrow> route_rule" where
  "default_rule jf = \<lparr>ru_matches = [on_prefix ''/''], ru_action = Backend (jf_name jf) DefaultJellyfinPort\<rparr>"

definition split_rules :: "Jellyfin \<Rightarrow> route_rule list" where
  "split_rules jf =
     [\<lparr>ru_matches = [on_navigation ''/web/configurationpage'', on_navigation ''/web/ConfigurationPage''],
       ru_action = Backend (WebServiceName jf) DefaultWebPort\<rparr>,
      \<lparr>ru_matches = [on_prefix ''/web/ConfigurationPages'', on_prefix ''/web/configurationpages'',
                     on_prefix ''/web/ConfigurationPage'', on_prefix ''/web/configurationpage''],
       ru_action = Backend (jf_name jf) DefaultJellyfinPort\<rparr>,
      \<lparr>ru_matches = [on_prefix ''/web''], ru_action = Backend (WebServiceName jf) DefaultWebPort\<rparr>]"

definition split_mode :: "Jellyfin \<Rightarrow> bool" where
  "split_mode jf \<longleftrightarrow> js_web (jf_spec jf) \<noteq> None \<and> EffectiveMode (js_web (jf_spec jf)) = WebModeDeployment"

definition route_rules :: "Jellyfin \<Rightarrow> GatewaySpec \<Rightarrow> route_rule list" where
  "route_rules jf gw =
     (if split_mode jf then root_rule gw # split_rules jf @ [default_rule jf]
      else [root_rule gw, default_rule jf])"

text \<open>\<open>spec.gateway\<close> is dereferenced: no result when it is nil.\<close>

definition BuildHTTPRoute :: "Jellyfin \<Rightarrow> HTTPRoute option" where
  "BuildHTTPRoute jf =
     (case js_gateway (jf_spec jf) of None \<Rightarrow> None
      | Some gw \<Rightarrow> Some
          \<lparr>hr_name = HTTPRouteName jf, hr_namespace = jf_namespace jf, hr_labels = InstanceLabels jf,
           hr_annotations = gw_annotations gw, hr_parentGroup = ''gateway.networking.k8s.io'',
           hr_parentKind = ''Gateway'', hr_parentName = gr_name (gw_gatewayRef gw),
           hr_parentNamespace = (if gr_namespace (gw_gatewayRef gw) \<noteq> ''''
                                 then Some (gr_namespace (gw_gatewayRef gw)) else None),
           hr_parentSection = (if gr_sectionName (gw_gatewayRef gw) \<noteq> ''''
                               then Some (gr_sectionName (gw_gatewayRef gw)) else None),
           hr_hostnames = [gw_hostname gw], hr_rules = route_rules jf gw\<rparr>)"

section \<open>Serving a route\<close>

record request =
  rq_path :: string
  rq_headers :: "(string \<times> string) list"

text \<open>A path prefix matches whole segments.\<close>

definition under :: "string \<Rightarrow> string \<Rightarrow> bool" where
  "under pre path \<longleftrightarrow> pre = ''/'' \<or> path = pre \<or> has_prefix path (pre @ ''/'')"

definition has_header :: "request \<Rightarrow> string \<times> string \<Rightarrow> bool" where
  "has_header rq h \<longleftrightarrow> list_ex (\<lambda>(n, v). to_lower n = to_lower (fst h) \<and> v = snd h) (rq_headers rq)"

fun path_matches :: "path_match \<Rightarrow> string \<Rightarrow> bool" where
  "path_matches (PathExact p) path = (path = p)"
| "path_matches (PathPrefix p) path = under p path"

definition satisfies :: "request \<Rightarrow> route_match \<Rightarrow> bool" where
  "satisfies rq m \<longleftrightarrow> path_matches (rm_path m) (rq_path rq) \<and> list_all (has_header rq) (rm_headers m)"

fun path_rank :: "path_match \<Rightarrow> nat list" where
  "path_rank (PathExact p) = [1, length p]"
| "path_rank (PathPrefix p) = [0, length p]"

definition precedence :: "route_match \<Rightarrow> nat list" where
  "precedence m = path_rank (rm_path m) @ [length (rm_headers m)]"

text \<open>The (match, action) pairs of a rule list, in order.\<close>

definition candidates :: "route_rule list \<Rightarrow> (route_match \<times> route_action) list" where
  "candidates rules = concat (map (\<lambda>r. map (\<lambda>m. (m, ru_action r)) (ru_matches r)) rules)"

type_synonym gateway = "route_rule list \<Rightarrow> request \<Rightarrow> route_action option"

definition chosen_ok :: "route_rule list \<Rightarrow> request \<Rightarrow> route_action option \<Rightarrow> bool" where
  "chosen_ok rules rq res \<longleftrightarrow>
     (case res of
       None \<Rightarrow> filter (\<lambda>(m, a). satisfies rq m) (candidates rules) = []
     | Some a \<Rightarrow> \<exists>m. (m, a) \<in> set (candidates rules) \<and> satisfies rq m
         \<and> (\<forall>(m', a') \<in> set (candidates rules). satisfies rq m' \<longrightarrow> precedence m' \<le> precedence m))"

definition conformant :: "gateway \<Rightarrow> bool" where
  "conformant gate \<longleftrightarrow> (\<forall>rules rq. chosen_ok rules rq (gate rules rq))"

text \<open>
  The interface of a gateway to the routes it serves. A match that strictly outranks every other
  satisfied match with a different action decides the request.
\<close>

locale serving =
  fixes gate :: gateway
  assumes conforms: "conformant gate"
begin

lemma chosen: "chosen_ok rules rq (gate rules rq)"
  using conforms by (simp add: conformant_def)

lemma decided:
  assumes "(m, a) \<in> set (candidates rules)" and "satisfies rq m"
    and "\<forall>(m', a') \<in> set (candidates rules). satisfies rq m' \<longrightarrow> a' = a \<or> precedence m' < precedence m"
  shows "gate rules rq = Some a"
proof (cases "gate rules rq")
  case None
  then have "filter (\<lambda>(m, a). satisfies rq m) (candidates rules) = []"
    using chosen [of rules rq] by (simp add: chosen_ok_def)
  then show ?thesis using assms(1,2) by (auto simp: filter_empty_conv)
next
  case (Some b)
  then obtain m' where m': "(m', b) \<in> set (candidates rules)" "satisfies rq m'"
    and best: "\<forall>(m'', a'') \<in> set (candidates rules). satisfies rq m'' \<longrightarrow> precedence m'' \<le> precedence m'"
    using chosen [of rules rq] by (auto simp: chosen_ok_def)
  have "precedence m \<le> precedence m'" using best assms(1,2) by fastforce
  moreover have "b = a \<or> precedence m' < precedence m" using assms(3) m' by fastforce
  ultimately show ?thesis using Some by auto
qed

end

text \<open>A gateway that scans the candidates and keeps the best; ties go to the first.\<close>

fun scan :: "request \<Rightarrow> (route_match \<times> route_action) list \<Rightarrow> (route_match \<times> route_action) option" where
  "scan rq [] = None"
| "scan rq ((m, a) # cs) =
     (case scan rq cs of
        None \<Rightarrow> if satisfies rq m then Some (m, a) else None
      | Some (m', a') \<Rightarrow> if satisfies rq m \<and> precedence m' \<le> precedence m then Some (m, a) else Some (m', a'))"

definition scanning_gateway :: gateway where
  "scanning_gateway rules rq = map_option snd (scan rq (candidates rules))"

lemma scan_best:
  "case scan rq cs of
     None \<Rightarrow> filter (\<lambda>(m, a). satisfies rq m) cs = []
   | Some (m, a) \<Rightarrow> (m, a) \<in> set cs \<and> satisfies rq m
       \<and> (\<forall>(m', a') \<in> set cs. satisfies rq m' \<longrightarrow> precedence m' \<le> precedence m)"
proof (induction cs)
  case (Cons c cs)
  obtain m a where c: "c = (m, a)" by (cases c)
  show ?case
  proof (cases "scan rq cs")
    case None
    with Cons c show ?thesis by (auto simp: filter_empty_conv)
  next
    case (Some ma)
    obtain m' a' where ma: "ma = (m', a')" by (cases ma)
    show ?thesis
    proof (cases "satisfies rq m \<and> precedence m' \<le> precedence m")
      case True
      with Cons Some c ma show ?thesis by (fastforce intro: order.trans)
    next
      case False
      with Cons Some c ma show ?thesis by auto
    qed
  qed
qed simp

lemma scanning_conformant: "conformant scanning_gateway"
proof -
  have "chosen_ok rules rq (map_option snd (scan rq (candidates rules)))" for rules rq
    using scan_best [of rq "candidates rules"]
    by (cases "scan rq (candidates rules)") (auto simp: chosen_ok_def)
  then show ?thesis by (simp add: conformant_def scanning_gateway_def)
qed

interpretation scanner: serving scanning_gateway
  by unfold_locales (rule scanning_conformant)

section \<open>Where requests go\<close>

definition plugin_page :: "string \<Rightarrow> bool" where
  "plugin_page path \<longleftrightarrow> under ''/web/configurationpage'' path \<or> under ''/web/ConfigurationPage'' path"

definition plugin_list :: "string \<Rightarrow> bool" where
  "plugin_list path \<longleftrightarrow> under ''/web/configurationpages'' path \<or> under ''/web/ConfigurationPages'' path"

definition navigation :: "request \<Rightarrow> bool" where
  "navigation rq = has_header rq (headerSecFetchMode, secFetchNavigate)"

definition destination :: "Jellyfin \<Rightarrow> GatewaySpec \<Rightarrow> request \<Rightarrow> route_action" where
  "destination jf gw rq =
     (let server = Backend (jf_name jf) DefaultJellyfinPort; path = rq_path rq in
      if path = ''/'' then RedirectTo 302 (rootRedirectTarget gw)
      else if \<not> split_mode jf \<or> \<not> under ''/web'' path then server
      else if plugin_list path \<or> plugin_page path \<and> \<not> navigation rq then server
      else Backend (WebServiceName jf) DefaultWebPort)"

lemma under_take:
  "under pre path \<Longrightarrow> pre \<noteq> ''/'' \<Longrightarrow> take (Suc (length pre)) path \<in> {pre, pre @ ''/''}"
  by (auto simp: under_def has_prefix_def)

lemma under_same: "under pre path \<Longrightarrow> pre \<noteq> ''/'' \<Longrightarrow> take (length pre) path = pre"
  by (auto simp: under_def has_prefix_def dest: arg_cong [of _ _ "take (length pre)"])

lemma under_extend:
  assumes "under (pre @ CHR ''/'' # r) path" and "pre \<noteq> ''''"
  shows "under pre path"
proof -
  let ?l = "pre @ CHR ''/'' # r"
  have "?l \<noteq> ''/''" using assms(2) by (cases pre) auto
  then have "take (Suc (length pre)) (take (length ?l) path) = pre @ ''/''"
    using under_same [OF assms(1)] by simp
  then show ?thesis by (simp add: min_def under_def has_prefix_def)
qed

lemma under_longer:
  assumes "under a path" and "under b path" and "length b = Suc (length a)" and "a \<noteq> ''/''" and "b \<noteq> ''/''"
  shows "b = a @ ''/''"
  using under_take [OF assms(1,4)] under_same [OF assms(2,5)] assms(3) by auto

lemma plugin_paths:
  "plugin_page path \<or> plugin_list path \<Longrightarrow> under ''/web'' path"
  using under_extend [of "''/web''" _ path] by (fastforce simp: plugin_page_def plugin_list_def)

lemma plugin_paths_exclusive: "plugin_page path \<Longrightarrow> \<not> plugin_list path"
  unfolding plugin_page_def plugin_list_def by (auto dest: under_longer)

lemma root_not_under: "\<not> under ''/web'' ''/''"
  by code_simp

lemma candidates_split:
  "candidates (root_rule gw # split_rules jf @ [default_rule jf]) =
     (let web = Backend (WebServiceName jf) DefaultWebPort; server = Backend (jf_name jf) DefaultJellyfinPort in
      [(\<lparr>rm_path = PathExact ''/'', rm_headers = []\<rparr>, RedirectTo 302 (rootRedirectTarget gw)),
       (on_navigation ''/web/configurationpage'', web), (on_navigation ''/web/ConfigurationPage'', web),
       (on_prefix ''/web/ConfigurationPages'', server), (on_prefix ''/web/configurationpages'', server),
       (on_prefix ''/web/ConfigurationPage'', server), (on_prefix ''/web/configurationpage'', server),
       (on_prefix ''/web'', web), (on_prefix ''/'', server)])"
  by (simp add: candidates_def root_rule_def split_rules_def default_rule_def Let_def)

lemma satisfies_simps [simp]:
  "satisfies rq \<lparr>rm_path = PathExact p, rm_headers = []\<rparr> \<longleftrightarrow> rq_path rq = p"
  "satisfies rq (on_prefix p) \<longleftrightarrow> under p (rq_path rq)"
  "satisfies rq (on_navigation p) \<longleftrightarrow> under p (rq_path rq) \<and> navigation rq"
  by (simp_all add: satisfies_def on_prefix_def on_navigation_def navigation_def)

lemma precedence_simps [simp]:
  "precedence \<lparr>rm_path = PathExact p, rm_headers = []\<rparr> = [1, length p, 0]"
  "precedence (on_prefix p) = [0, length p, 0]" "precedence (on_navigation p) = [0, length p, 1]"
  by (simp_all add: precedence_def on_prefix_def on_navigation_def)

lemma under_root [simp]: "under ''/'' path"
  by (simp add: under_def)

text \<open>Which of the nine matches of the split route decides a request that is not for the root.\<close>

definition decides :: "(route_match \<times> route_action) list \<Rightarrow> request \<Rightarrow> route_match \<Rightarrow> route_action \<Rightarrow> bool" where
  "decides cs rq m a \<longleftrightarrow> (m, a) \<in> set cs \<and> satisfies rq m
     \<and> (\<forall>(m', a') \<in> set cs. satisfies rq m' \<longrightarrow> a' = a \<or> precedence m' < precedence m)"

lemma split_decision:
  assumes "split_mode jf" and "rq_path rq \<noteq> ''/''"
  shows "\<exists>m. decides (candidates (root_rule gw # split_rules jf @ [default_rule jf])) rq m (destination jf gw rq)"
proof -
  let ?path = "rq_path rq"
  note d = decides_def candidates_split destination_def Let_def assms plugin_page_def plugin_list_def
  have web: "under ''/web'' ?path" if "plugin_page ?path \<or> plugin_list ?path"
    using that by (rule plugin_paths)
  have excl: "\<not> plugin_list ?path" if "plugin_page ?path"
    using that by (rule plugin_paths_exclusive)
  consider (list1) "under ''/web/configurationpages'' ?path"
    | (list2) "\<not> under ''/web/configurationpages'' ?path" "under ''/web/ConfigurationPages'' ?path"
    | (page1) "\<not> plugin_list ?path" "under ''/web/configurationpage'' ?path"
    | (page2) "\<not> plugin_list ?path" "\<not> under ''/web/configurationpage'' ?path" "under ''/web/ConfigurationPage'' ?path"
    | (other) "\<not> plugin_list ?path" "\<not> plugin_page ?path"
    by (auto simp: plugin_page_def plugin_list_def)
  then show ?thesis
  proof cases
    case list1
    moreover have "\<not> plugin_page ?path" using excl list1 by (auto simp: plugin_list_def)
    ultimately show ?thesis using web
      by (intro exI [of _ "on_prefix ''/web/configurationpages''"]) (simp add: d)
  next
    case list2
    moreover have "\<not> plugin_page ?path" using excl list2 by (auto simp: plugin_list_def)
    ultimately show ?thesis using web
      by (intro exI [of _ "on_prefix ''/web/ConfigurationPages''"]) (simp add: d)
  next
    case page1
    then show ?thesis using web
      by (cases "navigation rq"; intro exI [of _ "if navigation rq then on_navigation ''/web/configurationpage''
            else on_prefix ''/web/configurationpage''"]) (simp_all add: d)
  next
    case page2
    then show ?thesis using web
      by (cases "navigation rq"; intro exI [of _ "if navigation rq then on_navigation ''/web/ConfigurationPage''
            else on_prefix ''/web/ConfigurationPage''"]) (simp_all add: d)
  next
    case other
    then show ?thesis
      by (cases "under ''/web'' ?path"; intro exI [of _ "if under ''/web'' ?path then on_prefix ''/web'' else on_prefix ''/''"])
        (simp_all add: d)
  qed
qed

lemma plain_decision:
  assumes "rq_path rq \<noteq> ''/''"
  shows "decides (candidates [root_rule gw, default_rule jf]) rq (on_prefix ''/'') (Backend (jf_name jf) DefaultJellyfinPort)"
  using assms by (auto simp: decides_def candidates_def root_rule_def default_rule_def)

lemma root_decision:
  assumes "rq_path rq = ''/''"
  shows "decides (candidates (route_rules jf gw)) rq \<lparr>rm_path = PathExact ''/'', rm_headers = []\<rparr>
    (RedirectTo 302 (rootRedirectTarget gw))"
  using assms by (auto simp: decides_def route_rules_def candidates_split Let_def)
    (auto simp: candidates_def root_rule_def default_rule_def)

text \<open>
  C25. Under any gateway that gives matches the precedence of the Gateway API, the route of an instance sends
  every request where it belongs: the bare root is redirected to the web client (or to the single
  sign-on page); without a separate web tier everything else goes to the server; with one, paths
  below \<open>/web\<close> go to the web tier, except the plugin-configuration API below \<open>/web\<close>, which goes to the
  server in both spellings unless the browser navigates to a plugin page.
\<close>

theorem HTTPRoute_destinations:
  assumes "conformant gate" and "BuildHTTPRoute jf = Some route" and "js_gateway (jf_spec jf) = Some gw"
  shows "gate (hr_rules route) rq = Some (destination jf gw rq)"
proof -
  have rules: "hr_rules route = route_rules jf gw" using assms(2,3) by (auto simp: BuildHTTPRoute_def)
  have go: "gate rs rq = Some a" if "decides (candidates rs) rq m a" for rs m a
    using serving.decided [OF serving.intro [OF assms(1)], of m a rs rq] that by (simp add: decides_def)
  show ?thesis
  proof (cases "rq_path rq = ''/''")
    case True
    with go [OF root_decision [OF True]] show ?thesis by (simp add: rules destination_def)
  next
    case False
    show ?thesis
    proof (cases "split_mode jf")
      case True
      with split_decision [OF True False, of gw] go show ?thesis by (auto simp: rules route_rules_def)
    next
      case nosplit: False
      with go [OF plain_decision [OF False]] False show ?thesis
        by (simp add: rules route_rules_def destination_def Let_def)
    qed
  qed
qed

definition sample_gateway :: GatewaySpec where
  "sample_gateway = \<lparr>gw_gatewayRef = \<lparr>gr_name = ''gw'', gr_namespace = '''', gr_sectionName = ''''\<rparr>,
     gw_hostname = ''media.example'', gw_annotations = [], gw_sso = None\<rparr>"

theorem HTTPRoute_destinations_witness:
  "scanning_gateway (hr_rules (the (BuildHTTPRoute (sample_jf\<lparr>jf_spec := no_jf_spec\<lparr>js_gateway := Some sample_gateway\<rparr>\<rparr>))))
     \<lparr>rq_path = ''/'', rq_headers = []\<rparr> = Some (RedirectTo 302 ''/web/'')"
proof -
  let ?jf = "sample_jf\<lparr>jf_spec := no_jf_spec\<lparr>js_gateway := Some sample_gateway\<rparr>\<rparr>"
  obtain route where r: "BuildHTTPRoute ?jf = Some route" by (simp add: BuildHTTPRoute_def)
  have "scanning_gateway (hr_rules route) \<lparr>rq_path = ''/'', rq_headers = []\<rparr>
      = Some (destination ?jf sample_gateway \<lparr>rq_path = ''/'', rq_headers = []\<rparr>)"
    by (rule HTTPRoute_destinations [OF scanning_conformant r]) simp
  moreover have "the (BuildHTTPRoute ?jf) = route" using r by simp
  ultimately show ?thesis
    by (simp add: destination_def rootRedirectTarget_def sample_gateway_def webBasePath_def)
qed

end
