(* ===== verification/Overlay.thy ===== *)
theory Overlay
  imports Json Go_Strings Api_Types
begin

text \<open>
  The overlay that all full-object configuration writes go through
  (\<open>overlayConfig\<close> in \<open>src/internal/jellyfinapi/configuration.go\<close>, and the same loop in
  \<open>EnforceEncodingOptions\<close> and \<open>EnforceReadOnlyOptions\<close>): managed keys are set to their wanted
  values, every other key of the current object is kept, and nothing is written when the managed
  keys already have equal values. The interface \<open>enforcer\<close> states the contract.
\<close>

section \<open>Reading configuration objects\<close>

text \<open>Whether \<open>len(bytesTrim(b))\<close> is 0: nothing but white space, or the word \<open>null\<close>.\<close>

fun bytesTrim_empty :: "raw \<Rightarrow> bool" where
  "bytesTrim_empty RawEmpty = True"
| "bytesTrim_empty (RawBad s) = (trim_space s = '''' \<or> trim_space s = ''null'')"
| "bytesTrim_empty (Raw j) = (j = JNull)"

text \<open>\<open>json.Unmarshal\<close> into a \<open>map[string]json.RawMessage\<close>: the values are kept as they are.\<close>

fun unmarshal_object :: "raw \<Rightarrow> json_error + (string, json) go_map" where
  "unmarshal_object RawEmpty = Inl (JsonSyntaxError '''')"
| "unmarshal_object (RawBad s) = Inl (JsonSyntaxError s)"
| "unmarshal_object (Raw JNull) = Inr []"
| "unmarshal_object (Raw (JObj kvs)) = Inr (obj_map kvs)"
| "unmarshal_object (Raw j) = Inl JsonTypeError"

definition current_options :: "raw \<Rightarrow> json_error + (string, json) go_map" where
  "current_options current = (if bytesTrim_empty current then Inr [] else unmarshal_object current)"

definition jsonEqual :: "num_codec \<Rightarrow> json \<Rightarrow> json \<Rightarrow> bool" where
  "jsonEqual fnum a b =
     (case decode_any fnum a of None \<Rightarrow> False
      | Some av \<Rightarrow> (case decode_any fnum b of None \<Rightarrow> False | Some bv \<Rightarrow> av = bv))"

section \<open>The overlay\<close>

text \<open>
  One managed key. The flag is set when the entry is missing or differs. \<open>json.Marshal\<close> of the
  managed values (texts, Booleans, integers, lists of texts) does not fail; they are given as the
  trees that it yields.
\<close>

definition overlay_key ::
  "num_codec \<Rightarrow> string \<times> json \<Rightarrow> (string, json) go_map \<times> bool \<Rightarrow> (string, json) go_map \<times> bool" where
  "overlay_key fnum = (\<lambda>(key, v) (opts, changed).
     case map_of opts key of
       Some cur \<Rightarrow> if jsonEqual fnum cur v then (opts, changed) else (map_put key v opts, True)
     | None \<Rightarrow> (map_put key v opts, True))"

definition overlay :: "num_codec \<Rightarrow> (string \<times> json) list \<Rightarrow> raw \<Rightarrow> json_error + raw \<times> bool" where
  "overlay fnum kvs current =
     bind_res (current_options current) (\<lambda>opts0.
       let (opts, changed) = fold (overlay_key fnum) kvs (opts0, False)
       in if \<not> changed then Inr (current, False) else Inr (Raw (JObj (sort_map opts)), True))"

definition overlayConfig :: "num_codec \<Rightarrow> raw \<Rightarrow> (string, json) go_map \<Rightarrow> json_error + raw \<times> bool" where
  "overlayConfig fnum current managed = overlay fnum (sort_map managed) current"

section \<open>The contract\<close>

text \<open>A wanted value that can be compared: what the operator manages always decodes.\<close>

definition comparable :: "num_codec \<Rightarrow> json \<Rightarrow> bool" where
  "comparable fnum v \<longleftrightarrow> jsonEqual fnum v v"

definition holds :: "num_codec \<Rightarrow> (string, json) go_map \<Rightarrow> string \<times> json \<Rightarrow> bool" where
  "holds fnum opts kv = (case map_of opts (fst kv) of None \<Rightarrow> False | Some cur \<Rightarrow> jsonEqual fnum cur (snd kv))"

definition settled :: "num_codec \<Rightarrow> (string \<times> json) list \<Rightarrow> (string, json) go_map \<Rightarrow> bool" where
  "settled fnum kvs opts \<longleftrightarrow> list_all (holds fnum opts) kvs"

text \<open>
  The contract as one statement: an object that does not decode is refused with its error; else the
  result keeps every unmanaged key, has every managed key at a value equal to the wanted
  one, is the input itself when the flag is false, and is a fixed point.
\<close>

definition contract ::
  "(raw \<Rightarrow> json_error + raw \<times> bool) \<Rightarrow> num_codec \<Rightarrow> (string, json) go_map \<Rightarrow> raw \<Rightarrow> bool" where
  "contract enforce fnum kvs cur \<longleftrightarrow>
     (case current_options cur of
        Inl e \<Rightarrow> enforce cur = Inl e
      | Inr opts \<Rightarrow> (\<exists>out ch opts'. enforce cur = Inr (out, ch) \<and> current_options out = Inr opts'
          \<and> (ch \<longleftrightarrow> \<not> settled fnum kvs opts) \<and> (ch \<or> out = cur)
          \<and> (\<forall>k. case map_of kvs k of
                  None \<Rightarrow> map_of opts' k = map_of opts k
                | Some v \<Rightarrow> \<exists>c. map_of opts' k = Some c \<and> jsonEqual fnum c v)
          \<and> enforce out = Inr (out, False)))"

locale enforcer =
  fixes enforce :: "raw \<Rightarrow> json_error + raw \<times> bool" and fnum :: num_codec and kvs :: "(string \<times> json) list"
  assumes fails: "current_options cur = Inl e \<Longrightarrow> enforce cur = Inl e"
    and returns: "current_options cur = Inr opts \<Longrightarrow> \<exists>out. enforce cur = Inr (out, \<not> settled fnum kvs opts)
          \<and> (settled fnum kvs opts \<longrightarrow> out = cur)"
    and reaches: "enforce cur = Inr (out, ch) \<Longrightarrow> \<exists>opts. current_options out = Inr opts \<and> settled fnum kvs opts"
    and keeps: "enforce cur = Inr (out, ch) \<Longrightarrow> current_options cur = Inr opts \<Longrightarrow> current_options out = Inr opts'
          \<Longrightarrow> k \<notin> fst ` set kvs \<Longrightarrow> map_of opts' k = map_of opts k"
begin

lemma error_iff: "enforce cur = Inl e \<longleftrightarrow> current_options cur = Inl e"
proof (cases "current_options cur")
  case (Inr opts)
  with returns [OF Inr] show ?thesis by auto
qed (auto dest: fails)

lemma unchanged_iff:
  assumes "current_options cur = Inr opts"
  shows "enforce cur = Inr (cur, False) \<longleftrightarrow> settled fnum kvs opts"
  using returns [OF assms] by auto

text \<open>A second pass over the result of a first changes nothing.\<close>

lemma idempotent:
  assumes "enforce cur = Inr (out, ch)"
  shows "enforce out = Inr (out, False)"
  using reaches [OF assms] unchanged_iff by blast

lemma meets_contract: "contract enforce fnum kvs cur"
proof (cases "current_options cur")
  case (Inr opts)
  obtain out where e: "enforce cur = Inr (out, \<not> settled fnum kvs opts)" "settled fnum kvs opts \<longrightarrow> out = cur"
    using returns [OF Inr] by blast
  obtain opts' where o: "current_options out = Inr opts'" "settled fnum kvs opts'"
    using reaches [OF e(1)] by blast
  have "case map_of kvs k of None \<Rightarrow> map_of opts' k = map_of opts k
      | Some v \<Rightarrow> \<exists>c. map_of opts' k = Some c \<and> jsonEqual fnum c v" for k
  proof (cases "map_of kvs k")
    case None
    then have "map_of opts' k = map_of opts k"
      by (intro keeps [OF e(1) Inr o(1)]) (simp add: map_of_eq_None_iff)
    with None show ?thesis by simp
  next
    case (Some v)
    then have "holds fnum opts' (k, v)"
      using o(2) map_of_SomeD [OF Some] by (simp add: settled_def list_all_iff)
    with Some show ?thesis by (simp add: holds_def split: option.splits)
  qed
  then show ?thesis using Inr e o idempotent [OF e(1)] by (auto simp: contract_def)
qed (simp add: contract_def fails)

text \<open>
  The server may store the posted object in its own layout: as long as the managed keys
  keep equal values, the next pass writes nothing.
\<close>

lemma converges:
  assumes "current_options stored = Inr opts" and "settled fnum kvs opts"
  shows "enforce stored = Inr (stored, False)"
  using assms unchanged_iff by blast

end

section \<open>The overlay meets the contract\<close>

lemma overlay_key_eq:
  "overlay_key fnum kv (opts, ch) =
     (if holds fnum opts kv then (opts, ch) else (map_put (fst kv) (snd kv) opts, True))"
  by (cases kv) (simp add: overlay_key_def holds_def split: option.split)

lemma holds_other: "fst kv \<noteq> k \<Longrightarrow> holds fnum (map_put k v opts) kv \<longleftrightarrow> holds fnum opts kv"
  by (simp add: holds_def)

lemma holds_set: "comparable fnum (snd kv) \<Longrightarrow> holds fnum (map_put (fst kv) (snd kv) opts) kv"
  by (simp add: holds_def comparable_def)

lemma overlay_flag:
  "snd (fold (overlay_key fnum) kvs (opts, ch)) \<longleftrightarrow> ch \<or> \<not> settled fnum kvs opts"
proof -
  have true: "snd (fold (overlay_key fnum) kvs (opts, True))" for kvs opts
    by (induction kvs arbitrary: opts) (simp_all add: overlay_key_eq)
  show ?thesis
    by (induction kvs arbitrary: opts) (auto simp: overlay_key_eq settled_def true)
qed

lemma overlay_settled:
  "settled fnum kvs opts \<Longrightarrow> fold (overlay_key fnum) kvs (opts, ch) = (opts, ch)"
  by (induction kvs) (simp_all add: overlay_key_eq settled_def)

lemma overlay_other:
  "k \<notin> fst ` set kvs \<Longrightarrow> map_of (fst (fold (overlay_key fnum) kvs (opts, ch))) k = map_of opts k"
  by (induction kvs arbitrary: opts ch) (simp_all add: overlay_key_eq)

lemma overlay_distinct:
  "distinct (map fst opts) \<Longrightarrow> distinct (map fst (fst (fold (overlay_key fnum) kvs (opts, ch))))"
  by (induction kvs arbitrary: opts ch) (simp_all add: overlay_key_eq distinct_map_put)

lemma overlay_reaches:
  assumes "distinct (map fst kvs)" and "\<forall>kv \<in> set kvs. comparable fnum (snd kv)"
  shows "settled fnum kvs (fst (fold (overlay_key fnum) kvs (opts, ch)))"
  using assms
proof (induction kvs arbitrary: opts ch)
  case (Cons kv kvs)
  obtain opts1 ch1 where step: "overlay_key fnum kv (opts, ch) = (opts1, ch1)"
    by (cases "overlay_key fnum kv (opts, ch)")
  have "holds fnum opts1 kv"
    using step Cons.prems(2) holds_set [of fnum kv opts] by (auto simp: overlay_key_eq split: if_splits)
  moreover have "map_of (fst (fold (overlay_key fnum) kvs (opts1, ch1))) (fst kv) = map_of opts1 (fst kv)"
    using Cons.prems(1) by (intro overlay_other) simp
  moreover have "settled fnum kvs (fst (fold (overlay_key fnum) kvs (opts1, ch1)))"
    using Cons by simp
  ultimately show ?case by (simp add: step settled_def holds_def)
qed (simp add: settled_def)

lemma current_options_distinct: "current_options cur = Inr opts \<Longrightarrow> distinct (map fst opts)"
  by (cases cur rule: unmarshal_object.cases) (auto simp: current_options_def split: if_splits)

lemma current_options_sorted:
  assumes "distinct (map fst opts)"
  shows "current_options (Raw (JObj (sort_map opts))) = Inr (sort_map opts)"
  using assms by (simp add: current_options_def obj_map_distinct)

lemma overlay_enforcer:
  assumes "distinct (map fst kvs)" and "\<forall>kv \<in> set kvs. comparable fnum (snd kv)"
  shows "enforcer (overlay fnum kvs) fnum kvs"
proof
  fix cur e assume "current_options cur = Inl e"
  then show "overlay fnum kvs cur = Inl e" by (simp add: overlay_def)
next
  fix cur opts assume "current_options cur = Inr opts"
  then show "\<exists>out. overlay fnum kvs cur = Inr (out, \<not> settled fnum kvs opts) \<and> (settled fnum kvs opts \<longrightarrow> out = cur)"
    using overlay_flag [of fnum kvs opts False] by (auto simp: overlay_def split_beta Let_def)
next
  fix cur out ch assume e: "overlay fnum kvs cur = Inr (out, ch)"
  then obtain opts where o: "current_options cur = Inr opts"
    by (cases "current_options cur") (auto simp: overlay_def)
  note flag = overlay_flag [of fnum kvs opts False]
  show "\<exists>opts. current_options out = Inr opts \<and> settled fnum kvs opts"
  proof (cases "settled fnum kvs opts")
    case True
    with e o flag have "out = cur" by (simp add: overlay_def split_beta Let_def)
    with o True show ?thesis by simp
  next
    case False
    let ?r = "fst (fold (overlay_key fnum) kvs (opts, False))"
    have d: "distinct (map fst ?r)" using current_options_distinct [OF o] by (rule overlay_distinct)
    have "out = Raw (JObj (sort_map ?r))" using e o False flag by (simp add: overlay_def split_beta Let_def)
    then have "current_options out = Inr (sort_map ?r)" using current_options_sorted [OF d] by simp
    moreover have "settled fnum kvs (sort_map ?r)"
      using overlay_reaches [OF assms, of opts False] d by (simp add: settled_def holds_def [abs_def])
    ultimately show ?thesis by blast
  qed
next
  fix cur out ch opts opts' k
  assume e: "overlay fnum kvs cur = Inr (out, ch)" and o: "current_options cur = Inr opts"
    and o': "current_options out = Inr opts'" and k: "k \<notin> fst ` set kvs"
  note flag = overlay_flag [of fnum kvs opts False]
  let ?r = "fst (fold (overlay_key fnum) kvs (opts, False))"
  show "map_of opts' k = map_of opts k"
  proof (cases "settled fnum kvs opts")
    case True
    with e o flag have "out = cur" by (simp add: overlay_def split_beta Let_def)
    with o o' show ?thesis by simp
  next
    case False
    have d: "distinct (map fst ?r)" using current_options_distinct [OF o] by (rule overlay_distinct)
    have "out = Raw (JObj (sort_map ?r))" using e o False flag by (simp add: overlay_def split_beta Let_def)
    with o' current_options_sorted [OF d] have "opts' = sort_map ?r" by simp
    with d overlay_other [OF k, of fnum opts False] show ?thesis by simp
  qed
qed

end
