(* ===== verification/Configuration.thy ===== *)
theory Configuration
  imports Overlay Samples
begin

text \<open>
  The configuration stores of a Jellyfin server that the operator manages: the transcoding cache
  (\<open>src/internal/jellyfinapi/encoding.go\<close>), the server and branding configurations
  (\<open>configuration.go\<close>), and the options that stop Jellyfin from writing into read-only media
  (\<open>EnforceReadOnlyOptions\<close> in \<open>libraries.go\<close>). Each meets the contract of \<open>Overlay\<close>.
\<close>

definition json_int32 :: "int32 \<Rightarrow> json" where "json_int32 n = JNum (itoa (sint n))"
definition json_int64 :: "int64 \<Rightarrow> json" where "json_int64 n = JNum (itoa (sint n))"
definition json_texts :: "string list \<Rightarrow> json" where "json_texts xs = JArr (map JStr xs)"

section \<open>Managed values\<close>

text \<open>\<open>put\<close>: a value that is not nil is stored under its key.\<close>

fun put_opt :: "string \<Rightarrow> json option \<Rightarrow> (string, json) go_map \<Rightarrow> (string, json) go_map" where
  "put_opt key None m = m"
| "put_opt key (Some v) m = map_put key v m"

record DesiredEncoding =
  de_EnableThrottling :: "bool option"
  de_ThrottleDelaySeconds :: "int32 option"
  de_EnableSegmentDeletion :: "bool option"
  de_SegmentKeepSeconds :: "int32 option"

definition encoding_Empty :: "DesiredEncoding \<Rightarrow> bool" where
  "encoding_Empty d \<longleftrightarrow> de_EnableThrottling d = None \<and> de_ThrottleDelaySeconds d = None
     \<and> de_EnableSegmentDeletion d = None \<and> de_SegmentKeepSeconds d = None"

text \<open>The calls of \<open>set\<close> that \<open>EnforceEncodingOptions\<close> makes, in order.\<close>

definition encoding_settings :: "DesiredEncoding \<Rightarrow> (string \<times> json) list" where
  "encoding_settings d =
     (case de_EnableThrottling d of None \<Rightarrow> [] | Some b \<Rightarrow> [(''EnableThrottling'', JBool b)])
     @ (case de_ThrottleDelaySeconds d of None \<Rightarrow> [] | Some n \<Rightarrow> [(''ThrottleDelaySeconds'', json_int32 n)])
     @ (case de_EnableSegmentDeletion d of None \<Rightarrow> [] | Some b \<Rightarrow> [(''EnableSegmentDeletion'', JBool b)])
     @ (case de_SegmentKeepSeconds d of None \<Rightarrow> [] | Some n \<Rightarrow> [(''SegmentKeepSeconds'', json_int32 n)])"

definition EnforceEncodingOptions :: "num_codec \<Rightarrow> raw \<Rightarrow> DesiredEncoding \<Rightarrow> json_error + raw \<times> bool" where
  "EnforceEncodingOptions fnum current desired = overlay fnum (encoding_settings desired) current"

record DesiredServerConfig =
  dsc_ServerName :: "string option"
  dsc_UICulture :: "string option"
  dsc_QuickConnectAvailable :: "bool option"
  dsc_EnableMetrics :: "bool option"
  dsc_EnableNormalizedItemByNameIds :: "bool option"
  dsc_AllowClientLogUpload :: "bool option"
  dsc_EnableSlowResponseWarning :: "bool option"
  dsc_SlowResponseThresholdMs :: "int64 option"
  dsc_LibraryScanFanoutConcurrency :: "int32 option"
  dsc_LibraryMetadataRefreshConcurrency :: "int32 option"
  dsc_ParallelImageEncodingLimit :: "int32 option"
  dsc_ActivityLogRetentionDays :: "int32 option"
  dsc_LibraryMonitorDelay :: "int32 option"
  dsc_LibraryUpdateDuration :: "int32 option"
  dsc_InactiveSessionThreshold :: "int32 option"
  dsc_LogFileRetentionDays :: "int32 option"
  dsc_CachePath :: "string option"
  dsc_MetadataPath :: "string option"
  dsc_CorsHosts :: "string list option"
  dsc_MinResumePct :: "int32 option"
  dsc_MaxResumePct :: "int32 option"
  dsc_MinResumeDurationSeconds :: "int32 option"
  dsc_MinAudiobookResume :: "int32 option"
  dsc_MaxAudiobookResume :: "int32 option"
  dsc_RemoteClientBitrateLimit :: "int32 option"

definition server_managed :: "DesiredServerConfig \<Rightarrow> (string, json) go_map" where
  "server_managed d =
     fold (\<lambda>(key, v). put_opt key v)
       [(''ServerName'', map_option JStr (dsc_ServerName d)),
        (''UICulture'', map_option JStr (dsc_UICulture d)),
        (''QuickConnectAvailable'', map_option JBool (dsc_QuickConnectAvailable d)),
        (''EnableMetrics'', map_option JBool (dsc_EnableMetrics d)),
        (''EnableNormalizedItemByNameIds'', map_option JBool (dsc_EnableNormalizedItemByNameIds d)),
        (''AllowClientLogUpload'', map_option JBool (dsc_AllowClientLogUpload d)),
        (''EnableSlowResponseWarning'', map_option JBool (dsc_EnableSlowResponseWarning d)),
        (''SlowResponseThresholdMs'', map_option json_int64 (dsc_SlowResponseThresholdMs d)),
        (''LibraryScanFanoutConcurrency'', map_option json_int32 (dsc_LibraryScanFanoutConcurrency d)),
        (''LibraryMetadataRefreshConcurrency'', map_option json_int32 (dsc_LibraryMetadataRefreshConcurrency d)),
        (''ParallelImageEncodingLimit'', map_option json_int32 (dsc_ParallelImageEncodingLimit d)),
        (''ActivityLogRetentionDays'', map_option json_int32 (dsc_ActivityLogRetentionDays d)),
        (''LibraryMonitorDelay'', map_option json_int32 (dsc_LibraryMonitorDelay d)),
        (''LibraryUpdateDuration'', map_option json_int32 (dsc_LibraryUpdateDuration d)),
        (''InactiveSessionThreshold'', map_option json_int32 (dsc_InactiveSessionThreshold d)),
        (''LogFileRetentionDays'', map_option json_int32 (dsc_LogFileRetentionDays d)),
        (''CachePath'', map_option JStr (dsc_CachePath d)),
        (''MetadataPath'', map_option JStr (dsc_MetadataPath d)),
        (''CorsHosts'', map_option json_texts (dsc_CorsHosts d)),
        (''MinResumePct'', map_option json_int32 (dsc_MinResumePct d)),
        (''MaxResumePct'', map_option json_int32 (dsc_MaxResumePct d)),
        (''MinResumeDurationSeconds'', map_option json_int32 (dsc_MinResumeDurationSeconds d)),
        (''MinAudiobookResume'', map_option json_int32 (dsc_MinAudiobookResume d)),
        (''MaxAudiobookResume'', map_option json_int32 (dsc_MaxAudiobookResume d)),
        (''RemoteClientBitrateLimit'', map_option json_int32 (dsc_RemoteClientBitrateLimit d))] []"

definition server_Empty :: "DesiredServerConfig \<Rightarrow> bool" where
  "server_Empty d \<longleftrightarrow> length (server_managed d) = 0"

definition EnforceServerConfig :: "num_codec \<Rightarrow> raw \<Rightarrow> DesiredServerConfig \<Rightarrow> json_error + raw \<times> bool" where
  "EnforceServerConfig fnum current desired = overlayConfig fnum current (server_managed desired)"

record DesiredBranding =
  db_LoginDisclaimer :: "string option"
  db_CustomCss :: "string option"
  db_SplashscreenEnabled :: "bool option"

definition branding_managed :: "DesiredBranding \<Rightarrow> (string, json) go_map" where
  "branding_managed d =
     put_opt ''SplashscreenEnabled'' (map_option JBool (db_SplashscreenEnabled d))
       (put_opt ''CustomCss'' (map_option JStr (db_CustomCss d))
         (put_opt ''LoginDisclaimer'' (map_option JStr (db_LoginDisclaimer d)) []))"

definition branding_Empty :: "DesiredBranding \<Rightarrow> bool" where
  "branding_Empty d \<longleftrightarrow> length (branding_managed d) = 0"

definition EnforceBranding :: "num_codec \<Rightarrow> raw \<Rightarrow> DesiredBranding \<Rightarrow> json_error + raw \<times> bool" where
  "EnforceBranding fnum current desired = overlayConfig fnum current (branding_managed desired)"

text \<open>
  The source ranges over \<open>readOnlyLibraryOptions\<close> in no fixed order; as its keys differ, every
  order gives the same map, which \<open>json.Marshal\<close> prints with sorted keys.
\<close>

definition readOnlyLibraryOptions :: "(string \<times> json) list" where
  "readOnlyLibraryOptions =
     [(''SaveLocalMetadata'', JBool False), (''MetadataSavers'', JArr []),
      (''SaveSubtitlesWithMedia'', JBool False), (''SaveLyricsWithMedia'', JBool False),
      (''SaveTrickplayWithMedia'', JBool False)]"

definition EnforceReadOnlyOptions :: "num_codec \<Rightarrow> raw \<Rightarrow> json_error + raw \<times> bool" where
  "EnforceReadOnlyOptions fnum current = overlay fnum readOnlyLibraryOptions current"

section \<open>Each store is an enforcer\<close>

text \<open>
  What is needed of the number codec: canonical literals are fixed points, and every 64-bit
  integer is in the range of a \<open>float64\<close>.
\<close>

locale number_codec =
  fixes fnum :: num_codec
  assumes canon: "canon_num fnum"
    and ints: "- (2 ^ 63) \<le> n \<Longrightarrow> n < 2 ^ 63 \<Longrightarrow> fnum (itoa n) \<noteq> None"
begin

lemma comparable_values:
  "comparable fnum (JBool b)" "comparable fnum (JStr s)" "comparable fnum (json_texts xs)"
  by (simp_all add: comparable_def jsonEqual_def json_texts_def map_opt_id split: option.split)

lemma comparable_num: "fnum l \<noteq> None \<Longrightarrow> comparable fnum (JNum l)"
  by (auto simp: comparable_def jsonEqual_def)

lemma comparable_ints: "comparable fnum (json_int32 m)" "comparable fnum (json_int64 n)"
proof -
  have "- (2 ^ 31) \<le> sint m" "sint m < 2 ^ 31" "- (2 ^ 63) \<le> sint n" "sint n < 2 ^ 63"
    using sint_range_size [of m] sint_range_size [of n] by (simp_all add: word_size)
  then show "comparable fnum (json_int32 m)" "comparable fnum (json_int64 n)"
    unfolding json_int32_def json_int64_def by - (rule comparable_num, rule ints; simp)+
qed

lemmas comparables = comparable_values comparable_ints

end

text \<open>Managed maps have distinct keys and comparable values.\<close>

definition manageable :: "num_codec \<Rightarrow> (string \<times> json) list \<Rightarrow> bool" where
  "manageable fnum m \<longleftrightarrow> distinct (map fst m) \<and> (\<forall>kv \<in> set m. comparable fnum (snd kv))"

lemma manageable_put_opt:
  assumes "manageable fnum m" and "\<And>v. vo = Some v \<Longrightarrow> comparable fnum v"
  shows "manageable fnum (put_opt k vo m)"
proof (cases vo)
  case (Some v)
  then show ?thesis
    using assms set_map_put [of k v m] by (fastforce simp: manageable_def distinct_map_put)
qed (use assms in simp)

lemma manageable_puts:
  assumes "manageable fnum m" and "list_all (\<lambda>(k, vo). pred_option (comparable fnum) vo) kvs"
  shows "manageable fnum (fold (\<lambda>(k, v). put_opt k v) kvs m)"
  using assms
proof (induction kvs arbitrary: m)
  case (Cons kv kvs)
  obtain k vo where "kv = (k, vo)" by (cases kv)
  moreover from this have "manageable fnum (put_opt k vo m)"
    using Cons.prems by (intro manageable_put_opt) (auto simp: pred_option_def)
  ultimately show ?case using Cons by simp
qed simp

lemma manageable_Nil [simp]: "manageable fnum []"
  by (simp add: manageable_def)

lemma manageable_sort_map [simp]: "manageable fnum (sort_map m) = manageable fnum m"
  by (simp add: manageable_def)

lemma manageable_enforcer: "manageable fnum kvs \<Longrightarrow> enforcer (overlay fnum kvs) fnum kvs"
  by (rule overlay_enforcer) (simp_all add: manageable_def)

context number_codec begin

lemma manageable_readOnly: "manageable fnum readOnlyLibraryOptions"
proof -
  have "distinct (map fst readOnlyLibraryOptions)" by code_simp
  moreover have "snd ` set readOnlyLibraryOptions \<subseteq> {JBool False, json_texts []}"
    by (simp add: readOnlyLibraryOptions_def json_texts_def)
  ultimately show ?thesis using comparable_values unfolding manageable_def by fastforce
qed

lemma manageable_encoding: "manageable fnum (encoding_settings d)"
  by (auto simp: manageable_def encoding_settings_def comparables split: option.split)

lemma manageable_branding: "manageable fnum (branding_managed d)"
  unfolding branding_managed_def by (intro manageable_put_opt manageable_Nil) (auto simp: comparables)

lemma manageable_server: "manageable fnum (server_managed d)"
  unfolding server_managed_def by (intro manageable_puts manageable_Nil) 
    (simp add: option.pred_map comp_def comparables option.pred_True)

end

sublocale number_codec \<subseteq> read_only: enforcer "EnforceReadOnlyOptions fnum" fnum readOnlyLibraryOptions
  using manageable_enforcer [OF manageable_readOnly] by (simp add: EnforceReadOnlyOptions_def [abs_def])

sublocale number_codec \<subseteq> encoding: enforcer "\<lambda>cur. EnforceEncodingOptions fnum cur d" fnum "encoding_settings d" for d
  using manageable_enforcer [OF manageable_encoding] by (simp add: EnforceEncodingOptions_def)

sublocale number_codec \<subseteq> server: enforcer "\<lambda>cur. EnforceServerConfig fnum cur d" fnum "sort_map (server_managed d)" for d
  using manageable_enforcer [of fnum "sort_map (server_managed d)"] manageable_server
  by (simp add: EnforceServerConfig_def overlayConfig_def)

sublocale number_codec \<subseteq> branding: enforcer "\<lambda>cur. EnforceBranding fnum cur d" fnum "sort_map (branding_managed d)" for d
  using manageable_enforcer [of fnum "sort_map (branding_managed d)"] manageable_branding
  by (simp add: EnforceBranding_def overlayConfig_def)

text \<open>A codec for documents whose numbers are 64-bit integers; other literals are rejected.\<close>

definition integer_codec :: num_codec where
  "integer_codec l = map_option itoa (atoi l)"

lemma atoi_range: "atoi l = Some n \<Longrightarrow> - (2 ^ 63) \<le> n \<and> n < 2 ^ 63"
  by (auto simp: atoi_def Let_def split: if_splits)

interpretation int_codec: number_codec integer_codec
proof
  show "canon_num integer_codec"
    using atoi_range by (auto simp: canon_num_def integer_codec_def atoi_itoa)
  show "integer_codec (itoa n) \<noteq> None" if "- (2 ^ 63) \<le> n" "n < 2 ^ 63" for n
    using that by (simp add: integer_codec_def atoi_itoa)
qed

lemma settled_sort_map: "settled fnum (sort_map m) opts = settled fnum m opts"
  by (simp add: settled_def list_all_iff)

lemma contract_sort_map:
  "distinct (map fst m) \<Longrightarrow> contract e fnum (sort_map m) cur = contract e fnum m cur"
  unfolding contract_def settled_sort_map map_of_sort_map by (rule refl)

lemma distinct_managed: "distinct (map fst (server_managed d))" "distinct (map fst (branding_managed b))"
  using int_codec.manageable_server [of d] int_codec.manageable_branding [of b] by (simp_all add: manageable_def)

context number_codec begin

lemma contracts:
  "contract (EnforceReadOnlyOptions fnum) fnum readOnlyLibraryOptions cur"
  "contract (\<lambda>cur. EnforceEncodingOptions fnum cur e) fnum (encoding_settings e) cur"
  "contract (\<lambda>cur. EnforceServerConfig fnum cur d) fnum (server_managed d) cur"
  "contract (\<lambda>cur. EnforceBranding fnum cur b) fnum (branding_managed b) cur"
  using read_only.meets_contract encoding.meets_contract
    server.meets_contract [unfolded contract_sort_map [OF distinct_managed(1)]]
    branding.meets_contract [unfolded contract_sort_map [OF distinct_managed(2)]]
  by blast+

end

section \<open>The stores keep what they do not manage\<close>

text \<open>
  Server configuration: a field that the instance's spec leaves unset is never written, the declared
  fields reach the declared values, nothing is posted when they already have them, and a
  second pass is a no-op.
\<close>

theorem EnforceServerConfig_contract:
  assumes "number_codec fnum"
  shows "contract (\<lambda>cur. EnforceServerConfig fnum cur d) fnum (server_managed d) cur"
  using assms by (rule number_codec.contracts)

definition no_server_config :: DesiredServerConfig where
  "no_server_config = \<lparr>dsc_ServerName = None,
     dsc_UICulture = None,
     dsc_QuickConnectAvailable = None,
     dsc_EnableMetrics = None,
     dsc_EnableNormalizedItemByNameIds = None,
     dsc_AllowClientLogUpload = None,
     dsc_EnableSlowResponseWarning = None,
     dsc_SlowResponseThresholdMs = None,
     dsc_LibraryScanFanoutConcurrency = None,
     dsc_LibraryMetadataRefreshConcurrency = None,
     dsc_ParallelImageEncodingLimit = None,
     dsc_ActivityLogRetentionDays = None,
     dsc_LibraryMonitorDelay = None,
     dsc_LibraryUpdateDuration = None,
     dsc_InactiveSessionThreshold = None,
     dsc_LogFileRetentionDays = None,
     dsc_CachePath = None,
     dsc_MetadataPath = None,
     dsc_CorsHosts = None,
     dsc_MinResumePct = None,
     dsc_MaxResumePct = None,
     dsc_MinResumeDurationSeconds = None,
     dsc_MinAudiobookResume = None,
     dsc_MaxAudiobookResume = None,
     dsc_RemoteClientBitrateLimit = None\<rparr>"

theorem EnforceServerConfig_contract_witness:
  "contract (\<lambda>cur. EnforceServerConfig integer_codec cur (no_server_config\<lparr>dsc_LogFileRetentionDays := Some 3\<rparr>))
     integer_codec (server_managed (no_server_config\<lparr>dsc_LogFileRetentionDays := Some 3\<rparr>))
     (Raw (JObj [(''PluginRepositories'', JArr []), (''LogFileRetentionDays'', JNum ''5'')]))"
  by (rule EnforceServerConfig_contract) (rule int_codec.number_codec_axioms)

text \<open>
  Transcoding options: the same contract, so that device paths, tone mapping and every other field
  of the encoding store survive the full-object replacement.
\<close>

theorem EnforceEncodingOptions_contract:
  assumes "number_codec fnum"
  shows "contract (\<lambda>cur. EnforceEncodingOptions fnum cur d) fnum (encoding_settings d) cur"
  using assms by (rule number_codec.contracts)

theorem EnforceEncodingOptions_contract_witness:
  "contract (\<lambda>cur. EnforceEncodingOptions integer_codec cur
       \<lparr>de_EnableThrottling = Some True, de_ThrottleDelaySeconds = Some 120, de_EnableSegmentDeletion = None,
        de_SegmentKeepSeconds = None\<rparr>) integer_codec
     [(''EnableThrottling'', JBool True), (''ThrottleDelaySeconds'', JNum ''120'')]
     (Raw (JObj [(''VaapiDevice'', JStr ''/dev/dri/renderD128'')]))"
  (is "contract ?e _ ?kvs ?cur")
proof -
  let ?d = "\<lparr>de_EnableThrottling = Some True, de_ThrottleDelaySeconds = Some 120, de_EnableSegmentDeletion = None,
        de_SegmentKeepSeconds = None\<rparr>"
  have "encoding_settings ?d = ?kvs" by code_simp
  then show ?thesis
    using EnforceEncodingOptions_contract [OF int_codec.number_codec_axioms, of ?d ?cur] by simp
qed

text \<open>
  Branding: the same contract; the server-managed splash screen location is among the fields kept.
\<close>

theorem EnforceBranding_contract:
  assumes "number_codec fnum"
  shows "contract (\<lambda>cur. EnforceBranding fnum cur d) fnum (branding_managed d) cur"
  using assms by (rule number_codec.contracts)

theorem EnforceBranding_contract_witness:
  "contract (\<lambda>cur. EnforceBranding integer_codec cur
       \<lparr>db_LoginDisclaimer = Some ''hi'', db_CustomCss = None, db_SplashscreenEnabled = Some True\<rparr>) integer_codec
     [(''LoginDisclaimer'', JStr ''hi''), (''SplashscreenEnabled'', JBool True)]
     (Raw (JObj [(''SplashscreenLocation'', JStr ''/x''), (''SplashscreenEnabled'', JBool True)]))"
  (is "contract ?e _ ?kvs ?cur")
proof -
  let ?d = "\<lparr>db_LoginDisclaimer = Some ''hi'', db_CustomCss = None, db_SplashscreenEnabled = Some True\<rparr>"
  have "branding_managed ?d = ?kvs" by code_simp
  then show ?thesis
    using EnforceBranding_contract [OF int_codec.number_codec_axioms, of ?d ?cur] by simp
qed

text \<open>
  C19. The configuration stores. For each of server configuration, transcoding options, branding, and the options of a
  read-only library: a field that the
  spec leaves unset is never written, so device paths, plugin repositories and every other field survive the
  full-object replacement; the declared fields reach the declared values; nothing is posted when they already have
  them; a second pass is a no-op; and a store that cannot be read is an error.
\<close>

theorem stores_meet_contract:
  assumes "number_codec fnum"
  shows "contract (\<lambda>cur. EnforceServerConfig fnum cur d) fnum (server_managed d) cur
    \<and> contract (\<lambda>cur. EnforceEncodingOptions fnum cur e) fnum (encoding_settings e) cur
    \<and> contract (\<lambda>cur. EnforceBranding fnum cur b) fnum (branding_managed b) cur
    \<and> contract (EnforceReadOnlyOptions fnum) fnum readOnlyLibraryOptions cur"
  by (intro conjI number_codec.contracts [OF assms])

theorem stores_meet_contract_witness:
  "contract (\<lambda>cur. EnforceServerConfig integer_codec cur (no_server_config\<lparr>dsc_LogFileRetentionDays := Some 3\<rparr>))
     integer_codec (server_managed (no_server_config\<lparr>dsc_LogFileRetentionDays := Some 3\<rparr>))
     (Raw (JObj [(''PluginRepositories'', JArr []), (''LogFileRetentionDays'', JNum ''5'')]))"
  using stores_meet_contract [OF int_codec.number_codec_axioms] by blast

text \<open>
  Read-only media: the five write-disabling library options reach their values (an explicit empty
  list of metadata savers, not null), all other library options are kept, and the overlay is a
  no-op on its own result; a library whose options are null or missing counts as an empty object.
\<close>

theorem EnforceReadOnlyOptions_contract:
  assumes "number_codec fnum"
  shows "contract (EnforceReadOnlyOptions fnum) fnum readOnlyLibraryOptions cur
    \<and> (\<exists>out. EnforceReadOnlyOptions fnum (Raw JNull) = Inr (out, True)
          \<and> EnforceReadOnlyOptions fnum RawEmpty = Inr (out, True)
          \<and> EnforceReadOnlyOptions fnum (Raw (JObj [])) = Inr (out, True))"
  using number_codec.contracts(1) [OF assms, of cur]
  by (simp add: EnforceReadOnlyOptions_def overlay_def current_options_def obj_map_def
      readOnlyLibraryOptions_def overlay_key_def split: option.split)

theorem EnforceReadOnlyOptions_contract_witness:
  "contract (EnforceReadOnlyOptions integer_codec) integer_codec readOnlyLibraryOptions
     (Raw (JObj [(''SaveLocalMetadata'', JBool True), (''TypeOptions'', JArr [])]))"
  using EnforceReadOnlyOptions_contract [OF int_codec.number_codec_axioms] by blast

end
