(* ===== verification/Libraries.thy ===== *)
theory Libraries
  imports Configuration
begin

text \<open>
  \<open>src/internal/jellyfinapi/libraries.go\<close>: the deep merge of library options and the diff between
  the libraries that the instance's spec asks for and those the server has. A decoded
  \<open>map[string]any\<close> is the list of its entries in the sorted form of \<open>Json\<close>.
\<close>

section \<open>Deep merge\<close>

text \<open>
  \<open>deepMerge\<close> visits the keys of the source in no fixed order; the keys differ and each
  changes its own entry only, so the listed order stands for all of them.
\<close>

fun merge_any :: "json option \<Rightarrow> json \<Rightarrow> json" where
  "merge_any (Some (JObj dst)) (JObj src) =
     JObj (sort_map (fold (\<lambda>kv d. map_put (fst kv) (merge_any (map_of d (fst kv)) (snd kv)) d) src dst))"
| "merge_any dv sv = sv"

definition deepMerge :: "(string \<times> json) list \<Rightarrow> (string \<times> json) list \<Rightarrow> (string \<times> json) list" where
  "deepMerge dst src =
     sort_map (fold (\<lambda>kv d. map_put (fst kv) (merge_any (map_of d (fst kv)) (snd kv)) d) src dst)"

text \<open>\<open>json.Unmarshal\<close> into a \<open>map[string]any\<close>.\<close>

fun unmarshal_map :: "num_codec \<Rightarrow> raw \<Rightarrow> json_error + (string \<times> json) list" where
  "unmarshal_map fnum RawEmpty = Inl (JsonSyntaxError '''')"
| "unmarshal_map fnum (RawBad s) = Inl (JsonSyntaxError s)"
| "unmarshal_map fnum (Raw JNull) = Inr []"
| "unmarshal_map fnum (Raw (JObj kvs)) =
     (case decode_any fnum (JObj kvs) of Some (JObj m) \<Rightarrow> Inr m | _ \<Rightarrow> Inl JsonRangeError)"
| "unmarshal_map fnum (Raw j) = Inl JsonTypeError"

text \<open>
  \<open>jsonToMap\<close> drops the error of \<open>json.Unmarshal\<close>; it is called only with a text that the
  caller has decoded already, and then returns that value.
\<close>

definition current_map :: "num_codec \<Rightarrow> raw \<Rightarrow> json_error + (string \<times> json) list" where
  "current_map fnum r = (if bytesTrim_empty r then Inr [] else unmarshal_map fnum r)"

definition jsonToMap :: "num_codec \<Rightarrow> raw \<Rightarrow> (string \<times> json) list" where
  "jsonToMap fnum r = (case current_map fnum r of Inl e \<Rightarrow> [] | Inr m \<Rightarrow> m)"

definition MergeLibraryOptions :: "num_codec \<Rightarrow> raw \<Rightarrow> raw \<Rightarrow> json_error + raw \<times> bool" where
  "MergeLibraryOptions fnum current desired =
     (if bytesTrim_empty desired then Inr (current, False)
      else bind_res (current_map fnum current) (\<lambda>curMap.
           bind_res (unmarshal_map fnum desired) (\<lambda>desMap.
             let merged = deepMerge curMap desMap in
             if merged = jsonToMap fnum current then Inr (current, False)
             else Inr (Raw (JObj merged), True))))"

section \<open>Decoded values\<close>

text \<open>The form of a decoded value: every object has sorted, distinct keys.\<close>

fun tidy :: "json \<Rightarrow> bool" where
  "tidy (JArr xs) = list_all tidy xs"
| "tidy (JObj kvs) = (distinct (map fst kvs) \<and> sort_map kvs = kvs \<and> list_all (\<lambda>kv. tidy (snd kv)) kvs)"
| "tidy j = True"

definition tidy_map :: "(string \<times> json) list \<Rightarrow> bool" where
  "tidy_map m \<longleftrightarrow> tidy (JObj m)"

lemma decode_any_tidy: "decode_any fnum j = Some c \<Longrightarrow> tidy c"
proof (induction j arbitrary: c)
  case (JArr xs)
  then obtain ys where ys: "list_all2 (\<lambda>x y. decode_any fnum x = Some y) xs ys" and c: "c = JArr ys"
    by (auto simp: map_opt_Some_iff)
  have "\<forall>y \<in> set ys. tidy y" using JArr.IH list_all2_right [OF ys] by blast
  with c show ?case by (simp add: list_all_iff)
next
  case (JObj kvs)
  let ?d = "\<lambda>kv. map_option (Pair (fst kv)) (decode_any fnum (snd kv))"
  obtain ys where ys: "list_all2 (\<lambda>x y. ?d x = Some y) kvs ys" and c: "c = JObj (sort_map (obj_map ys))"
    using JObj.prems by (auto simp: map_opt_Some_iff)
  have "tidy (snd y)" if "y \<in> set ys" for y
  proof -
    from that ys obtain x where x: "x \<in> set kvs" "?d x = Some y"
      using list_all2_right [OF ys] by blast
    then obtain v where v: "decode_any fnum (snd x) = Some v" "y = (fst x, v)" by auto
    with JObj.IH [of x "snd x"] x(1) show ?thesis by (simp add: snds.intros prod_set_defs)
  qed
  then have "\<forall>y \<in> set (sort_map (obj_map ys)). tidy (snd y)"
    using set_obj_map by fastforce
  with c show ?case by (simp add: list_all_iff)
qed auto

lemma unmarshal_map_tidy: "unmarshal_map fnum r = Inr m \<Longrightarrow> tidy_map m"
proof (induction fnum r rule: unmarshal_map.induct)
  case (4 fnum kvs)
  then have "decode_any fnum (JObj kvs) = Some (JObj m)"
    by (auto simp del: decode_any.simps split: option.splits json.splits)
  then show ?case unfolding tidy_map_def by (rule decode_any_tidy)
qed (auto simp: tidy_map_def)

lemma current_map_tidy: "current_map fnum r = Inr m \<Longrightarrow> tidy_map m"
  using unmarshal_map_tidy by (auto simp: current_map_def tidy_map_def split: if_splits)

section \<open>What a merge yields\<close>

abbreviation merge_fold :: "(string \<times> json) list \<Rightarrow> (string \<times> json) list \<Rightarrow> (string \<times> json) list" where
  "merge_fold src dst \<equiv>
     fold (\<lambda>kv d. map_put (fst kv) (merge_any (map_of d (fst kv)) (snd kv)) d) src dst"

lemma merge_fold_distinct: "distinct (map fst dst) \<Longrightarrow> distinct (map fst (merge_fold src dst))"
  by (induction src arbitrary: dst) (simp_all add: distinct_map_put)

lemma merge_fold_lookup:
  assumes "distinct (map fst src)"
  shows "map_of (merge_fold src dst) k =
    (case map_of src k of None \<Rightarrow> map_of dst k | Some sv \<Rightarrow> Some (merge_any (map_of dst k) sv))"
  using assms
proof (induction src arbitrary: dst)
  case (Cons kv src)
  obtain key v where kv: "kv = (key, v)" by (cases kv)
  show ?case
  proof (cases "k = key")
    case True
    with Cons.prems kv have "map_of src k = None" by (simp add: map_of_eq_None_iff)
    with True kv Cons show ?thesis by simp
  next
    case False
    with kv Cons show ?thesis by (simp split: option.split)
  qed
qed simp

lemma deepMerge_eq: "merge_any (Some (JObj dst)) (JObj src) = JObj (deepMerge dst src)"
  by (simp add: deepMerge_def)

lemma deepMerge_lookup:
  assumes "distinct (map fst src)" and "distinct (map fst dst)"
  shows "map_of (deepMerge dst src) k =
    (case map_of src k of None \<Rightarrow> map_of dst k | Some sv \<Rightarrow> Some (merge_any (map_of dst k) sv))"
  using assms by (simp add: deepMerge_def merge_fold_distinct merge_fold_lookup)

lemma map_eqI:
  assumes "distinct (map fst m)" and "distinct (map fst n)" and "sort_map n = n" and "map_of m = map_of n"
  shows "sort_map m = n"
  using sort_map_eqI [OF assms(1,2,4)] assms(3) by simp

text \<open>Merging a value into itself, and merging the same source twice.\<close>

lemma tidy_entry: "tidy (JObj m) \<Longrightarrow> map_of m k = Some v \<Longrightarrow> tidy v"
  by (auto simp: list_all_iff dest!: map_of_SomeD)

lemma merge_fold_self:
  assumes "distinct (map fst kvs)" and "\<And>k v. map_of kvs k = Some v \<Longrightarrow> merge_any (Some v) v = v"
  shows "map_of (merge_fold kvs kvs) = map_of kvs"
proof (rule ext)
  fix k
  show "map_of (merge_fold kvs kvs) k = map_of kvs k"
    using assms by (cases "map_of kvs k") (simp_all add: merge_fold_lookup)
qed

lemma deepMerge_unchanged:
  assumes "distinct (map fst m)" and "sort_map m = m" and "map_of (merge_fold src m) = map_of m"
  shows "deepMerge m src = m"
  unfolding deepMerge_def
  by (rule map_eqI [OF merge_fold_distinct [OF assms(1)] assms(1) assms(2) assms(3)])

lemma merge_self: "tidy s \<Longrightarrow> merge_any (Some s) s = s"
proof (induction s)
  case (JObj kvs)
  have d: "distinct (map fst kvs)" "sort_map kvs = kvs" using JObj.prems by simp_all
  have v: "merge_any (Some v) v = v" if "map_of kvs k = Some v" for k v
  proof (rule JObj.IH)
    show "(k, v) \<in> set kvs" using that by (rule map_of_SomeD)
    show "tidy v" using JObj.prems that by (rule tidy_entry)
  qed (simp add: prod_set_simps)
  have "deepMerge kvs kvs = kvs"
    using d merge_fold_self [OF d(1) v] by (rule deepMerge_unchanged)
  then show ?case by (simp only: deepMerge_eq)
qed simp_all

lemma merge_fold_twice:
  assumes "distinct (map fst src)" and "distinct (map fst dst)"
    and "\<And>k v. map_of src k = Some v \<Longrightarrow> merge_any (Some (merge_any (map_of dst k) v)) v = merge_any (map_of dst k) v"
  shows "map_of (merge_fold src (deepMerge dst src)) = map_of (deepMerge dst src)"
proof (rule ext)
  fix k
  show "map_of (merge_fold src (deepMerge dst src)) k = map_of (deepMerge dst src) k"
    using assms by (cases "map_of src k") (simp_all add: merge_fold_lookup deepMerge_lookup)
qed

lemma deepMerge_form: "distinct (map fst dst) \<Longrightarrow>
    distinct (map fst (deepMerge dst src)) \<and> sort_map (deepMerge dst src) = deepMerge dst src"
  by (simp add: deepMerge_def merge_fold_distinct)

lemma merge_twice:
  "tidy s \<Longrightarrow> pred_option tidy dv \<Longrightarrow> merge_any (Some (merge_any dv s)) s = merge_any dv s"
proof (induction s arbitrary: dv)
  case (JObj src)
  show ?case
  proof (cases "\<exists>dst. dv = Some (JObj dst)")
    case True
    then obtain dst where dv: "dv = Some (JObj dst)" by blast
    have ds: "distinct (map fst src)" using JObj.prems(1) by simp
    have td: "tidy (JObj dst)" using JObj.prems(2) dv by simp
    then have dd: "distinct (map fst dst)" by simp
    have v: "merge_any (Some (merge_any (map_of dst k) v)) v = merge_any (map_of dst k) v"
      if "map_of src k = Some v" for k v
    proof (rule JObj.IH)
      show "(k, v) \<in> set src" using that by (rule map_of_SomeD)
      show "tidy v" using JObj.prems(1) that by (rule tidy_entry)
      show "pred_option tidy (map_of dst k)" using tidy_entry [OF td] by (simp add: pred_option_def elem_set)
    qed (simp add: prod_set_simps)
    have "deepMerge (deepMerge dst src) src = deepMerge dst src"
      using deepMerge_form [OF dd] merge_fold_twice [OF ds dd v] by (intro deepMerge_unchanged) auto
    then show ?thesis unfolding dv deepMerge_eq by simp
  next
    case False
    then have "merge_any dv (JObj src) = JObj src"
      by (cases dv; cases "the dv") auto
    then show ?thesis using merge_self [OF JObj.prems(1)] by (simp only:)
  qed
qed simp_all

section \<open>Merged options by path\<close>

fun is_object :: "json \<Rightarrow> bool" where
  "is_object (JObj m) = True"
| "is_object j = False"

fun get_path :: "json \<Rightarrow> string list \<Rightarrow> json option" where
  "get_path j [] = Some j"
| "get_path (JObj m) (k # ks) = (case map_of m k of None \<Rightarrow> None | Some v \<Rightarrow> get_path v ks)"
| "get_path j (k # ks) = None"

text \<open>A tree is silent about a path that leaves it at a missing key of an object.\<close>

fun silent :: "json \<Rightarrow> string list \<Rightarrow> bool" where
  "silent (JObj m) (k # ks) = (case map_of m k of None \<Rightarrow> True | Some v \<Rightarrow> silent v ks)"
| "silent j ks = False"

lemma silent_no_path: "silent j ks \<Longrightarrow> get_path j ks = None"
  by (induction j ks rule: silent.induct) (auto split: option.splits)

lemma merge_any_other: "\<not> (\<exists>dst. dv = Some (JObj dst)) \<Longrightarrow> merge_any dv sv = sv"
  by (cases dv; cases "the dv"; cases sv) auto

lemma merge_leaf:
  assumes "tidy s" and "pred_option tidy dv" and "get_path s ks = Some v" and "\<not> is_object v"
  shows "get_path (merge_any dv s) ks = Some v"
  using assms
proof (induction ks arbitrary: dv s)
  case Nil
  then show ?case by (cases s) auto
next
  case (Cons k ks)
  obtain src where s: "s = JObj src" using Cons.prems(3) by (cases s) auto
  obtain sv where sv: "map_of src k = Some sv" "get_path sv ks = Some v"
    using Cons.prems(3) s by (auto split: option.splits)
  show ?case
  proof (cases "\<exists>dst. dv = Some (JObj dst)")
    case True
    then obtain dst where dv: "dv = Some (JObj dst)" by blast
    have td: "tidy (JObj dst)" using Cons.prems(2) dv by simp
    have "get_path (merge_any (map_of dst k) sv) ks = Some v"
    proof (rule Cons.IH)
      show "tidy sv" using Cons.prems(1) sv(1) unfolding s by (rule tidy_entry)
      show "pred_option tidy (map_of dst k)" using tidy_entry [OF td] by (simp add: pred_option_def elem_set)
    qed (use sv Cons.prems in auto)
    with sv(1) td Cons.prems(1) show ?thesis unfolding s dv deepMerge_eq by (simp add: deepMerge_lookup)
  next
    case False
    with Cons.prems(3) show ?thesis by (simp add: merge_any_other)
  qed
qed

lemma merge_silent:
  assumes "tidy s" and "pred_option tidy dv" and "silent s ks"
  shows "get_path (merge_any dv s) ks = Option.bind dv (\<lambda>d. get_path d ks)"
  using assms
proof (induction ks arbitrary: dv s)
  case (Cons k ks)
  obtain src where s: "s = JObj src" using Cons.prems(3) by (cases s) auto
  show ?case
  proof (cases "\<exists>dst. dv = Some (JObj dst)")
    case True
    then obtain dst where dv: "dv = Some (JObj dst)" by blast
    have td: "tidy (JObj dst)" using Cons.prems(2) dv by simp
    have lookup: "map_of (deepMerge dst src) k
        = (case map_of src k of None \<Rightarrow> map_of dst k | Some sv \<Rightarrow> Some (merge_any (map_of dst k) sv))"
      using td Cons.prems(1) s by (intro deepMerge_lookup) simp_all
    show ?thesis
    proof (cases "map_of src k")
      case None
      with lookup show ?thesis unfolding s dv deepMerge_eq by (simp split: option.split)
    next
      case (Some sv)
      have "get_path (merge_any (map_of dst k) sv) ks = Option.bind (map_of dst k) (\<lambda>d. get_path d ks)"
      proof (rule Cons.IH)
        show "tidy sv" using Cons.prems(1) Some unfolding s by (rule tidy_entry)
        show "pred_option tidy (map_of dst k)" using tidy_entry [OF td] by (simp add: pred_option_def elem_set)
        show "silent sv ks" using Cons.prems(3) s Some by simp
      qed
      with Some lookup show ?thesis unfolding s dv deepMerge_eq
        by (cases "map_of dst k") simp_all
    qed
  next
    case False
    then have "Option.bind dv (\<lambda>d. get_path d (k # ks)) = None"
      by (cases dv; cases "the dv") auto
    with False silent_no_path [OF Cons.prems(3)] show ?thesis by (simp add: merge_any_other)
  qed
qed simp

text \<open>Merged values decode to themselves.\<close>

lemma decoded_entries:
  assumes "canon_num fnum" and "decode_any fnum (JObj kvs) = Some (JObj m)" and "(k, v) \<in> set m"
  shows "decode_any fnum v = Some v"
proof -
  let ?d = "\<lambda>kv. map_option (Pair (fst kv)) (decode_any fnum (snd kv))"
  obtain ys where ys: "list_all2 (\<lambda>x y. ?d x = Some y) kvs ys" and m: "m = sort_map (obj_map ys)"
    using assms(2) by (auto simp: map_opt_Some_iff)
  have "(k, v) \<in> set ys" using assms(3) set_obj_map [of ys] unfolding m by auto
  then obtain x where "?d x = Some (k, v)" using list_all2_right [OF ys, of "(k, v)"] by blast
  then have "decode_any fnum (snd x) = Some v" by auto
  with assms(1) show ?thesis by (rule decode_any_idem)
qed

lemma decoded_object:
  assumes "distinct (map fst m)" and "sort_map m = m" and "\<forall>kv \<in> set m. decode_any fnum (snd kv) = Some (snd kv)"
  shows "decode_any fnum (JObj m) = Some (JObj m)"
proof -
  have "map_opt (\<lambda>kv. map_option (Pair (fst kv)) (decode_any fnum (snd kv))) m = Some m"
    using assms(3) by (intro map_opt_id) auto
  with assms(1,2) show ?thesis by (simp add: obj_map_distinct)
qed

lemma merge_decoded:
  assumes "canon_num fnum"
  shows "decode_any fnum s = Some s \<Longrightarrow> pred_option (\<lambda>d. decode_any fnum d = Some d) dv
    \<Longrightarrow> decode_any fnum (merge_any dv s) = Some (merge_any dv s)"
proof (induction s arbitrary: dv)
  case (JObj src)
  show ?case
  proof (cases "\<exists>dst. dv = Some (JObj dst)")
    case True
    then obtain dst where dv: "dv = Some (JObj dst)" by blast
    have dd: "decode_any fnum (JObj dst) = Some (JObj dst)" using JObj.prems(2) dv by simp
    have ts: "tidy (JObj src)" and td: "tidy (JObj dst)"
      using decode_any_tidy [OF JObj.prems(1)] decode_any_tidy [OF dd] .
    have distinct: "distinct (map fst src)" "distinct (map fst dst)" using ts td by simp_all
    have "decode_any fnum w = Some w" if "(k, w) \<in> set (deepMerge dst src)" for k w
    proof -
      have w: "map_of (deepMerge dst src) k = Some w"
        using that deepMerge_form [OF distinct(2)] by (simp add: map_of_eq_Some_iff)
      show ?thesis
      proof (cases "map_of src k")
        case None
        with w distinct have "(k, w) \<in> set dst" by (auto simp: deepMerge_lookup dest: map_of_SomeD)
        with assms dd show ?thesis by (rule decoded_entries)
      next
        case (Some sv)
        with w distinct have w': "w = merge_any (map_of dst k) sv" by (simp add: deepMerge_lookup)
        show ?thesis unfolding w'
        proof (rule JObj.IH)
          show kv: "(k, sv) \<in> set src" using Some by (rule map_of_SomeD)
          show "decode_any fnum sv = Some sv" using assms JObj.prems(1) kv by (rule decoded_entries)
          show "pred_option (\<lambda>d. decode_any fnum d = Some d) (map_of dst k)"
            using decoded_entries [OF assms dd] by (auto simp: pred_option_def elem_set dest: map_of_SomeD)
        qed (simp add: prod_set_simps)
      qed
    qed
    then have "decode_any fnum (JObj (deepMerge dst src)) = Some (JObj (deepMerge dst src))"
      using deepMerge_form [OF distinct(2), of src] by (intro decoded_object) auto
    then show ?thesis unfolding dv deepMerge_eq .
  next
    case False
    show ?thesis unfolding merge_any_other [OF False] by (rule JObj.prems(1))
  qed
qed simp_all

lemma unmarshal_decoded:
  assumes "canon_num fnum" and "unmarshal_map fnum r = Inr m"
  shows "decode_any fnum (JObj m) = Some (JObj m)"
  using assms
proof (induction fnum r rule: unmarshal_map.induct)
  case (4 fnum kvs)
  then have "decode_any fnum (JObj kvs) = Some (JObj m)"
    by (auto simp del: decode_any.simps split: option.splits json.splits)
  with 4(1) show ?case by (rule decode_any_idem)
qed auto

lemma current_decoded:
  assumes "canon_num fnum" and "current_map fnum r = Inr m"
  shows "decode_any fnum (JObj m) = Some (JObj m)"
  using assms unmarshal_decoded by (auto simp: current_map_def obj_map_def split: if_splits)

lemma current_map_object:
  assumes "decode_any fnum (JObj m) = Some (JObj m)"
  shows "current_map fnum (Raw (JObj m)) = Inr m"
  using assms by (simp add: current_map_def del: decode_any.simps)

lemma deepMerge_decoded:
  assumes "canon_num fnum" and "decode_any fnum (JObj d) = Some (JObj d)" and "decode_any fnum (JObj s) = Some (JObj s)"
  shows "decode_any fnum (JObj (deepMerge d s)) = Some (JObj (deepMerge d s))"
  using merge_decoded [OF assms(1,3), of "Some (JObj d)"] assms(2) unfolding deepMerge_eq by simp

lemma deepMerge_twice:
  assumes "tidy (JObj d)" and "tidy (JObj s)"
  shows "deepMerge (deepMerge d s) s = deepMerge d s"
  using merge_twice [OF assms(2), of "Some (JObj d)"] assms(1) unfolding deepMerge_eq by simp

text \<open>
  C38. Library options are merged by path. The merged object has every value that the desired options
  state at a path that ends in a scalar or an array; a path that the desired options say nothing
  about has the current value, also inside objects that both sides have. The flag tells whether the
  options differ from the current ones, and merging the result again changes nothing, so a
  reconcile posts once.
\<close>

theorem MergeLibraryOptions_merges:
  assumes "canon_num fnum" and "\<not> bytesTrim_empty desired"
    and "current_map fnum current = Inr cm" and "unmarshal_map fnum desired = Inr dm"
  shows "\<exists>out ch rm. MergeLibraryOptions fnum current desired = Inr (out, ch) \<and> current_map fnum out = Inr rm
    \<and> (\<forall>path v. get_path (JObj dm) path = Some v \<and> \<not> is_object v \<longrightarrow> get_path (JObj rm) path = Some v)
    \<and> (\<forall>path. silent (JObj dm) path \<longrightarrow> get_path (JObj rm) path = get_path (JObj cm) path)
    \<and> (ch \<longleftrightarrow> rm \<noteq> cm) \<and> (ch \<or> out = current)
    \<and> MergeLibraryOptions fnum out desired = Inr (out, False)"
proof -
  let ?rm = "deepMerge cm dm"
  have dc: "decode_any fnum (JObj cm) = Some (JObj cm)" using assms(1,3) by (rule current_decoded)
  have dd: "decode_any fnum (JObj dm) = Some (JObj dm)" using assms(1,4) by (rule unmarshal_decoded)
  have t: "tidy (JObj cm)" "tidy (JObj dm)" using decode_any_tidy dc dd by blast+
  define ch where "ch = (?rm \<noteq> cm)"
  define out where "out = (if ch then Raw (JObj ?rm) else current)"
  have eq: "MergeLibraryOptions fnum current desired = Inr (out, ch)"
    using assms(2-4) by (simp add: MergeLibraryOptions_def jsonToMap_def out_def ch_def Let_def)
  have cur: "current_map fnum out = Inr ?rm"
    using current_map_object [OF deepMerge_decoded [OF assms(1) dc dd]] assms(3)
    by (auto simp: out_def ch_def)
  have again: "MergeLibraryOptions fnum out desired = Inr (out, False)"
    using cur assms(2,4) deepMerge_twice [OF t] by (simp add: MergeLibraryOptions_def jsonToMap_def Let_def)
  have leaf: "get_path (JObj ?rm) path = Some v" if "get_path (JObj dm) path = Some v" "\<not> is_object v" for path v
    using merge_leaf [OF t(2), of "Some (JObj cm)", OF _ that] t(1) unfolding deepMerge_eq by simp
  have keep: "get_path (JObj ?rm) path = get_path (JObj cm) path" if "silent (JObj dm) path" for path
    using merge_silent [OF t(2), of "Some (JObj cm)", OF _ that] t(1) unfolding deepMerge_eq by simp
  show ?thesis using eq cur again leaf keep by (intro exI conjI) (auto simp: ch_def out_def)
qed

theorem MergeLibraryOptions_merges_witness:
  "\<exists>out ch. MergeLibraryOptions integer_codec
      (Raw (JObj [(''TypeOptions'', JObj [(''A'', JBool True), (''B'', JBool True)]), (''X'', JNull)]))
      (Raw (JObj [(''TypeOptions'', JObj [(''B'', JBool False)])])) = Inr (out, ch)
    \<and> MergeLibraryOptions integer_codec out (Raw (JObj [(''TypeOptions'', JObj [(''B'', JBool False)])])) = Inr (out, False)"
proof -
  have "current_map integer_codec (Raw (JObj [(''TypeOptions'', JObj [(''A'', JBool True), (''B'', JBool True)]), (''X'', JNull)]))
      = Inr [(''TypeOptions'', JObj [(''A'', JBool True), (''B'', JBool True)]), (''X'', JNull)]" by code_simp
  moreover have "unmarshal_map integer_codec (Raw (JObj [(''TypeOptions'', JObj [(''B'', JBool False)])]))
      = Inr [(''TypeOptions'', JObj [(''B'', JBool False)])]" by code_simp
  ultimately show ?thesis
    using MergeLibraryOptions_merges [OF int_codec.canon, of "Raw (JObj [(''TypeOptions'', JObj [(''B'', JBool False)])])"]
    by fastforce
qed

section \<open>Comparing libraries\<close>

record VirtualFolder =
  vf_Name :: string
  vf_CollectionType :: string
  vf_Locations :: "string list"
  vf_ItemID :: string
  vf_LibraryOptions :: raw

record DesiredLibrary =
  dl_Name :: string
  dl_CollectionType :: string
  dl_Paths :: "string list"
  dl_Options :: raw
  dl_PreventWrites :: bool

record LibraryDiff =
  ToCreate :: "DesiredLibrary list"
  PathsToAdd :: "(string, string list) go_map"
  PathsToRemove :: "(string, string list) go_map"
  ToRemove :: "string list"

definition Changed :: "LibraryDiff \<Rightarrow> bool" where
  "Changed d \<longleftrightarrow> ToCreate d \<noteq> [] \<or> ToRemove d \<noteq> []
     \<or> list_ex (\<lambda>(k, v). v \<noteq> []) (PathsToAdd d) \<or> list_ex (\<lambda>(k, v). v \<noteq> []) (PathsToRemove d)"

definition map_append :: "string \<Rightarrow> string \<Rightarrow> (string, string list) go_map \<Rightarrow> (string, string list) go_map" where
  "map_append k p m = map_put k (deref (map_of m k) [] @ [p]) m"

definition string_set :: "string list \<Rightarrow> (string, bool) go_map" where
  "string_set ss = fold (\<lambda>s. map_put s True) ss []"

definition existing_by_name :: "VirtualFolder list \<Rightarrow> (string, VirtualFolder) go_map" where
  "existing_by_name existing = fold (\<lambda>f. map_put (vf_Name f) f) existing []"

definition diff_library :: "(string, VirtualFolder) go_map \<Rightarrow> DesiredLibrary \<Rightarrow> LibraryDiff \<Rightarrow> LibraryDiff" where
  "diff_library byName d diff =
     (case map_of byName (dl_Name d) of
        None \<Rightarrow> diff\<lparr>ToCreate := ToCreate diff @ [d]\<rparr>
      | Some cur \<Rightarrow>
          let have = string_set (vf_Locations cur); want = string_set (dl_Paths d);
              add = fold (\<lambda>p m. if in_set have p then m else map_append (dl_Name d) p m) (dl_Paths d) (PathsToAdd diff);
              remove = fold (\<lambda>p m. if in_set want p then m else map_append (dl_Name d) p m) (vf_Locations cur) (PathsToRemove diff)
          in diff\<lparr>PathsToAdd := add, PathsToRemove := remove\<rparr>)"

definition DiffLibraries ::
  "DesiredLibrary list \<Rightarrow> VirtualFolder list \<Rightarrow> string list \<Rightarrow> bool \<Rightarrow> LibraryDiff" where
  "DiffLibraries desired existing managed prune =
     (let diff = fold (diff_library (existing_by_name existing)) desired
            \<lparr>ToCreate = [], PathsToAdd = [], PathsToRemove = [], ToRemove = []\<rparr>;
          removed = (if prune then
              sort (map vf_Name (filter (\<lambda>f. vf_Name f \<notin> dl_Name ` set desired
                \<and> in_set (string_set managed) (vf_Name f)) existing))
            else [])
      in diff\<lparr>ToRemove := removed, ToCreate := sort_key dl_Name (ToCreate diff)\<rparr>)"

section \<open>What the diff contains\<close>

lemma in_string_set [simp]: "in_set (string_set ss) k \<longleftrightarrow> k \<in> set ss"
proof -
  have "in_set (fold (\<lambda>s. map_put s True) xs m) k \<longleftrightarrow> k \<in> set xs \<or> in_set m k" for xs m
    by (induction xs arbitrary: m) (auto simp: in_set_def)
  then show ?thesis by (simp add: string_set_def in_set_def)
qed

definition paths_of :: "(string, string list) go_map \<Rightarrow> string \<Rightarrow> string list" where
  "paths_of m n = deref (map_of m n) []"

lemma paths_of_append: "paths_of (map_append k p m) n = (if n = k then paths_of m n @ [p] else paths_of m n)"
  by (simp add: paths_of_def map_append_def)

lemma paths_of_fold:
  "paths_of (fold (\<lambda>p m. if P p then m else map_append k p m) ps m) n =
     (if n = k then paths_of m n @ filter (\<lambda>p. \<not> P p) ps else paths_of m n)"
  by (induction ps arbitrary: m) (simp_all add: paths_of_append)

lemma existing_by_name_lookup:
  "map_of (existing_by_name fs) n = map_of (rev (map (\<lambda>f. (vf_Name f, f)) fs)) n"
proof -
  have "map_of (fold (\<lambda>f. map_put (vf_Name f) f) fs m) = map_of m ++ map_of (rev (map (\<lambda>f. (vf_Name f, f)) fs))" for m
    by (induction fs arbitrary: m) (auto simp: map_add_def fun_eq_iff split: option.splits)
  then show ?thesis by (simp add: existing_by_name_def)
qed

lemma existing_by_name_iff:
  assumes "distinct (map vf_Name fs)"
  shows "map_of (existing_by_name fs) n = Some f \<longleftrightarrow> f \<in> set fs \<and> vf_Name f = n"
    and "map_of (existing_by_name fs) n = None \<longleftrightarrow> n \<notin> vf_Name ` set fs"
proof -
  have "distinct (map fst (rev (map (\<lambda>f. (vf_Name f, f)) fs)))"
    using assms by (simp add: rev_map [symmetric] comp_def)
  then show "map_of (existing_by_name fs) n = Some f \<longleftrightarrow> f \<in> set fs \<and> vf_Name f = n"
    by (auto simp: existing_by_name_lookup map_of_eq_Some_iff)
  show "map_of (existing_by_name fs) n = None \<longleftrightarrow> n \<notin> vf_Name ` set fs"
    by (simp add: existing_by_name_lookup map_of_eq_None_iff image_image)
qed

text \<open>The paths that one desired library adds to, and removes from, the library of its name.\<close>

definition missing_paths :: "(string, VirtualFolder) go_map \<Rightarrow> DesiredLibrary \<Rightarrow> string list" where
  "missing_paths byName d = (case map_of byName (dl_Name d) of None \<Rightarrow> []
     | Some f \<Rightarrow> filter (\<lambda>p. p \<notin> set (vf_Locations f)) (dl_Paths d))"

definition stale_paths :: "(string, VirtualFolder) go_map \<Rightarrow> DesiredLibrary \<Rightarrow> string list" where
  "stale_paths byName d = (case map_of byName (dl_Name d) of None \<Rightarrow> []
     | Some f \<Rightarrow> filter (\<lambda>p. p \<notin> set (dl_Paths d)) (vf_Locations f))"

lemma diff_library_step:
  "ToCreate (diff_library m d diff) = ToCreate diff @ (if map_of m (dl_Name d) = None then [d] else [])"
  "paths_of (PathsToAdd (diff_library m d diff)) n =
     paths_of (PathsToAdd diff) n @ (if n = dl_Name d then missing_paths m d else [])"
  "paths_of (PathsToRemove (diff_library m d diff)) n =
     paths_of (PathsToRemove diff) n @ (if n = dl_Name d then stale_paths m d else [])"
  by (auto simp: diff_library_def missing_paths_def stale_paths_def paths_of_fold Let_def split: option.split)

lemma diff_libraries_fold:
  "ToCreate (fold (diff_library m) ds diff) = ToCreate diff @ filter (\<lambda>d. map_of m (dl_Name d) = None) ds"
  "paths_of (PathsToAdd (fold (diff_library m) ds diff)) n =
     paths_of (PathsToAdd diff) n @ concat (map (\<lambda>d. if n = dl_Name d then missing_paths m d else []) ds)"
  "paths_of (PathsToRemove (fold (diff_library m) ds diff)) n =
     paths_of (PathsToRemove diff) n @ concat (map (\<lambda>d. if n = dl_Name d then stale_paths m d else []) ds)"
  by (induction ds arbitrary: diff) (simp_all add: diff_library_step)

lemma DiffLibraries_fields:
  "ToCreate (DiffLibraries ds fs managed prune)
     = sort_key dl_Name (filter (\<lambda>d. map_of (existing_by_name fs) (dl_Name d) = None) ds)"
  "paths_of (PathsToAdd (DiffLibraries ds fs managed prune)) n =
     concat (map (\<lambda>d. if n = dl_Name d then missing_paths (existing_by_name fs) d else []) ds)"
  "paths_of (PathsToRemove (DiffLibraries ds fs managed prune)) n =
     concat (map (\<lambda>d. if n = dl_Name d then stale_paths (existing_by_name fs) d else []) ds)"
  "set (ToRemove (DiffLibraries ds fs managed prune)) =
     (if prune then vf_Name ` set fs \<inter> set managed - dl_Name ` set ds else {})"
  by (auto simp: DiffLibraries_def Let_def diff_libraries_fold paths_of_def [of "[]"])

lemma concat_single:
  assumes "distinct (map f xs)" and "x \<in> set xs"
  shows "concat (map (\<lambda>y. if f x = f y then g y else []) xs) = g x"
  using assms
proof (induction xs)
  case (Cons y ys)
  show ?case
  proof (cases "y = x")
    case True
    with Cons.prems have "\<forall>z \<in> set ys. f x \<noteq> f z" by auto
    then have "concat (map (\<lambda>y. if f x = f y then g y else []) ys) = []" by auto
    with True show ?thesis by simp
  next
    case False
    with Cons.prems have x: "x \<in> set ys" by simp
    then have "f x \<in> set (map f ys)" by simp
    moreover have "f y \<notin> set (map f ys)" using Cons.prems(1) by simp
    ultimately have "f x \<noteq> f y" by metis
    with x Cons show ?thesis by simp
  qed
qed simp

lemma concat_none: "\<forall>y \<in> set xs. n \<noteq> f y \<Longrightarrow> concat (map (\<lambda>y. if n = f y then g y else []) xs) = []"
  by simp

section \<open>Carrying out a diff\<close>

text \<open>
  What the five kinds of calls mean for the server's list of libraries: the abstract effect of a
  diff, against which the diff itself is judged.
\<close>

definition created :: "DesiredLibrary \<Rightarrow> VirtualFolder" where
  "created d = \<lparr>vf_Name = dl_Name d, vf_CollectionType = dl_CollectionType d, vf_Locations = dl_Paths d,
     vf_ItemID = '''', vf_LibraryOptions = dl_Options d\<rparr>"

definition repathed :: "LibraryDiff \<Rightarrow> VirtualFolder \<Rightarrow> VirtualFolder" where
  "repathed diff f = f\<lparr>vf_Locations :=
     filter (\<lambda>p. p \<notin> set (paths_of (PathsToRemove diff) (vf_Name f)))
       (vf_Locations f @ paths_of (PathsToAdd diff) (vf_Name f))\<rparr>"

definition carry_out :: "LibraryDiff \<Rightarrow> VirtualFolder list \<Rightarrow> VirtualFolder list" where
  "carry_out diff fs =
     map (repathed diff) (filter (\<lambda>f. vf_Name f \<notin> set (ToRemove diff)) fs) @ map created (ToCreate diff)"

lemma diff_paths_desired:
  assumes "distinct (map dl_Name ds)" and "d \<in> set ds"
  shows "paths_of (PathsToAdd (DiffLibraries ds fs managed prune)) (dl_Name d) = missing_paths (existing_by_name fs) d"
    and "paths_of (PathsToRemove (DiffLibraries ds fs managed prune)) (dl_Name d) = stale_paths (existing_by_name fs) d"
  unfolding DiffLibraries_fields by (rule concat_single [OF assms])+

lemma diff_paths_other:
  assumes "n \<notin> dl_Name ` set ds"
  shows "paths_of (PathsToAdd (DiffLibraries ds fs managed prune)) n = []"
    and "paths_of (PathsToRemove (DiffLibraries ds fs managed prune)) n = []"
  unfolding DiffLibraries_fields using assms by (intro concat_none; auto)+

lemma repathed_desired:
  assumes "distinct (map dl_Name ds)" and "distinct (map vf_Name fs)" and "d \<in> set ds" and "f \<in> set fs"
    and "vf_Name f = dl_Name d"
  shows "set (vf_Locations (repathed (DiffLibraries ds fs managed prune) f)) = set (dl_Paths d)"
proof -
  have "map_of (existing_by_name fs) (dl_Name d) = Some f"
    using existing_by_name_iff(1) [OF assms(2)] assms(4,5) by simp
  then show ?thesis
    using diff_paths_desired [OF assms(1,3)] assms(5)
    by (auto simp: repathed_def missing_paths_def stale_paths_def)
qed

lemma repathed_other:
  "vf_Name f \<notin> dl_Name ` set ds \<Longrightarrow> repathed (DiffLibraries ds fs managed prune) f = f"
  by (simp add: repathed_def diff_paths_other)

lemma repathed_name [simp]: "vf_Name (repathed diff f) = vf_Name f"
  by (simp add: repathed_def)

lemma created_fields [simp]:
  "vf_Name (created d) = dl_Name d" "vf_Locations (created d) = dl_Paths d"
  by (simp_all add: created_def)

text \<open>A server whose libraries agree with the desired ones.\<close>

definition aligned :: "DesiredLibrary list \<Rightarrow> VirtualFolder list \<Rightarrow> string list \<Rightarrow> bool \<Rightarrow> bool" where
  "aligned ds fs managed prune \<longleftrightarrow> distinct (map vf_Name fs)
     \<and> (\<forall>d \<in> set ds. \<exists>f \<in> set fs. vf_Name f = dl_Name d \<and> set (vf_Locations f) = set (dl_Paths d))
     \<and> (prune \<longrightarrow> vf_Name ` set fs \<inter> set managed \<subseteq> dl_Name ` set ds)"

lemma distinct_map_append: "distinct (map fst m) \<Longrightarrow> distinct (map fst (map_append k p m))"
  by (simp add: map_append_def distinct_map_put)

lemma distinct_fold_append:
  "distinct (map fst m) \<Longrightarrow> distinct (map fst (fold (\<lambda>p m. if P p then m else map_append k p m) ps m))"
  by (induction ps arbitrary: m) (simp_all add: distinct_map_append)

lemma distinct_diff_step:
  "distinct (map fst (PathsToAdd diff)) \<and> distinct (map fst (PathsToRemove diff)) \<Longrightarrow>
   distinct (map fst (PathsToAdd (diff_library m d diff))) \<and> distinct (map fst (PathsToRemove (diff_library m d diff)))"
  by (simp add: diff_library_def Let_def distinct_fold_append split: option.split)

lemma distinct_diff:
  "distinct (map fst (PathsToAdd (DiffLibraries ds fs managed prune)))"
  "distinct (map fst (PathsToRemove (DiffLibraries ds fs managed prune)))"
proof -
  have "distinct (map fst (PathsToAdd (fold (diff_library m) ds diff)))
      \<and> distinct (map fst (PathsToRemove (fold (diff_library m) ds diff)))"
    if "distinct (map fst (PathsToAdd diff)) \<and> distinct (map fst (PathsToRemove diff))" for m diff
    using that
  proof (induction ds arbitrary: diff)
    case (Cons d ds)
    from Cons.IH [OF distinct_diff_step [OF Cons.prems]] show ?case by simp
  qed simp
  then show "distinct (map fst (PathsToAdd (DiffLibraries ds fs managed prune)))"
    "distinct (map fst (PathsToRemove (DiffLibraries ds fs managed prune)))"
    by (simp_all add: DiffLibraries_def Let_def)
qed

lemma no_paths:
  assumes "distinct (map fst m)" and "\<And>n. paths_of m n = []"
  shows "\<not> list_ex (\<lambda>(k, v). v \<noteq> []) m"
proof
  assume "list_ex (\<lambda>(k, v). v \<noteq> []) m"
  then obtain k v where "(k, v) \<in> set m" "v \<noteq> []" by (auto simp: list_ex_iff)
  with assms(1) assms(2) [of k] show False by (simp add: paths_of_def map_of_is_SomeI)
qed

lemma aligned_unchanged:
  assumes "aligned ds fs managed prune" and "distinct (map dl_Name ds)"
  shows "\<not> Changed (DiffLibraries ds fs managed prune)"
proof -
  have dn: "distinct (map vf_Name fs)" using assms(1) by (simp add: aligned_def)
  have match: "\<exists>f. map_of (existing_by_name fs) (dl_Name d) = Some f \<and> set (vf_Locations f) = set (dl_Paths d)"
    if "d \<in> set ds" for d
    using assms(1) that existing_by_name_iff(1) [OF dn] by (fastforce simp: aligned_def)
  have "ToCreate (DiffLibraries ds fs managed prune) = []"
  proof -
    have "filter (\<lambda>d. map_of (existing_by_name fs) (dl_Name d) = None) ds = []"
      using match by (auto simp: filter_empty_conv)
    then show ?thesis by (simp add: DiffLibraries_fields)
  qed
  moreover have "set (ToRemove (DiffLibraries ds fs managed prune)) = {}"
    unfolding DiffLibraries_fields using assms(1) by (auto simp: aligned_def)
  moreover have "missing_paths (existing_by_name fs) d = []" "stale_paths (existing_by_name fs) d = []" if "d \<in> set ds" for d
    using match [OF that] by (auto simp: missing_paths_def stale_paths_def filter_empty_conv)
  then have "paths_of (PathsToAdd (DiffLibraries ds fs managed prune)) n = []"
    "paths_of (PathsToRemove (DiffLibraries ds fs managed prune)) n = []" for n
    unfolding DiffLibraries_fields by auto
  ultimately show ?thesis
    using no_paths [OF distinct_diff(1)] no_paths [OF distinct_diff(2)] by (simp add: Changed_def)
qed

lemma carry_out_aligned:
  assumes "distinct (map dl_Name ds)" and "distinct (map vf_Name fs)"
  shows "aligned ds (carry_out (DiffLibraries ds fs managed prune) fs) managed prune"
proof -
  let ?diff = "DiffLibraries ds fs managed prune"
  let ?after = "carry_out ?diff fs"
  have rem: "set (ToRemove ?diff) = (if prune then vf_Name ` set fs \<inter> set managed - dl_Name ` set ds else {})"
    and create: "set (ToCreate ?diff) = {d \<in> set ds. dl_Name d \<notin> vf_Name ` set fs}"
    using existing_by_name_iff(2) [OF assms(2)] by (auto simp: DiffLibraries_fields)
  have exact: "\<exists>f \<in> set ?after. vf_Name f = dl_Name d \<and> set (vf_Locations f) = set (dl_Paths d)" if "d \<in> set ds" for d
  proof (cases "dl_Name d \<in> vf_Name ` set fs")
    case True
    then obtain f where f: "f \<in> set fs" "vf_Name f = dl_Name d" by auto
    then have "repathed ?diff f \<in> set ?after" using rem that by (auto simp: carry_out_def)
    moreover have "set (vf_Locations (repathed ?diff f)) = set (dl_Paths d)"
      using assms that f by (rule repathed_desired)
    moreover have "vf_Name (repathed ?diff f) = dl_Name d" using f by simp
    ultimately show ?thesis by blast
  next
    case False
    with create that have "created d \<in> set ?after" by (auto simp: carry_out_def)
    moreover have "vf_Name (created d) = dl_Name d \<and> set (vf_Locations (created d)) = set (dl_Paths d)" by simp
    ultimately show ?thesis by blast
  qed
  have "distinct (map dl_Name (ToCreate ?diff))"
  proof -
    have "mset (map dl_Name (ToCreate ?diff))
        = mset (map dl_Name (filter (\<lambda>d. map_of (existing_by_name fs) (dl_Name d) = None) ds))"
      by (simp add: DiffLibraries_fields)
    moreover have "distinct (map dl_Name (filter (\<lambda>d. map_of (existing_by_name fs) (dl_Name d) = None) ds))"
      using assms(1) by (rule distinct_map_filter)
    ultimately show ?thesis by (metis mset_eq_imp_distinct_iff)
  qed
  then have "distinct (map vf_Name ?after)"
    using assms(2) create by (auto simp: carry_out_def distinct_map_filter comp_def) (metis imageI)
  moreover have "vf_Name ` set ?after \<inter> set managed \<subseteq> dl_Name ` set ds" if prune
    using that rem create by (auto simp: carry_out_def)
  ultimately show ?thesis using exact by (auto simp: aligned_def)
qed


definition sample_library :: "string \<Rightarrow> string list \<Rightarrow> DesiredLibrary" where
  "sample_library n ps = \<lparr>dl_Name = n, dl_CollectionType = '''', dl_Paths = ps, dl_Options = RawEmpty,
     dl_PreventWrites = False\<rparr>"

definition sample_folder :: "string \<Rightarrow> string list \<Rightarrow> VirtualFolder" where
  "sample_folder n ps = \<lparr>vf_Name = n, vf_CollectionType = '''', vf_Locations = ps, vf_ItemID = ''id'',
     vf_LibraryOptions = RawEmpty\<rparr>"


text \<open>
  Two desired libraries of one name do not converge: on a server that has both paths in that
  library, the diff removes each path on behalf of the other desired library.
\<close>

theorem DiffLibraries_same_name:
  "let ds = [sample_library ''TV'' [''/a''], sample_library ''TV'' [''/b'']];
       fs = [sample_folder ''TV'' [''/a'', ''/b'']]
   in map_of (PathsToRemove (DiffLibraries ds fs [] False)) ''TV'' = Some [''/b'', ''/a'']
      \<and> map vf_Locations (carry_out (DiffLibraries ds fs [] False) fs) = [[]]"
  by code_simp

end
