(* ===== verification/Effects.thy ===== *)
theory Effects
  imports Gateway Libraries
begin

text \<open>
  The effects of the operator's code. A Go function that talks to the Kubernetes API server or to
  Jellyfin is a function of the state of the outside world which returns an error or a value, the
  list of the calls it has made, and the new state of the world. The world is a type variable and
  the calls into it are parameters, so what is proved of a computation holds whatever the servers
  answer; the list of calls is what the safety properties are stated on.
\<close>

section \<open>Errors\<close>

text \<open>
  A non-nil Go error. \<open>Wrap\<close> is \<open>fmt.Errorf\<close> with \<open>%w\<close>; \<open>ErrText\<close> one without a wrapped error.
  Errors of the Kubernetes client are classified as \<open>apierrors.IsNotFound\<close>, \<open>IsConflict\<close>,
  \<open>IsForbidden\<close> and \<open>IsInvalid\<close> classify them.
\<close>

datatype go_error =
    APIError string string int string
  | HttpErr string
  | JsonErr json_error
  | ErrText string
  | Wrap string go_error
  | NotFound
  | Conflict
  | Forbidden
  | Invalid
  | KubeErr string
  | BuildErr build_error
  | ServiceErr service_error

section \<open>Computations\<close>

type_synonym ('v, 'e, 'a) io = "'e \<Rightarrow> (go_error + 'a) \<times> 'v list \<times> 'e"

definition ret :: "'a \<Rightarrow> ('v, 'e, 'a) io" where
  "ret a = (\<lambda>s. (Inr a, [], s))"

definition raise :: "go_error \<Rightarrow> ('v, 'e, 'a) io" where
  "raise e = (\<lambda>s. (Inl e, [], s))"

definition lift :: "go_error + 'a \<Rightarrow> ('v, 'e, 'a) io" where
  "lift r = (\<lambda>s. (r, [], s))"

text \<open>\<open>if err != nil { return err }\<close> between two calls.\<close>

definition bind_io :: "('v, 'e, 'a) io \<Rightarrow> ('a \<Rightarrow> ('v, 'e, 'b) io) \<Rightarrow> ('v, 'e, 'b) io" where
  "bind_io m f = (\<lambda>s. case m s of
       (Inl e, es, s') \<Rightarrow> (Inl e, es, s')
     | (Inr a, es, s') \<Rightarrow> (case f a s' of (r, es', s'') \<Rightarrow> (r, es @ es', s'')))"

text \<open>The caller looks at the error itself.\<close>

definition attempt :: "('v, 'e, 'a) io \<Rightarrow> ('v, 'e, go_error + 'a) io" where
  "attempt m = (\<lambda>s. case m s of (r, es, s') \<Rightarrow> (Inr r, es, s'))"

definition wrapping :: "(go_error \<Rightarrow> go_error) \<Rightarrow> ('v, 'e, 'a) io \<Rightarrow> ('v, 'e, 'a) io" where
  "wrapping f m = (\<lambda>s. case m s of (r, es, s') \<Rightarrow> (map_err f r, es, s'))"

text \<open>A call into the outside world, entered in the log with its result.\<close>

definition call :: "('e \<Rightarrow> (go_error + 'a) \<times> 'e) \<Rightarrow> (go_error + 'a \<Rightarrow> 'v) \<Rightarrow> ('v, 'e, 'a) io" where
  "call f ev = (\<lambda>s. case f s of (r, s') \<Rightarrow> (r, [ev r], s'))"

text \<open>A \<open>for range\<close> loop whose body may return an error from the function.\<close>

fun each :: "('x \<Rightarrow> ('v, 'e, unit) io) \<Rightarrow> 'x list \<Rightarrow> ('v, 'e, unit) io" where
  "each f [] = ret ()"
| "each f (x # xs) = bind_io (f x) (\<lambda>_. each f xs)"

text \<open>The same with a variable that the loop updates.\<close>

fun fold_io :: "('x \<Rightarrow> 'a \<Rightarrow> ('v, 'e, 'a) io) \<Rightarrow> 'x list \<Rightarrow> 'a \<Rightarrow> ('v, 'e, 'a) io" where
  "fold_io f [] a = ret a"
| "fold_io f (x # xs) a = bind_io (f x a) (fold_io f xs)"

abbreviation result :: "(go_error + 'a) \<times> 'v list \<times> 'e \<Rightarrow> go_error + 'a" where
  "result \<equiv> fst"

abbreviation events :: "(go_error + 'a) \<times> 'v list \<times> 'e \<Rightarrow> 'v list" where
  "events t \<equiv> fst (snd t)"

abbreviation final :: "(go_error + 'a) \<times> 'v list \<times> 'e \<Rightarrow> 'e" where
  "final t \<equiv> snd (snd t)"

section \<open>Postconditions\<close>

text \<open>
  \<open>post m s Q\<close>: the run of \<open>m\<close> from \<open>s\<close> ends with a result, calls and world that satisfy \<open>Q\<close>. Each
  construct has one rule; together they execute a computation symbolically.
\<close>

definition post :: "('v, 'e, 'a) io \<Rightarrow> 'e \<Rightarrow> (go_error + 'a \<Rightarrow> 'v list \<Rightarrow> 'e \<Rightarrow> bool) \<Rightarrow> bool" where
  "post m s Q \<longleftrightarrow> (case m s of (r, es, s') \<Rightarrow> Q r es s')"

named_theorems post_simps \<open>symbolic execution of computations\<close>

lemma post_iff: "post m s Q \<longleftrightarrow> Q (result (m s)) (events (m s)) (final (m s))"
  by (simp add: post_def split_beta)

lemma post_ret [post_simps]: "post (ret a) s Q = Q (Inr a) [] s"
  by (simp add: post_def ret_def)

lemma post_raise [post_simps]: "post (raise e) s Q = Q (Inl e) [] s"
  by (simp add: post_def raise_def)

lemma post_lift [post_simps]: "post (lift r) s Q = Q r [] s"
  by (simp add: post_def lift_def)

lemma post_bind [post_simps]:
  "post (bind_io m f) s Q =
     post m s (\<lambda>r es s'. case r of Inl e \<Rightarrow> Q (Inl e) es s'
                        | Inr a \<Rightarrow> post (f a) s' (\<lambda>r' es' s''. Q r' (es @ es') s''))"
  by (simp add: post_def bind_io_def split: prod.split sum.split)

lemma post_attempt [post_simps]: "post (attempt m) s Q = post m s (\<lambda>r. Q (Inr r))"
  by (simp add: post_def attempt_def split: prod.split)

lemma post_wrapping [post_simps]: "post (wrapping f m) s Q = post m s (\<lambda>r. Q (map_err f r))"
  by (simp add: post_def wrapping_def split: prod.split)

lemma post_call [post_simps]: "post (call f ev) s Q = (case f s of (r, s') \<Rightarrow> Q r [ev r] s')"
  by (simp add: post_def call_def split: prod.split)

lemma post_mono: "post m s P \<Longrightarrow> (\<And>r es s'. P r es s' \<Longrightarrow> Q r es s') \<Longrightarrow> post m s Q"
  by (simp add: post_iff)

lemma post_conj: "post m s P \<Longrightarrow> post m s Q \<Longrightarrow> post m s (\<lambda>r es s'. P r es s' \<and> Q r es s')"
  by (simp add: post_iff)

lemma post_bindI:
  assumes "post m s P" and "\<And>e es s'. P (Inl e) es s' \<Longrightarrow> Q (Inl e) es s'"
    and "\<And>a es s'. P (Inr a) es s' \<Longrightarrow> post (f a) s' (\<lambda>r es'. Q r (es @ es'))"
  shows "post (bind_io m f) s Q"
  unfolding post_bind by (rule post_mono [OF assms(1)]) (use assms(2,3) in \<open>auto split: sum.split\<close>)

lemma post_returns: "(\<And>a s. post (f a) s (\<lambda>r es s'. P r)) \<Longrightarrow> (\<And>e. P (Inl e)) \<Longrightarrow> post (bind_io m f) s (\<lambda>r es s'. P r)"
  unfolding post_bind by (auto simp: post_iff split: sum.split)

text \<open>A loop: an invariant of the calls so far and the world, kept by every turn.\<close>

lemma post_each:
  assumes "I [] s"
    and "\<And>x es s'. x \<in> set xs \<Longrightarrow> I es s' \<Longrightarrow>
        post (f x) s' (\<lambda>r es' s''. case r of Inl e \<Rightarrow> Q (Inl e) (es @ es') s'' | Inr u \<Rightarrow> I (es @ es') s'')"
    and "\<And>es s'. I es s' \<Longrightarrow> Q (Inr ()) es s'"
  shows "post (each f xs) s Q"
proof -
  have "post (each f xs) s (\<lambda>r es'. Q r (es @ es'))" if "I es s" for es
    using that assms(2)
  proof (induction xs arbitrary: s es)
    case Nil
    then show ?case using assms(3) by (simp add: post_ret)
  next
    case (Cons x xs)
    have step: "post (f x) s (\<lambda>r es' s''. case r of Inl e \<Rightarrow> Q (Inl e) (es @ es') s'' | Inr u \<Rightarrow> I (es @ es') s'')"
      using Cons.prems by simp
    show ?case unfolding each.simps
    proof (rule post_bindI [OF step])
      fix e es1 s1 assume "case Inl e of Inl e \<Rightarrow> Q (Inl e) (es @ es1) s1 | Inr u \<Rightarrow> I (es @ es1) s1"
      then show "Q (Inl e) (es @ es1) s1" by simp
    next
      fix u es1 s1 assume "case Inr u of Inl e \<Rightarrow> Q (Inl e) (es @ es1) s1 | Inr u \<Rightarrow> I (es @ es1) s1"
      then have "I (es @ es1) s1" by simp
      from Cons.IH [OF this] Cons.prems(2) show "post (each f xs) s1 (\<lambda>r es'. Q r (es @ es1 @ es'))" by simp
    qed
  qed
  from this [of "[]"] assms(1) show ?thesis by simp
qed

section \<open>Computations whose calls all satisfy a predicate\<close>

definition emits :: "('v \<Rightarrow> bool) \<Rightarrow> ('v, 'e, 'a) io \<Rightarrow> bool" where
  "emits P m \<longleftrightarrow> (\<forall>s. list_all P (events (m s)))"

named_theorems emits_intros \<open>one rule per construct for what a computation calls\<close>

lemma emits_ret [emits_intros]: "emits P (ret a)"
  by (simp add: emits_def ret_def)

lemma emits_raise [emits_intros]: "emits P (raise e)"
  by (simp add: emits_def raise_def)

lemma emits_lift [emits_intros]: "emits P (lift r)"
  by (simp add: emits_def lift_def)

lemma emits_bind [emits_intros]: "emits P m \<Longrightarrow> (\<And>a. emits P (f a)) \<Longrightarrow> emits P (bind_io m f)"
  by (auto simp: emits_def bind_io_def split: prod.split sum.split dest: spec)
    (metis fst_conv list_all_append snd_conv)+

lemma emits_attempt [emits_intros]: "emits P m \<Longrightarrow> emits P (attempt m)"
  by (simp add: emits_def attempt_def split_beta)

lemma emits_wrapping [emits_intros]: "emits P m \<Longrightarrow> emits P (wrapping f m)"
  by (simp add: emits_def wrapping_def split_beta)

lemma emits_call [emits_intros]: "(\<And>r. P (ev r)) \<Longrightarrow> emits P (call f ev)"
  by (simp add: emits_def call_def split_beta)

lemma emits_each [emits_intros]: "(\<And>x. x \<in> set xs \<Longrightarrow> emits P (f x)) \<Longrightarrow> emits P (each f xs)"
  by (induction xs) (auto intro: emits_intros)

lemma emits_fold [emits_intros]: "(\<And>x a. x \<in> set xs \<Longrightarrow> emits P (f x a)) \<Longrightarrow> emits P (fold_io f xs a)"
  by (induction xs arbitrary: a) (auto intro: emits_intros)

lemma emits_if [emits_intros]: "(b \<Longrightarrow> emits P m) \<Longrightarrow> (\<not> b \<Longrightarrow> emits P n) \<Longrightarrow> emits P (if b then m else n)"
  by simp

lemma emits_option [emits_intros]:
  "(x = None \<Longrightarrow> emits P m) \<Longrightarrow> (\<And>y. x = Some y \<Longrightarrow> emits P (f y)) \<Longrightarrow> emits P (case x of None \<Rightarrow> m | Some y \<Rightarrow> f y)"
  by (simp split: option.split)

lemma emits_sum [emits_intros]:
  "(\<And>e. x = Inl e \<Longrightarrow> emits P (f e)) \<Longrightarrow> (\<And>y. x = Inr y \<Longrightarrow> emits P (g y)) \<Longrightarrow> emits P (case x of Inl e \<Rightarrow> f e | Inr y \<Rightarrow> g y)"
  by (simp split: sum.split)

lemma emits_mono: "emits P m \<Longrightarrow> (\<And>v. P v \<Longrightarrow> Q v) \<Longrightarrow> emits Q m"
  by (auto simp: emits_def list_all_iff)

lemma emits_post: "emits P m \<Longrightarrow> post m s (\<lambda>r es s'. list_all P es)"
  by (simp add: emits_def post_iff)

end
