(* ===== verification/World.thy ===== *)
theory World
  imports Effects
begin

text \<open>
  The outside world as the operator sees it: requests to a Jellyfin server, the objects stored by
  the Kubernetes API server, and the client library (\<open>client.Client\<close>, \<open>controllerutil\<close>, \<open>apimeta\<close>,
  \<open>retry\<close>) as a record of parameters. Nothing is assumed here of what these return; what a
  property needs of them is a named hypothesis.
\<close>

section \<open>HTTP\<close>

text \<open>The parts of a \<open>url.URL\<close>; everything before the path is kept as one text.\<close>

record url =
  url_host :: string
  url_path :: string
  url_rawQuery :: string

text \<open>
  A request with the headers that the client sets. The bytes of a body are given by the tree they
  print.
\<close>

record http_request =
  rq_method :: string
  rq_url :: url
  rq_authorization :: string
  rq_body :: "json option"

text \<open>
  \<open>rs_snippet\<close> is what reading at most 512 bytes of the body yields, \<open>rs_data\<close> what reading all
  of it yields.
\<close>

record http_response =
  rs_status :: int
  rs_snippet :: string
  rs_data :: "string + raw"

section \<open>Stored objects\<close>

text \<open>
  What the API server keeps of an object besides what a builder gives it: whether its creation
  timestamp is set, its owner references, and its status.
\<close>

record LiveDeployment = Deployment +
  ld_created :: bool
  ld_owners :: "string list"
  ld_statusReplicas :: int32
  ld_readyReplicas :: int32
  ld_availableReplicas :: int32

record LiveService = Service +
  lsvc_owners :: "string list"

record LiveRoute = HTTPRoute +
  lr_owners :: "string list"

record PersistentVolumeClaim =
  claim_name :: string
  claim_namespace :: string
  claim_created :: bool
  claim_owners :: "string list"
  claim_labels :: labels
  claim_accessModes :: "string list"
  claim_requests :: "(string, quantity) go_map"
  claim_storageClassName :: "string option"
  claim_volumeName :: string
  claim_phase :: string

record ObjectReference =
  ref_namespace :: string
  ref_name :: string
  ref_uid :: string

record PersistentVolume =
  pv_name :: string
  pv_labels :: labels
  pv_capacity :: "(string, quantity) go_map"
  pv_accessModes :: "string list"
  pv_reclaimPolicy :: string
  pv_mountOptions :: "string list"
  pv_storageClassName :: string
  pv_nfs :: "(string \<times> string \<times> bool) option"
  pv_claimRef :: "ObjectReference option"
  pv_phase :: string

record IngressPath =
  ip_path :: string
  ip_pathType :: string
  ip_serviceName :: string
  ip_servicePort :: int32

record Ingress =
  ing_name :: string
  ing_namespace :: string
  ing_owners :: "string list"
  ing_labels :: labels
  ing_annotations_of :: labels
  ing_class :: "string option"
  ing_rules :: "(string \<times> IngressPath list) list"
  ing_tls_of :: "(string list \<times> string) list"

record Secret =
  sec_name :: string
  sec_namespace :: string
  sec_owners :: "string list"
  sec_data :: "(string, string) go_map"

datatype obj =
    ODeployment LiveDeployment
  | OService LiveService
  | ORoute LiveRoute
  | OClaim PersistentVolumeClaim
  | OVolume PersistentVolume
  | OIngress Ingress
  | OSecret Secret
  | OJellyfin Jellyfin
  | OPlugin JellyfinPlugin

datatype kind = KDeployment | KService | KRoute | KClaim | KVolume | KIngress | KSecret | KJellyfin | KPlugin

fun kind_of :: "obj \<Rightarrow> kind" where
  "kind_of (ODeployment x) = KDeployment"
| "kind_of (OService x) = KService"
| "kind_of (ORoute x) = KRoute"
| "kind_of (OClaim x) = KClaim"
| "kind_of (OVolume x) = KVolume"
| "kind_of (OIngress x) = KIngress"
| "kind_of (OSecret x) = KSecret"
| "kind_of (OJellyfin x) = KJellyfin"
| "kind_of (OPlugin x) = KPlugin"

section \<open>Calls\<close>

text \<open>The calls that the API reconciler makes on its \<open>APIClient\<close>.\<close>

datatype api_call =
    NewClient string string
  | CallSetToken string
  | CallBootstrap string string string
  | CallAuthenticate string string
  | CallListFolders
  | CallAddFolder DesiredLibrary bool
  | CallRemoveFolder string bool
  | CallAddPath string string bool
  | CallRemovePath string string bool
  | CallUpdateOptions string raw
  | CallRefresh
  | CallGetEncoding
  | CallUpdateEncoding raw
  | CallGetServer
  | CallUpdateServer raw
  | CallGetBranding
  | CallUpdateBranding raw

datatype event =
    Http http_request "go_error + http_response"
  | Api api_call bool
  | Got kind string string "go_error + obj"
  | Listed kind string labels "go_error + obj list"
  | Upserted kind string string "go_error + obj"
  | Updated obj "go_error + obj"
  | StatusUpdated obj bool
  | Deleted kind string string bool
  | Patched obj obj bool
  | RandomRead bool

type_synonym ('e, 'a) op = "'e \<Rightarrow> (go_error + 'a) \<times> 'e"
type_synonym ('e, 'a) act = "(event, 'e, 'a) io"

section \<open>The Kubernetes client\<close>

text \<open>
  \<open>client.Client\<close> restricted to one kind of object. \<open>raw_upsert\<close> is \<open>controllerutil.CreateOrUpdate\<close>:
  it calls the function it is given on the stored object, or on an empty one, and returns the
  object that results.
\<close>

record ('e, 'o) store =
  raw_get :: "string \<Rightarrow> string \<Rightarrow> ('e, 'o) op"
  raw_list :: "string \<Rightarrow> labels \<Rightarrow> ('e, 'o list) op"
  raw_upsert :: "string \<Rightarrow> string \<Rightarrow> ('o \<Rightarrow> go_error + 'o) \<Rightarrow> ('e, 'o) op"
  raw_update :: "'o \<Rightarrow> ('e, 'o) op"
  raw_updateStatus :: "'o \<Rightarrow> ('e, unit) op"
  raw_delete :: "string \<Rightarrow> string \<Rightarrow> ('e, unit) op"
  raw_patch :: "'o \<Rightarrow> 'o \<Rightarrow> ('e, unit) op"

record 'e cluster =
  k_deployments :: "('e, LiveDeployment) store"
  k_services :: "('e, LiveService) store"
  k_routes :: "('e, LiveRoute) store"
  k_claims :: "('e, PersistentVolumeClaim) store"
  k_volumes :: "('e, PersistentVolume) store"
  k_ingresses :: "('e, Ingress) store"
  k_secrets :: "('e, Secret) store"
  k_jellyfins :: "('e, Jellyfin) store"
  k_plugins :: "('e, JellyfinPlugin) store"
  SetControllerReference :: "string \<Rightarrow> string list \<Rightarrow> go_error + string list"
  FindStatusCondition :: "Condition list \<Rightarrow> string \<Rightarrow> Condition option"
  SetStatusCondition :: "Condition list \<Rightarrow> Condition \<Rightarrow> Condition list"
  LabelSelectorAsSelector :: "LabelSelector \<Rightarrow> go_error + (labels \<Rightarrow> bool)"
  ContainsFinalizer :: "string list \<Rightarrow> string \<Rightarrow> bool"
  AddFinalizer :: "string list \<Rightarrow> string \<Rightarrow> string list"
  RemoveFinalizer :: "string list \<Rightarrow> string \<Rightarrow> string list"
  RetryOnConflict :: "('e, unit) act \<Rightarrow> ('e, unit) act"

fun map_ok :: "('a \<Rightarrow> 'b) \<Rightarrow> 'e + 'a \<Rightarrow> 'e + 'b" where
  "map_ok f (Inl e) = Inl e"
| "map_ok f (Inr a) = Inr (f a)"

lemma map_ok_iff [simp]:
  "map_ok f r = Inl e \<longleftrightarrow> r = Inl e"
  "map_ok f r = Inr b \<longleftrightarrow> (\<exists>a. r = Inr a \<and> b = f a)"
  by (cases r; auto)+

lemma is_ok_map_ok [simp]: "is_ok (map_ok f r) = is_ok r"
  by (cases r) simp_all

definition Get :: "('o \<Rightarrow> obj) \<Rightarrow> kind \<Rightarrow> ('e, 'o) store \<Rightarrow> string \<Rightarrow> string \<Rightarrow> ('e, 'o) act" where
  "Get mk k st ns n = call (raw_get st ns n) (\<lambda>r. Got k ns n (map_ok mk r))"

definition List_in :: "('o \<Rightarrow> obj) \<Rightarrow> kind \<Rightarrow> ('e, 'o) store \<Rightarrow> string \<Rightarrow> labels \<Rightarrow> ('e, 'o list) act" where
  "List_in mk k st ns ls = call (raw_list st ns ls) (\<lambda>r. Listed k ns ls (map_ok (map mk) r))"

definition CreateOrUpdate ::
  "('o \<Rightarrow> obj) \<Rightarrow> kind \<Rightarrow> ('e, 'o) store \<Rightarrow> string \<Rightarrow> string \<Rightarrow> ('o \<Rightarrow> go_error + 'o) \<Rightarrow> ('e, 'o) act" where
  "CreateOrUpdate mk k st ns n f = call (raw_upsert st ns n f) (\<lambda>r. Upserted k ns n (map_ok mk r))"

definition Update :: "('o \<Rightarrow> obj) \<Rightarrow> ('e, 'o) store \<Rightarrow> 'o \<Rightarrow> ('e, 'o) act" where
  "Update mk st x = call (raw_update st x) (\<lambda>r. Updated (mk x) (map_ok mk r))"

definition StatusUpdate :: "('o \<Rightarrow> obj) \<Rightarrow> ('e, 'o) store \<Rightarrow> 'o \<Rightarrow> ('e, unit) act" where
  "StatusUpdate mk st x = call (raw_updateStatus st x) (\<lambda>r. StatusUpdated (mk x) (is_ok r))"

definition Delete :: "kind \<Rightarrow> ('e, 'o) store \<Rightarrow> string \<Rightarrow> string \<Rightarrow> ('e, unit) act" where
  "Delete k st ns n = call (raw_delete st ns n) (\<lambda>r. Deleted k ns n (is_ok r \<or> r = Inl NotFound))"

definition Patch :: "('o \<Rightarrow> obj) \<Rightarrow> ('e, 'o) store \<Rightarrow> 'o \<Rightarrow> 'o \<Rightarrow> ('e, unit) act" where
  "Patch mk st new base = call (raw_patch st new base) (\<lambda>r. Patched (mk new) (mk base) (is_ok r))"

lemmas world_ops = Get_def List_in_def CreateOrUpdate_def Update_def StatusUpdate_def Delete_def Patch_def

text \<open>\<open>client.IgnoreNotFound\<close>, and deletions that accept a missing object.\<close>

definition IgnoreNotFound :: "go_error + unit \<Rightarrow> go_error + unit" where
  "IgnoreNotFound r = (if r = Inl NotFound then Inr () else r)"

definition DeleteIfExists :: "kind \<Rightarrow> ('e, 'o) store \<Rightarrow> string \<Rightarrow> string \<Rightarrow> ('e, unit) act" where
  "DeleteIfExists k st ns n =
     bind_io (attempt (Delete k st ns n)) (\<lambda>r. lift (IgnoreNotFound r))"

text \<open>\<open>setCondition\<close>.\<close>

definition ConditionTrue :: string where "ConditionTrue = ''True''"
definition ConditionFalse :: string where "ConditionFalse = ''False''"

definition setCondition ::
  "'e cluster \<Rightarrow> string \<Rightarrow> string \<Rightarrow> string \<Rightarrow> string \<Rightarrow> int \<Rightarrow> Condition list \<Rightarrow> Condition list" where
  "setCondition k ctype status reason msg gen conds =
     SetStatusCondition k conds \<lparr>cond_type = ctype, cond_status = status, cond_reason = reason,
       cond_message = msg, cond_observedGeneration = gen\<rparr>"

text \<open>The documented behaviour of \<open>apimeta\<close>: the latest condition set for a type is the one found.\<close>

definition conditions_work :: "'e cluster \<Rightarrow> bool" where
  "conditions_work k \<longleftrightarrow> (\<forall>cs c t. FindStatusCondition k (SetStatusCondition k cs c) t =
     (if t = cond_type c then Some c else FindStatusCondition k cs t))"

lemma find_setCondition:
  assumes "conditions_work k"
  shows "FindStatusCondition k (setCondition k ct st rs ms g cs) t =
    (if t = ct then Some \<lparr>cond_type = ct, cond_status = st, cond_reason = rs, cond_message = ms,
       cond_observedGeneration = g\<rparr> else FindStatusCondition k cs t)"
  using assms by (simp add: conditions_work_def setCondition_def)

text \<open>
  The documented behaviour of \<open>retry.RetryOnConflict\<close>: the function is run again, a bounded number of
  times, while it fails with a conflict; the result is that of the last run.
\<close>

fun attempts :: "nat \<Rightarrow> ('e, 'a) act \<Rightarrow> ('e, 'a) act" where
  "attempts 0 m = m"
| "attempts (Suc n) m =
     bind_io (attempt m) (\<lambda>r. if r = Inl Conflict then attempts n m else lift r)"

definition retry_works :: "'e cluster \<Rightarrow> bool" where
  "retry_works k \<longleftrightarrow> (\<exists>n. RetryOnConflict k = attempts n)"

lemma emits_attempts: "emits P m \<Longrightarrow> emits P (attempts n m)"
  by (induction n) (auto intro!: emits_intros)

lemma emits_retry: "retry_works k \<Longrightarrow> emits P m \<Longrightarrow> emits P (RetryOnConflict k m)"
  by (auto simp: retry_works_def emits_attempts)

section \<open>Status of an instance\<close>

definition conditionReady :: string where "conditionReady = ''Ready''"
definition conditionPluginsLoaded :: string where "conditionPluginsLoaded = ''PluginsLoaded''"
definition conditionAPIReady :: string where "conditionAPIReady = ''APIReady''"
definition conditionLibrariesReady :: string where "conditionLibrariesReady = ''LibrariesReady''"
definition conditionTranscodingReady :: string where "conditionTranscodingReady = ''TranscodingReady''"
definition conditionServerConfigReady :: string where "conditionServerConfigReady = ''ServerConfigReady''"
definition conditionBrandingReady :: string where "conditionBrandingReady = ''BrandingReady''"
definition conditionABICompatible :: string where "conditionABICompatible = ''ABICompatible''"
definition conditionInjected :: string where "conditionInjected = ''Injected''"
definition conditionInstalled :: string where "conditionInstalled = ''Installed''"
definition conditionWorkersAvailable :: string where "conditionWorkersAvailable = ''WorkersAvailable''"

lemmas condition_names = conditionReady_def conditionPluginsLoaded_def conditionAPIReady_def
  conditionLibrariesReady_def conditionTranscodingReady_def conditionServerConfigReady_def conditionBrandingReady_def
  conditionABICompatible_def conditionInjected_def conditionInstalled_def conditionWorkersAvailable_def

definition set_jf_condition :: "'e cluster \<Rightarrow> string \<Rightarrow> string \<Rightarrow> string \<Rightarrow> string \<Rightarrow> Jellyfin \<Rightarrow> Jellyfin" where
  "set_jf_condition k ctype status reason msg jf = jf\<lparr>jf_status := (jf_status jf)\<lparr>jst_conditions :=
     setCondition k ctype status reason msg (jf_generation jf) (jst_conditions (jf_status jf))\<rparr>\<rparr>"

text \<open>
  \<open>writeJellyfinStatus\<close>: the whole status replaces the stored one, on the latest version of the object.
\<close>

definition get_jellyfin :: "'e cluster \<Rightarrow> string \<Rightarrow> string \<Rightarrow> ('e, Jellyfin) act" where
  "get_jellyfin k = Get OJellyfin KJellyfin (k_jellyfins k)"

definition writeJellyfinStatus :: "'e cluster \<Rightarrow> Jellyfin \<Rightarrow> ('e, unit) act" where
  "writeJellyfinStatus k jf = RetryOnConflict k
     (bind_io (get_jellyfin k (jf_namespace jf) (jf_name jf)) (\<lambda>cur.
       StatusUpdate OJellyfin (k_jellyfins k) (cur\<lparr>jf_status := jf_status jf\<rparr>)))"

end
