(* ===== verification/Client.thy ===== *)
theory Client
  imports World
begin

text \<open>
  The HTTP client of a Jellyfin server: \<open>client.go\<close>, \<open>startup.go\<close> and the requests of
  \<open>libraries.go\<close>, \<open>encoding.go\<close> and \<open>configuration.go\<close> under \<open>src/internal/jellyfinapi\<close>. The network and
  the server behind it are one parameter, which answers a request or fails; the client itself
  is part of the state because \<open>SetToken\<close> changes it.
\<close>

section \<open>Go library functions\<close>

text \<open>\<open>url.QueryEscape\<close> and \<open>url.Values.Encode\<close>.\<close>

definition unreserved :: "char \<Rightarrow> bool" where
  "unreserved c \<longleftrightarrow> (CHR ''a'' \<le> c \<and> c \<le> CHR ''z'') \<or> (CHR ''A'' \<le> c \<and> c \<le> CHR ''Z'') \<or> is_digit c
     \<or> c \<in> set ''-_.~''"

definition hex_upper :: "nat \<Rightarrow> char" where
  "hex_upper n = (if n < 10 then char_of (48 + n) else char_of (55 + n))"

definition query_escape :: "string \<Rightarrow> string" where
  "query_escape s = concat (map (\<lambda>c. if unreserved c then [c] else if c = CHR '' '' then ''+''
     else CHR ''%'' # [hex_upper (of_char c div 16), hex_upper (of_char c mod 16)]) s)"

type_synonym url_values = "(string, string list) go_map"

definition encode_values :: "url_values \<Rightarrow> string" where
  "encode_values q = join ''&'' (concat (map (\<lambda>(k, vs).
     map (\<lambda>v. query_escape k @ ''='' @ query_escape v) vs) (sort_map q)))"

text \<open>
  \<open>strconv.Quote\<close>, the \<open>%q\<close> of \<open>fmt\<close>. A byte outside ASCII is taken as part of a printable rune and kept.
\<close>

definition quote_byte :: "char \<Rightarrow> string" where
  "quote_byte c =
     (let n = of_char c :: nat in
      if c = CHR 0x22 \<or> c = CHR 0x5C then [CHR 0x5C, c]
      else if 7 \<le> n \<and> n \<le> 13 then [CHR 0x5C, ''abtnvfr'' ! (n - 7)]
      else if n < 32 \<or> n = 127 then [CHR 0x5C, CHR ''x'', hex_digit (n div 16), hex_digit (n mod 16)]
      else [c])"

definition go_quote :: "string \<Rightarrow> string" where
  "go_quote s = [CHR 0x22] @ concat (map quote_byte s) @ [CHR 0x22]"

text \<open>
  \<open>json.Unmarshal\<close> into a struct: a key selects the field of that name, else one that differs in case only
  (U+212A and U+017F fold to \<open>k\<close> and \<open>s\<close>); unknown keys are skipped, \<open>null\<close> leaves a field as it is, and a
  value of the wrong type is an error reported at the end. A later duplicate key decodes over
  what the earlier one left.
\<close>

fun fold_name :: "string \<Rightarrow> string" where
  "fold_name [] = []"
| "fold_name [a] = [lower_byte a]"
| "fold_name [a, b] = (if a = CHR 0xC5 \<and> b = CHR 0xBF then ''s'' else [lower_byte a, lower_byte b])"
| "fold_name (a # b # c # s) =
     (if a = CHR 0xE2 \<and> b = CHR 0x84 \<and> c = CHR 0xAA then CHR ''k'' # fold_name s
      else if a = CHR 0xC5 \<and> b = CHR 0xBF then CHR ''s'' # fold_name (c # s)
      else lower_byte a # fold_name (b # c # s))"

type_synonym 'r decoder = "json \<Rightarrow> 'r \<Rightarrow> 'r \<times> bool"

definition find_field :: "(string \<times> 'r decoder) list \<Rightarrow> string \<Rightarrow> 'r decoder option" where
  "find_field flds key =
     (case map_of flds key of
        Some d \<Rightarrow> Some d
      | None \<Rightarrow> map_option snd (find (\<lambda>f. fold_name (fst f) = fold_name key) flds))"

fun decode_struct :: "(string \<times> 'r decoder) list \<Rightarrow> 'r decoder" where
  "decode_struct flds JNull r = (r, True)"
| "decode_struct flds (JObj kvs) r =
     fold (\<lambda>kv (r, good). case find_field flds (fst kv) of
         None \<Rightarrow> (r, good)
       | Some d \<Rightarrow> (case d (snd kv) r of (r', good') \<Rightarrow> (r', good \<and> good'))) kvs (r, True)"
| "decode_struct flds j r = (r, False)"

fun text_value :: "string decoder" where
  "text_value (JStr s) old = (s, True)"
| "text_value JNull old = (old, True)"
| "text_value j old = (old, False)"

fun decode_items :: "'r decoder \<Rightarrow> 'r \<Rightarrow> 'r list \<Rightarrow> json list \<Rightarrow> 'r list \<times> bool" where
  "decode_items d zero old [] = ([], True)"
| "decode_items d zero old (j # js) =
     (case d j (case old of [] \<Rightarrow> zero | r # rs \<Rightarrow> r) of (r, good) \<Rightarrow>
      case decode_items d zero (tl old) js of (rs, good') \<Rightarrow> (r # rs, good \<and> good'))"

fun list_value :: "'r decoder \<Rightarrow> 'r \<Rightarrow> 'r list decoder" where
  "list_value d zero (JArr js) old = decode_items d zero old js"
| "list_value d zero JNull old = ([], True)"
| "list_value d zero j old = (old, False)"

definition sub_field :: "('r \<Rightarrow> 'f) \<Rightarrow> ('f \<Rightarrow> 'r \<Rightarrow> 'r) \<Rightarrow> 'f decoder \<Rightarrow> 'r decoder" where
  "sub_field get put d = (\<lambda>j r. case d j (get r) of (f, good) \<Rightarrow> (put f r, good))"

fun unmarshal :: "'r decoder \<Rightarrow> 'r \<Rightarrow> raw \<Rightarrow> json_error + 'r" where
  "unmarshal d zero RawEmpty = Inl (JsonSyntaxError '''')"
| "unmarshal d zero (RawBad s) = Inl (JsonSyntaxError s)"
| "unmarshal d zero (Raw j) = (case d j zero of (r, good) \<Rightarrow> if good then Inr r else Inl JsonTypeError)"

text \<open>\<open>json.Marshal\<close> of a \<open>json.RawMessage\<close>: a nil one prints as \<open>null\<close>.\<close>

fun marshal_raw :: "raw \<Rightarrow> json_error + json" where
  "marshal_raw RawEmpty = Inr JNull"
| "marshal_raw (RawBad s) = Inl (JsonSyntaxError s)"
| "marshal_raw (Raw j) = Inr j"

section \<open>The client\<close>

record Client =
  hc_base :: url
  hc_token :: string
  hc_clientName :: string
  hc_device :: string
  hc_deviceID :: string
  hc_version :: string

definition OperatorClientName :: string where "OperatorClientName = ''JellyOps''"

text \<open>\<open>New\<close>; \<open>url.Parse\<close> is the parameter \<open>parse\<close>, and the HTTP client with its timeout is part of the network.\<close>

definition New :: "(string \<Rightarrow> go_error + url) \<Rightarrow> string \<Rightarrow> string \<Rightarrow> go_error + Client" where
  "New parse baseURL deviceID =
     bind_res (map_err (Wrap ''parse base url'') (parse baseURL)) (\<lambda>u.
       Inr \<lparr>hc_base = u, hc_token = '''', hc_clientName = OperatorClientName, hc_device = ''operator'',
            hc_deviceID = deviceID, hc_version = ''0.1.0''\<rparr>)"

definition authHeader :: "Client \<Rightarrow> string" where
  "authHeader c =
     (let parts = [''Client='' @ go_quote (hc_clientName c), ''Device='' @ go_quote (hc_device c),
                   ''DeviceId='' @ go_quote (hc_deviceID c), ''Version='' @ go_quote (hc_version c)];
          parts = (if hc_token c \<noteq> '''' then parts @ [''Token='' @ go_quote (hc_token c)] else parts)
      in ''MediaBrowser '' @ join '', '' parts)"

type_synonym 'n transport = "http_request \<Rightarrow> 'n \<Rightarrow> (string + http_response) \<times> 'n"
type_synonym ('n, 'a) http = "(Client \<times> 'n, 'a) act"

text \<open>
  \<open>do\<close>. \<open>send\<close> is the part up to the check of the status, with the body already marshalled; \<open>do\<close> is
  called with \<open>out = nil\<close> and \<open>do_into\<close> with a value to decode into.
\<close>

definition new_request :: "Client \<Rightarrow> string \<Rightarrow> string \<Rightarrow> url_values option \<Rightarrow> json option \<Rightarrow> http_request" where
  "new_request c meth path query body =
     \<lparr>rq_method = meth,
      rq_url = \<lparr>url_host = url_host (hc_base c), url_path = trim_right (url_path (hc_base c)) (CHR ''/'') @ path,
        url_rawQuery = (case query of None \<Rightarrow> url_rawQuery (hc_base c) | Some q \<Rightarrow> encode_values q)\<rparr>,
      rq_authorization = authHeader c, rq_body = body\<rparr>"

definition exchange :: "'n transport \<Rightarrow> (Client \<Rightarrow> http_request) \<Rightarrow> ('n, http_response) http" where
  "exchange tr rq = (\<lambda>s. call (\<lambda>(c, n). case tr (rq c) n of (r, n') \<Rightarrow> (map_err HttpErr r, (c, n'))) (Http (rq (fst s))) s)"

definition send :: "'n transport \<Rightarrow> string \<Rightarrow> string \<Rightarrow> url_values option \<Rightarrow> json option \<Rightarrow> ('n, http_response) http" where
  "send tr meth path query body =
     bind_io (exchange tr (\<lambda>c. new_request c meth path query body)) (\<lambda>resp.
       if rs_status resp < 200 \<or> 300 \<le> rs_status resp
       then raise (APIError meth path (rs_status resp) (rs_snippet resp))
       else ret resp)"

definition do_into :: "'n transport \<Rightarrow> string \<Rightarrow> string \<Rightarrow> url_values option \<Rightarrow> json option
    \<Rightarrow> (raw \<Rightarrow> json_error + 'a) \<Rightarrow> 'a \<Rightarrow> ('n, 'a) http" where
  "do_into tr meth path query body dec zero =
     bind_io (send tr meth path query body) (\<lambda>resp.
       lift (bind_res (map_err HttpErr (rs_data resp)) (\<lambda>data.
         if data = RawEmpty then Inr zero
         else map_err (\<lambda>e. Wrap (''decode '' @ meth @ '' '' @ path) (JsonErr e)) (dec data))))"

definition do_call :: "'n transport \<Rightarrow> string \<Rightarrow> string \<Rightarrow> url_values option \<Rightarrow> json option \<Rightarrow> ('n, unit) http" where
  "do_call tr meth path query body = bind_io (send tr meth path query body) (\<lambda>resp. ret ())"

definition marshalled :: "json_error + json \<Rightarrow> (json \<Rightarrow> ('n, 'a) http) \<Rightarrow> ('n, 'a) http" where
  "marshalled b f = bind_io (lift (map_err (\<lambda>e. Wrap ''marshal body'' (JsonErr e)) b)) f"

definition IsStatus :: "go_error \<Rightarrow> int \<Rightarrow> bool" where
  "IsStatus e code = (case e of APIError m p c b \<Rightarrow> c = code | _ \<Rightarrow> False)"

definition SetToken :: "string \<Rightarrow> ('n, unit) http" where
  "SetToken t = (\<lambda>(c, n). (Inr (), [], (c\<lparr>hc_token := t\<rparr>, n)))"

section \<open>First-run wizard\<close>

record StartupConfiguration =
  sc_UICulture :: string
  sc_MetadataCountry :: string
  sc_PreferredLanguage :: string

definition no_startup :: StartupConfiguration where
  "no_startup = \<lparr>sc_UICulture = '''', sc_MetadataCountry = '''', sc_PreferredLanguage = ''''\<rparr>"

definition startup_fields :: "(string \<times> StartupConfiguration decoder) list" where
  "startup_fields =
     [(''UICulture'', sub_field sc_UICulture (\<lambda>v. sc_UICulture_update (\<lambda>_. v)) text_value),
      (''MetadataCountryCode'', sub_field sc_MetadataCountry (\<lambda>v. sc_MetadataCountry_update (\<lambda>_. v)) text_value),
      (''PreferredMetadataLanguage'', sub_field sc_PreferredLanguage (\<lambda>v. sc_PreferredLanguage_update (\<lambda>_. v)) text_value)]"

definition GetStartupConfiguration :: "'n transport \<Rightarrow> ('n, StartupConfiguration) http" where
  "GetStartupConfiguration tr =
     do_into tr ''GET'' ''/Startup/Configuration'' None None (unmarshal (decode_struct startup_fields) no_startup) no_startup"

definition startup_body :: "StartupConfiguration \<Rightarrow> json" where
  "startup_body cfg = JObj
     [(''UICulture'', JStr (if sc_UICulture cfg = '''' then ''en-US'' else sc_UICulture cfg)),
      (''MetadataCountryCode'', JStr (if sc_MetadataCountry cfg = '''' then ''US'' else sc_MetadataCountry cfg)),
      (''PreferredMetadataLanguage'', JStr (if sc_PreferredLanguage cfg = '''' then ''en'' else sc_PreferredLanguage cfg))]"

definition SetStartupConfiguration :: "'n transport \<Rightarrow> StartupConfiguration \<Rightarrow> ('n, unit) http" where
  "SetStartupConfiguration tr cfg = do_call tr ''POST'' ''/Startup/Configuration'' None (Some (startup_body cfg))"

definition GetStartupUser :: "'n transport \<Rightarrow> ('n, unit) http" where
  "GetStartupUser tr = do_call tr ''GET'' ''/Startup/User'' None None"

definition CreateStartupUser :: "'n transport \<Rightarrow> string \<Rightarrow> string \<Rightarrow> ('n, unit) http" where
  "CreateStartupUser tr name password = do_call tr ''POST'' ''/Startup/User'' None
     (Some (JObj [(''Name'', JStr name), (''Password'', JStr password)]))"

definition SetStartupRemoteAccess :: "'n transport \<Rightarrow> ('n, unit) http" where
  "SetStartupRemoteAccess tr = do_call tr ''POST'' ''/Startup/RemoteAccess'' None
     (Some (JObj [(''EnableAutomaticPortMapping'', JBool False), (''EnableRemoteAccess'', JBool True)]))"

definition CompleteStartup :: "'n transport \<Rightarrow> ('n, unit) http" where
  "CompleteStartup tr = do_call tr ''POST'' ''/Startup/Complete'' None None"

record AuthenticationResult =
  ar_AccessToken :: string
  ar_ServerID :: string
  ar_UserID :: string
  ar_UserName :: string

definition no_auth_result :: AuthenticationResult where
  "no_auth_result = \<lparr>ar_AccessToken = '''', ar_ServerID = '''', ar_UserID = '''', ar_UserName = ''''\<rparr>"

definition auth_fields :: "(string \<times> AuthenticationResult decoder) list" where
  "auth_fields =
     [(''AccessToken'', sub_field ar_AccessToken (\<lambda>v. ar_AccessToken_update (\<lambda>_. v)) text_value),
      (''ServerId'', sub_field ar_ServerID (\<lambda>v. ar_ServerID_update (\<lambda>_. v)) text_value),
      (''User'', decode_struct
        [(''Id'', sub_field ar_UserID (\<lambda>v. ar_UserID_update (\<lambda>_. v)) text_value),
         (''Name'', sub_field ar_UserName (\<lambda>v. ar_UserName_update (\<lambda>_. v)) text_value)])]"

definition AuthenticateByName :: "'n transport \<Rightarrow> string \<Rightarrow> string \<Rightarrow> ('n, string) http" where
  "AuthenticateByName tr username password =
     bind_io (do_into tr ''POST'' ''/Users/AuthenticateByName'' None
         (Some (JObj [(''Pw'', JStr password), (''Username'', JStr username)]))
         (unmarshal (decode_struct auth_fields) no_auth_result) no_auth_result) (\<lambda>res.
       if ar_AccessToken res = '''' then raise (ErrText ''authenticate: empty access token'')
       else bind_io (SetToken (ar_AccessToken res)) (\<lambda>_. ret (ar_AccessToken res)))"

record AuthKey =
  ak_AccessToken :: string
  ak_AppName :: string

definition no_key :: AuthKey where
  "no_key = \<lparr>ak_AccessToken = '''', ak_AppName = ''''\<rparr>"

definition key_fields :: "(string \<times> AuthKey decoder) list" where
  "key_fields =
     [(''AccessToken'', sub_field ak_AccessToken (\<lambda>v. ak_AccessToken_update (\<lambda>_. v)) text_value),
      (''AppName'', sub_field ak_AppName (\<lambda>v. ak_AppName_update (\<lambda>_. v)) text_value)]"

definition decode_keys :: "raw \<Rightarrow> json_error + AuthKey list" where
  "decode_keys = unmarshal (decode_struct [(''Items'', list_value (decode_struct key_fields) no_key)]) []"

definition key_for :: "string \<Rightarrow> AuthKey list \<Rightarrow> AuthKey option" where
  "key_for app = find (\<lambda>k. ak_AppName k = app \<and> ak_AccessToken k \<noteq> '''')"

definition CreateAPIKey :: "'n transport \<Rightarrow> string \<Rightarrow> ('n, string) http" where
  "CreateAPIKey tr app =
     bind_io (do_call tr ''POST'' ''/Auth/Keys'' (Some [(''App'', [app])]) None) (\<lambda>_.
     bind_io (do_into tr ''GET'' ''/Auth/Keys'' None None decode_keys []) (\<lambda>keys.
       case key_for app keys of
         Some k \<Rightarrow> ret (ak_AccessToken k)
       | None \<Rightarrow> raise (ErrText (''created API key for '' @ go_quote app @ '' not found in key list''))))"

text \<open>A wizard step: status 400 means that the step has been done before.\<close>

definition wizard_step :: "string \<Rightarrow> ('n, unit) http \<Rightarrow> ('n, unit) http" where
  "wizard_step what m =
     bind_io (attempt m) (\<lambda>r. case r of
       Inr u \<Rightarrow> ret ()
     | Inl e \<Rightarrow> if IsStatus e 400 then ret () else raise (Wrap what e))"

definition wizard :: "'n transport \<Rightarrow> string \<Rightarrow> string \<Rightarrow> ('n, unit) http" where
  "wizard tr username password =
     bind_io (wizard_step ''set startup configuration'' (SetStartupConfiguration tr no_startup)) (\<lambda>_.
     bind_io (wizard_step ''get startup user'' (GetStartupUser tr)) (\<lambda>_.
     bind_io (wizard_step ''create startup user'' (CreateStartupUser tr username password)) (\<lambda>_.
     bind_io (wizard_step ''set startup remote access'' (SetStartupRemoteAccess tr)) (\<lambda>_.
       wizard_step ''complete startup'' (CompleteStartup tr)))))"

definition Bootstrap :: "'n transport \<Rightarrow> string \<Rightarrow> string \<Rightarrow> string \<Rightarrow> ('n, string) http" where
  "Bootstrap tr username password app =
     bind_io (attempt (GetStartupConfiguration tr)) (\<lambda>cfg.
     bind_io (case cfg of Inr c \<Rightarrow> wizard tr username password | Inl e \<Rightarrow> ret ()) (\<lambda>_.
     bind_io (wrapping (Wrap ''authenticate'') (AuthenticateByName tr username password)) (\<lambda>_.
       CreateAPIKey tr app)))"

section \<open>Libraries and configuration stores\<close>

definition boolStr :: "bool \<Rightarrow> string" where
  "boolStr b = (if b then ''true'' else ''false'')"

definition refreshLibraryParam :: string where "refreshLibraryParam = ''refreshLibrary''"

definition no_folder :: VirtualFolder where
  "no_folder = \<lparr>vf_Name = '''', vf_CollectionType = '''', vf_Locations = [], vf_ItemID = '''', vf_LibraryOptions = RawEmpty\<rparr>"

definition folder_fields :: "(string \<times> VirtualFolder decoder) list" where
  "folder_fields =
     [(''Name'', sub_field vf_Name (\<lambda>v. vf_Name_update (\<lambda>_. v)) text_value),
      (''CollectionType'', sub_field vf_CollectionType (\<lambda>v. vf_CollectionType_update (\<lambda>_. v)) text_value),
      (''Locations'', sub_field vf_Locations (\<lambda>v. vf_Locations_update (\<lambda>_. v)) (list_value text_value '''')),
      (''ItemId'', sub_field vf_ItemID (\<lambda>v. vf_ItemID_update (\<lambda>_. v)) text_value),
      (''LibraryOptions'', \<lambda>j f. (f\<lparr>vf_LibraryOptions := Raw j\<rparr>, True))]"

definition ListVirtualFolders :: "'n transport \<Rightarrow> ('n, VirtualFolder list) http" where
  "ListVirtualFolders tr = do_into tr ''GET'' ''/Library/VirtualFolders'' None None
     (unmarshal (list_value (decode_struct folder_fields) no_folder) []) []"

definition AddVirtualFolder :: "'n transport \<Rightarrow> DesiredLibrary \<Rightarrow> bool \<Rightarrow> ('n, unit) http" where
  "AddVirtualFolder tr lib refresh =
     (let q = map_put ''name'' [dl_Name lib] [];
          q = (if dl_CollectionType lib \<noteq> '''' then map_put ''collectionType'' [dl_CollectionType lib] q else q);
          q = fold (map_append ''paths'') (dl_Paths lib) q;
          q = map_put refreshLibraryParam [boolStr refresh] q
      in if dl_Options lib = RawEmpty then do_call tr ''POST'' ''/Library/VirtualFolders'' (Some q) None
         else marshalled (marshal_raw (dl_Options lib)) (\<lambda>opts.
           do_call tr ''POST'' ''/Library/VirtualFolders'' (Some q) (Some (JObj [(''LibraryOptions'', opts)]))))"

definition RemoveVirtualFolder :: "'n transport \<Rightarrow> string \<Rightarrow> bool \<Rightarrow> ('n, unit) http" where
  "RemoveVirtualFolder tr name refresh = do_call tr ''DELETE'' ''/Library/VirtualFolders''
     (Some [(''name'', [name]), (refreshLibraryParam, [boolStr refresh])]) None"

definition AddMediaPath :: "'n transport \<Rightarrow> string \<Rightarrow> string \<Rightarrow> bool \<Rightarrow> ('n, unit) http" where
  "AddMediaPath tr name path refresh = do_call tr ''POST'' ''/Library/VirtualFolders/Paths''
     (Some [(refreshLibraryParam, [boolStr refresh])])
     (Some (JObj [(''Name'', JStr name), (''PathInfo'', JObj [(''Path'', JStr path)])]))"

definition RemoveMediaPath :: "'n transport \<Rightarrow> string \<Rightarrow> string \<Rightarrow> bool \<Rightarrow> ('n, unit) http" where
  "RemoveMediaPath tr name path refresh = do_call tr ''DELETE'' ''/Library/VirtualFolders/Paths''
     (Some [(''name'', [name]), (''path'', [path]), (refreshLibraryParam, [boolStr refresh])]) None"

definition UpdateLibraryOptions :: "'n transport \<Rightarrow> string \<Rightarrow> raw \<Rightarrow> ('n, unit) http" where
  "UpdateLibraryOptions tr itemID options =
     marshalled (marshal_raw options) (\<lambda>opts.
       do_call tr ''POST'' ''/Library/VirtualFolders/LibraryOptions'' None
         (Some (JObj [(''Id'', JStr itemID), (''LibraryOptions'', opts)])))"

definition RefreshLibraries :: "'n transport \<Rightarrow> ('n, unit) http" where
  "RefreshLibraries tr = do_call tr ''POST'' ''/Library/Refresh'' None None"

definition encodingConfigPath :: string where "encodingConfigPath = ''/System/Configuration/encoding''"
definition serverConfigPath :: string where "serverConfigPath = ''/System/Configuration''"
definition brandingConfigPath :: string where "brandingConfigPath = ''/System/Configuration/branding''"

text \<open>Decoding into a \<open>json.RawMessage\<close> keeps the text; an empty body leaves it nil.\<close>

fun keep_raw :: "raw \<Rightarrow> json_error + raw" where
  "keep_raw (RawBad s) = Inl (JsonSyntaxError s)"
| "keep_raw r = Inr r"

definition GetEncodingConfig :: "'n transport \<Rightarrow> ('n, raw) http" where
  "GetEncodingConfig tr = do_into tr ''GET'' encodingConfigPath None None keep_raw RawEmpty"

definition UpdateEncodingConfig :: "'n transport \<Rightarrow> raw \<Rightarrow> ('n, unit) http" where
  "UpdateEncodingConfig tr cfg =
     marshalled (marshal_raw cfg) (\<lambda>j. do_call tr ''POST'' encodingConfigPath None (Some j))"

definition GetServerConfig :: "'n transport \<Rightarrow> ('n, raw) http" where
  "GetServerConfig tr = do_into tr ''GET'' serverConfigPath None None keep_raw RawEmpty"

definition UpdateServerConfig :: "'n transport \<Rightarrow> raw \<Rightarrow> ('n, unit) http" where
  "UpdateServerConfig tr cfg =
     marshalled (marshal_raw cfg) (\<lambda>j. do_call tr ''POST'' serverConfigPath None (Some j))"

definition GetBrandingConfig :: "'n transport \<Rightarrow> ('n, raw) http" where
  "GetBrandingConfig tr = do_into tr ''GET'' brandingConfigPath None None keep_raw RawEmpty"

definition UpdateBrandingConfig :: "'n transport \<Rightarrow> raw \<Rightarrow> ('n, unit) http" where
  "UpdateBrandingConfig tr cfg =
     marshalled (marshal_raw cfg) (\<lambda>j. do_call tr ''POST'' brandingConfigPath None (Some j))"

end
