(* ===== verification/First_Run.thy ===== *)
theory First_Run
  imports Client
begin

text \<open>
  What the first-run wizard of \<open>src/internal/jellyfinapi/startup.go\<close> does to a server, whatever the
  server answers: the requests it sends, in which order, with which credentials, and which key
  it returns.
\<close>

fun requests :: "event list \<Rightarrow> http_request list" where
  "requests [] = []"
| "requests (Http rq r # es) = rq # requests es"
| "requests (e # es) = requests es"

lemma requests_append [simp]: "requests (es @ es') = requests es @ requests es'"
  by (induction es rule: requests.induct) auto

fun accepted :: "event \<Rightarrow> bool" where
  "accepted (Http rq (Inr resp)) = ((200 \<le> rs_status resp \<and> rs_status resp < 300) \<or> rs_status resp = 400)"
| "accepted e = False"

section \<open>One request\<close>

lemma post_SetToken [post_simps]:
  "post (SetToken t) s Q = Q (Inr ()) [] (fst s\<lparr>hc_token := t\<rparr>, snd s)"
  by (cases s) (simp add: post_def SetToken_def)

lemma post_exchange [post_simps]:
  "post (exchange tr rq) s Q =
     (case tr (rq (fst s)) (snd s) of (r, n') \<Rightarrow>
        Q (map_err HttpErr r) [Http (rq (fst s)) (map_err HttpErr r)] (fst s, n'))"
  by (simp add: exchange_def post_def call_def split_beta)

text \<open>
  A computation that sends one request and leaves the client as it is; when it returns, or fails
  with status 400, the response was an accepted one.
\<close>

definition sent :: "http_request \<Rightarrow> go_error + 'a \<Rightarrow> event list \<Rightarrow> bool" where
  "sent rq r es \<longleftrightarrow> (\<exists>answer. es = [Http rq answer]
     \<and> (case r of Inr a \<Rightarrow> accepted (Http rq answer) | Inl e \<Rightarrow> IsStatus e 400 \<longrightarrow> accepted (Http rq answer)))"

definition one_request :: "(Client \<Rightarrow> http_request) \<Rightarrow> ('n, 'a) http \<Rightarrow> bool" where
  "one_request rq m \<longleftrightarrow> (\<forall>s. post m s (\<lambda>r es s'. fst s' = fst s \<and> sent (rq (fst s)) r es))"

lemma one_requestD: "one_request rq m \<Longrightarrow> post m s (\<lambda>r es s'. fst s' = fst s \<and> sent (rq (fst s)) r es)"
  unfolding one_request_def by (rule spec)

lemma one_request_send: "one_request (\<lambda>c. new_request c meth path q b) (send tr meth path q b)"
proof -
  have *: "post (exchange tr (\<lambda>c. new_request c meth path q b)) s (\<lambda>r es s'. fst s' = fst s
      \<and> es = [Http (new_request (fst s) meth path q b) r]
      \<and> (case r of Inl e \<Rightarrow> \<not> IsStatus e 400 | Inr resp \<Rightarrow> True))" for s
    by (auto simp: post_exchange IsStatus_def split: prod.split sum.splits elim: map_err.elims)
  show ?thesis unfolding one_request_def send_def
    by (intro allI, rule post_bindI [OF *])
      (auto simp: post_simps sent_def IsStatus_def split: sum.splits)
qed

lemma one_request_then:
  assumes "one_request rq m"
    and "\<And>a s. post (f a) s (\<lambda>r es s'. s' = s \<and> es = [] \<and> (case r of Inl e \<Rightarrow> \<not> IsStatus e 400 | Inr b \<Rightarrow> True))"
  shows "one_request rq (bind_io m f)"
  unfolding one_request_def
proof (intro allI)
  fix s
  show "post (bind_io m f) s (\<lambda>r es s'. fst s' = fst s \<and> sent (rq (fst s)) r es)"
    by (rule post_bindI [OF one_requestD [OF assms(1)]])
      (auto simp: sent_def split: sum.splits intro!: post_mono [OF assms(2)])
qed

lemma one_request_do_call: "one_request (\<lambda>c. new_request c meth path q b) (do_call tr meth path q b)"
  unfolding do_call_def by (rule one_request_then [OF one_request_send]) (simp add: post_simps)

lemma one_request_do_into: "one_request (\<lambda>c. new_request c meth path q b) (do_into tr meth path q b dec zero)"
  unfolding do_into_def
proof (rule one_request_then [OF one_request_send], unfold post_lift, intro conjI)
  fix resp
  show "case bind_res (map_err HttpErr (rs_data resp)) (\<lambda>data. if data = RawEmpty then Inr zero
         else map_err (\<lambda>e. Wrap (''decode '' @ meth @ '' '' @ path) (JsonErr e)) (dec data)) of
       Inl e \<Rightarrow> \<not> IsStatus e 400 | Inr b \<Rightarrow> True"
  proof (cases "rs_data resp")
    case (Inr data)
    then show ?thesis by (cases "dec data") (simp_all add: IsStatus_def)
  qed (simp add: IsStatus_def)
qed simp_all

section \<open>Sequences of requests\<close>

text \<open>
  \<open>follows m rqs\<close>: \<open>m\<close> sends the listed requests in this order, stopping at the first one that is
  not accepted; it returns only when all have been sent and accepted.
\<close>

definition along :: "http_request list \<Rightarrow> go_error + 'a \<Rightarrow> event list \<Rightarrow> bool" where
  "along rqs r es \<longleftrightarrow> (case r of Inr a \<Rightarrow> requests es = rqs \<and> list_all accepted es
     | Inl e \<Rightarrow> prefix (requests es) rqs \<and> list_all accepted (butlast es))"

definition follows :: "(Client \<Rightarrow> http_request list) \<Rightarrow> ('n, 'a) http \<Rightarrow> bool" where
  "follows rqs m \<longleftrightarrow> (\<forall>s. post m s (\<lambda>r es s'. fst s' = fst s \<and> along (rqs (fst s)) r es))"

lemma followsD: "follows rqs m \<Longrightarrow> post m s (\<lambda>r es s'. fst s' = fst s \<and> along (rqs (fst s)) r es)"
  unfolding follows_def by (rule spec)

lemma along_append:
  assumes "along rqs (Inr a) es" and "along rqs' r es'"
  shows "along (rqs @ rqs') r (es @ es')"
  using assms by (auto simp: along_def butlast_append split: sum.splits dest: in_set_butlastD)
    (auto simp: list_all_iff dest: in_set_butlastD)

lemma along_fail: "along rqs (Inl e) es \<Longrightarrow> along (rqs @ rqs') (Inl e) es"
  by (auto simp: along_def prefix_def)

lemma follows_one: "one_request rq m \<Longrightarrow> follows (\<lambda>c. [rq c]) m"
  unfolding follows_def
  by (intro allI, rule post_mono [OF one_requestD], assumption)
    (auto simp: sent_def along_def split: sum.splits)

lemma follows_bind:
  fixes m :: "('n, 'a) http"
  assumes "follows A m" and "\<And>a. follows B (f a)"
  shows "follows (\<lambda>c. A c @ B c) (bind_io m f)"
  unfolding follows_def
proof (intro allI)
  fix s
  show "post (bind_io m f) s (\<lambda>r es s'. fst s' = fst s \<and> along (A (fst s) @ B (fst s)) r es)"
  proof (rule post_bindI [OF followsD [OF assms(1)]])
    fix a :: 'a and es and s' :: "Client \<times> 'n"
    assume *: "fst s' = fst s \<and> along (A (fst s)) (Inr a) es"
    show "post (f a) s' (\<lambda>r es' s''. fst s'' = fst s \<and> along (A (fst s) @ B (fst s)) r (es @ es'))"
      by (rule post_mono [OF followsD [OF assms(2)]]) (use * in \<open>auto intro: along_append\<close>)
  qed (auto intro: along_fail)
qed

lemma follows_step:
  assumes "one_request rq m"
  shows "follows (\<lambda>c. [rq c]) (wizard_step what m)"
  unfolding follows_def
proof
  fix s
  have "post (attempt m) s (\<lambda>r es s'. fst s' = fst s \<and> (case r of Inr r \<Rightarrow> sent (rq (fst s)) r es | Inl e \<Rightarrow> False))"
    using one_requestD [OF assms, of s] by (simp add: post_attempt)
  then show "post (wizard_step what m) s (\<lambda>r es s'. fst s' = fst s \<and> along [rq (fst s)] r es)"
    unfolding wizard_step_def
    by (rule post_bindI) (auto simp: post_simps sent_def along_def split: sum.splits)
qed

definition wizard_requests :: "string \<Rightarrow> string \<Rightarrow> Client \<Rightarrow> http_request list" where
  "wizard_requests username password c =
     [new_request c ''POST'' ''/Startup/Configuration'' None (Some (startup_body no_startup)),
      new_request c ''GET'' ''/Startup/User'' None None,
      new_request c ''POST'' ''/Startup/User'' None
        (Some (JObj [(''Name'', JStr username), (''Password'', JStr password)])),
      new_request c ''POST'' ''/Startup/RemoteAccess'' None
        (Some (JObj [(''EnableAutomaticPortMapping'', JBool False), (''EnableRemoteAccess'', JBool True)])),
      new_request c ''POST'' ''/Startup/Complete'' None None]"

lemma wizard_follows: "follows (wizard_requests u p) (wizard tr u p)"
proof -
  have "follows (\<lambda>c. [new_request c ''POST'' ''/Startup/Configuration'' None (Some (startup_body no_startup))]
      @ [new_request c ''GET'' ''/Startup/User'' None None]
      @ [new_request c ''POST'' ''/Startup/User'' None (Some (JObj [(''Name'', JStr u), (''Password'', JStr p)]))]
      @ [new_request c ''POST'' ''/Startup/RemoteAccess'' None
          (Some (JObj [(''EnableAutomaticPortMapping'', JBool False), (''EnableRemoteAccess'', JBool True)]))]
      @ [new_request c ''POST'' ''/Startup/Complete'' None None]) (wizard tr u p)"
    unfolding wizard_def SetStartupConfiguration_def GetStartupUser_def CreateStartupUser_def
      SetStartupRemoteAccess_def CompleteStartup_def
    by (intro follows_bind follows_step one_request_do_call)
  then show ?thesis by (simp add: wizard_requests_def [abs_def])
qed

section \<open>Logging in\<close>

text \<open>After the login the token goes with every request.\<close>

definition login_request :: "string \<Rightarrow> string \<Rightarrow> Client \<Rightarrow> http_request" where
  "login_request username password c = new_request c ''POST'' ''/Users/AuthenticateByName'' None
     (Some (JObj [(''Pw'', JStr password), (''Username'', JStr username)]))"

definition key_requests :: "string \<Rightarrow> Client \<Rightarrow> http_request list" where
  "key_requests app c =
     [new_request c ''POST'' ''/Auth/Keys'' (Some [(''App'', [app])]) None,
      new_request c ''GET'' ''/Auth/Keys'' None None]"

lemma post_Authenticate:
  "post (AuthenticateByName tr u p) s (\<lambda>r es s'. along [login_request u p (fst s)] r es
     \<and> (case r of Inl e \<Rightarrow> True | Inr tok \<Rightarrow> tok \<noteq> '''' \<and> fst s' = (fst s)\<lparr>hc_token := tok\<rparr>))"
  unfolding AuthenticateByName_def
  by (rule post_bindI [OF followsD [OF follows_one [OF one_request_do_into]]])
    (auto simp: post_simps along_def login_request_def list_all_iff split: sum.splits dest: in_set_butlastD)

definition listed_key :: "string \<Rightarrow> string \<Rightarrow> event \<Rightarrow> bool" where
  "listed_key app key ev = (case ev of Http rq (Inr resp) \<Rightarrow>
       (case rs_data resp of Inr data \<Rightarrow>
          (case decode_keys data of Inr keys \<Rightarrow> list_ex (\<lambda>k. ak_AppName k = app \<and> ak_AccessToken k = key) keys | _ \<Rightarrow> False)
        | _ \<Rightarrow> False)
     | _ \<Rightarrow> False)"

lemma post_do_into_data:
  "post (do_into tr meth path q b dec zero) s (\<lambda>r es s'. case r of Inl e \<Rightarrow> True | Inr v \<Rightarrow>
     v = zero \<or> (\<exists>rq resp data. es = [Http rq (Inr resp)] \<and> rs_data resp = Inr data \<and> dec data = Inr v))"
  unfolding do_into_def send_def post_bind post_exchange
  by (auto simp: post_simps split: prod.split sum.split)

lemma key_for_listed:
  assumes "key_for app keys = Some k"
  shows "keys \<noteq> [] \<and> ak_AccessToken k \<noteq> '''' \<and> list_ex (\<lambda>k'. ak_AppName k' = app \<and> ak_AccessToken k' = ak_AccessToken k) keys"
  using assms by (auto simp: key_for_def find_Some_iff list_ex_iff)

lemma post_CreateAPIKey:
  "post (CreateAPIKey tr app) s (\<lambda>r es s'. fst s' = fst s \<and> along (key_requests app (fst s)) r es
     \<and> (case r of Inl e \<Rightarrow> True | Inr key \<Rightarrow> key \<noteq> '''' \<and> listed_key app key (last es)))"
proof -
  have "follows (\<lambda>c. [new_request c ''POST'' ''/Auth/Keys'' (Some [(''App'', [app])]) None]
        @ [new_request c ''GET'' ''/Auth/Keys'' None None] @ []) (CreateAPIKey tr app)"
    unfolding CreateAPIKey_def
    by (intro follows_bind follows_one one_request_do_call one_request_do_into)
      (auto simp: follows_def along_def post_simps split: option.split)
  then have f: "follows (key_requests app) (CreateAPIKey tr app)" by (simp add: key_requests_def [abs_def])
  have "post (CreateAPIKey tr app) s
      (\<lambda>r es s'. case r of Inl e \<Rightarrow> True | Inr key \<Rightarrow> key \<noteq> '''' \<and> listed_key app key (last es))"
    unfolding CreateAPIKey_def
  proof (rule post_bindI [where P = "\<lambda>r es s'. True"])
    fix u es s'
    show "post (bind_io (do_into tr ''GET'' ''/Auth/Keys'' None None decode_keys []) (\<lambda>keys. case key_for app keys of
         Some k \<Rightarrow> ret (ak_AccessToken k)
       | None \<Rightarrow> raise (ErrText (''created API key for '' @ go_quote app @ '' not found in key list'')))) s'
      (\<lambda>r es' s''. case r of Inl e \<Rightarrow> True | Inr key \<Rightarrow> key \<noteq> '''' \<and> listed_key app key (last (es @ es')))"
      by (rule post_bindI [OF post_do_into_data])
        (auto simp: post_simps listed_key_def key_for_listed split: option.splits dest!: key_for_listed)
  qed (simp_all add: post_iff)
  with followsD [OF f, of s] show ?thesis by (simp add: post_iff)
qed

section \<open>The protocol\<close>

definition bootstrap_requests :: "bool \<Rightarrow> string \<Rightarrow> string \<Rightarrow> string \<Rightarrow> string \<Rightarrow> Client \<Rightarrow> http_request list" where
  "bootstrap_requests pending username password app token c =
     new_request c ''GET'' ''/Startup/Configuration'' None None
       # (if pending then wizard_requests username password c else [])
       @ login_request username password c
       # key_requests app (c\<lparr>hc_token := token\<rparr>)"

definition wizard_pending :: "'n transport \<Rightarrow> Client \<times> 'n \<Rightarrow> bool" where
  "wizard_pending tr s \<longleftrightarrow> is_ok (result (GetStartupConfiguration tr s))"

lemma along_weaken: "along rqs r es \<Longrightarrow> prefix (requests es) rqs \<and> list_all accepted (butlast es)"
  by (auto simp: along_def list_all_iff split: sum.splits dest: in_set_butlastD)

lemma post_login:
  fixes tr :: "'n transport"
  shows "post (bind_io (wrapping f (AuthenticateByName tr u p)) (\<lambda>_. CreateAPIKey tr app)) s (\<lambda>r es s'.
     \<exists>tok. along (login_request u p (fst s) # key_requests app ((fst s)\<lparr>hc_token := tok\<rparr>)) r es
       \<and> (case r of Inl e \<Rightarrow> True | Inr key \<Rightarrow> tok \<noteq> '''' \<and> fst s' = (fst s)\<lparr>hc_token := tok\<rparr>
            \<and> key \<noteq> '''' \<and> listed_key app key (last es)))"
proof (rule post_bindI)
  show "post (wrapping f (AuthenticateByName tr u p)) s (\<lambda>r es s'. along [login_request u p (fst s)] r es
     \<and> (case r of Inl e \<Rightarrow> True | Inr tok \<Rightarrow> tok \<noteq> '''' \<and> fst s' = (fst s)\<lparr>hc_token := tok\<rparr>))"
    unfolding post_wrapping
    by (rule post_mono [OF post_Authenticate]) (auto simp: along_def split: sum.splits elim: map_err.elims)
next
  fix tok es and s' :: "Client \<times> 'n"
  assume *: "along [login_request u p (fst s)] (Inr tok) es
     \<and> (case Inr tok of Inl e \<Rightarrow> True | Inr tok \<Rightarrow> tok \<noteq> '''' \<and> fst s' = (fst s)\<lparr>hc_token := tok\<rparr>)"
  show "post (CreateAPIKey tr app) s' (\<lambda>r es' s''.
     \<exists>tok. along (login_request u p (fst s) # key_requests app ((fst s)\<lparr>hc_token := tok\<rparr>)) r (es @ es')
       \<and> (case r of Inl e \<Rightarrow> True | Inr key \<Rightarrow> tok \<noteq> '''' \<and> fst s'' = (fst s)\<lparr>hc_token := tok\<rparr>
            \<and> key \<noteq> '''' \<and> listed_key app key (last (es @ es'))))"
  proof (rule post_mono [OF post_CreateAPIKey])
    fix r es' s''
    assume **: "fst s'' = fst s' \<and> along (key_requests app (fst s')) r es'
      \<and> (case r of Inl e \<Rightarrow> True | Inr key \<Rightarrow> key \<noteq> '''' \<and> listed_key app key (last es'))"
    have "along ([login_request u p (fst s)] @ key_requests app ((fst s)\<lparr>hc_token := tok\<rparr>)) r (es @ es')"
      by (rule along_append [OF conjunct1 [OF *]]) (use * ** in auto)
    then have "along (login_request u p (fst s) # key_requests app ((fst s)\<lparr>hc_token := tok\<rparr>)) r (es @ es')"
      by simp
    moreover have "es' \<noteq> []" if "r = Inr key" for key
      using ** that by (auto simp: along_def key_requests_def)
    ultimately show "\<exists>tok. along (login_request u p (fst s) # key_requests app ((fst s)\<lparr>hc_token := tok\<rparr>)) r (es @ es')
       \<and> (case r of Inl e \<Rightarrow> True | Inr key \<Rightarrow> tok \<noteq> '''' \<and> fst s'' = (fst s)\<lparr>hc_token := tok\<rparr>
            \<and> key \<noteq> '''' \<and> listed_key app key (last (es @ es')))"
      using * ** by (auto split: sum.splits)
  qed
qed (use along_fail [of "[login_request u p (fst s)]"] in fastforce)

lemma post_wizard_or_skip:
  "post (case cfg of Inr c \<Rightarrow> wizard tr u p | Inl e \<Rightarrow> ret ()) s (\<lambda>r es s'. fst s' = fst s
     \<and> along (if is_ok cfg then wizard_requests u p (fst s) else []) r es)"
  by (cases cfg) (auto simp: post_ret along_def [of "[]"] intro: followsD [OF wizard_follows])

lemma post_after_probe:
  fixes tr :: "'n transport"
  shows "post (bind_io (case cfg of Inr c \<Rightarrow> wizard tr u p | Inl e \<Rightarrow> ret ()) (\<lambda>_.
       bind_io (wrapping f (AuthenticateByName tr u p)) (\<lambda>_. CreateAPIKey tr app))) s (\<lambda>r es s'.
     \<exists>tok. along ((if is_ok cfg then wizard_requests u p (fst s) else [])
            @ login_request u p (fst s) # key_requests app ((fst s)\<lparr>hc_token := tok\<rparr>)) r es
       \<and> (case r of Inl e \<Rightarrow> True | Inr key \<Rightarrow> tok \<noteq> '''' \<and> fst s' = (fst s)\<lparr>hc_token := tok\<rparr>
            \<and> key \<noteq> '''' \<and> listed_key app key (last es)))"
proof (rule post_bindI [OF post_wizard_or_skip])
  fix u' es and s' :: "Client \<times> 'n"
  assume *: "fst s' = fst s \<and> along (if is_ok cfg then wizard_requests u p (fst s) else []) (Inr u') es"
  show "post (bind_io (wrapping f (AuthenticateByName tr u p)) (\<lambda>_. CreateAPIKey tr app)) s' (\<lambda>r es' s''.
     \<exists>tok. along ((if is_ok cfg then wizard_requests u p (fst s) else [])
            @ login_request u p (fst s) # key_requests app ((fst s)\<lparr>hc_token := tok\<rparr>)) r (es @ es')
       \<and> (case r of Inl e \<Rightarrow> True | Inr key \<Rightarrow> tok \<noteq> '''' \<and> fst s'' = (fst s)\<lparr>hc_token := tok\<rparr>
            \<and> key \<noteq> '''' \<and> listed_key app key (last (es @ es'))))"
  proof (rule post_mono [OF post_login])
    fix r es' s''
    assume "\<exists>tok. along (login_request u p (fst s') # key_requests app ((fst s')\<lparr>hc_token := tok\<rparr>)) r es'
       \<and> (case r of Inl e \<Rightarrow> True | Inr key \<Rightarrow> tok \<noteq> '''' \<and> fst s'' = (fst s')\<lparr>hc_token := tok\<rparr>
            \<and> key \<noteq> '''' \<and> listed_key app key (last es'))"
    then obtain tok where t: "along (login_request u p (fst s) # key_requests app ((fst s)\<lparr>hc_token := tok\<rparr>)) r es'"
      "case r of Inl e \<Rightarrow> True | Inr key \<Rightarrow> tok \<noteq> '''' \<and> fst s'' = (fst s)\<lparr>hc_token := tok\<rparr>
            \<and> key \<noteq> '''' \<and> listed_key app key (last es')"
      unfolding conjunct1 [OF *] by blast
    have "last (es @ es') = last es'" if "r = Inr key" for key
      using t(1) that by (cases es') (auto simp: along_def)
    with along_append [OF conjunct2 [OF *] t(1)] t(2)
    show "\<exists>tok. along ((if is_ok cfg then wizard_requests u p (fst s) else [])
            @ login_request u p (fst s) # key_requests app ((fst s)\<lparr>hc_token := tok\<rparr>)) r (es @ es')
       \<and> (case r of Inl e \<Rightarrow> True | Inr key \<Rightarrow> tok \<noteq> '''' \<and> fst s'' = (fst s)\<lparr>hc_token := tok\<rparr>
            \<and> key \<noteq> '''' \<and> listed_key app key (last (es @ es')))"
      by (intro exI [of _ tok]) (auto split: sum.splits)
  qed
qed (auto dest: along_fail simp: along_def)

lemma post_probe:
  "post (attempt (GetStartupConfiguration tr)) s (\<lambda>r es s'. fst s' = fst s
     \<and> (\<exists>answer. es = [Http (new_request (fst s) ''GET'' ''/Startup/Configuration'' None None) answer])
     \<and> (case r of Inl e \<Rightarrow> False | Inr cfg \<Rightarrow> is_ok cfg = wizard_pending tr s))"
proof -
  have "one_request (\<lambda>c. new_request c ''GET'' ''/Startup/Configuration'' None None) (GetStartupConfiguration tr)"
    unfolding GetStartupConfiguration_def by (rule one_request_do_into)
  from one_requestD [OF this, of s] show ?thesis
    unfolding post_attempt by (auto simp: post_iff sent_def wizard_pending_def)
qed

text \<open>
  C11. What \<open>Bootstrap\<close> sends, whatever the server answers. The requests are those of the documented
  order, with the same account in the creation and in the login: the probe; the five wizard steps exactly
  when the probe succeeded; the login; and, with the token of the login, the creation and the
  listing of API keys. The run stops early at the first request after the probe that is neither successful nor
  answered with status 400. When it returns a key, all requests have been sent, the client
  holds the token, and the key is a non-empty one that the last response lists for this app.
\<close>

theorem Bootstrap_protocol:
  fixes tr :: "'n transport"
  shows "post (Bootstrap tr username password app) s (\<lambda>r es s'. \<exists>tok.
     let plan = bootstrap_requests (wizard_pending tr s) username password app tok (fst s) in
     prefix (requests es) plan \<and> list_all accepted (butlast (tl es))
     \<and> (case r of Inl e \<Rightarrow> True
        | Inr key \<Rightarrow> requests es = plan \<and> list_all accepted (tl es) \<and> tok \<noteq> '''' \<and> hc_token (fst s') = tok
            \<and> key \<noteq> '''' \<and> listed_key app key (last es)))"
  unfolding Bootstrap_def
proof (rule post_bindI [OF post_probe])
  fix cfg es and s' :: "Client \<times> 'n"
  let ?probe = "new_request (fst s) ''GET'' ''/Startup/Configuration'' None None"
  let ?Q = "\<lambda>r es s'. \<exists>tok. let plan = bootstrap_requests (wizard_pending tr s) username password app tok (fst s) in
     prefix (requests es) plan \<and> list_all accepted (butlast (tl es))
     \<and> (case r of Inl e \<Rightarrow> True
        | Inr key \<Rightarrow> requests es = plan \<and> list_all accepted (tl es) \<and> tok \<noteq> '''' \<and> hc_token (fst s') = tok
            \<and> key \<noteq> '''' \<and> listed_key app key (last es))"
  assume "fst s' = fst s \<and> (\<exists>answer. es = [Http ?probe answer])
      \<and> (case Inr cfg of Inl e \<Rightarrow> False | Inr cfg \<Rightarrow> is_ok cfg = wizard_pending tr s)"
  then obtain answer where c: "fst s' = fst s" and es: "es = [Http ?probe answer]"
    and ok: "is_ok cfg = wizard_pending tr s" by auto
  show "post (bind_io (case cfg of Inr c \<Rightarrow> wizard tr username password | Inl e \<Rightarrow> ret ()) (\<lambda>_.
       bind_io (wrapping (Wrap ''authenticate'') (AuthenticateByName tr username password)) (\<lambda>_. CreateAPIKey tr app))) s'
     (\<lambda>r es' s''. ?Q r (es @ es') s'')"
    by (rule post_mono [OF post_after_probe], unfold c ok es)
      (auto simp: bootstrap_requests_def Let_def along_def list_all_iff split: sum.splits dest: in_set_butlastD)
qed simp

end
