(* ===== verification/Api_Controller.thy ===== *)
theory Api_Controller
  imports Client
begin

text \<open>
  The day-2 loop of an instance (\<open>src/internal/controller/jellyfinapi_controller.go\<close> and
  \<open>statusupdate.go\<close>): it obtains a token and brings libraries, transcoding, server configuration and
  branding of the running server to what the instance's spec declares. The interface \<open>APIClient\<close>
  is a record of parameters; \<open>real_client\<close> fills it with the client of \<open>Client\<close>.
\<close>

section \<open>Parameters\<close>

record 'e APIClient =
  api_New :: "string \<Rightarrow> string \<Rightarrow> ('e, unit) op"
  api_SetToken :: "string \<Rightarrow> 'e \<Rightarrow> 'e"
  api_Bootstrap :: "string \<Rightarrow> string \<Rightarrow> string \<Rightarrow> ('e, string) op"
  api_AuthenticateByName :: "string \<Rightarrow> string \<Rightarrow> ('e, string) op"
  api_ListVirtualFolders :: "('e, VirtualFolder list) op"
  api_AddVirtualFolder :: "DesiredLibrary \<Rightarrow> bool \<Rightarrow> ('e, unit) op"
  api_RemoveVirtualFolder :: "string \<Rightarrow> bool \<Rightarrow> ('e, unit) op"
  api_AddMediaPath :: "string \<Rightarrow> string \<Rightarrow> bool \<Rightarrow> ('e, unit) op"
  api_RemoveMediaPath :: "string \<Rightarrow> string \<Rightarrow> bool \<Rightarrow> ('e, unit) op"
  api_UpdateLibraryOptions :: "string \<Rightarrow> raw \<Rightarrow> ('e, unit) op"
  api_RefreshLibraries :: "('e, unit) op"
  api_GetEncodingConfig :: "('e, raw) op"
  api_UpdateEncodingConfig :: "raw \<Rightarrow> ('e, unit) op"
  api_GetServerConfig :: "('e, raw) op"
  api_UpdateServerConfig :: "raw \<Rightarrow> ('e, unit) op"
  api_GetBrandingConfig :: "('e, raw) op"
  api_UpdateBrandingConfig :: "raw \<Rightarrow> ('e, unit) op"

text \<open>
  The reconciler: the Kubernetes client, the API client, the requeue interval in nanoseconds, the random
  source, the number codec of \<open>encoding/json\<close>, the text of an error, and the order in which Go ranges
  over a map.
\<close>

record 'e APIReconciler =
  rec_cluster :: "'e cluster"
  rec_api :: "'e APIClient"
  rec_requeue :: int
  rec_rand :: "('e, string) op"
  rec_codec :: num_codec
  rec_errText :: "go_error \<Rightarrow> string"
  rec_range :: "(string, string list) go_map \<Rightarrow> (string, string list) go_map"

definition api :: "api_call \<Rightarrow> ('e, 'a) op \<Rightarrow> ('e, 'a) act" where
  "api c f = call f (\<lambda>r. Api c (is_ok r))"

definition defaultAPIRequeue :: int where "defaultAPIRequeue = 5 * 60 * 1000000000"
definition apiKeyAppName :: string where "apiKeyAppName = ''JellyOps''"

definition unlogged :: "('e, 'a) act \<Rightarrow> ('e, 'a) op" where
  "unlogged m = (\<lambda>s. (result (m s), final (m s)))"

definition real_client :: "'n transport \<Rightarrow> (string \<Rightarrow> go_error + url) \<Rightarrow> (Client \<times> 'n) APIClient" where
  "real_client tr parse =
     \<lparr>api_New = (\<lambda>base deviceID s. case New parse base deviceID of
         Inl e \<Rightarrow> (Inl e, s) | Inr c \<Rightarrow> (Inr (), (c, snd s))),
      api_SetToken = (\<lambda>t s. final (SetToken t s)),
      api_Bootstrap = (\<lambda>u p app. unlogged (Bootstrap tr u p app)),
      api_AuthenticateByName = (\<lambda>u p. unlogged (AuthenticateByName tr u p)),
      api_ListVirtualFolders = unlogged (ListVirtualFolders tr),
      api_AddVirtualFolder = (\<lambda>lib refresh. unlogged (AddVirtualFolder tr lib refresh)),
      api_RemoveVirtualFolder = (\<lambda>n refresh. unlogged (RemoveVirtualFolder tr n refresh)),
      api_AddMediaPath = (\<lambda>n p refresh. unlogged (AddMediaPath tr n p refresh)),
      api_RemoveMediaPath = (\<lambda>n p refresh. unlogged (RemoveMediaPath tr n p refresh)),
      api_UpdateLibraryOptions = (\<lambda>i opts. unlogged (UpdateLibraryOptions tr i opts)),
      api_RefreshLibraries = unlogged (RefreshLibraries tr),
      api_GetEncodingConfig = unlogged (GetEncodingConfig tr),
      api_UpdateEncodingConfig = (\<lambda>cfg. unlogged (UpdateEncodingConfig tr cfg)),
      api_GetServerConfig = unlogged (GetServerConfig tr),
      api_UpdateServerConfig = (\<lambda>cfg. unlogged (UpdateServerConfig tr cfg)),
      api_GetBrandingConfig = unlogged (GetBrandingConfig tr),
      api_UpdateBrandingConfig = (\<lambda>cfg. unlogged (UpdateBrandingConfig tr cfg))\<rparr>"

section \<open>Desired state\<close>

definition desired_library :: "MediaFolder \<Rightarrow> LibrarySpec \<Rightarrow> DesiredLibrary" where
  "desired_library mf lib =
     \<lparr>dl_Name = (if ls_name lib = '''' then mf_name mf else ls_name lib),
      dl_CollectionType = ls_collectionType lib, dl_Paths = [mf_mountPath mf],
      dl_Options = deref (ls_options lib) RawEmpty, dl_PreventWrites = mf_readOnly mf\<rparr>"

definition desiredLibraries :: "Jellyfin \<Rightarrow> DesiredLibrary list" where
  "desiredLibraries jf =
     concat (map (\<lambda>mf. case mf_library mf of None \<Rightarrow> [] | Some lib \<Rightarrow> [desired_library mf lib])
       (st_media (js_storage (jf_spec jf))))"

definition desiredEncoding :: "TranscodingSpec option \<Rightarrow> DesiredEncoding" where
  "desiredEncoding t =
     \<lparr>de_EnableThrottling = Option.bind (Option.bind t tc_throttle) th_enabled,
      de_ThrottleDelaySeconds = Option.bind (Option.bind t tc_throttle) th_delaySeconds,
      de_EnableSegmentDeletion = Option.bind (Option.bind t tc_segmentDeletion) sd_enabled,
      de_SegmentKeepSeconds = Option.bind (Option.bind t tc_segmentDeletion) sd_keepSeconds\<rparr>"

definition desiredServerConfig :: "GeneralSpec option \<Rightarrow> PlaybackSpec option \<Rightarrow> DesiredServerConfig" where
  "desiredServerConfig g p =
     \<lparr>dsc_ServerName = Option.bind g g_serverName,
      dsc_UICulture = Option.bind g g_uiCulture,
      dsc_QuickConnectAvailable = Option.bind g g_quickConnectAvailable,
      dsc_EnableMetrics = Option.bind g g_enableMetrics,
      dsc_EnableNormalizedItemByNameIds = Option.bind g g_enableNormalizedItemByNameIds,
      dsc_AllowClientLogUpload = Option.bind g g_allowClientLogUpload,
      dsc_EnableSlowResponseWarning = Option.bind g g_enableSlowResponseWarning,
      dsc_SlowResponseThresholdMs = Option.bind g g_slowResponseThresholdMs,
      dsc_LibraryScanFanoutConcurrency = Option.bind g g_libraryScanFanoutConcurrency,
      dsc_LibraryMetadataRefreshConcurrency = Option.bind g g_libraryMetadataRefreshConcurrency,
      dsc_ParallelImageEncodingLimit = Option.bind g g_parallelImageEncodingLimit,
      dsc_ActivityLogRetentionDays = Option.bind g g_activityLogRetentionDays,
      dsc_LibraryMonitorDelay = Option.bind g g_libraryMonitorDelay,
      dsc_LibraryUpdateDuration = Option.bind g g_libraryUpdateDuration,
      dsc_InactiveSessionThreshold = Option.bind g g_inactiveSessionThreshold,
      dsc_LogFileRetentionDays = Option.bind g g_logFileRetentionDays,
      dsc_CachePath = Option.bind g g_cachePath,
      dsc_MetadataPath = Option.bind g g_metadataPath,
      dsc_CorsHosts = Option.bind g g_corsHosts,
      dsc_MinResumePct = Option.bind p p_minResumePct,
      dsc_MaxResumePct = Option.bind p p_maxResumePct,
      dsc_MinResumeDurationSeconds = Option.bind p p_minResumeDurationSeconds,
      dsc_MinAudiobookResume = Option.bind p p_minAudiobookResumeMinutes,
      dsc_MaxAudiobookResume = Option.bind p p_maxAudiobookResumeMinutes,
      dsc_RemoteClientBitrateLimit = Option.bind p p_remoteClientBitrateLimit\<rparr>"

definition desiredBranding :: "BrandingSpec option \<Rightarrow> DesiredBranding" where
  "desiredBranding b =
     \<lparr>db_LoginDisclaimer = Option.bind b b_loginDisclaimer, db_CustomCss = Option.bind b b_customCss,
      db_SplashscreenEnabled = Option.bind b b_splashscreenEnabled\<rparr>"

section \<open>Configuration stores\<close>

text \<open>
  The shape that \<open>reconcileEncoding\<close>, \<open>reconcileServerConfig\<close> and \<open>reconcileBranding\<close> share: nothing to do
  without a declared field; else read, overlay, and write back only what has changed.
\<close>

definition reconcile_store ::
  "bool \<Rightarrow> ('e, raw) act \<Rightarrow> (raw \<Rightarrow> json_error + raw \<times> bool) \<Rightarrow> (raw \<Rightarrow> ('e, unit) act) \<Rightarrow> ('e, unit) act" where
  "reconcile_store nothing read enforce write =
     (if nothing then ret ()
      else bind_io read (\<lambda>current.
           bind_io (lift (map_err JsonErr (enforce current))) (\<lambda>(updated, changed).
             if \<not> changed then ret () else write updated)))"

definition reconcileEncoding :: "'e APIReconciler \<Rightarrow> Jellyfin \<Rightarrow> ('e, unit) act" where
  "reconcileEncoding R jf =
     (let desired = desiredEncoding (js_transcoding (jf_spec jf)) in
      reconcile_store (encoding_Empty desired) (api CallGetEncoding (api_GetEncodingConfig (rec_api R)))
        (\<lambda>current. EnforceEncodingOptions (rec_codec R) current desired)
        (\<lambda>updated. api (CallUpdateEncoding updated) (api_UpdateEncodingConfig (rec_api R) updated)))"

definition reconcileServerConfig :: "'e APIReconciler \<Rightarrow> Jellyfin \<Rightarrow> ('e, unit) act" where
  "reconcileServerConfig R jf =
     (let desired = desiredServerConfig (js_general (jf_spec jf)) (js_playback (jf_spec jf)) in
      reconcile_store (server_Empty desired) (api CallGetServer (api_GetServerConfig (rec_api R)))
        (\<lambda>current. EnforceServerConfig (rec_codec R) current desired)
        (\<lambda>updated. api (CallUpdateServer updated) (api_UpdateServerConfig (rec_api R) updated)))"

definition reconcileBranding :: "'e APIReconciler \<Rightarrow> Jellyfin \<Rightarrow> ('e, unit) act" where
  "reconcileBranding R jf =
     (let desired = desiredBranding (js_branding (jf_spec jf)) in
      reconcile_store (branding_Empty desired) (api CallGetBranding (api_GetBrandingConfig (rec_api R)))
        (\<lambda>current. EnforceBranding (rec_codec R) current desired)
        (\<lambda>updated. api (CallUpdateBranding updated) (api_UpdateBrandingConfig (rec_api R) updated)))"

section \<open>Libraries\<close>

text \<open>The options of one library: first the read-only flags, then the user's own.\<close>

definition merge_if ::
  "bool \<Rightarrow> (raw \<Rightarrow> json_error + raw \<times> bool) \<Rightarrow> raw \<times> bool \<Rightarrow> json_error + raw \<times> bool" where
  "merge_if wanted f = (\<lambda>(merged, libChanged).
     if wanted then bind_res (f merged) (\<lambda>(updated, changed).
       if changed then Inr (updated, True) else Inr (merged, libChanged))
     else Inr (merged, libChanged))"

definition library_options :: "num_codec \<Rightarrow> DesiredLibrary \<Rightarrow> raw \<Rightarrow> json_error + raw \<times> bool" where
  "library_options fnum d current =
     bind_res (merge_if (dl_PreventWrites d) (EnforceReadOnlyOptions fnum) (current, False))
       (merge_if (dl_Options d \<noteq> RawEmpty) (\<lambda>merged. MergeLibraryOptions fnum merged (dl_Options d)))"

definition enforce_library ::
  "'e APIReconciler \<Rightarrow> (string, VirtualFolder) go_map \<Rightarrow> DesiredLibrary \<Rightarrow> bool \<Rightarrow> ('e, bool) act" where
  "enforce_library R byName d anyChanged =
     (case map_of byName (dl_Name d) of
        None \<Rightarrow> ret anyChanged
      | Some f \<Rightarrow>
          if vf_ItemID f = '''' then ret anyChanged
          else bind_io (lift (map_err JsonErr (library_options (rec_codec R) d (vf_LibraryOptions f)))) (\<lambda>(merged, libChanged).
            if libChanged
            then bind_io (api (CallUpdateOptions (vf_ItemID f) merged)
                   (api_UpdateLibraryOptions (rec_api R) (vf_ItemID f) merged)) (\<lambda>_. ret True)
            else ret anyChanged))"

definition enforceLibraryOptions ::
  "'e APIReconciler \<Rightarrow> DesiredLibrary list \<Rightarrow> VirtualFolder list \<Rightarrow> ('e, bool) act" where
  "enforceLibraryOptions R desired folders =
     fold_io (enforce_library R (existing_by_name folders)) desired False"

definition list_folders :: "'e APIReconciler \<Rightarrow> ('e, VirtualFolder list) act" where
  "list_folders R = api CallListFolders (api_ListVirtualFolders (rec_api R))"

definition apply_diff :: "'e APIReconciler \<Rightarrow> LibraryDiff \<Rightarrow> ('e, unit) act" where
  "apply_diff R diff =
     bind_io (each (\<lambda>lib. api (CallAddFolder lib False) (api_AddVirtualFolder (rec_api R) lib False)) (ToCreate diff)) (\<lambda>_.
     bind_io (each (\<lambda>(name, paths). each (\<lambda>p. api (CallAddPath name p False) (api_AddMediaPath (rec_api R) name p False)) paths)
         (rec_range R (PathsToAdd diff))) (\<lambda>_.
     bind_io (each (\<lambda>(name, paths). each (\<lambda>p. api (CallRemovePath name p False) (api_RemoveMediaPath (rec_api R) name p False)) paths)
         (rec_range R (PathsToRemove diff))) (\<lambda>_.
     each (\<lambda>name. api (CallRemoveFolder name False) (api_RemoveVirtualFolder (rec_api R) name False)) (ToRemove diff))))"

definition reconcileLibraries :: "'e APIReconciler \<Rightarrow> JellyfinAPISpec \<Rightarrow> Jellyfin \<Rightarrow> ('e, Jellyfin) act" where
  "reconcileLibraries R apispec jf =
     (let desired = desiredLibraries jf in
      bind_io (list_folders R) (\<lambda>existing.
      let refresh = api_refreshLibraryOnChange apispec;
          diff = DiffLibraries desired existing (jst_managedLibraries (jf_status jf)) (api_prune apispec) in
      bind_io (apply_diff R diff) (\<lambda>_.
      bind_io (if ToCreate diff \<noteq> [] then list_folders R else ret existing) (\<lambda>folders.
      bind_io (enforceLibraryOptions R desired folders) (\<lambda>optsChanged.
      bind_io (if (Changed diff \<or> optsChanged) \<and> refresh
               then api CallRefresh (api_RefreshLibraries (rec_api R)) else ret ()) (\<lambda>_.
      ret (jf\<lparr>jf_status := (jf_status jf)\<lparr>jst_managedLibraries := sort (map dl_Name desired)\<rparr>\<rparr>)))))))"

section \<open>Credentials\<close>

definition getSecret :: "'e APIReconciler \<Rightarrow> string \<Rightarrow> string \<Rightarrow> ('e, Secret) act" where
  "getSecret R = Get OSecret KSecret (k_secrets (rec_cluster R))"

definition secret_value :: "Secret \<Rightarrow> string \<Rightarrow> string" where
  "secret_value sec key = deref (map_of (sec_data sec) key) ''''"

definition store_key :: "'e APIReconciler \<Rightarrow> Jellyfin \<Rightarrow> string \<Rightarrow> string \<Rightarrow> string \<Rightarrow> Secret \<Rightarrow> go_error + Secret" where
  "store_key R jf user pass key sec =
     bind_res (SetControllerReference (rec_cluster R) (jf_uid jf) (sec_owners sec)) (\<lambda>owners.
       Inr (sec\<lparr>sec_data := map_put ''password'' pass (map_put ''username'' user (map_put ''apiKey'' key (sec_data sec))),
                sec_owners := owners\<rparr>))"

definition persistGeneratedSecret ::
  "'e APIReconciler \<Rightarrow> Jellyfin \<Rightarrow> string \<Rightarrow> string \<Rightarrow> string \<Rightarrow> string \<Rightarrow> ('e, Secret) act" where
  "persistGeneratedSecret R jf name user pass key =
     CreateOrUpdate OSecret KSecret (k_secrets (rec_cluster R)) (jf_namespace jf) name (store_key R jf user pass key)"

definition hex_encode :: "string \<Rightarrow> string" where
  "hex_encode s = concat (map (\<lambda>c. [hex_digit (of_char c div 16), hex_digit (of_char c mod 16)]) s)"

definition randomSecret :: "'e APIReconciler \<Rightarrow> ('e, string) act" where
  "randomSecret R = bind_io (attempt (call (rec_rand R) (\<lambda>r. RandomRead (is_ok r)))) (\<lambda>r.
     ret (case r of Inl e \<Rightarrow> ''changeme-jellyops'' | Inr bytes \<Rightarrow> hex_encode bytes))"

text \<open>The optional admin credentials: key, user name and password.\<close>

definition read_credentials :: "'e APIReconciler \<Rightarrow> JellyfinAPISpec \<Rightarrow> Jellyfin \<Rightarrow> ('e, string \<times> string \<times> string) act" where
  "read_credentials R apispec jf =
     (case api_credentialsSecret apispec of
        None \<Rightarrow> ret ('''', '''', '''')
      | Some name \<Rightarrow>
          if name = '''' then ret ('''', '''', '''')
          else bind_io (wrapping (Wrap ''read credentialsSecret'') (getSecret R (jf_namespace jf) name)) (\<lambda>sec.
            ret (secret_value sec ''apiKey'', secret_value sec ''username'', secret_value sec ''password'')))"

definition gen_name :: "JellyfinAPISpec \<Rightarrow> Jellyfin \<Rightarrow> string" where
  "gen_name apispec jf = (if api_generatedSecretName apispec = '''' then jf_name jf @ ''-api'' else api_generatedSecretName apispec)"

text \<open>The part of bootstrap mode that mints a key.\<close>

definition mint_key :: "'e APIReconciler \<Rightarrow> Jellyfin \<Rightarrow> string \<Rightarrow> string \<Rightarrow> string \<Rightarrow> ('e, string \<times> Jellyfin) act" where
  "mint_key R jf genName user pass =
     (let user = (if user = '''' then ''admin'' else user) in
      bind_io (if pass = '''' then randomSecret R else ret pass) (\<lambda>pass.
      bind_io (api (CallBootstrap user pass apiKeyAppName) (api_Bootstrap (rec_api R) user pass apiKeyAppName)) (\<lambda>key.
      bind_io (persistGeneratedSecret R jf genName user pass key) (\<lambda>_.
      ret (key, jf\<lparr>jf_status := (jf_status jf)\<lparr>jst_apiCredentialsSecret := genName\<rparr>\<rparr>)))))"

definition set_token :: "'e APIReconciler \<Rightarrow> string \<Rightarrow> ('e, unit) act" where
  "set_token R t = api (CallSetToken t) (\<lambda>s. (Inr (), api_SetToken (rec_api R) t s))"

text \<open>Whether a key minted before still works; \<open>SetToken\<close> cannot fail.\<close>

definition key_works :: "'e APIReconciler \<Rightarrow> string \<Rightarrow> ('e, bool) act" where
  "key_works R key =
     (if key = '''' then ret False
      else bind_io (set_token R key) (\<lambda>_. bind_io (attempt (list_folders R)) (\<lambda>r. ret (is_ok r))))"

definition ensureCredentials :: "'e APIReconciler \<Rightarrow> JellyfinAPISpec \<Rightarrow> Jellyfin \<Rightarrow> ('e, string \<times> Jellyfin) act" where
  "ensureCredentials R apispec jf =
     bind_io (read_credentials R apispec jf) (\<lambda>(providedKey, user, pass).
       if api_mode apispec = ''provided'' then
         (if providedKey \<noteq> '''' then ret (providedKey, jf)
          else if user = '''' \<or> pass = '''' then
            raise (ErrText ''mode=provided requires apiKey or username+password in credentialsSecret'')
          else bind_io (api (CallAuthenticate user pass) (api_AuthenticateByName (rec_api R) user pass)) (\<lambda>t. ret (t, jf)))
       else
         let genName = gen_name apispec jf in
         bind_io (attempt (getSecret R (jf_namespace jf) genName)) (\<lambda>gsec. case gsec of
           Inl e \<Rightarrow> mint_key R jf genName user pass
         | Inr sec \<Rightarrow>
             bind_io (key_works R (secret_value sec ''apiKey'')) (\<lambda>works.
               if works then ret (secret_value sec ''apiKey'', jf\<lparr>jf_status := (jf_status jf)\<lparr>jst_apiCredentialsSecret := genName\<rparr>\<rparr>)
               else mint_key R jf genName (if user = '''' then secret_value sec ''username'' else user)
                      (if pass = '''' then secret_value sec ''password'' else pass))))"

section \<open>Reconcile\<close>

definition jellyfinPort :: "Jellyfin \<Rightarrow> int32" where
  "jellyfinPort jf = (if svc_port (js_service (jf_spec jf)) \<noteq> 0 then svc_port (js_service (jf_spec jf)) else 8096)"

definition base_url :: "Jellyfin \<Rightarrow> string" where
  "base_url jf = (if jst_endpointService (jf_status jf) \<noteq> '''' then jst_endpointService (jf_status jf)
     else ''http://'' @ jf_name jf @ ''.'' @ jf_namespace jf @ ''.svc:'' @ itoa (sint (jellyfinPort jf)))"

definition report :: "'e APIReconciler \<Rightarrow> Jellyfin \<Rightarrow> ('e, int) act" where
  "report R jf = bind_io (writeJellyfinStatus (rec_cluster R) jf) (\<lambda>_.
     ret (if rec_requeue R = 0 then defaultAPIRequeue else rec_requeue R))"

definition authenticated :: "'e APIReconciler \<Rightarrow> string \<Rightarrow> Jellyfin \<Rightarrow> Jellyfin" where
  "authenticated R msg = set_jf_condition (rec_cluster R) conditionAPIReady ConditionTrue ''Authenticated'' msg"

text \<open>
  One of the four guarded blocks of \<open>Reconcile\<close>: on an error the block's condition becomes false, the status is
  written and the rest is skipped.
\<close>

definition stage ::
  "'e APIReconciler \<Rightarrow> bool \<Rightarrow> (Jellyfin \<Rightarrow> ('e, Jellyfin) act) \<Rightarrow> string \<Rightarrow> string \<Rightarrow> string \<Rightarrow> string
    \<Rightarrow> (Jellyfin \<Rightarrow> ('e, int) act) \<Rightarrow> Jellyfin \<Rightarrow> ('e, int) act" where
  "stage R declared run ctype failReason pending done_msg next_stage jf =
     (if \<not> declared then next_stage jf
      else bind_io (attempt (run jf)) (\<lambda>r. case r of
          Inl e \<Rightarrow> report R (authenticated R pending
            (set_jf_condition (rec_cluster R) ctype ConditionFalse failReason (rec_errText R e) jf))
        | Inr jf' \<Rightarrow> next_stage (set_jf_condition (rec_cluster R) ctype ConditionTrue ''Reconciled'' done_msg jf')))"

definition keeping :: "(Jellyfin \<Rightarrow> ('e, unit) act) \<Rightarrow> Jellyfin \<Rightarrow> ('e, Jellyfin) act" where
  "keeping m jf = bind_io (m jf) (\<lambda>_. ret jf)"

definition stages :: "'e APIReconciler \<Rightarrow> JellyfinAPISpec \<Rightarrow> Jellyfin \<Rightarrow> ('e, int) act" where
  "stages R apispec jf =
     stage R (api_manageLibraries apispec) (reconcileLibraries R apispec) conditionLibrariesReady
       ''LibraryError'' ''Authenticated; library reconcile pending'' ''Libraries reconciled''
     (stage R (js_transcoding (jf_spec jf) \<noteq> None) (keeping (reconcileEncoding R)) conditionTranscodingReady
       ''EncodingError'' ''Authenticated; encoding reconcile pending'' ''Transcode throttling/segment deletion reconciled''
     (stage R (js_general (jf_spec jf) \<noteq> None \<or> js_playback (jf_spec jf) \<noteq> None) (keeping (reconcileServerConfig R))
       conditionServerConfigReady ''ServerConfigError'' ''Authenticated; server config reconcile pending''
       ''General/Playback settings reconciled''
     (stage R (js_branding (jf_spec jf) \<noteq> None) (keeping (reconcileBranding R)) conditionBrandingReady
       ''BrandingError'' ''Authenticated; branding reconcile pending'' ''Branding settings reconciled''
     (\<lambda>jf. report R (authenticated R ''Authenticated to the Jellyfin API'' jf))))) jf"

definition instance_ready :: "'e APIReconciler \<Rightarrow> Jellyfin \<Rightarrow> bool" where
  "instance_ready R jf =
     (case FindStatusCondition (rec_cluster R) (jst_conditions (jf_status jf)) conditionReady of
        None \<Rightarrow> False | Some c \<Rightarrow> cond_status c = ConditionTrue)"

definition reconcile_ready :: "'e APIReconciler \<Rightarrow> JellyfinAPISpec \<Rightarrow> Jellyfin \<Rightarrow> ('e, int) act" where
  "reconcile_ready R apispec jf =
     bind_io (api (NewClient (base_url jf) (jf_uid jf)) (api_New (rec_api R) (base_url jf) (jf_uid jf))) (\<lambda>_.
     bind_io (attempt (ensureCredentials R apispec jf)) (\<lambda>r. case r of
       Inl e \<Rightarrow> report R (set_jf_condition (rec_cluster R) conditionAPIReady ConditionFalse ''AuthFailed'' (rec_errText R e) jf)
     | Inr (token, jf') \<Rightarrow> bind_io (set_token R token) (\<lambda>_. stages R apispec jf')))"

text \<open>\<open>Reconcile\<close> returns the interval after which it wants to run again, 0 for never.\<close>

definition ApiReconcile :: "'e APIReconciler \<Rightarrow> string \<Rightarrow> string \<Rightarrow> ('e, int) act" where
  "ApiReconcile R ns name =
     bind_io (attempt (get_jellyfin (rec_cluster R) ns name)) (\<lambda>r. case r of
       Inl e \<Rightarrow> bind_io (lift (IgnoreNotFound (Inl e))) (\<lambda>_. ret 0)
     | Inr jf \<Rightarrow>
         (case js_api (jf_spec jf) of
            None \<Rightarrow> ret 0
          | Some apispec \<Rightarrow>
              if jf_deleting jf then ret 0
              else if \<not> instance_ready R jf
              then report R (set_jf_condition (rec_cluster R) conditionAPIReady ConditionFalse
                     ''InstanceNotReady'' ''Waiting for instance to become Ready'' jf)
              else reconcile_ready R apispec jf))"

end
