(* ===== verification/Fakes.thy ===== *)
theory Fakes
  imports Api_Controller
begin

text \<open>
  Concrete environments on which the properties with hypotheses are evaluated: a cluster client over
  nothing but stores without objects, and a Jellyfin server that is a list of libraries.
\<close>

definition empty_store :: "('e, 'o) store" where
  "empty_store = \<lparr>raw_get = (\<lambda>ns n s. (Inl NotFound, s)), raw_list = (\<lambda>ns ls s. (Inr [], s)),
     raw_upsert = (\<lambda>ns n f s. (Inl (KubeErr ''read-only''), s)), raw_update = (\<lambda>x s. (Inl NotFound, s)),
     raw_updateStatus = (\<lambda>x s. (Inl NotFound, s)), raw_delete = (\<lambda>ns n s. (Inl NotFound, s)),
     raw_patch = (\<lambda>x y s. (Inl NotFound, s))\<rparr>"

text \<open>Conditions and finalizers as lists; a selector without expressions.\<close>

definition empty_cluster :: "'e cluster" where
  "empty_cluster = \<lparr>k_deployments = empty_store, k_services = empty_store, k_routes = empty_store,
     k_claims = empty_store, k_volumes = empty_store, k_ingresses = empty_store, k_secrets = empty_store,
     k_jellyfins = empty_store, k_plugins = empty_store,
     SetControllerReference = (\<lambda>owner owners. Inr (if owner \<in> set owners then owners else owners @ [owner])),
     FindStatusCondition = (\<lambda>cs t. find (\<lambda>c. cond_type c = t) cs),
     SetStatusCondition = (\<lambda>cs c. c # filter (\<lambda>d. cond_type d \<noteq> cond_type c) cs),
     LabelSelectorAsSelector = (\<lambda>sel. if ls_matchExpressions sel = [] then Inr (sub_labels (ls_matchLabels sel))
        else Inl (ErrText ''unsupported'')),
     ContainsFinalizer = (\<lambda>fs f. f \<in> set fs),
     AddFinalizer = (\<lambda>fs f. if f \<in> set fs then fs else fs @ [f]),
     RemoveFinalizer = (\<lambda>fs f. filter (\<lambda>g. g \<noteq> f) fs),
     RetryOnConflict = attempts 4\<rparr>"

lemma empty_cluster_works: "conditions_work empty_cluster" "retry_works empty_cluster"
proof -
  have *: "find (\<lambda>c. cond_type c = t) (filter (\<lambda>d. cond_type d \<noteq> u) cs)
      = (if t = u then None else find (\<lambda>c. cond_type c = t) cs)" for t u cs
    by (induction cs) auto
  then show "conditions_work empty_cluster" by (auto simp: conditions_work_def empty_cluster_def *)
  show "retry_works empty_cluster" by (auto simp: retry_works_def empty_cluster_def)
qed

text \<open>The state of the sample server: its libraries and one configuration object.\<close>

type_synonym server = "VirtualFolder list \<times> raw"

definition pure_op :: "('e \<Rightarrow> 'e) \<Rightarrow> ('e, unit) op" where
  "pure_op f = (\<lambda>s. (Inr (), f s))"

definition memory_api :: "server APIClient" where
  "memory_api = \<lparr>api_New = (\<lambda>b d. pure_op (\<lambda>s. s)), api_SetToken = (\<lambda>t s. s),
     api_Bootstrap = (\<lambda>u p a s. (Inr ''key'', s)), api_AuthenticateByName = (\<lambda>u p s. (Inr ''token'', s)),
     api_ListVirtualFolders = (\<lambda>s. (Inr (fst s), s)),
     api_AddVirtualFolder = (\<lambda>d b. pure_op (\<lambda>(fs, c). (fs @ [(created d)\<lparr>vf_ItemID := ''id-'' @ dl_Name d\<rparr>], c))),
     api_RemoveVirtualFolder = (\<lambda>n b. pure_op (\<lambda>(fs, c). (filter (\<lambda>f. vf_Name f \<noteq> n) fs, c))),
     api_AddMediaPath = (\<lambda>n p b. pure_op (\<lambda>(fs, c).
        (map (\<lambda>f. if vf_Name f = n then f\<lparr>vf_Locations := vf_Locations f @ [p]\<rparr> else f) fs, c))),
     api_RemoveMediaPath = (\<lambda>n p b. pure_op (\<lambda>(fs, c).
        (map (\<lambda>f. if vf_Name f = n then f\<lparr>vf_Locations := filter (\<lambda>q. q \<noteq> p) (vf_Locations f)\<rparr> else f) fs, c))),
     api_UpdateLibraryOptions = (\<lambda>i opts. pure_op (\<lambda>(fs, c).
        (map (\<lambda>f. if vf_ItemID f = i then f\<lparr>vf_LibraryOptions := opts\<rparr> else f) fs, c))),
     api_RefreshLibraries = pure_op (\<lambda>s. s),
     api_GetEncodingConfig = (\<lambda>s. (Inr (snd s), s)), api_UpdateEncodingConfig = (\<lambda>r. pure_op (\<lambda>s. (fst s, r))),
     api_GetServerConfig = (\<lambda>s. (Inr (snd s), s)), api_UpdateServerConfig = (\<lambda>r. pure_op (\<lambda>s. (fst s, r))),
     api_GetBrandingConfig = (\<lambda>s. (Inr (snd s), s)), api_UpdateBrandingConfig = (\<lambda>r. pure_op (\<lambda>s. (fst s, r)))\<rparr>"

definition sample_reconciler :: "server APIReconciler" where
  "sample_reconciler = \<lparr>rec_cluster = empty_cluster, rec_api = memory_api, rec_requeue = 0,
     rec_rand = (\<lambda>s. (Inr ''random'', s)), rec_codec = integer_codec, rec_errText = (\<lambda>e. ''error''),
     rec_range = (\<lambda>m. m)\<rparr>"

end
