(* ===== verification/Library_Sync.thy ===== *)
theory Library_Sync
  imports Fakes
begin

text \<open>
  The library part of the day-2 loop against its abstract specification \<open>carry_out\<close>: whatever order
  Go ranges over its maps in, the calls that \<open>reconcileLibraries\<close> makes add up to carrying out the diff,
  on every server whose calls do what they are documented to do.
\<close>

section \<open>What the server's calls do\<close>

type_synonym layout = "(string \<times> string list) list"

definition layout :: "VirtualFolder list \<Rightarrow> layout" where
  "layout fs = map (\<lambda>f. (vf_Name f, vf_Locations f)) fs"

definition with_path :: "string \<Rightarrow> string \<Rightarrow> layout \<Rightarrow> layout" where
  "with_path name p L = map (\<lambda>(n, ps). (n, if n = name then ps @ [p] else ps)) L"

definition without_path :: "string \<Rightarrow> string \<Rightarrow> layout \<Rightarrow> layout" where
  "without_path name p L = map (\<lambda>(n, ps). (n, if n = name then filter (\<lambda>q. q \<noteq> p) ps else ps)) L"

text \<open>
  A successful call changes the names and paths of the libraries as documented; what else it changes
  (the identifier and the options of a new library) is left open, as is everything about a call that fails.
\<close>

definition after_ok :: "('e, 'a) op \<Rightarrow> ('e \<Rightarrow> 'a \<Rightarrow> 'e \<Rightarrow> bool) \<Rightarrow> bool" where
  "after_ok f P \<longleftrightarrow> (\<forall>s a s'. f s = (Inr a, s') \<longrightarrow> P s a s')"

definition library_server :: "'e APIClient \<Rightarrow> ('e \<Rightarrow> VirtualFolder list) \<Rightarrow> bool" where
  "library_server c libs \<longleftrightarrow>
     after_ok (api_ListVirtualFolders c) (\<lambda>s a s'. a = libs s \<and> libs s' = libs s)
     \<and> (\<forall>lib b. after_ok (api_AddVirtualFolder c lib b)
          (\<lambda>s a s'. layout (libs s') = layout (libs s) @ [(dl_Name lib, dl_Paths lib)]))
     \<and> (\<forall>n p b. after_ok (api_AddMediaPath c n p b) (\<lambda>s a s'. layout (libs s') = with_path n p (layout (libs s))))
     \<and> (\<forall>n p b. after_ok (api_RemoveMediaPath c n p b) (\<lambda>s a s'. layout (libs s') = without_path n p (layout (libs s))))
     \<and> (\<forall>n b. after_ok (api_RemoveVirtualFolder c n b)
          (\<lambda>s a s'. layout (libs s') = filter (\<lambda>l. fst l \<noteq> n) (layout (libs s))))
     \<and> (\<forall>i opts. after_ok (api_UpdateLibraryOptions c i opts) (\<lambda>s a s'. layout (libs s') = layout (libs s)))
     \<and> after_ok (api_RefreshLibraries c) (\<lambda>s a s'. layout (libs s') = layout (libs s))"

text \<open>Go ranges over a map in some order of its entries.\<close>

definition ranges :: "(string, string list) go_map \<Rightarrow> (string, string list) go_map \<Rightarrow> bool" where
  "ranges m m' \<longleftrightarrow> mset m' = mset m"

section \<open>Effects of loops\<close>

text \<open>\<open>steps m F\<close>: when \<open>m\<close> returns, the layout of the libraries is the old one changed by \<open>F\<close>.\<close>

definition steps :: "('e \<Rightarrow> VirtualFolder list) \<Rightarrow> ('e, 'a) act \<Rightarrow> (layout \<Rightarrow> layout) \<Rightarrow> bool" where
  "steps libs m F \<longleftrightarrow> (\<forall>s. post m s (\<lambda>r es s'. case r of Inl e \<Rightarrow> True | Inr a \<Rightarrow> layout (libs s') = F (layout (libs s))))"

lemma stepsD: "steps libs m F \<Longrightarrow> post m s (\<lambda>r es s'. case r of Inl e \<Rightarrow> True | Inr a \<Rightarrow> layout (libs s') = F (layout (libs s)))"
  unfolding steps_def by (rule spec)

lemma steps_api: "after_ok f (\<lambda>s a s'. layout (libs s') = F (layout (libs s))) \<Longrightarrow> steps libs (api c f) F"
  by (auto simp: steps_def api_def post_call after_ok_def split: prod.split sum.split)

lemma steps_bind:
  fixes m :: "('e, 'a) act"
  assumes "steps libs m F" and "\<And>a. steps libs (f a) G"
  shows "steps libs (bind_io m f) (\<lambda>L. G (F L))"
  unfolding steps_def
proof
  fix s
  show "post (bind_io m f) s (\<lambda>r es s'. case r of Inl e \<Rightarrow> True | Inr a \<Rightarrow> layout (libs s') = G (F (layout (libs s))))"
  proof (rule post_bindI [OF stepsD [OF assms(1)]])
    fix a :: 'a and es and s' :: 'e
    assume "case Inr a of Inl e \<Rightarrow> True | Inr a \<Rightarrow> layout (libs s') = F (layout (libs s))"
    then show "post (f a) s' (\<lambda>r es' s''. case r of Inl e \<Rightarrow> True | Inr a \<Rightarrow> layout (libs s'') = G (F (layout (libs s))))"
      by (intro post_mono [OF stepsD [OF assms(2)]]) (auto split: sum.splits)
  qed simp
qed

lemma steps_ret: "steps libs (ret a) (\<lambda>L. L)"
  by (simp add: steps_def post_ret)

lemma steps_lift: "steps libs (lift r) (\<lambda>L. L)"
  by (auto simp: steps_def post_lift split: sum.split)

lemma steps_each: "(\<And>x. x \<in> set xs \<Longrightarrow> steps libs (f x) (F x)) \<Longrightarrow> steps libs (each f xs) (fold F xs)"
proof (induction xs)
  case Nil
  show ?case using steps_ret [of libs "()"] by (simp add: id_def)
next
  case (Cons x xs)
  then show ?case using steps_bind [of libs "f x" "F x" "\<lambda>_. each f xs" "fold F xs"] by (simp add: comp_def)
qed

lemma steps_fold: "(\<And>x a. x \<in> set xs \<Longrightarrow> steps libs (f x a) (\<lambda>L. L)) \<Longrightarrow> steps libs (fold_io f xs a) (\<lambda>L. L)"
proof (induction xs arbitrary: a)
  case (Cons x xs)
  then show ?case using steps_bind [of libs "f x a" "\<lambda>L. L" "fold_io f xs" "\<lambda>L. L"] by simp
qed (simp add: steps_ret)

lemma steps_cong: "steps libs m F \<Longrightarrow> F = G \<Longrightarrow> steps libs m G"
  by simp

section \<open>Adding and removing all paths\<close>

lemma fold_with_path:
  "fold (with_path name) ps L = map (\<lambda>(n, qs). (n, if n = name then qs @ ps else qs)) L"
proof (induction ps arbitrary: L)
  case Nil
  show ?case by (rule fold_simps(1) [THEN trans], rule sym, rule map_idI) auto
qed (auto simp: with_path_def)

lemma fold_without_path:
  "fold (without_path name) ps L = map (\<lambda>(n, qs). (n, if n = name then filter (\<lambda>q. q \<notin> set ps) qs else qs)) L"
proof (induction ps arbitrary: L)
  case Nil
  show ?case by (rule fold_simps(1) [THEN trans], rule sym, rule map_idI) auto
qed (auto simp: without_path_def intro: filter_cong)

lemma paths_of_Cons: "paths_of ((k, v) # m) n = (if n = k then v else paths_of m n)"
  by (simp add: paths_of_def)

lemma paths_of_absent: "n \<notin> fst ` set m \<Longrightarrow> paths_of m n = []"
  by (simp add: paths_of_def map_of_eq_None_iff [THEN iffD2])

lemma fold_add_paths:
  "distinct (map fst m) \<Longrightarrow> fold (\<lambda>(name, ps). fold (with_path name) ps) m L = map (\<lambda>(n, qs). (n, qs @ paths_of m n)) L"
proof (induction m arbitrary: L)
  case Nil
  show ?case by (auto simp: paths_of_def intro: map_idI [symmetric])
next
  case (Cons kv m)
  obtain k v where kv: "kv = (k, v)" by (cases kv)
  have "paths_of m k = []" using Cons.prems kv by (intro paths_of_absent) simp
  with Cons kv show ?case by (auto simp: fold_with_path paths_of_Cons)
qed

lemma fold_remove_paths:
  "distinct (map fst m) \<Longrightarrow> fold (\<lambda>(name, ps). fold (without_path name) ps) m L
     = map (\<lambda>(n, qs). (n, filter (\<lambda>q. q \<notin> set (paths_of m n)) qs)) L"
proof (induction m arbitrary: L)
  case Nil
  show ?case by (auto simp: paths_of_def intro: map_idI [symmetric])
next
  case (Cons kv m)
  obtain k v where kv: "kv = (k, v)" by (cases kv)
  have "paths_of m k = []" using Cons.prems kv by (intro paths_of_absent) simp
  with Cons kv show ?case by (auto simp: fold_without_path paths_of_Cons)
qed

lemma ranges_paths:
  assumes "ranges m m'" and "distinct (map fst m)"
  shows "distinct (map fst m')" and "paths_of m' = paths_of m"
proof -
  have "mset (map fst m') = mset (map fst m)" using assms(1) by (simp add: ranges_def)
  then show d: "distinct (map fst m')" using assms(2) mset_eq_imp_distinct_iff by blast
  have "set m' = set m" using assms(1) by (metis ranges_def mset_eq_setD)
  then have "map_of m' = map_of m" using d assms(2) by (metis map_of_eq_Some_iff not_Some_eq ext)
  then show "paths_of m' = paths_of m" by (simp add: paths_of_def fun_eq_iff)
qed

section \<open>Refinement\<close>

lemma fold_append_one: "fold (\<lambda>x L. L @ [g x]) xs L = L @ map g xs"
  by (induction xs arbitrary: L) simp_all

lemma fold_filter_out: "fold (\<lambda>n L. filter (\<lambda>l. f l \<noteq> n) L) ns L = filter (\<lambda>l. f l \<notin> set ns) L"
  by (induction ns arbitrary: L) (auto intro: filter_cong)

definition diff_effect :: "LibraryDiff \<Rightarrow> layout \<Rightarrow> layout" where
  "diff_effect diff L =
     filter (\<lambda>l. fst l \<notin> set (ToRemove diff))
       (map (\<lambda>(n, ps). (n, filter (\<lambda>p. p \<notin> set (paths_of (PathsToRemove diff) n)) (ps @ paths_of (PathsToAdd diff) n)))
         (L @ map (\<lambda>d. (dl_Name d, dl_Paths d)) (ToCreate diff)))"

lemma steps_apply_diff:
  assumes "library_server (rec_api R) libs"
    and "ranges (PathsToAdd diff) (rec_range R (PathsToAdd diff))" "distinct (map fst (PathsToAdd diff))"
    and "ranges (PathsToRemove diff) (rec_range R (PathsToRemove diff))" "distinct (map fst (PathsToRemove diff))"
  shows "steps libs (apply_diff R diff) (diff_effect diff)"
proof -
  have calls:
    "steps libs (api (CallAddFolder lib b) (api_AddVirtualFolder (rec_api R) lib b)) (\<lambda>L. L @ [(dl_Name lib, dl_Paths lib)])"
    "steps libs (api (CallAddPath n p b) (api_AddMediaPath (rec_api R) n p b)) (with_path n p)"
    "steps libs (api (CallRemovePath n p b) (api_RemoveMediaPath (rec_api R) n p b)) (without_path n p)"
    "steps libs (api (CallRemoveFolder n b) (api_RemoveVirtualFolder (rec_api R) n b)) (\<lambda>L. filter (\<lambda>l. fst l \<noteq> n) L)"
    for lib b n p using assms(1) by (intro steps_api; simp add: library_server_def)+
  have "steps libs (apply_diff R diff)
    (\<lambda>L. fold (\<lambda>n L. filter (\<lambda>l. fst l \<noteq> n) L) (ToRemove diff)
      (fold (\<lambda>(name, ps). fold (without_path name) ps) (rec_range R (PathsToRemove diff))
        (fold (\<lambda>(name, ps). fold (with_path name) ps) (rec_range R (PathsToAdd diff))
          (fold (\<lambda>d L. L @ [(dl_Name d, dl_Paths d)]) (ToCreate diff) L))))"
    unfolding apply_diff_def
    by (intro steps_bind steps_each calls) (auto split: prod.split intro!: steps_each calls)
  then show ?thesis
  proof (rule steps_cong)
    show "(\<lambda>L. fold (\<lambda>n L. filter (\<lambda>l. fst l \<noteq> n) L) (ToRemove diff)
      (fold (\<lambda>(name, ps). fold (without_path name) ps) (rec_range R (PathsToRemove diff))
        (fold (\<lambda>(name, ps). fold (with_path name) ps) (rec_range R (PathsToAdd diff))
          (fold (\<lambda>d L. L @ [(dl_Name d, dl_Paths d)]) (ToCreate diff) L)))) = diff_effect diff"
      unfolding fold_add_paths [OF ranges_paths(1) [OF assms(2,3)]] fold_remove_paths [OF ranges_paths(1) [OF assms(4,5)]]
        ranges_paths(2) [OF assms(2,3)] ranges_paths(2) [OF assms(4,5)] fold_append_one fold_filter_out
      by (simp add: fun_eq_iff diff_effect_def split_def comp_def)
  qed
qed

text \<open>The calls come to the same as \<open>carry_out\<close>: nothing is removed from a library just created.\<close>

lemma diff_effect_carry_out:
  "diff_effect (DiffLibraries ds fs managed prune) (layout fs) = layout (carry_out (DiffLibraries ds fs managed prune) fs)"
proof -
  let ?diff = "DiffLibraries ds fs managed prune"
  have new: "d \<in> set ds" "map_of (existing_by_name fs) (dl_Name d) = None" if "d \<in> set (ToCreate ?diff)" for d
    using that by (simp_all add: DiffLibraries_fields)
  have "paths_of (PathsToAdd ?diff) (dl_Name d) = []" "paths_of (PathsToRemove ?diff) (dl_Name d) = []"
    "dl_Name d \<notin> set (ToRemove ?diff)" if "d \<in> set (ToCreate ?diff)" for d
    using new [OF that] unfolding DiffLibraries_fields by (auto simp: missing_paths_def stale_paths_def)
  then have "filter (\<lambda>l. fst l \<notin> set (ToRemove ?diff)) (map (\<lambda>(n, ps). (n, filter (\<lambda>p. p \<notin> set (paths_of (PathsToRemove ?diff) n))
        (ps @ paths_of (PathsToAdd ?diff) n))) (map (\<lambda>d. (dl_Name d, dl_Paths d)) (ToCreate ?diff)))
      = map (\<lambda>d. (dl_Name d, dl_Paths d)) (ToCreate ?diff)"
    by (auto simp: filter_id_conv comp_def)
  then show ?thesis
    by (simp add: diff_effect_def layout_def carry_out_def filter_map comp_def repathed_def)
qed

lemma aligned_layout:
  assumes "layout fs = layout fs'"
  shows "aligned ds fs managed prune = aligned ds fs' managed prune"
proof -
  have names: "map vf_Name gs = map fst (layout gs)" for gs by (simp add: layout_def)
  have ex: "(\<exists>f \<in> set gs. vf_Name f = n \<and> set (vf_Locations f) = S) \<longleftrightarrow> (\<exists>l \<in> set (layout gs). fst l = n \<and> set (snd l) = S)" for gs n S
    by (auto simp: layout_def)
  have "vf_Name ` set gs = fst ` set (layout gs)" for gs by (simp add: layout_def image_image)
  with assms show ?thesis unfolding aligned_def names ex by simp
qed

lemma steps_enforce:
  assumes "library_server (rec_api R) libs"
  shows "steps libs (enforceLibraryOptions R desired folders) (\<lambda>L. L)"
proof -
  have call: "steps libs (api (CallUpdateOptions i opts) (api_UpdateLibraryOptions (rec_api R) i opts)) (\<lambda>L. L)" for i opts
    using assms by (intro steps_api) (simp add: library_server_def)
  have step: "steps libs (bind_io m f) (\<lambda>L. L)"
    if "steps libs m (\<lambda>L. L)" and "\<And>a. steps libs (f a) (\<lambda>L. L)"
    for m :: "('a, 'b) act" and f :: "'b \<Rightarrow> ('a, bool) act"
    using steps_bind [OF that] .
  have "steps libs (enforce_library R byName d b) (\<lambda>L. L)" for byName d b
    unfolding enforce_library_def
    by (auto split: option.split intro!: steps_ret step [OF steps_lift] step [OF call] steps_bind [OF call, of _ "\<lambda>L. L", simplified])
  then show ?thesis unfolding enforceLibraryOptions_def by (intro steps_fold)
qed

definition library_spec :: "Jellyfin \<Rightarrow> JellyfinAPISpec \<Rightarrow> VirtualFolder list \<Rightarrow> VirtualFolder list" where
  "library_spec jf apispec fs =
     carry_out (DiffLibraries (desiredLibraries jf) fs (jst_managedLibraries (jf_status jf)) (api_prune apispec)) fs"

lemma aligned_managed:
  "aligned ds fs managed prune \<Longrightarrow> aligned ds fs (sort (map dl_Name ds)) prune"
  by (auto simp: aligned_def)

lemma library_spec_aligned:
  assumes "distinct (map dl_Name (desiredLibraries jf))" and "distinct (map vf_Name fs)"
  shows "aligned (desiredLibraries jf) (library_spec jf apispec fs)
    (sort (map dl_Name (desiredLibraries jf))) (api_prune apispec)"
  unfolding library_spec_def by (rule aligned_managed [OF carry_out_aligned [OF assms]])


definition sample_api :: JellyfinAPISpec where
  "sample_api = \<lparr>api_mode = ''bootstrap'', api_credentialsSecret = None, api_generatedSecretName = '''',
     api_manageLibraries = True, api_prune = True, api_refreshLibraryOnChange = False\<rparr>"

lemma memory_library_server: "library_server memory_api fst"
  by (auto simp: library_server_def after_ok_def memory_api_def pure_op_def layout_def with_path_def without_path_def
      filter_map comp_def)

text \<open>Two declared libraries, one of them new and one with another path, and a library on the server that is declared no more.\<close>

definition library_folder :: "string \<Rightarrow> MediaFolder" where
  "library_folder n = (sample_media n (''/media/'' @ n))
     \<lparr>mf_library := Some \<lparr>ls_name = '''', ls_collectionType = '''', ls_options = None\<rparr>\<rparr>"

definition library_jf :: Jellyfin where
  "library_jf = sample_jf
     \<lparr>jf_spec := (jf_spec sample_jf)\<lparr>js_storage := (js_storage (jf_spec sample_jf))\<lparr>st_media := [library_folder ''tv'', library_folder ''film'']\<rparr>\<rparr>,
      jf_status := (jf_status sample_jf)\<lparr>jst_managedLibraries := [''gone'', ''tv'']\<rparr>\<rparr>"

definition library_world :: server where
  "library_world = ([sample_folder ''Home'' [''/h''], sample_folder ''tv'' [''/old''], sample_folder ''gone'' [''/g'']], RawEmpty)"

lemma library_run: "is_ok (result (reconcileLibraries sample_reconciler sample_api library_jf library_world))"
  "layout (library_spec library_jf sample_api (fst library_world)) = [(''Home'', [''/h'']), (''tv'', [''/media/tv'']), (''film'', [''/media/film''])]"
  "distinct (map dl_Name (desiredLibraries library_jf))" "distinct (map vf_Name (fst library_world))"
  by code_simp+


text \<open>
  A library over a read-only NFS mount: the pod mounts the folder read-only because of \<open>nfs.readOnly\<close>, but the
  options that stop Jellyfin from writing into it are not enforced.
\<close>

lemma nfs_read_only_library:
  "let mf = (sample_media ''tv'' ''/media/tv'')\<lparr>mf_nfs := Some (no_nfs\<lparr>nfs_readOnly := True\<rparr>), mf_pvc := None\<rparr>;
       lib = \<lparr>ls_name = '''', ls_collectionType = '''', ls_options = None\<rparr>
   in mediaReadOnly mf \<and> \<not> dl_PreventWrites (desired_library mf lib)"
  by code_simp

end
