(* ===== verification/Api_Correct.thy ===== *)
theory Api_Correct
  imports Fakes
begin

text \<open>
  What the day-2 loop of \<open>Api_Controller\<close> guarantees beyond the libraries: how it obtains a token, what it
  writes to the configuration stores, and how a failure is reported.
\<close>

section \<open>Credentials\<close>

fun is_bootstrap :: "event \<Rightarrow> bool" where
  "is_bootstrap (Api (CallBootstrap u p a) good) = True"
| "is_bootstrap e = False"

text \<open>What a run that obtains a token may do in the mode with provided credentials.\<close>

fun reads_or_logs_in :: "event \<Rightarrow> bool" where
  "reads_or_logs_in (Got k ns n r) = (k = KSecret)"
| "reads_or_logs_in (Api (CallAuthenticate u p) good) = True"
| "reads_or_logs_in e = False"

text \<open>The one object that it may write.\<close>

fun writes_only :: "string \<Rightarrow> string \<Rightarrow> event \<Rightarrow> bool" where
  "writes_only ns n (Upserted k ns' n' r) = (k = KSecret \<and> ns' = ns \<and> n' = n)"
| "writes_only ns n (Got k ns' n' r) = True"
| "writes_only ns n (Api c good) = True"
| "writes_only ns n (RandomRead good) = True"
| "writes_only ns n e = False"

definition with_credentials :: "string \<Rightarrow> Jellyfin \<Rightarrow> Jellyfin" where
  "with_credentials n jf = jf\<lparr>jf_status := (jf_status jf)\<lparr>jst_apiCredentialsSecret := n\<rparr>\<rparr>"

lemma post_api_event: "post (api c f) s (\<lambda>r es s'. es = [Api c (is_ok r)])"
  by (simp add: api_def post_call split: prod.split)

lemma post_password:
  "post (if pass = '''' then randomSecret R else ret pass) s (\<lambda>r es s'. case r of Inl e \<Rightarrow> False
     | Inr p \<Rightarrow> list_all (writes_only ns n) es \<and> filter is_bootstrap es = [] \<and> Api CallListFolders True \<notin> set es)"
  unfolding randomSecret_def by (auto simp: post_simps split: prod.split)

lemma post_persist:
  "post (bind_io (persistGeneratedSecret R jf n user pass key) (\<lambda>_. ret (key, with_credentials n jf))) s (\<lambda>r es s'.
     list_all (writes_only (jf_namespace jf) n) es \<and> filter is_bootstrap es = [] \<and> Api CallListFolders True \<notin> set es
     \<and> (case r of Inl e \<Rightarrow> True | Inr (token, jf') \<Rightarrow> jf' = with_credentials n jf
          \<and> (\<exists>sec. last es = Upserted KSecret (jf_namespace jf) n (Inr (OSecret sec))) \<and> es \<noteq> []))"
  unfolding persistGeneratedSecret_def CreateOrUpdate_def by (auto simp: post_simps split: prod.split sum.split)

lemma post_mint_key:
  "post (mint_key R jf n user pass) s (\<lambda>r es s'.
     list_all (writes_only (jf_namespace jf) n) es \<and> length (filter is_bootstrap es) \<le> 1
     \<and> Api CallListFolders True \<notin> set es
     \<and> (case r of Inl e \<Rightarrow> True | Inr (token, jf') \<Rightarrow> jf' = with_credentials n jf \<and> es \<noteq> []
          \<and> (\<exists>sec. last es = Upserted KSecret (jf_namespace jf) n (Inr (OSecret sec)))))"
  unfolding mint_key_def with_credentials_def [symmetric] Let_def
proof (rule post_bindI [OF post_password [where ns = "jf_namespace jf" and n = n]], goal_cases)
  case (2 p es s')
  show ?case
    by (rule post_bindI [OF post_api_event])
      (use 2 in \<open>auto split: sum.splits intro!: post_mono [OF post_persist]\<close>)
qed simp

lemma post_read_credentials:
  "post (read_credentials R apispec jf) s (\<lambda>r es s'. list_all (\<lambda>e. reads_or_logs_in e \<and> writes_only ns n e) es
     \<and> filter is_bootstrap es = [] \<and> Api CallListFolders True \<notin> set es)"
  unfolding read_credentials_def getSecret_def Get_def
  by (auto simp: post_simps split: option.split prod.split sum.split)

lemma post_key_works:
  "post (key_works R key) s (\<lambda>r es s'. list_all (writes_only ns n) es \<and> filter is_bootstrap es = []
     \<and> (case r of Inl e \<Rightarrow> Api CallListFolders True \<notin> set es
        | Inr works \<Rightarrow> works = (Api CallListFolders True \<in> set es)))"
  unfolding key_works_def set_token_def list_folders_def api_def
  by (auto simp: post_simps split: prod.split sum.split)

lemma post_getSecret: "post (attempt (getSecret R ns n)) s
    (\<lambda>r es s'. (\<exists>x. es = [Got KSecret ns n x]) \<and> (case r of Inl e \<Rightarrow> False | Inr x \<Rightarrow> True))"
  unfolding getSecret_def Get_def by (simp add: post_simps split: prod.split)

text \<open>
  The rules for a run that obtains a token: with provided credentials it reads secrets and logs in,
  and does nothing else; it writes no object but the generated secret; it runs the first-run wizard at
  most once, and not at all when the stored key has just been seen to work; when the
  wizard has run and a token is returned, storing the key was the last thing done; the status
  changes at most in the name of that secret, so no token goes into the status.
\<close>

definition credential_rules ::
  "JellyfinAPISpec \<Rightarrow> Jellyfin \<Rightarrow> go_error + string \<times> Jellyfin \<Rightarrow> event list \<Rightarrow> bool" where
  "credential_rules apispec jf r es \<longleftrightarrow>
     (api_mode apispec = ''provided'' \<longrightarrow> list_all reads_or_logs_in es)
     \<and> list_all (writes_only (jf_namespace jf) (gen_name apispec jf)) es
     \<and> length (filter is_bootstrap es) \<le> 1
     \<and> (Api CallListFolders True \<in> set es \<longrightarrow> filter is_bootstrap es = [])
     \<and> (case r of Inl e \<Rightarrow> True | Inr (token, jf') \<Rightarrow>
          jf' \<in> {jf, with_credentials (gen_name apispec jf) jf}
          \<and> (filter is_bootstrap es = [] \<or>
             (\<exists>sec. last es = Upserted KSecret (jf_namespace jf) (gen_name apispec jf) (Inr (OSecret sec)))))"

lemma post_ensureCredentials:
  fixes R :: "'e APIReconciler"
  shows "post (ensureCredentials R apispec jf) s (\<lambda>r es s'. credential_rules apispec jf r es)"
  unfolding ensureCredentials_def
proof (rule post_bindI [OF post_read_credentials [where ns = "jf_namespace jf" and n = "gen_name apispec jf"]], goal_cases)
  case (2 creds es s')
  obtain key user pass where c: "creds = (key, user, pass)" by (cases creds)
  show ?case
  proof (cases "api_mode apispec = ''provided''")
    case True
    then show ?thesis using 2 unfolding c
      by (auto simp: credential_rules_def post_ret post_raise list_all_iff
          intro!: post_bindI [OF post_api_event])
  next
    case False
    have creds: "list_all (writes_only (jf_namespace jf) (gen_name apispec jf)) es" "filter is_bootstrap es = []"
      "Api CallListFolders True \<notin> set es" using 2 by (auto simp: list_all_iff)
    from False show ?thesis unfolding c Let_def prod.case if_False with_credentials_def [symmetric]
    proof (simp, intro post_bindI [OF post_getSecret], goal_cases)
      case (2 gsec es1 s1)
      then obtain x where es1: "es1 = [Got KSecret (jf_namespace jf) (gen_name apispec jf) x]" by blast
      have mint: "post (mint_key R jf (gen_name apispec jf) u p) s0 (\<lambda>r es'. \<lambda>s'. credential_rules apispec jf r (es @ es1 @ probe @ es'))"
        if "list_all (writes_only (jf_namespace jf) (gen_name apispec jf)) probe" "filter is_bootstrap probe = []"
          "Api CallListFolders True \<notin> set probe" for u p s0 probe
        by (rule post_mono [OF post_mint_key])
          (use that creds False es1 in \<open>auto simp: credential_rules_def split: sum.splits\<close>)
      show ?case
      proof (cases gsec)
        case (Inl e)
        with mint [of "[]"] show ?thesis by simp
      next
        case (Inr sec)
        show ?thesis unfolding Inr sum.case
        proof (rule post_bindI [OF post_key_works [where ns = "jf_namespace jf" and n = "gen_name apispec jf"]], goal_cases)
          case (1 e es2 s2)
          then show ?case using creds False es1 by (auto simp: credential_rules_def)
        next
          case (2 works es2 s2)
          then show ?case using mint [of es2] creds False es1
            by (auto simp: credential_rules_def post_ret)
        qed
      qed
    qed simp
  qed
qed (auto simp: credential_rules_def list_all_iff)

text \<open>
  What a run does in detail. First the admin secret is read, when the spec names one, and a failure of that ends the run.
\<close>

definition admin_secret :: "JellyfinAPISpec \<Rightarrow> string option" where
  "admin_secret apispec = (case api_credentialsSecret apispec of None \<Rightarrow> None | Some n \<Rightarrow> if n = '''' then None else Some n)"

definition data_value :: "(string, string) go_map \<Rightarrow> string \<Rightarrow> string" where
  "data_value d key = deref (map_of d key) ''''"

definition first_of :: "string list \<Rightarrow> string" where
  "first_of xs = (case filter (\<lambda>x. x \<noteq> '''') xs of [] \<Rightarrow> '''' | x # _ \<Rightarrow> x)"

text \<open>Provided credentials: the key itself, or the token of a login with the given user.\<close>

definition provided_run ::
  "'e APIReconciler \<Rightarrow> Jellyfin \<Rightarrow> (string, string) go_map \<Rightarrow> go_error + string \<times> Jellyfin \<Rightarrow> event list \<Rightarrow> bool" where
  "provided_run R jf admin r es \<longleftrightarrow>
     (let key = data_value admin ''apiKey''; user = data_value admin ''username''; pass = data_value admin ''password''
      in if key \<noteq> '''' then r = Inr (key, jf) \<and> es = []
         else if user = '''' \<or> pass = '''' then \<not> is_ok r \<and> es = []
         else \<exists>s. let answer = fst (api_AuthenticateByName (rec_api R) user pass s)
           in es = [Api (CallAuthenticate user pass) (is_ok answer)] \<and> r = map_ok (\<lambda>token. (token, jf)) answer)"

text \<open>A function given to \<open>CreateOrUpdate\<close> that stores a key with its user, keeps other data, and sets the owner.\<close>

definition stores_key :: "'e cluster \<Rightarrow> string \<Rightarrow> string \<Rightarrow> string \<Rightarrow> string \<Rightarrow> (Secret \<Rightarrow> go_error + Secret) \<Rightarrow> bool" where
  "stores_key k owner key user pass f \<longleftrightarrow> (\<forall>sec. case SetControllerReference k owner (sec_owners sec) of
       Inl e \<Rightarrow> f sec = Inl e
     | Inr owners \<Rightarrow> \<exists>d. f sec = Inr (sec\<lparr>sec_data := d, sec_owners := owners\<rparr>)
         \<and> map_of d = (map_of (sec_data sec))(''apiKey'' \<mapsto> key, ''username'' \<mapsto> user, ''password'' \<mapsto> pass))"

text \<open>A new key: the first-run wizard returns it, then it is stored, and only then it is used.\<close>

definition mint_run ::
  "'e APIReconciler \<Rightarrow> JellyfinAPISpec \<Rightarrow> Jellyfin \<Rightarrow> string \<Rightarrow> string \<Rightarrow> go_error + string \<times> Jellyfin \<Rightarrow> event list \<Rightarrow> bool" where
  "mint_run R apispec jf user pass r es \<longleftrightarrow>
     (\<exists>s. case fst (api_Bootstrap (rec_api R) user pass ''JellyOps'' s) of
         Inl e \<Rightarrow> r = Inl e \<and> es = [Api (CallBootstrap user pass ''JellyOps'') False]
       | Inr key \<Rightarrow> \<exists>f t. let stored = fst (raw_upsert (k_secrets (rec_cluster R)) (jf_namespace jf) (gen_name apispec jf) f t)
         in stores_key (rec_cluster R) (jf_uid jf) key user pass f
           \<and> es = [Api (CallBootstrap user pass ''JellyOps'') True,
                    Upserted KSecret (jf_namespace jf) (gen_name apispec jf) (map_ok OSecret stored)]
           \<and> r = map_ok (\<lambda>sec. (key, with_credentials (gen_name apispec jf) jf)) stored)"

definition password_run :: "'e APIReconciler \<Rightarrow> string \<Rightarrow> string \<Rightarrow> event list \<Rightarrow> bool" where
  "password_run R given pass es \<longleftrightarrow>
     (if given \<noteq> '''' then pass = given \<and> es = []
      else \<exists>s. let answer = fst (rec_rand R s) in es = [RandomRead (is_ok answer)]
        \<and> pass = (case answer of Inl e \<Rightarrow> ''changeme-jellyops'' | Inr bytes \<Rightarrow> hex_encode bytes))"

text \<open>
  Bootstrap mode: the generated secret is read. If it holds a key, this key is tried on the server, and used if it works. Otherwise a new one is
  minted, for the user and with the password of the admin secret, else of the generated secret, else for \<open>admin\<close> and with a random one.
\<close>

definition bootstrap_run ::
  "'e APIReconciler \<Rightarrow> JellyfinAPISpec \<Rightarrow> Jellyfin \<Rightarrow> (string, string) go_map \<Rightarrow> go_error + string \<times> Jellyfin \<Rightarrow> event list \<Rightarrow> bool" where
  "bootstrap_run R apispec jf admin r es \<longleftrightarrow>
     (\<exists>x probe mint. es = Got KSecret (jf_namespace jf) (gen_name apispec jf) x # probe @ mint \<and>
       (let old = (case x of Inr (OSecret sec) \<Rightarrow> sec_data sec | _ \<Rightarrow> []);
            key = data_value old ''apiKey'';
            user = first_of [data_value admin ''username'', data_value old ''username'', ''admin''];
            given = first_of [data_value admin ''password'', data_value old ''password'']
        in (if key = '''' then probe = [] else \<exists>works. probe = [Api (CallSetToken key) True, Api CallListFolders works])
           \<and> (if Api CallListFolders True \<in> set probe then mint = [] \<and> r = Inr (key, with_credentials (gen_name apispec jf) jf)
              else \<exists>pass look calls. mint = look @ calls \<and> password_run R given pass look \<and> mint_run R apispec jf user pass r calls)))"

definition credential_run ::
  "'e APIReconciler \<Rightarrow> JellyfinAPISpec \<Rightarrow> Jellyfin \<Rightarrow> go_error + string \<times> Jellyfin \<Rightarrow> event list \<Rightarrow> bool" where
  "credential_run R apispec jf r es \<longleftrightarrow>
     (let token_run = (if api_mode apispec = ''provided'' then provided_run R jf else bootstrap_run R apispec jf)
      in case admin_secret apispec of
           None \<Rightarrow> token_run [] r es
         | Some n \<Rightarrow> \<exists>x rest. es = Got KSecret (jf_namespace jf) n x # rest \<and> (case x of
               Inl e \<Rightarrow> r = Inl (Wrap ''read credentialsSecret'' e) \<and> rest = []
             | Inr (OSecret sec) \<Rightarrow> token_run (sec_data sec) r rest
             | Inr _ \<Rightarrow> False))"

lemma store_key_stores: "stores_key (rec_cluster R) (jf_uid jf) key user pass (store_key R jf user pass key)"
  by (auto simp: stores_key_def store_key_def fun_upd_twist split: sum.split)

lemma mint_run_stored:
  assumes "fst (api_Bootstrap (rec_api R) user pass ''JellyOps'' s) = Inr key" and "stores_key (rec_cluster R) (jf_uid jf) key user pass f"
    and "fst (raw_upsert (k_secrets (rec_cluster R)) (jf_namespace jf) (gen_name apispec jf) f t) = answer"
  shows "mint_run R apispec jf user pass (map_ok (\<lambda>sec. (key, with_credentials (gen_name apispec jf) jf)) answer)
    [Api (CallBootstrap user pass ''JellyOps'') True, Upserted KSecret (jf_namespace jf) (gen_name apispec jf) (map_ok OSecret answer)]"
  unfolding mint_run_def
proof (rule exI [of _ s], unfold assms(1) sum.case, rule exI [of _ f], rule exI [of _ t])
  show "let stored = fst (raw_upsert (k_secrets (rec_cluster R)) (jf_namespace jf) (gen_name apispec jf) f t)
    in stores_key (rec_cluster R) (jf_uid jf) key user pass f
      \<and> [Api (CallBootstrap user pass ''JellyOps'') True, Upserted KSecret (jf_namespace jf) (gen_name apispec jf) (map_ok OSecret answer)]
        = [Api (CallBootstrap user pass ''JellyOps'') True, Upserted KSecret (jf_namespace jf) (gen_name apispec jf) (map_ok OSecret stored)]
      \<and> map_ok (\<lambda>sec. (key, with_credentials (gen_name apispec jf) jf)) answer = map_ok (\<lambda>sec. (key, with_credentials (gen_name apispec jf) jf)) stored"
    using assms(2,3) by simp
qed

lemma post_wizard_run:
  "post (bind_io (api (CallBootstrap user pass apiKeyAppName) (api_Bootstrap (rec_api R) user pass apiKeyAppName)) (\<lambda>key.
      bind_io (persistGeneratedSecret R jf (gen_name apispec jf) user pass key) (\<lambda>_.
      ret (key, with_credentials (gen_name apispec jf) jf)))) s
    (\<lambda>r es s'. mint_run R apispec jf user pass r es)"
proof (cases "api_Bootstrap (rec_api R) user pass apiKeyAppName s")
  case (Pair answer t)
  show ?thesis
  proof (cases answer)
    case (Inl e)
    have "mint_run R apispec jf user pass (Inl e) [Api (CallBootstrap user pass apiKeyAppName) False]"
      unfolding mint_run_def by (rule exI [of _ s]) (use Pair Inl in \<open>simp add: apiKeyAppName_def\<close>)
    with Pair Inl show ?thesis by (simp add: post_simps api_def)
  next
    case (Inr key)
    let ?f = "store_key R jf user pass key"
    obtain stored t' where up: "raw_upsert (k_secrets (rec_cluster R)) (jf_namespace jf) (gen_name apispec jf) ?f t = (stored, t')" by fastforce
    have "mint_run R apispec jf user pass (map_ok (\<lambda>sec. (key, with_credentials (gen_name apispec jf) jf)) stored)
      [Api (CallBootstrap user pass apiKeyAppName) True, Upserted KSecret (jf_namespace jf) (gen_name apispec jf) (map_ok OSecret stored)]"
      unfolding apiKeyAppName_def
      by (rule mint_run_stored [where s = s and t = t, OF _ store_key_stores]) (use Pair Inr up in \<open>simp_all add: apiKeyAppName_def\<close>)
    with Pair Inr up show ?thesis
      by (cases stored) (simp_all add: post_simps api_def persistGeneratedSecret_def CreateOrUpdate_def)
  qed
qed

lemma post_mint_run:
  "post (mint_key R jf (gen_name apispec jf) user given) s (\<lambda>r es s'. \<exists>pass look calls. es = look @ calls
     \<and> password_run R given pass look \<and> mint_run R apispec jf (if user = '''' then ''admin'' else user) pass r calls)"
proof -
  have "post (if given = '''' then randomSecret R else ret given) s
      (\<lambda>r es s'. case r of Inl e \<Rightarrow> False | Inr pass \<Rightarrow> password_run R given pass es)"
    unfolding randomSecret_def by (auto simp: post_simps password_run_def Let_def split: prod.split intro!: exI [of _ s])
  then show ?thesis unfolding mint_key_def with_credentials_def [symmetric] Let_def
    by (rule post_bindI) (auto intro!: post_mono [OF post_wizard_run])
qed

lemma first_of_simps [simp]: "first_of [] = ''''" "first_of (x # xs) = (if x = '''' then first_of xs else x)"
  by (simp_all add: first_of_def)

lemma post_key_probe:
  "post (key_works R key) s (\<lambda>r es s'. if key = '''' then r = Inr False \<and> es = []
     else \<exists>works. r = Inr works \<and> es = [Api (CallSetToken key) True, Api CallListFolders works])"
  by (auto simp: key_works_def set_token_def list_folders_def api_def post_simps split: prod.split)

lemma bootstrap_runI:
  assumes "es = Got KSecret (jf_namespace jf) (gen_name apispec jf) x # probe @ mint"
    and "old = (case x of Inr (OSecret sec) \<Rightarrow> sec_data sec | _ \<Rightarrow> [])"
    and "if data_value old ''apiKey'' = '''' then probe = []
      else \<exists>works. probe = [Api (CallSetToken (data_value old ''apiKey'')) True, Api CallListFolders works]"
    and "if Api CallListFolders True \<in> set probe then mint = [] \<and> r = Inr (data_value old ''apiKey'', with_credentials (gen_name apispec jf) jf)
      else \<exists>pass look calls. mint = look @ calls \<and> password_run R (first_of [data_value admin ''password'', data_value old ''password'']) pass look
        \<and> mint_run R apispec jf (first_of [data_value admin ''username'', data_value old ''username'', ''admin'']) pass r calls"
  shows "bootstrap_run R apispec jf admin r es"
  unfolding bootstrap_run_def Let_def using assms by blast

lemma post_bootstrap_run:
  fixes R :: "'e APIReconciler"
  shows "post (bind_io (attempt (getSecret R (jf_namespace jf) (gen_name apispec jf))) (\<lambda>gsec. case gsec of
           Inl e \<Rightarrow> mint_key R jf (gen_name apispec jf) (data_value admin ''username'') (data_value admin ''password'')
         | Inr sec \<Rightarrow>
             bind_io (key_works R (secret_value sec ''apiKey'')) (\<lambda>works.
               if works then ret (secret_value sec ''apiKey'', with_credentials (gen_name apispec jf) jf)
               else mint_key R jf (gen_name apispec jf)
                      (if data_value admin ''username'' = '''' then secret_value sec ''username'' else data_value admin ''username'')
                      (if data_value admin ''password'' = '''' then secret_value sec ''password'' else data_value admin ''password'')))) s
    (\<lambda>r es s'. bootstrap_run R apispec jf admin r es)"
proof (rule post_bindI)
  show "post (attempt (getSecret R (jf_namespace jf) (gen_name apispec jf))) s (\<lambda>r es s'. case r of Inl e \<Rightarrow> False
      | Inr x \<Rightarrow> es = [Got KSecret (jf_namespace jf) (gen_name apispec jf) (map_ok OSecret x)])"
    by (simp add: getSecret_def Get_def post_attempt post_call split: prod.split)
next
  fix x es and s1 :: 'e
  assume "case Inr x of Inl e \<Rightarrow> False | Inr x \<Rightarrow> es = [Got KSecret (jf_namespace jf) (gen_name apispec jf) (map_ok OSecret x)]"
  then have es: "es = [Got KSecret (jf_namespace jf) (gen_name apispec jf) (map_ok OSecret x)]" by simp
  show "post (case x of
           Inl e \<Rightarrow> mint_key R jf (gen_name apispec jf) (data_value admin ''username'') (data_value admin ''password'')
         | Inr sec \<Rightarrow>
             bind_io (key_works R (secret_value sec ''apiKey'')) (\<lambda>works.
               if works then ret (secret_value sec ''apiKey'', with_credentials (gen_name apispec jf) jf)
               else mint_key R jf (gen_name apispec jf)
                      (if data_value admin ''username'' = '''' then secret_value sec ''username'' else data_value admin ''username'')
                      (if data_value admin ''password'' = '''' then secret_value sec ''password'' else data_value admin ''password''))) s1
    (\<lambda>r es' s'. bootstrap_run R apispec jf admin r (es @ es'))"
  proof (cases x)
    case (Inl e)
    show ?thesis unfolding Inl sum.case
      by (rule post_mono [OF post_mint_run], rule bootstrap_runI [where probe = "[]" and old = "[]"])
        (auto simp: es Inl data_value_def, blast+)
  next
    case (Inr sec)
    have vals: "secret_value sec = data_value (sec_data sec)" by (simp add: fun_eq_iff secret_value_def data_value_def)
    show ?thesis unfolding Inr sum.case vals
    proof (rule post_bindI [OF post_key_probe])
      fix works probe and s2 :: 'e
      assume probe: "if data_value (sec_data sec) ''apiKey'' = '''' then Inr works = Inr False \<and> probe = []
        else \<exists>works'. Inr works = Inr works' \<and> probe = [Api (CallSetToken (data_value (sec_data sec) ''apiKey'')) True, Api CallListFolders works']"
      show "post (if works then ret (data_value (sec_data sec) ''apiKey'', with_credentials (gen_name apispec jf) jf)
          else mint_key R jf (gen_name apispec jf)
                 (if data_value admin ''username'' = '''' then data_value (sec_data sec) ''username'' else data_value admin ''username'')
                 (if data_value admin ''password'' = '''' then data_value (sec_data sec) ''password'' else data_value admin ''password'')) s2
        (\<lambda>r es' s'. bootstrap_run R apispec jf admin r (es @ probe @ es'))"
      proof (cases works)
        case True
        show ?thesis unfolding if_P [OF True] post_ret
          by (rule bootstrap_runI [where probe = probe and mint = "[]" and old = "sec_data sec" and x = "Inr (OSecret sec)"])
            (use probe True in \<open>auto simp: es Inr split: if_splits\<close>)
      next
        case False
        show ?thesis unfolding if_not_P [OF False]
          by (rule post_mono [OF post_mint_run],
              rule bootstrap_runI [where probe = probe and old = "sec_data sec" and x = "Inr (OSecret sec)"])
            (use probe False in \<open>auto simp: es Inr split: if_splits, blast+\<close>)
      qed
    qed (simp split: if_splits)
  qed
qed simp

lemma post_credential_run:
  fixes R :: "'e APIReconciler"
  shows "post (ensureCredentials R apispec jf) s (\<lambda>r es s'. credential_run R apispec jf r es)"
proof -
  let ?token = "\<lambda>admin. if api_mode apispec = ''provided'' then provided_run R jf admin else bootstrap_run R apispec jf admin"
  let ?rest = "\<lambda>(providedKey, user, pass).
       if api_mode apispec = ''provided'' then
         (if providedKey \<noteq> '''' then ret (providedKey, jf)
          else if user = '''' \<or> pass = '''' then
            raise (ErrText ''mode=provided requires apiKey or username+password in credentialsSecret'')
          else bind_io (api (CallAuthenticate user pass) (api_AuthenticateByName (rec_api R) user pass)) (\<lambda>t. ret (t, jf)))
       else bind_io (attempt (getSecret R (jf_namespace jf) (gen_name apispec jf))) (\<lambda>gsec. case gsec of
           Inl e \<Rightarrow> mint_key R jf (gen_name apispec jf) user pass
         | Inr sec \<Rightarrow>
             bind_io (key_works R (secret_value sec ''apiKey'')) (\<lambda>works.
               if works then ret (secret_value sec ''apiKey'', with_credentials (gen_name apispec jf) jf)
               else mint_key R jf (gen_name apispec jf) (if user = '''' then secret_value sec ''username'' else user)
                      (if pass = '''' then secret_value sec ''password'' else pass)))"
  have token: "post (?rest (data_value admin ''apiKey'', data_value admin ''username'', data_value admin ''password'')) t
      (\<lambda>r es s'. ?token admin r es)" for admin t
  proof (cases "api_mode apispec = ''provided''")
    case True
    then show ?thesis by (auto simp: provided_run_def Let_def post_simps api_def split: prod.split sum.split intro!: exI [of _ t])
  next
    case False
    with post_bootstrap_run [of R jf apispec admin t] show ?thesis by simp
  qed
  have ensure: "ensureCredentials R apispec jf = bind_io (read_credentials R apispec jf) ?rest"
    unfolding ensureCredentials_def with_credentials_def Let_def by (rule refl)
  have vals: "secret_value sec = data_value (sec_data sec)" for sec by (simp add: fun_eq_iff secret_value_def data_value_def)
  show ?thesis
  proof (cases "admin_secret apispec")
    case None
    then have "read_credentials R apispec jf = ret (data_value [] ''apiKey'', data_value [] ''username'', data_value [] ''password'')"
      by (auto simp: read_credentials_def admin_secret_def data_value_def split: option.splits if_splits)
    then have "post (read_credentials R apispec jf) s (\<lambda>r es s'.
        r = Inr (data_value [] ''apiKey'', data_value [] ''username'', data_value [] ''password'') \<and> es = [])" by (simp add: post_ret)
    then show ?thesis unfolding ensure
    proof (rule post_bindI)
      fix c and es :: "event list" and t :: 'e
      assume "Inr c = Inr (data_value [] ''apiKey'', data_value [] ''username'', data_value [] ''password'') \<and> es = []"
      then have c: "c = (data_value [] ''apiKey'', data_value [] ''username'', data_value [] ''password'')" and es: "es = []" by simp_all
      show "post (?rest c) t (\<lambda>r es' s'. credential_run R apispec jf r (es @ es'))"
        unfolding c by (rule post_mono [OF token [of "[]"]]) (auto simp: credential_run_def es None Let_def split: if_splits)
    qed simp
  next
    case (Some n)
    then have read: "read_credentials R apispec jf = bind_io (wrapping (Wrap ''read credentialsSecret'') (getSecret R (jf_namespace jf) n)) (\<lambda>sec.
            ret (secret_value sec ''apiKey'', secret_value sec ''username'', secret_value sec ''password''))"
      by (auto simp: read_credentials_def admin_secret_def split: option.splits if_splits)
    have "post (read_credentials R apispec jf) s (\<lambda>r es s'. case r of
          Inl e \<Rightarrow> \<exists>e'. e = Wrap ''read credentialsSecret'' e' \<and> es = [Got KSecret (jf_namespace jf) n (Inl e')]
        | Inr c \<Rightarrow> \<exists>sec. es = [Got KSecret (jf_namespace jf) n (Inr (OSecret sec))]
            \<and> c = (data_value (sec_data sec) ''apiKey'', data_value (sec_data sec) ''username'', data_value (sec_data sec) ''password''))"
      by (cases "raw_get (k_secrets (rec_cluster R)) (jf_namespace jf) n s", cases "fst (raw_get (k_secrets (rec_cluster R)) (jf_namespace jf) n s)")
        (simp_all add: read getSecret_def Get_def post_simps vals)
    then show ?thesis unfolding ensure
    proof (rule post_bindI)
      fix e es and t :: 'e
      assume "case Inl e of
          Inl e \<Rightarrow> \<exists>e'. e = Wrap ''read credentialsSecret'' e' \<and> es = [Got KSecret (jf_namespace jf) n (Inl e')]
        | Inr c \<Rightarrow> \<exists>sec. es = [Got KSecret (jf_namespace jf) n (Inr (OSecret sec))]
            \<and> c = (data_value (sec_data sec) ''apiKey'', data_value (sec_data sec) ''username'', data_value (sec_data sec) ''password'')"
      then show "credential_run R apispec jf (Inl e) es" by (auto simp: credential_run_def Some)
    next
      fix c es and t :: 'e
      assume "case Inr c of
          Inl e \<Rightarrow> \<exists>e'. e = Wrap ''read credentialsSecret'' e' \<and> es = [Got KSecret (jf_namespace jf) n (Inl e')]
        | Inr c \<Rightarrow> \<exists>sec. es = [Got KSecret (jf_namespace jf) n (Inr (OSecret sec))]
            \<and> c = (data_value (sec_data sec) ''apiKey'', data_value (sec_data sec) ''username'', data_value (sec_data sec) ''password'')"
      then obtain sec where es: "es = [Got KSecret (jf_namespace jf) n (Inr (OSecret sec))]"
        and c: "c = (data_value (sec_data sec) ''apiKey'', data_value (sec_data sec) ''username'', data_value (sec_data sec) ''password'')"
        by auto
      show "post (?rest c) t (\<lambda>r es' s'. credential_run R apispec jf r (es @ es'))"
        unfolding c by (rule post_mono [OF token [of "sec_data sec"]]) (auto simp: credential_run_def es Some Let_def split: if_splits)
    qed
  qed
qed

text \<open>
  C16. Obtaining a token. Whatever Kubernetes and Jellyfin answer, a run goes as follows.
  With provided credentials it reads the user's secret and returns the key found there or the token of a login with the user found there, and
  does nothing else. Otherwise it reads the generated secret; a key found there is tried on the server, and if it works it is returned and the
  wizard is not run. If there is none or it does not work, the wizard is run, once, with the first user name and password
  that the admin secret, the generated secret or the defaults give; the key it returns is stored in the generated secret together with that
  user and password, and is returned only after it has been stored. No object but the generated secret is written, and the status
  changes at most in the name of that secret, so no token goes into the status.
\<close>

theorem ensureCredentials_rules:
  "post (ensureCredentials R apispec jf) s (\<lambda>r es s'. credential_rules apispec jf r es \<and> credential_run R apispec jf r es)"
  by (rule post_conj [OF post_ensureCredentials post_credential_run])

section \<open>Configuration stores\<close>

text \<open>
  The server's side of a store: reading yields what it holds, and a successful write replaces it.
\<close>

definition store_server :: "('e, raw) op \<Rightarrow> (raw \<Rightarrow> ('e, unit) op) \<Rightarrow> ('e \<Rightarrow> raw) \<Rightarrow> bool" where
  "store_server read write held \<longleftrightarrow>
     (\<forall>s cur s'. read s = (Inr cur, s') \<longrightarrow> cur = held s \<and> held s' = held s)
     \<and> (\<forall>r s s'. write r s = (Inr (), s') \<longrightarrow> held s' = r)"

fun is_write :: "event \<Rightarrow> bool" where
  "is_write (Api (CallUpdateEncoding r) good) = True"
| "is_write (Api (CallUpdateServer r) good) = True"
| "is_write (Api (CallUpdateBranding r) good) = True"
| "is_write e = False"

text \<open>
  A reconcile of a store that returns has left every unmanaged key as it was and has the managed ones
  at their values, with at most one write, and the next one writes nothing.
\<close>

definition kept_and_set :: "num_codec \<Rightarrow> (string, json) go_map \<Rightarrow> raw \<Rightarrow> raw \<Rightarrow> bool" where
  "kept_and_set fnum kvs before after \<longleftrightarrow>
     before = after \<and> kvs = [] \<or>
     (\<exists>opts opts'. current_options before = Inr opts \<and> current_options after = Inr opts'
        \<and> (\<forall>k. case map_of kvs k of None \<Rightarrow> map_of opts' k = map_of opts k
                | Some v \<Rightarrow> \<exists>c. map_of opts' k = Some c \<and> jsonEqual fnum c v))"

definition settles :: "('e, unit) act \<Rightarrow> num_codec \<Rightarrow> (string, json) go_map \<Rightarrow> ('e \<Rightarrow> raw) \<Rightarrow> bool" where
  "settles m fnum kvs held \<longleftrightarrow> (\<forall>s. post m s (\<lambda>r es s'. length (filter is_write es) \<le> 1
     \<and> (case r of Inl e \<Rightarrow> True | Inr u \<Rightarrow>
          kept_and_set fnum kvs (held s) (held s') \<and> post m s' (\<lambda>r' es' s''. filter is_write es' = []))))"

lemma contract_ok:
  assumes "contract enforce fnum kvs cur" and "enforce cur = Inr (out, ch)"
  shows "kept_and_set fnum kvs cur out" and "enforce out = Inr (out, False)" and "\<not> ch \<Longrightarrow> out = cur"
  using assms by (auto simp: contract_def kept_and_set_def split: sum.splits)

text \<open>One reconcile of a declared store: at most one write, of what \<open>enforce\<close> makes of the stored value.\<close>

lemma reconcile_store_run:
  fixes read :: "('e, raw) op"
  assumes server: "store_server read write held" and contract: "\<And>cur. contract enforce fnum kvs cur"
    and declared: "\<not> nothing" and quiet: "\<And>r good. \<not> is_write (Api (getter) good)"
  shows "post (reconcile_store nothing (api getter read) enforce (\<lambda>r. api (setter r) (write r))) s
    (\<lambda>r es s'. length (filter is_write es) \<le> 1 \<and>
      (case r of Inl e \<Rightarrow> True | Inr u \<Rightarrow> \<exists>ch. enforce (held s) = Inr (held s', ch))
      \<and> (case enforce (held s) of Inr (out, False) \<Rightarrow> filter is_write es = [] | _ \<Rightarrow> True))"
  unfolding reconcile_store_def if_not_P [OF declared]
proof (rule post_bindI)
  show "post (api getter read) s (\<lambda>r es s'. filter is_write es = []
      \<and> (case r of Inl e \<Rightarrow> True | Inr cur \<Rightarrow> cur = held s \<and> held s' = held s))"
    using quiet server by (auto simp: api_def post_call store_server_def split: prod.split sum.split)
next
  fix cur es and s1 :: 'e
  assume *: "filter is_write es = [] \<and> (case Inr cur of Inl e \<Rightarrow> True | Inr cur \<Rightarrow> cur = held s \<and> held s1 = held s)"
  show "post (bind_io (lift (map_err JsonErr (enforce cur))) (\<lambda>(updated, changed).
           if \<not> changed then ret () else api (setter updated) (write updated))) s1
    (\<lambda>r es' s'. length (filter is_write (es @ es')) \<le> 1 \<and>
    (case r of Inl e \<Rightarrow> True | Inr u \<Rightarrow> \<exists>ch. enforce (held s) = Inr (held s', ch))
    \<and> (case enforce (held s) of Inr (out, False) \<Rightarrow> filter is_write (es @ es') = [] | _ \<Rightarrow> True))"
  proof (cases "enforce (held s)")
    case (Inl e)
    with * show ?thesis by (simp add: post_bind post_lift)
  next
    case (Inr oc)
    then obtain out ch where e: "enforce (held s) = Inr (out, ch)" by (cases oc) simp
    show ?thesis
    proof (cases ch)
      case True
      with * e server show ?thesis
        by (auto simp: post_bind post_lift api_def post_call store_server_def split: prod.split sum.split)
    next
      case False
      with * e contract_ok(3) [OF contract e] show ?thesis by (auto simp: post_bind post_lift post_ret)
    qed
  qed
qed (simp split: sum.splits prod.splits bool.splits)

lemma reconcile_store_settles:
  fixes read :: "('e, raw) op"
  assumes server: "store_server read write held" and contract: "\<And>cur. contract enforce fnum kvs cur"
    and "nothing \<Longrightarrow> kvs = []" and "\<And>r good. \<not> is_write (Api (getter) good)"
  shows "settles (reconcile_store nothing (api getter read) enforce (\<lambda>r. api (setter r) (write r))) fnum kvs held"
    (is "settles ?m _ _ _")
proof (cases nothing)
  case True
  then show ?thesis using assms(3) by (simp add: settles_def reconcile_store_def post_ret kept_and_set_def)
next
  case False
  note run = reconcile_store_run [OF server contract False assms(4)]
  show ?thesis unfolding settles_def
  proof
    fix s
    show "post ?m s (\<lambda>r es s'. length (filter is_write es) \<le> 1
     \<and> (case r of Inl e \<Rightarrow> True | Inr u \<Rightarrow>
          kept_and_set fnum kvs (held s) (held s') \<and> post ?m s' (\<lambda>r' es' s''. filter is_write es' = [])))"
    proof (rule post_mono [OF run], intro conjI)
      fix r es and s' :: 'e
      assume *: "length (filter is_write es) \<le> 1 \<and>
      (case r of Inl e \<Rightarrow> True | Inr u \<Rightarrow> \<exists>ch. enforce (held s) = Inr (held s', ch))
      \<and> (case enforce (held s) of Inr (out, False) \<Rightarrow> filter is_write es = [] | _ \<Rightarrow> True)"
      then show "length (filter is_write es) \<le> 1" by simp
      show "case r of Inl e \<Rightarrow> True | Inr u \<Rightarrow>
          kept_and_set fnum kvs (held s) (held s') \<and> post ?m s' (\<lambda>r' es' s''. filter is_write es' = [])"
      proof (cases r)
        case (Inr u)
        with * obtain ch where e: "enforce (held s) = Inr (held s', ch)" by auto
        have "post ?m s' (\<lambda>r' es' s''. filter is_write es' = [])"
          by (rule post_mono [OF run]) (simp add: contract_ok(2) [OF contract e])
        with Inr contract_ok(1) [OF contract e] show ?thesis by simp
      qed simp
    qed
  qed
qed

text \<open>
  C26. The three stores converge. On a server whose stores hold what was last written, a reconcile of
  transcoding, server configuration or branding that returns has left every field that the spec does not
  declare at its value and has each declared field at the declared value; it has written at
  most once; and the reconcile after it writes nothing.
\<close>

theorem stores_settle:
  fixes R :: "'e APIReconciler"
  assumes codec: "number_codec (rec_codec R)"
    and enc: "store_server (api_GetEncodingConfig (rec_api R)) (api_UpdateEncodingConfig (rec_api R)) encoding"
    and srv: "store_server (api_GetServerConfig (rec_api R)) (api_UpdateServerConfig (rec_api R)) server"
    and brd: "store_server (api_GetBrandingConfig (rec_api R)) (api_UpdateBrandingConfig (rec_api R)) branding"
  shows "settles (reconcileEncoding R jf) (rec_codec R)
        (encoding_settings (desiredEncoding (js_transcoding (jf_spec jf)))) encoding
    \<and> settles (reconcileServerConfig R jf) (rec_codec R)
        (server_managed (desiredServerConfig (js_general (jf_spec jf)) (js_playback (jf_spec jf)))) server
    \<and> settles (reconcileBranding R jf) (rec_codec R)
        (branding_managed (desiredBranding (js_branding (jf_spec jf)))) branding"
proof (intro conjI)
  note c = number_codec.contracts [OF codec]
  show "settles (reconcileEncoding R jf) (rec_codec R)
        (encoding_settings (desiredEncoding (js_transcoding (jf_spec jf)))) encoding"
    unfolding reconcileEncoding_def Let_def
    by (rule reconcile_store_settles [OF enc c(2)]) (simp_all add: encoding_Empty_def encoding_settings_def)
  show "settles (reconcileServerConfig R jf) (rec_codec R)
        (server_managed (desiredServerConfig (js_general (jf_spec jf)) (js_playback (jf_spec jf)))) server"
    unfolding reconcileServerConfig_def Let_def
    by (rule reconcile_store_settles [OF srv c(3)]) (simp_all add: server_Empty_def)
  show "settles (reconcileBranding R jf) (rec_codec R)
        (branding_managed (desiredBranding (js_branding (jf_spec jf)))) branding"
    unfolding reconcileBranding_def Let_def
    by (rule reconcile_store_settles [OF brd c(4)]) (simp_all add: branding_Empty_def)
qed

theorem stores_settle_witness:
  "settles (reconcileServerConfig sample_reconciler sample_jf) integer_codec [] snd"
proof -
  have "store_server (api_GetEncodingConfig memory_api) (api_UpdateEncodingConfig memory_api) snd"
    "store_server (api_GetServerConfig memory_api) (api_UpdateServerConfig memory_api) snd"
    "store_server (api_GetBrandingConfig memory_api) (api_UpdateBrandingConfig memory_api) snd"
    by (auto simp: store_server_def memory_api_def pure_op_def)
  moreover have "server_managed (desiredServerConfig (js_general (jf_spec sample_jf)) (js_playback (jf_spec sample_jf))) = []"
    by code_simp
  ultimately show ?thesis
    using stores_settle [of sample_reconciler snd snd snd sample_jf] int_codec.number_codec_axioms
    by (simp add: sample_reconciler_def)
qed

section \<open>Failures\<close>

fun is_api :: "event \<Rightarrow> bool" where
  "is_api (Api c good) = True"
| "is_api e = False"

fun succeeded :: "event \<Rightarrow> bool" where
  "succeeded (Api c good) = good"
| "succeeded e = True"

text \<open>A computation that makes API calls only, and stops at the first one that fails.\<close>

definition strict_run :: "go_error + 'a \<Rightarrow> event list \<Rightarrow> bool" where
  "strict_run r es \<longleftrightarrow> list_all is_api es
     \<and> (case r of Inl e \<Rightarrow> list_all succeeded (butlast es) | Inr a \<Rightarrow> list_all succeeded es)"

definition strict :: "('e, 'a) act \<Rightarrow> bool" where
  "strict m \<longleftrightarrow> (\<forall>s. post m s (\<lambda>r es s'. strict_run r es))"

named_theorems strict_intros \<open>computations that stop at the first failing call\<close>

lemma strict_ret [strict_intros]: "strict (ret a)"
  by (simp add: strict_def strict_run_def post_ret)

lemma strict_lift [strict_intros]: "strict (lift r)"
  by (auto simp: strict_def strict_run_def post_lift split: sum.split)

lemma strict_api [strict_intros]: "strict (api c f)"
  by (auto simp: strict_def strict_run_def api_def post_call split: prod.split sum.split)

lemma strict_bind [strict_intros]:
  fixes m :: "('e, 'a) act"
  assumes "strict m" and "\<And>a. strict (f a)"
  shows "strict (bind_io m f)"
  unfolding strict_def
proof
  fix s
  have "post m s (\<lambda>r es s'. strict_run r es)" using assms(1) by (simp add: strict_def)
  then show "post (bind_io m f) s (\<lambda>r es s'. strict_run r es)"
  proof (rule post_bindI)
    fix a :: 'a and es and s' :: 'e
    assume *: "strict_run (Inr a) es"
    have "post (f a) s' (\<lambda>r es s'. strict_run r es)" using assms(2) by (simp add: strict_def)
    then show "post (f a) s' (\<lambda>r es' s''. strict_run r (es @ es'))"
      by (rule post_mono) (use * in \<open>auto simp: strict_run_def butlast_append list_all_iff split: sum.splits dest: in_set_butlastD\<close>)
  qed (simp add: strict_run_def)
qed

lemma strict_each [strict_intros]: "(\<And>x. x \<in> set xs \<Longrightarrow> strict (f x)) \<Longrightarrow> strict (each f xs)"
  by (induction xs) (auto intro: strict_intros)

lemma strict_fold [strict_intros]: "(\<And>x a. x \<in> set xs \<Longrightarrow> strict (f x a)) \<Longrightarrow> strict (fold_io f xs a)"
  by (induction xs arbitrary: a) (auto intro: strict_intros)

lemma strict_if [strict_intros]: "(b \<Longrightarrow> strict m) \<Longrightarrow> (\<not> b \<Longrightarrow> strict n) \<Longrightarrow> strict (if b then m else n)"
  by simp

lemma strict_option [strict_intros]:
  "(x = None \<Longrightarrow> strict m) \<Longrightarrow> (\<And>y. x = Some y \<Longrightarrow> strict (f y)) \<Longrightarrow> strict (case x of None \<Rightarrow> m | Some y \<Rightarrow> f y)"
  by (simp split: option.split)

lemma strict_prod [strict_intros]: "(\<And>a b. strict (f a b)) \<Longrightarrow> strict (case x of (a, b) \<Rightarrow> f a b)"
  by (simp split: prod.split)

lemma strict_stages:
  "strict (reconcileLibraries R apispec jf)" "strict (reconcileEncoding R jf)"
  "strict (reconcileServerConfig R jf)" "strict (reconcileBranding R jf)"
  unfolding reconcileLibraries_def list_folders_def apply_diff_def enforceLibraryOptions_def enforce_library_def
    reconcileEncoding_def reconcileServerConfig_def reconcileBranding_def reconcile_store_def Let_def
  by (intro strict_intros)+

end
