(* ===== verification/Api_Report.thy ===== *)
theory Api_Report
  imports Api_Correct
begin

text \<open>
  How the day-2 loop reports: which conditions it writes into the status of the instance in which
  outcome, and that nothing is called on an instance that is not ready.
\<close>

section \<open>Conditions of a written status\<close>

definition condition_of :: "'e cluster \<Rightarrow> Jellyfin \<Rightarrow> string \<Rightarrow> string option" where
  "condition_of k jf t = map_option cond_status (FindStatusCondition k (jst_conditions (jf_status jf)) t)"

lemma condition_of_set:
  assumes "conditions_work k"
  shows "condition_of k (set_jf_condition k t st rs ms jf) = (condition_of k jf)(t := Some st)"
  using assms by (auto simp: condition_of_def set_jf_condition_def find_setCondition)

text \<open>Every status that the calls write satisfies a predicate.\<close>

definition all_written :: "(Jellyfin \<Rightarrow> bool) \<Rightarrow> event list \<Rightarrow> bool" where
  "all_written P es \<longleftrightarrow> (\<forall>j good. StatusUpdated (OJellyfin j) good \<in> set es \<longrightarrow> P j)"

lemma all_written_append [simp]: "all_written P (es @ es') \<longleftrightarrow> all_written P es \<and> all_written P es'"
  by (auto simp: all_written_def)

lemma all_written_Cons: "all_written P (e # es) \<longleftrightarrow> (\<forall>j good. e = StatusUpdated (OJellyfin j) good \<longrightarrow> P j) \<and> all_written P es"
  by (auto simp: all_written_def)

lemma all_written_Nil [simp]: "all_written P []"
  by (simp add: all_written_def)

lemma all_written_mono: "all_written P es \<Longrightarrow> (\<And>j. P j \<Longrightarrow> Q j) \<Longrightarrow> all_written Q es"
  by (auto simp: all_written_def)

lemma all_written_api: "list_all is_api es \<Longrightarrow> all_written P es"
  by (auto simp: all_written_def list_all_iff)

lemma filter_api: "list_all is_api es \<Longrightarrow> filter is_api es = es"
  by (simp add: list_all_iff)

text \<open>
  A status is written: a run that returns without an error has ended with an accepted write and asks for the next run after the requeue interval;
  one that returns an error has ended with a read or a write of the instance that the API server refused.
\<close>

definition reported_back :: "'e APIReconciler \<Rightarrow> go_error + int \<Rightarrow> event list \<Rightarrow> bool" where
  "reported_back R r es \<longleftrightarrow> es \<noteq> [] \<and> (case r of
       Inl e \<Rightarrow> (\<exists>ns n. last es = Got KJellyfin ns n (Inl e)) \<or> (\<exists>j. last es = StatusUpdated (OJellyfin j) False)
     | Inr t \<Rightarrow> t = (if rec_requeue R = 0 then defaultAPIRequeue else rec_requeue R) \<and> (\<exists>j. last es = StatusUpdated (OJellyfin j) True))"

lemma reported_back_append: "reported_back R r es \<Longrightarrow> reported_back R r (es' @ es)"
  by (cases r) (auto simp: reported_back_def)

lemma post_attempts:
  assumes "\<And>s. post m s (\<lambda>r es s'. Q r es)" and "\<And>r es es'. Q r es \<Longrightarrow> Q r (es' @ es)"
  shows "post (attempts n m) s (\<lambda>r es s'. Q r es)"
proof (induction n arbitrary: s)
  case (Suc n)
  have "post (attempt m) s (\<lambda>r es s'. case r of Inl e \<Rightarrow> False | Inr r' \<Rightarrow> Q r' es)" using assms(1) by (simp add: post_attempt)
  then show ?case unfolding attempts.simps
    by (rule post_bindI) (auto simp: post_lift intro: post_mono [OF Suc.IH] assms(2))
qed (simp add: assms(1))

lemma post_report:
  assumes "retry_works (rec_cluster R)"
  shows "post (report R jf) s (\<lambda>r es s'. filter is_api es = [] \<and> all_written (\<lambda>j. jf_status j = jf_status jf) es \<and> reported_back R r es)"
proof -
  let ?k = "rec_cluster R"
  let ?next = "map_ok (\<lambda>_ :: unit. if rec_requeue R = 0 then defaultAPIRequeue else rec_requeue R)"
  let ?once = "bind_io (get_jellyfin ?k (jf_namespace jf) (jf_name jf)) (\<lambda>cur.
      StatusUpdate OJellyfin (k_jellyfins ?k) (cur\<lparr>jf_status := jf_status jf\<rparr>))"
  have "emits (\<lambda>e. \<not> is_api e \<and> (\<forall>j good. e = StatusUpdated (OJellyfin j) good \<longrightarrow> jf_status j = jf_status jf)) (report R jf)"
    unfolding report_def writeJellyfinStatus_def get_jellyfin_def Get_def StatusUpdate_def
    by (intro emits_bind emits_ret emits_retry [OF assms] emits_call) auto
  from emits_post [OF this] have "post (report R jf) s (\<lambda>r es s'. filter is_api es = [] \<and> all_written (\<lambda>j. jf_status j = jf_status jf) es)"
    by (rule post_mono) (auto simp: all_written_def list_all_iff filter_empty_conv)
  moreover obtain n where "RetryOnConflict ?k = attempts n" using assms by (auto simp: retry_works_def)
  moreover have "post ?once t (\<lambda>r es s'. reported_back R (?next r) es)" for t
    by (auto simp: get_jellyfin_def Get_def StatusUpdate_def post_simps reported_back_def split: prod.split sum.split)
  note post_attempts [OF this reported_back_append]
  ultimately have "post (writeJellyfinStatus ?k jf) s (\<lambda>r es s'. reported_back R (?next r) es)"
    by (simp add: writeJellyfinStatus_def)
  then have "post (report R jf) s (\<lambda>r es s'. reported_back R r es)"
    unfolding report_def by (rule post_bindI) (simp_all add: post_ret)
  with \<open>post (report R jf) s (\<lambda>r es s'. filter is_api es = [] \<and> all_written (\<lambda>j. jf_status j = jf_status jf) es)\<close>
  show ?thesis by (simp add: post_iff)
qed

section \<open>One block after another\<close>

text \<open>
  What a status tells of a sequence of blocks, each given by whether it is declared and by its condition type:
  conditions of skipped blocks are as before; declared blocks are true up to the first that is false, after
  which everything is as before.
\<close>

fun reported :: "(bool \<times> string) list \<Rightarrow> (string \<Rightarrow> string option) \<Rightarrow> (string \<Rightarrow> string option) \<Rightarrow> bool" where
  "reported [] before after = True"
| "reported ((declared, t) # ts) before after =
     (if \<not> declared then after t = before t \<and> reported ts before after
      else after t = Some ConditionTrue \<and> reported ts before after
        \<or> after t = Some ConditionFalse \<and> list_all (\<lambda>(d, u). after u = before u) ts)"

definition told :: "'e cluster \<Rightarrow> (bool \<times> string) list \<Rightarrow> (string \<Rightarrow> string option) \<Rightarrow> Jellyfin \<Rightarrow> bool" where
  "told k ts before j \<longleftrightarrow> condition_of k j conditionAPIReady = Some ConditionTrue
     \<and> reported ts before (condition_of k j)
     \<and> (\<forall>u. u \<noteq> conditionAPIReady \<and> u \<notin> snd ` set ts \<longrightarrow> condition_of k j u = before u)"

text \<open>
  Besides, the calls stop at the first that fails, then some declared block is reported as false, and in any case a status is written.
\<close>

definition tells ::
  "'e APIReconciler \<Rightarrow> (bool \<times> string) list \<Rightarrow> (string \<Rightarrow> string option) \<Rightarrow> go_error + int \<Rightarrow> event list \<Rightarrow> bool" where
  "tells R ts before r es \<longleftrightarrow> list_all succeeded (butlast (filter is_api es))
     \<and> all_written (told (rec_cluster R) ts before) es
     \<and> (list_all succeeded (filter is_api es) \<or>
        all_written (\<lambda>j. list_ex (\<lambda>(d, t). d \<and> condition_of (rec_cluster R) j t = Some ConditionFalse) ts) es)
     \<and> reported_back R r es"

lemma reported_cong:
  "(\<And>u. u \<in> snd ` set ts \<Longrightarrow> b u = b' u) \<Longrightarrow> reported ts b a = reported ts b' a"
proof (induction ts)
  case (Cons x ts)
  obtain d t where x: "x = (d, t)" by (cases x)
  have "reported ts b a = reported ts b' a" using Cons by simp
  moreover have "list_all (\<lambda>(d, u). a u = b u) ts = list_all (\<lambda>(d, u). a u = b' u) ts"
  proof (rule list_all_cong [OF refl])
    fix y assume "y \<in> set ts"
    then have "b (snd y) = b' (snd y)" using Cons.prems by simp
    then show "(case y of (d, u) \<Rightarrow> a u = b u) = (case y of (d, u) \<Rightarrow> a u = b' u)" by (cases y) simp
  qed
  ultimately show ?case using Cons.prems [of t] x by simp
qed simp

lemma strict_post: "strict m \<Longrightarrow> post m s (\<lambda>r es s'. strict_run r es)"
  by (simp add: strict_def)

definition same_conditions :: "Jellyfin \<Rightarrow> Jellyfin \<Rightarrow> bool" where
  "same_conditions jf jf' \<longleftrightarrow> jst_conditions (jf_status jf') = jst_conditions (jf_status jf) \<and> jf_spec jf' = jf_spec jf"

lemma condition_of_same: "same_conditions jf jf' \<Longrightarrow> condition_of k jf' = condition_of k jf"
  by (simp add: same_conditions_def condition_of_def fun_eq_iff)

lemma tells_step:
  fixes R :: "'e APIReconciler"
  assumes "tells R ts b' r es" and "list_all is_api es1" and "list_all succeeded es1"
    and "\<And>j. told (rec_cluster R) ts b' j \<Longrightarrow> told (rec_cluster R) (x # ts) b j"
  shows "tells R (x # ts) b r (es1 @ es)"
proof -
  let ?k = "rec_cluster R"
  have "all_written (told ?k (x # ts) b) es"
    using assms(1,4) by (auto simp: tells_def elim: all_written_mono)
  moreover have "all_written (\<lambda>j. list_ex (\<lambda>(d, t). d \<and> condition_of ?k j t = Some ConditionFalse) (x # ts)) es"
    if "all_written (\<lambda>j. list_ex (\<lambda>(d, t). d \<and> condition_of ?k j t = Some ConditionFalse) ts) es"
    using that by (rule all_written_mono) simp
  moreover have "list_all succeeded (butlast (es1 @ filter is_api es))"
    using assms(1,3) by (auto simp: tells_def butlast_append list_all_iff dest: in_set_butlastD)
  moreover have "reported_back R r (es1 @ es)" using assms(1) by (simp add: tells_def reported_back_append)
  ultimately show ?thesis
    using assms(1,3) unfolding tells_def by (auto simp: filter_api [OF assms(2)] all_written_api [OF assms(2)])
qed

lemma told_later:
  assumes "conditions_work k" and "same_conditions jf jf'" and "t \<notin> snd ` set ts" and "t \<noteq> conditionAPIReady"
    and "told k ts (condition_of k (set_jf_condition k t ConditionTrue m g jf')) j"
  shows "told k ((True, t) # ts) (condition_of k jf) j"
proof -
  have b: "condition_of k (set_jf_condition k t ConditionTrue m g jf') = (condition_of k jf)(t := Some ConditionTrue)"
    by (simp add: condition_of_set [OF assms(1)] condition_of_same [OF assms(2)])
  have "reported ts ((condition_of k jf)(t := Some ConditionTrue)) a = reported ts (condition_of k jf) a" for a
    using assms(3) by (intro reported_cong) auto
  then show ?thesis using assms(3-5) unfolding told_def by (auto simp: b)
qed

text \<open>The report of a block that has failed.\<close>

lemma post_stage_failed:
  fixes R :: "'e APIReconciler"
  assumes works: "conditions_work (rec_cluster R)" "retry_works (rec_cluster R)"
    and fresh: "t \<notin> snd ` set ts" "t \<noteq> conditionAPIReady" "conditionAPIReady \<notin> snd ` set ts"
    and before: "strict_run (Inl e :: go_error + Jellyfin) es1"
  shows "post (report R (authenticated R pending (set_jf_condition (rec_cluster R) t ConditionFalse m g jf))) s
    (\<lambda>r es s'. tells R ((True, t) # ts) (condition_of (rec_cluster R) jf) r (es1 @ es))"
proof (rule post_mono [OF post_report [OF works(2)]])
  let ?jf = "authenticated R pending (set_jf_condition (rec_cluster R) t ConditionFalse m g jf)"
  have c: "condition_of (rec_cluster R) j = (condition_of (rec_cluster R) jf)(t := Some ConditionFalse, conditionAPIReady := Some ConditionTrue)"
    if "jf_status j = jf_status ?jf" for j
    using that condition_of_set [OF works(1)] by (simp add: condition_of_def [of _ j] authenticated_def)
      (simp add: condition_of_def fun_eq_iff)
  have t: "told (rec_cluster R) ((True, t) # ts) (condition_of (rec_cluster R) jf) j
      \<and> list_ex (\<lambda>(d, t). d \<and> condition_of (rec_cluster R) j t = Some ConditionFalse) ((True, t) # ts)"
    if "jf_status j = jf_status ?jf" for j
    using fresh unfolding told_def c [OF that] by (auto simp: list_all_iff image_iff)
  have api: "list_all is_api es1" using before by (simp add: strict_run_def)
  fix r es and s' :: 'e
  assume es: "filter is_api es = [] \<and> all_written (\<lambda>j. jf_status j = jf_status ?jf) es \<and> reported_back R r es"
  then have written: "all_written (\<lambda>j. jf_status j = jf_status ?jf) es" by blast
  have "all_written (told (rec_cluster R) ((True, t) # ts) (condition_of (rec_cluster R) jf)) es"
    by (rule all_written_mono [OF written]) (use t in blast)
  moreover have "all_written (\<lambda>j. list_ex (\<lambda>(d, t). d \<and> condition_of (rec_cluster R) j t = Some ConditionFalse)
      ((True, t) # ts)) es"
    by (rule all_written_mono [OF written]) (use t in blast)
  ultimately show "tells R ((True, t) # ts) (condition_of (rec_cluster R) jf) r (es1 @ es)"
    using before es by (simp add: tells_def strict_run_def filter_api [OF api] all_written_api [OF api] reported_back_append)
qed

lemma post_stage:
  fixes R :: "'e APIReconciler"
  assumes works: "conditions_work (rec_cluster R)" "retry_works (rec_cluster R)"
    and run: "strict (run jf)" "\<And>s. post (run jf) s (\<lambda>r es s'. case r of Inl e \<Rightarrow> True | Inr jf' \<Rightarrow> same_conditions jf jf')"
    and fresh: "t \<notin> snd ` set ts" "t \<noteq> conditionAPIReady" "conditionAPIReady \<notin> snd ` set ts"
    and later: "\<And>jf' s. jf_spec jf' = jf_spec jf \<Longrightarrow>
        post (next_stage jf') s (\<lambda>r es s'. tells R ts (condition_of (rec_cluster R) jf') r es)"
  shows "post (stage R declared run t failReason pending done_msg next_stage jf) s
    (\<lambda>r es s'. tells R ((declared, t) # ts) (condition_of (rec_cluster R) jf) r es)"
proof (cases declared)
  case False
  then show ?thesis unfolding stage_def
    by (auto intro!: post_mono [OF later] simp: tells_def told_def fresh elim!: all_written_mono)
next
  case True
  have both: "post (attempt (run jf)) s (\<lambda>r es s'. case r of Inl e \<Rightarrow> False
      | Inr r' \<Rightarrow> strict_run r' es \<and> (case r' of Inl e \<Rightarrow> True | Inr jf' \<Rightarrow> same_conditions jf jf'))"
    unfolding post_attempt by (rule post_mono [OF post_conj [OF strict_post [OF run(1)] run(2)]]) simp
  let ?rest = "\<lambda>r. case r of
      Inl e \<Rightarrow> report R (authenticated R pending (set_jf_condition (rec_cluster R) t ConditionFalse failReason (rec_errText R e) jf))
    | Inr jf' \<Rightarrow> next_stage (set_jf_condition (rec_cluster R) t ConditionTrue ''Reconciled'' done_msg jf')"
  have "post (bind_io (attempt (run jf)) ?rest) s
    (\<lambda>r es s'. tells R ((True, t) # ts) (condition_of (rec_cluster R) jf) r es)"
  proof (rule post_bindI [OF both])
    fix r' es1 and s1 :: 'e
    assume "case Inr r' of Inl e \<Rightarrow> False
      | Inr r' \<Rightarrow> strict_run r' es1 \<and> (case r' of Inl e \<Rightarrow> True | Inr jf' \<Rightarrow> same_conditions jf jf')"
    then have r': "strict_run r' es1" "case r' of Inl e \<Rightarrow> True | Inr jf' \<Rightarrow> same_conditions jf jf'" by simp_all
    show "post (?rest r') s1 (\<lambda>r es s'. tells R ((True, t) # ts) (condition_of (rec_cluster R) jf) r (es1 @ es))"
    proof (cases r')
      case (Inl e)
      then show ?thesis using post_stage_failed [OF works fresh] r'(1) by simp
    next
      case (Inr jf')
      have same: "same_conditions jf jf'" and api: "list_all is_api es1" and ok: "list_all succeeded es1"
        using r' Inr by (simp_all add: strict_run_def)
      have spec: "jf_spec (set_jf_condition (rec_cluster R) t ConditionTrue ''Reconciled'' done_msg jf') = jf_spec jf"
        using same by (simp add: same_conditions_def set_jf_condition_def)
      show ?thesis unfolding Inr sum.case
        by (rule post_mono [OF later [OF spec]]) (rule tells_step [OF _ api ok told_later [OF works(1) same fresh(1,2)]])
    qed
  qed simp
  then show ?thesis using True by (simp add: stage_def)
qed

section \<open>The whole loop\<close>

definition stage_plan :: "JellyfinAPISpec \<Rightarrow> Jellyfin \<Rightarrow> (bool \<times> string) list" where
  "stage_plan apispec jf =
     [(api_manageLibraries apispec, conditionLibrariesReady),
      (js_transcoding (jf_spec jf) \<noteq> None, conditionTranscodingReady),
      (js_general (jf_spec jf) \<noteq> None \<or> js_playback (jf_spec jf) \<noteq> None, conditionServerConfigReady),
      (js_branding (jf_spec jf) \<noteq> None, conditionBrandingReady)]"

lemma post_keeping:
  assumes "strict (m jf)"
  shows "strict (keeping m jf)" and "post (keeping m jf) s (\<lambda>r es s'. case r of Inl e \<Rightarrow> True | Inr jf' \<Rightarrow> same_conditions jf jf')"
  using assms unfolding keeping_def
  by (auto intro!: strict_intros post_returns simp: post_ret same_conditions_def)

lemma post_libraries_conditions:
  "post (reconcileLibraries R apispec jf) s (\<lambda>r es s'. case r of Inl e \<Rightarrow> True | Inr jf' \<Rightarrow> same_conditions jf jf')"
  unfolding reconcileLibraries_def Let_def
  by (intro post_returns) (simp_all add: post_ret same_conditions_def)

lemma post_stages:
  assumes "conditions_work (rec_cluster R)" "retry_works (rec_cluster R)"
  shows "post (stages R apispec jf) s (\<lambda>r es s'.
    tells R (stage_plan apispec jf) (condition_of (rec_cluster R) jf) r es)"
proof -
  have last: "post (report R (authenticated R msg jf')) s
      (\<lambda>r es s'. tells R [] (condition_of (rec_cluster R) jf') r es)" for msg jf' s
  proof (rule post_mono [OF post_report [OF assms(2)]])
    fix r es s'
    assume es: "filter is_api es = [] \<and> all_written (\<lambda>j. jf_status j = jf_status (authenticated R msg jf')) es \<and> reported_back R r es"
    then have written: "all_written (\<lambda>j. jf_status j = jf_status (authenticated R msg jf')) es" by blast
    have "all_written (told (rec_cluster R) [] (condition_of (rec_cluster R) jf')) es"
    proof (rule all_written_mono [OF written])
      fix j :: Jellyfin assume "jf_status j = jf_status (authenticated R msg jf')"
      then have "condition_of (rec_cluster R) j = (condition_of (rec_cluster R) jf')(conditionAPIReady := Some ConditionTrue)"
        using condition_of_set [OF assms(1)] by (simp add: condition_of_def [of _ j] authenticated_def)
          (simp add: condition_of_def fun_eq_iff)
      then show "told (rec_cluster R) [] (condition_of (rec_cluster R) jf') j" by (simp add: told_def)
    qed
    with es show "tells R [] (condition_of (rec_cluster R) jf') r es" by (simp add: tells_def)
  qed
  show ?thesis unfolding stages_def stage_plan_def
    by (intro post_stage assms strict_stages post_keeping post_libraries_conditions)
      (use last in \<open>simp_all add: condition_names\<close>)
qed

text \<open>Only the API condition changes in the statuses written, to false.\<close>

definition api_false :: "'e cluster \<Rightarrow> Jellyfin \<Rightarrow> Jellyfin \<Rightarrow> bool" where
  "api_false k jf j \<longleftrightarrow> condition_of k j = (condition_of k jf)(conditionAPIReady := Some ConditionFalse)"

text \<open>The report that no token was obtained, or that the instance is not ready.\<close>

definition reports_false :: "'e APIReconciler \<Rightarrow> Jellyfin \<Rightarrow> go_error + int \<Rightarrow> event list \<Rightarrow> bool" where
  "reports_false R jf r es \<longleftrightarrow> filter is_api es = [] \<and> all_written (api_false (rec_cluster R) jf) es \<and> reported_back R r es"

lemma post_report_false:
  assumes "conditions_work (rec_cluster R)" "retry_works (rec_cluster R)"
  shows "post (report R (set_jf_condition (rec_cluster R) conditionAPIReady ConditionFalse reason msg jf)) s
    (\<lambda>r es s'. reports_false R jf r es)"
proof (rule post_mono [OF post_report [OF assms(2)]])
  let ?jf = "set_jf_condition (rec_cluster R) conditionAPIReady ConditionFalse reason msg jf"
  fix r es s'
  assume es: "filter is_api es = [] \<and> all_written (\<lambda>j. jf_status j = jf_status ?jf) es \<and> reported_back R r es"
  then have written: "all_written (\<lambda>j. jf_status j = jf_status ?jf) es" by blast
  have "all_written (api_false (rec_cluster R) jf) es"
  proof (rule all_written_mono [OF written])
    fix j :: Jellyfin assume "jf_status j = jf_status ?jf"
    then show "api_false (rec_cluster R) jf j"
      using condition_of_set [OF assms(1), of conditionAPIReady ConditionFalse reason msg jf]
      by (simp add: api_false_def condition_of_def fun_eq_iff)
  qed
  with es show "reports_false R jf r es" by (simp add: reports_false_def)
qed

text \<open>
  The calls of a run on a ready instance: a client for the base address, or an error; then exactly the calls that obtain a token
  (\<open>credential_run\<close>); then the report that there is none, or the token is set and the four blocks follow.
\<close>

definition ready_run :: "'e APIReconciler \<Rightarrow> JellyfinAPISpec \<Rightarrow> Jellyfin \<Rightarrow> go_error + int \<Rightarrow> event list \<Rightarrow> bool" where
  "ready_run R apispec jf r es \<longleftrightarrow>
     es = [Api (NewClient (base_url jf) (jf_uid jf)) False] \<and> \<not> is_ok r
     \<or> (\<exists>c creds rest. es = Api (NewClient (base_url jf) (jf_uid jf)) True # creds @ rest \<and> credential_run R apispec jf c creds
         \<and> (case c of Inl e \<Rightarrow> reports_false R jf r rest
            | Inr (token, jf') \<Rightarrow> \<exists>blocks. rest = Api (CallSetToken token) True # blocks
                \<and> tells R (stage_plan apispec jf) (condition_of (rec_cluster R) jf) r blocks))"

lemma credential_rules_quiet: "credential_rules apispec jf r es \<Longrightarrow> all_written (\<lambda>j. False) es"
proof -
  assume "credential_rules apispec jf r es"
  then have "list_all (writes_only (jf_namespace jf) (gen_name apispec jf)) es" by (simp only: credential_rules_def)
  then show ?thesis unfolding all_written_def list_all_iff by fastforce
qed

lemma credential_rules_status:
  "credential_rules apispec jf (Inr (token, jf')) es \<Longrightarrow> jf' \<in> {jf, with_credentials (gen_name apispec jf) jf}"
  by (simp add: credential_rules_def)

text \<open>What a run on a ready instance writes into the status.\<close>

definition ready_write :: "'e APIReconciler \<Rightarrow> JellyfinAPISpec \<Rightarrow> Jellyfin \<Rightarrow> Jellyfin \<Rightarrow> bool" where
  "ready_write R apispec jf j \<longleftrightarrow> api_false (rec_cluster R) jf j \<or> told (rec_cluster R) (stage_plan apispec jf) (condition_of (rec_cluster R) jf) j"

lemma post_reconcile_ready:
  fixes R :: "'e APIReconciler"
  assumes works: "conditions_work (rec_cluster R)" "retry_works (rec_cluster R)"
  shows "post (reconcile_ready R apispec jf) s (\<lambda>r es s'. ready_run R apispec jf r es \<and> all_written (ready_write R apispec jf) es)"
  unfolding reconcile_ready_def
proof (rule post_bindI [OF post_api_event])
  fix e es and s1 :: 'e
  assume "es = [Api (NewClient (base_url jf) (jf_uid jf)) (is_ok (Inl e :: go_error + unit))]"
  then show "ready_run R apispec jf (Inl e) es \<and> all_written (ready_write R apispec jf) es"
    by (simp add: ready_run_def all_written_Cons)
next
  fix u es1 and s1 :: 'e
  let ?creds = "\<lambda>r. case r of
       Inl e \<Rightarrow> report R (set_jf_condition (rec_cluster R) conditionAPIReady ConditionFalse ''AuthFailed'' (rec_errText R e) jf)
     | Inr (token, jf') \<Rightarrow> bind_io (set_token R token) (\<lambda>_. stages R apispec jf')"
  let ?ready = "\<lambda>r es. ready_run R apispec jf r es \<and> all_written (ready_write R apispec jf) es"
  assume "es1 = [Api (NewClient (base_url jf) (jf_uid jf)) (is_ok (Inr u))]"
  then have es1: "es1 = [Api (NewClient (base_url jf) (jf_uid jf)) True]" by simp
  show "post (bind_io (attempt (ensureCredentials R apispec jf)) ?creds) s1 (\<lambda>r es s'. ?ready r (es1 @ es))"
  proof (rule post_bindI)
    show "post (attempt (ensureCredentials R apispec jf)) s1 (\<lambda>r es s'. case r of Inl e \<Rightarrow> False | Inr r \<Rightarrow>
        credential_rules apispec jf r es \<and> credential_run R apispec jf r es)"
      unfolding post_attempt by (rule post_mono [OF post_conj [OF post_ensureCredentials post_credential_run]]) simp
  next
    fix c :: "go_error + string \<times> Jellyfin" and creds and s2 :: 'e
    assume "case Inr c of Inl e \<Rightarrow> False | Inr r \<Rightarrow> credential_rules apispec jf r creds \<and> credential_run R apispec jf r creds"
    then have rules: "credential_rules apispec jf c creds" and run: "credential_run R apispec jf c creds" by simp_all
    have quiet: "all_written P creds" for P using credential_rules_quiet [OF rules] by (rule all_written_mono) simp
    show "post (?creds c) s2 (\<lambda>r es s'. ?ready r (es1 @ creds @ es))"
    proof (cases c)
      case (Inl e)
      have "?ready r (es1 @ creds @ es)" if "reports_false R jf r es" for r es
      proof -
        have "all_written (ready_write R apispec jf) es"
          using that by (auto simp: reports_false_def ready_write_def elim: all_written_mono)
        then have "all_written (ready_write R apispec jf) (es1 @ creds @ es)" by (simp add: es1 all_written_Cons quiet)
        moreover have "ready_run R apispec jf r (es1 @ creds @ es)" unfolding ready_run_def es1
          by (intro disjI2 exI [of _ c] exI [of _ creds] exI [of _ es]) (use run that Inl in simp)
        ultimately show ?thesis by blast
      qed
      then show ?thesis unfolding Inl sum.case by (rule post_mono [OF post_report_false [OF works]])
    next
      case (Inr tj)
      then obtain token jf' where tj: "c = Inr (token, jf')" by (cases tj) simp
      have same: "stage_plan apispec jf' = stage_plan apispec jf" "condition_of k jf' = condition_of k jf" for k :: "'e cluster"
        using rules tj by (auto simp: with_credentials_def stage_plan_def condition_of_def fun_eq_iff simp del: insert_iff
            dest!: credential_rules_status)
      have finished: "?ready r (es1 @ creds @ Api (CallSetToken token) True # es)"
        if "tells R (stage_plan apispec jf) (condition_of (rec_cluster R) jf) r es" for r es
      proof -
        have "all_written (ready_write R apispec jf) es"
          using that by (auto simp: tells_def ready_write_def elim: all_written_mono)
        then have "all_written (ready_write R apispec jf) (es1 @ creds @ Api (CallSetToken token) True # es)"
          by (simp add: es1 all_written_Cons quiet)
        moreover have "ready_run R apispec jf r (es1 @ creds @ Api (CallSetToken token) True # es)"
          unfolding ready_run_def es1
          by (intro disjI2 exI [of _ c] exI [of _ creds] exI [of _ "Api (CallSetToken token) True # es"]) (use run that tj in simp)
        ultimately show ?thesis by blast
      qed
      have "post (bind_io (set_token R token) (\<lambda>_. stages R apispec jf')) s2
        (\<lambda>r es s'. \<exists>blocks. es = Api (CallSetToken token) True # blocks
          \<and> tells R (stage_plan apispec jf) (condition_of (rec_cluster R) jf) r blocks)"
        unfolding set_token_def
      proof (rule post_bindI [where P = "\<lambda>r es s'. is_ok r \<and> es = [Api (CallSetToken token) True]"])
        show "post (api (CallSetToken token) (\<lambda>s. (Inr (), api_SetToken (rec_api R) token s))) s2
            (\<lambda>r es s'. is_ok r \<and> es = [Api (CallSetToken token) True])" by (simp add: api_def post_call)
      next
        fix v es3 and s3 :: 'e
        assume "is_ok (Inr v) \<and> es3 = [Api (CallSetToken token) True]"
        then show "post (stages R apispec jf') s3 (\<lambda>r es s'. \<exists>blocks. es3 @ es = Api (CallSetToken token) True # blocks
            \<and> tells R (stage_plan apispec jf) (condition_of (rec_cluster R) jf) r blocks)"
          by (intro post_mono [OF post_stages [OF works]]) (simp add: same)
      qed simp
      then show ?thesis unfolding tj sum.case prod.case by (rule post_mono) (use finished in auto)
    qed
  qed simp
qed

definition loop_run :: "'e APIReconciler \<Rightarrow> go_error + obj \<Rightarrow> go_error + int \<Rightarrow> event list \<Rightarrow> bool" where
  "loop_run R got r es = (case got of
       Inl e \<Rightarrow> es = [] \<and> r = (if e = NotFound then Inr 0 else Inl e)
     | Inr (OJellyfin jf) \<Rightarrow>
         (case js_api (jf_spec jf) of
            None \<Rightarrow> es = [] \<and> r = Inr 0
          | Some apispec \<Rightarrow>
              if jf_deleting jf then es = [] \<and> r = Inr 0
              else if \<not> instance_ready R jf then reports_false R jf r es
              else ready_run R apispec jf r es)
     | Inr _ \<Rightarrow> False)"

text \<open>The statuses written, in all cases.\<close>

definition loop_write :: "'e APIReconciler \<Rightarrow> go_error + obj \<Rightarrow> Jellyfin \<Rightarrow> bool" where
  "loop_write R got j \<longleftrightarrow> (\<exists>jf apispec. got = Inr (OJellyfin jf) \<and> ready_write R apispec jf j)"

lemma ApiReconcile_run:
  assumes "conditions_work (rec_cluster R)" and "retry_works (rec_cluster R)"
  shows "post (ApiReconcile R ns name) s (\<lambda>r es s'. \<exists>got rest. es = Got KJellyfin ns name got # rest
    \<and> loop_run R got r rest \<and> all_written (loop_write R got) rest)"
  unfolding ApiReconcile_def
proof (rule post_bindI)
  show "post (attempt (get_jellyfin (rec_cluster R) ns name)) s (\<lambda>r es s'. case r of Inl e \<Rightarrow> False
      | Inr got \<Rightarrow> es = [Got KJellyfin ns name (map_ok OJellyfin got)])"
    by (simp add: get_jellyfin_def Get_def post_attempt post_call split: prod.split)
next
  let ?rest = "\<lambda>got. case got of
       Inl e \<Rightarrow> bind_io (lift (IgnoreNotFound (Inl e))) (\<lambda>_. ret 0)
     | Inr jf \<Rightarrow>
         (case js_api (jf_spec jf) of
            None \<Rightarrow> ret 0
          | Some apispec \<Rightarrow>
              if jf_deleting jf then ret 0
              else if \<not> instance_ready R jf
              then report R (set_jf_condition (rec_cluster R) conditionAPIReady ConditionFalse
                     ''InstanceNotReady'' ''Waiting for instance to become Ready'' jf)
              else reconcile_ready R apispec jf)"
  let ?run = "\<lambda>got r es. loop_run R got r es \<and> all_written (loop_write R got) es"
  fix got es s'
  assume "case Inr got of Inl e \<Rightarrow> False | Inr got \<Rightarrow> es = [Got KJellyfin ns name (map_ok OJellyfin got)]"
  then have es: "es = [Got KJellyfin ns name (map_ok OJellyfin got)]" by simp
  have "post (?rest got) s' (\<lambda>r es s'. ?run (map_ok OJellyfin got) r es)"
  proof (cases got)
    case (Inl e)
    then show ?thesis by (auto simp: loop_run_def post_simps IgnoreNotFound_def)
  next
    case (Inr jf)
    have "?run (Inr (OJellyfin jf)) r es" if "reports_false R jf r es" "js_api (jf_spec jf) = Some apispec" "\<not> jf_deleting jf" "\<not> instance_ready R jf"
      for r es apispec
      using that by (auto simp: loop_run_def reports_false_def loop_write_def ready_write_def elim!: all_written_mono)
    moreover have "?run (Inr (OJellyfin jf)) r es" if "ready_run R apispec jf r es \<and> all_written (ready_write R apispec jf) es"
        "js_api (jf_spec jf) = Some apispec" "\<not> jf_deleting jf" "instance_ready R jf" for r es apispec
      using that by (auto simp: loop_run_def loop_write_def elim!: all_written_mono)
    ultimately show ?thesis
      using Inr by (auto simp: post_ret loop_run_def split: option.split
          intro!: post_mono [OF post_report_false [OF assms]] post_mono [OF post_reconcile_ready [OF assms]])
  qed
  then show "post (?rest got) s' (\<lambda>r es' s''. \<exists>got rest. es @ es' = Got KJellyfin ns name got # rest \<and> ?run got r rest)"
    by (rule post_mono) (simp add: es)
qed simp



end
