(* ===== verification/Bindings.thy ===== *)
theory Bindings
  imports Fakes
begin

text \<open>
  \<open>src/internal/controller/bindings.go\<close>: which plugins belong to which instances, and the two mappers that turn a
  change of one into reconcile requests for the other. Evaluating a label selector is a
  parameter (\<open>LabelSelectorAsSelector\<close>).
\<close>

definition PluginPhaseFailed :: string where "PluginPhaseFailed = ''Failed''"
definition PluginPhasePending :: string where "PluginPhasePending = ''Pending''"
definition PluginPhaseWorkloadsReady :: string where "PluginPhaseWorkloadsReady = ''WorkloadsReady''"
definition PluginPhaseLoaded :: string where "PluginPhaseLoaded = ''Loaded''"

definition pluginBinds :: "'e cluster \<Rightarrow> Jellyfin \<Rightarrow> JellyfinPlugin \<Rightarrow> bool" where
  "pluginBinds k jf p =
     (if jp_namespace p \<noteq> jf_namespace jf then False
      else if jps_jellyfinRef (jp_spec p) = Some (jf_name jf) then True
      else case js_pluginSelector (jf_spec jf) of
          None \<Rightarrow> False
        | Some sel \<Rightarrow>
            (case LabelSelectorAsSelector k sel of Inl e \<Rightarrow> False | Inr matches \<Rightarrow> matches (jp_labels p)))"

definition list_plugins :: "'e cluster \<Rightarrow> string \<Rightarrow> ('e, JellyfinPlugin list) act" where
  "list_plugins k ns = List_in OPlugin KPlugin (k_plugins k) ns []"

definition list_jellyfins :: "'e cluster \<Rightarrow> string \<Rightarrow> ('e, Jellyfin list) act" where
  "list_jellyfins k ns = List_in OJellyfin KJellyfin (k_jellyfins k) ns []"

definition BoundPlugins :: "'e cluster \<Rightarrow> Jellyfin \<Rightarrow> ('e, JellyfinPlugin list) act" where
  "BoundPlugins k jf = bind_io (list_plugins k (jf_namespace jf)) (\<lambda>items.
     ret (sort_key jp_name (filter (pluginBinds k jf) items)))"

definition healthy :: "'e cluster \<Rightarrow> JellyfinPlugin \<Rightarrow> bool" where
  "healthy k p \<longleftrightarrow> jpst_phase (jp_status p) \<noteq> PluginPhaseFailed
     \<and> (case FindStatusCondition k (jpst_conditions (jp_status p)) conditionABICompatible of
          None \<Rightarrow> True | Some c \<Rightarrow> cond_status c \<noteq> ConditionFalse)"

definition HealthyPlugins :: "'e cluster \<Rightarrow> JellyfinPlugin list \<Rightarrow> JellyfinPlugin list" where
  "HealthyPlugins k ps = filter (healthy k) ps"

definition InstancesForPlugin :: "'e cluster \<Rightarrow> JellyfinPlugin \<Rightarrow> ('e, string list) act" where
  "InstancesForPlugin k p = bind_io (list_jellyfins k (jp_namespace p)) (\<lambda>items.
     ret (map jf_name (filter (\<lambda>jf. pluginBinds k jf p) items)))"

text \<open>The watch mappers; a request is a namespace and a name, and an error gives none.\<close>

definition mapInstanceToPlugins :: "'e cluster \<Rightarrow> Jellyfin \<Rightarrow> ('e, (string \<times> string) list) act" where
  "mapInstanceToPlugins k jf = bind_io (attempt (BoundPlugins k jf)) (\<lambda>r.
     ret (case r of Inl e \<Rightarrow> [] | Inr bound \<Rightarrow> map (\<lambda>p. (jp_namespace p, jp_name p)) bound))"

definition mapPluginToInstances :: "'e cluster \<Rightarrow> JellyfinPlugin \<Rightarrow> ('e, (string \<times> string) list) act" where
  "mapPluginToInstances k p = bind_io (attempt (InstancesForPlugin k p)) (\<lambda>r.
     ret (case r of Inl e \<Rightarrow> [] | Inr names \<Rightarrow> map (\<lambda>n. (jp_namespace p, n)) names))"

section \<open>The two directions agree\<close>

text \<open>A list of the API server holds the stored objects of the namespace; no two objects of one namespace share a name.\<close>

definition lists :: "('e, 'o) store \<Rightarrow> ('o \<Rightarrow> string) \<Rightarrow> ('o \<Rightarrow> string) \<Rightarrow> 'e \<Rightarrow> 'o set \<Rightarrow> bool" where
  "lists st nsof nameof s stored \<longleftrightarrow>
     (\<forall>ns. case raw_list st ns [] s of (Inl e, s') \<Rightarrow> False | (Inr items, s') \<Rightarrow> set items = {x \<in> stored. nsof x = ns})
     \<and> inj_on (\<lambda>x. (nsof x, nameof x)) stored"

lemma run_list:
  assumes "lists st nsof nameof s stored"
  obtains items where "\<And>mk kd. result (List_in mk kd st ns [] s) = Inr items" "set items = {x \<in> stored. nsof x = ns}"
proof -
  obtain r s' where rl: "raw_list st ns [] s = (r, s')" by (cases "raw_list st ns [] s")
  have "case raw_list st ns [] s of (Inl e, s') \<Rightarrow> False | (Inr items, s') \<Rightarrow> set items = {x \<in> stored. nsof x = ns}"
    using assms by (simp only: lists_def)
  with rl obtain items where r: "r = Inr items" and items: "set items = {x \<in> stored. nsof x = ns}"
    by (cases r) simp_all
  show ?thesis by (rule that [OF _ items]) (simp add: List_in_def call_def rl r)
qed

lemma run_bind_ret: "result (m s) = Inr a \<Longrightarrow> result (bind_io m (\<lambda>a. ret (f a)) s) = Inr (f a)"
  by (auto simp: bind_io_def ret_def split: prod.splits sum.splits)

lemma BoundPlugins_result:
  assumes "lists (k_plugins k) jp_namespace jp_name s stored"
  shows "\<exists>bound. result (BoundPlugins k jf s) = Inr bound \<and> set bound = {p \<in> stored. pluginBinds k jf p}
    \<and> sorted (map jp_name bound)"
proof -
  obtain items where i: "\<And>mk kd. result (List_in mk kd (k_plugins k) (jf_namespace jf) [] s) = Inr items"
    "set items = {p \<in> stored. jp_namespace p = jf_namespace jf}" using run_list [OF assms] by blast
  have "result (BoundPlugins k jf s) = Inr (sort_key jp_name (filter (pluginBinds k jf) items))"
    unfolding BoundPlugins_def list_plugins_def by (rule run_bind_ret) (rule i(1))
  moreover have "set (sort_key jp_name (filter (pluginBinds k jf) items)) = {p \<in> stored. pluginBinds k jf p}"
    using i(2) by (auto simp: pluginBinds_def)
  ultimately show ?thesis by simp
qed

lemma InstancesForPlugin_result:
  assumes "lists (k_jellyfins k) jf_namespace jf_name s stored"
  shows "\<exists>names. result (InstancesForPlugin k p s) = Inr names \<and> set names = jf_name ` {jf \<in> stored. pluginBinds k jf p}"
proof -
  obtain items where i: "\<And>mk kd. result (List_in mk kd (k_jellyfins k) (jp_namespace p) [] s) = Inr items"
    "set items = {jf \<in> stored. jf_namespace jf = jp_namespace p}" using run_list [OF assms] by blast
  have "result (InstancesForPlugin k p s) = Inr (map jf_name (filter (\<lambda>jf. pluginBinds k jf p) items))"
    unfolding InstancesForPlugin_def list_jellyfins_def by (rule run_bind_ret) (rule i(1))
  moreover have "set (filter (\<lambda>jf. pluginBinds k jf p) items) = {jf \<in> stored. pluginBinds k jf p}"
    using i(2) by (auto simp: pluginBinds_def)
  ultimately show ?thesis by auto
qed


definition sample_cluster :: "Jellyfin list \<Rightarrow> JellyfinPlugin list \<Rightarrow> 'e cluster" where
  "sample_cluster jfs ps = empty_cluster
     \<lparr>k_jellyfins := empty_store\<lparr>raw_list := (\<lambda>ns ls s. (Inr (filter (\<lambda>jf. jf_namespace jf = ns) jfs), s)),
        raw_get := (\<lambda>ns n s. (case find (\<lambda>jf. jf_namespace jf = ns \<and> jf_name jf = n) jfs of
          None \<Rightarrow> Inl NotFound | Some jf \<Rightarrow> Inr jf, s))\<rparr>,
      k_plugins := empty_store\<lparr>raw_list := (\<lambda>ns ls s. (Inr (filter (\<lambda>p. jp_namespace p = ns) ps), s))\<rparr>\<rparr>"

lemma sample_lists:
  "inj_on (\<lambda>jf. (jf_namespace jf, jf_name jf)) (set jfs) \<Longrightarrow> lists (k_jellyfins (sample_cluster jfs ps)) jf_namespace jf_name s (set jfs)"
  "inj_on (\<lambda>p. (jp_namespace p, jp_name p)) (set ps) \<Longrightarrow> lists (k_plugins (sample_cluster jfs ps)) jp_namespace jp_name s (set ps)"
  by (auto simp: lists_def sample_cluster_def)


end
