(* ===== verification/Plugin_Controller.thy ===== *)
theory Plugin_Controller
  imports Bindings
begin

text \<open>
  The plugin reconciler (\<open>src/internal/controller/jellyfinplugin_controller.go\<close>): it checks a plugin against the
  server version of its instance, owns the companion Deployments and Services, drains
  them when the plugin is deleted, and reports a phase.
\<close>

definition pluginFinalizer :: string where "pluginFinalizer = ''jellyfin.jellyops.io/plugin-teardown''"
definition drainRequeueInterval :: int where "drainRequeueInterval = 5 * 1000000000"

text \<open>An owner reference names the kind and the name of the owner.\<close>

definition plugin_owner :: "JellyfinPlugin \<Rightarrow> string" where
  "plugin_owner p = ''JellyfinPlugin/'' @ jp_name p"

section \<open>The bound instance and its version\<close>

definition boundInstance :: "'e cluster \<Rightarrow> JellyfinPlugin \<Rightarrow> ('e, Jellyfin option) act" where
  "boundInstance k p =
     (let by_selector =
        bind_io (attempt (list_jellyfins k (jp_namespace p))) (\<lambda>r.
          ret (case r of Inl e \<Rightarrow> None | Inr items \<Rightarrow> find (\<lambda>jf. pluginBinds k jf p) items))
      in case jps_jellyfinRef (jp_spec p) of
           None \<Rightarrow> by_selector
         | Some n \<Rightarrow>
             if n = '''' then by_selector
             else bind_io (attempt (get_jellyfin k (jp_namespace p) n)) (\<lambda>r.
               ret (case r of Inl e \<Rightarrow> None | Inr jf \<Rightarrow> Some jf)))"

text \<open>Result, reason and message; \<open>abiText\<close> is the text of a parse error.\<close>

definition validateABI :: "(abi_error \<Rightarrow> string) \<Rightarrow> JellyfinPlugin \<Rightarrow> Jellyfin option \<Rightarrow> bool \<times> string \<times> string" where
  "validateABI abiText p jfo =
     (let target = pm_targetABI (jps_meta (jp_spec p)) in
      if target = '''' then (True, ''NoTargetABI'', ''No targetAbi declared; ABI check skipped'')
      else case jfo of
          None \<Rightarrow> (False, ''InstanceNotFound'', ''Bound Jellyfin instance not found'')
        | Some jf \<Rightarrow>
            let image_version = ServerVersionFromImage (js_image (jf_spec jf));
                server = (if image_version = '''' then DefaultServerVersion else image_version)
            in case ABICompatible target server of
                 Inl e \<Rightarrow> (False, ''ABIParseError'', abiText e)
               | Inr fits_server \<Rightarrow>
                   if \<not> fits_server then (False, ''ABIMismatch'', ''plugin targetAbi '' @ target @ '' exceeds server version '' @ server)
                   else (True, ''ABICompatible'', ''targetAbi '' @ target @ '' compatible with server '' @ server))"

section \<open>Companion workloads and services\<close>

text \<open>The function given to \<open>CreateOrUpdate\<close>: the selector is assigned on creation only.\<close>

definition workload_mutate :: "'e cluster \<Rightarrow> JellyfinPlugin \<Rightarrow> Deployment \<Rightarrow> LiveDeployment \<Rightarrow> go_error + LiveDeployment" where
  "workload_mutate k p dep live =
     bind_res (SetControllerReference k (plugin_owner p) (ld_owners live)) (\<lambda>owners.
       Inr (live\<lparr>d_labels := d_labels dep,
                 d_selector := (if \<not> ld_created live then d_selector dep else d_selector live),
                 d_replicas := d_replicas dep, d_template := d_template dep, ld_owners := owners\<rparr>))"

definition list_workloads :: "'e cluster \<Rightarrow> JellyfinPlugin \<Rightarrow> ('e, LiveDeployment list) act" where
  "list_workloads k p = List_in ODeployment KDeployment (k_deployments k) (jp_namespace p) [(PluginLabel, jp_name p)]"

definition stale_workload :: "(string, bool) go_map \<Rightarrow> LiveDeployment \<Rightarrow> bool" where
  "stale_workload desired dep =
     (if deref (map_of (d_labels dep) ManagedByLabel) '''' \<noteq> ManagedByValue then False
      else case map_of (d_labels dep) WorkloadLabel of None \<Rightarrow> False | Some name \<Rightarrow> \<not> in_set desired name)"

definition pruneWorkloads :: "'e cluster \<Rightarrow> JellyfinPlugin \<Rightarrow> (string, bool) go_map \<Rightarrow> ('e, unit) act" where
  "pruneWorkloads k p desired =
     bind_io (list_workloads k p) (\<lambda>items.
       each (\<lambda>dep. if stale_workload desired dep
                   then DeleteIfExists KDeployment (k_deployments k) (d_namespace dep) (d_name dep) else ret ()) items)"

definition reconcileWorkloads :: "'e cluster \<Rightarrow> JellyfinPlugin \<Rightarrow> Jellyfin option \<Rightarrow> ('e, unit) act" where
  "reconcileWorkloads k p jfo =
     bind_io (each (\<lambda>w. let dep = BuildWorkloadDeployment jfo p w in
         bind_io (CreateOrUpdate ODeployment KDeployment (k_deployments k) (d_namespace dep) (d_name dep) (workload_mutate k p dep))
           (\<lambda>_. ret ())) (jps_workloads (jp_spec p))) (\<lambda>_.
       pruneWorkloads k p (string_set (map w_name (jps_workloads (jp_spec p)))))"

definition service_mutate :: "'e cluster \<Rightarrow> JellyfinPlugin \<Rightarrow> Service \<Rightarrow> LiveService \<Rightarrow> go_error + LiveService" where
  "service_mutate k p desired live =
     bind_res (SetControllerReference k (plugin_owner p) (lsvc_owners live)) (\<lambda>owners.
       Inr (live\<lparr>s_labels := s_labels desired, s_type := s_type desired, s_selector := s_selector desired,
                 s_ports := s_ports desired, lsvc_owners := owners\<rparr>))"

definition reconcileServices :: "'e cluster \<Rightarrow> JellyfinPlugin \<Rightarrow> Jellyfin option \<Rightarrow> ('e, unit) act" where
  "reconcileServices k p jfo =
     each (\<lambda>svc. bind_io (lift (map_err ServiceErr (BuildPluginService p svc (case jfo of None \<Rightarrow> '''' | Some jf \<Rightarrow> jf_name jf)))) (\<lambda>desired.
       bind_io (CreateOrUpdate OService KService (k_services k) (s_namespace desired) (s_name desired) (service_mutate k p desired))
         (\<lambda>_. ret ()))) (jps_services (jp_spec p))"

section \<open>Teardown\<close>

definition get_workload :: "'e cluster \<Rightarrow> JellyfinPlugin \<Rightarrow> PluginWorkload \<Rightarrow> ('e, LiveDeployment) act" where
  "get_workload k p w = Get ODeployment KDeployment (k_deployments k) (jp_namespace p) (WorkloadName p w)"

text \<open>One turn of the draining loop; \<open>Update\<close> refreshes the object, so the status read after it is the answer's.\<close>

definition drain_one :: "'e cluster \<Rightarrow> JellyfinPlugin \<Rightarrow> PluginWorkload \<Rightarrow> bool \<Rightarrow> ('e, bool) act" where
  "drain_one k p w draining =
     bind_io (attempt (get_workload k p w)) (\<lambda>r. case r of
       Inl e \<Rightarrow> if e = NotFound then ret draining else raise e
     | Inr dep \<Rightarrow>
         bind_io (if d_replicas dep \<noteq> Some 0
                  then Update ODeployment (k_deployments k) (dep\<lparr>d_replicas := Some 0\<rparr>) else ret dep) (\<lambda>dep.
           ret (if 0 < sint (ld_statusReplicas dep) then True else draining)))"

definition delete_workload :: "'e cluster \<Rightarrow> JellyfinPlugin \<Rightarrow> PluginWorkload \<Rightarrow> ('e, unit) act" where
  "delete_workload k p w = DeleteIfExists KDeployment (k_deployments k) (jp_namespace p) (WorkloadName p w)"

definition without_finalizer :: "'e cluster \<Rightarrow> JellyfinPlugin \<Rightarrow> JellyfinPlugin" where
  "without_finalizer k p = p\<lparr>jp_finalizers := RemoveFinalizer k (jp_finalizers p) pluginFinalizer\<rparr>"

text \<open>\<open>finalize\<close> returns the interval after which it wants to run again, 0 for never.\<close>

definition finalize :: "'e cluster \<Rightarrow> JellyfinPlugin \<Rightarrow> ('e, int) act" where
  "finalize k p =
     (if \<not> ContainsFinalizer k (jp_finalizers p) pluginFinalizer then ret 0
      else bind_io (fold_io (drain_one k p) (jps_workloads (jp_spec p)) False) (\<lambda>draining.
        if draining then ret drainRequeueInterval
        else bind_io (each (delete_workload k p) (jps_workloads (jp_spec p))) (\<lambda>_.
             bind_io (Update OPlugin (k_plugins k) (without_finalizer k p)) (\<lambda>_. ret 0))))"

section \<open>Status\<close>

text \<open>The sums of \<open>int32\<close> replica counts wrap around; a Deployment that cannot be read counts for nothing.\<close>

definition count_one :: "'e cluster \<Rightarrow> JellyfinPlugin \<Rightarrow> PluginWorkload \<Rightarrow> int32 \<times> int32 \<Rightarrow> ('e, int32 \<times> int32) act" where
  "count_one k p w = (\<lambda>(desiredWL, readyWL).
     bind_io (attempt (get_workload k p w)) (\<lambda>r.
       ret (case r of Inl e \<Rightarrow> (desiredWL, readyWL)
            | Inr dep \<Rightarrow> (desiredWL + deref (d_replicas dep) 0, readyWL + ld_readyReplicas dep))))"

definition set_plugin_condition :: "'e cluster \<Rightarrow> string \<Rightarrow> string \<Rightarrow> string \<Rightarrow> string \<Rightarrow> JellyfinPlugin \<Rightarrow> JellyfinPlugin" where
  "set_plugin_condition k ctype status reason msg p = p\<lparr>jp_status := (jp_status p)\<lparr>jpst_conditions :=
     setCondition k ctype status reason msg (jp_generation p) (jpst_conditions (jp_status p))\<rparr>\<rparr>"

definition set_phase :: "string \<Rightarrow> JellyfinPlugin \<Rightarrow> JellyfinPlugin" where
  "set_phase ph p = p\<lparr>jp_status := (jp_status p)\<lparr>jpst_phase := ph\<rparr>\<rparr>"

definition workloadsReady :: "JellyfinPlugin \<Rightarrow> int32 \<Rightarrow> int32 \<Rightarrow> bool" where
  "workloadsReady p desiredWL readyWL \<longleftrightarrow>
     length (jps_workloads (jp_spec p)) = 0 \<or> (0 < sint desiredWL \<and> sint desiredWL \<le> sint readyWL)"

definition ready_text :: "int32 \<Rightarrow> int32 \<Rightarrow> string" where
  "ready_text readyWL desiredWL = itoa (sint readyWL) @ ''/'' @ itoa (sint desiredWL) @ '' workload replicas ready''"

definition plugin_status ::
  "'e cluster \<Rightarrow> JellyfinPlugin \<Rightarrow> Jellyfin option \<Rightarrow> bool \<times> string \<times> string \<Rightarrow> int32 \<times> int32 \<Rightarrow> JellyfinPlugin" where
  "plugin_status k p jfo abi counts =
     (let (abiOK, abiReason, abiMsg) = abi; (desiredWL, readyWL) = counts;
          p1 = p\<lparr>jp_status := (jp_status p)\<lparr>jpst_observedGeneration := jp_generation p, jpst_abiCompatible := abiOK,
                 jpst_loadedVersion := pm_version (jps_meta (jp_spec p))\<rparr>\<rparr>;
          p2 = set_plugin_condition k conditionABICompatible (if abiOK then ConditionTrue else ConditionFalse) abiReason abiMsg p1;
          p3 = p2\<lparr>jp_status := (jp_status p2)\<lparr>jpst_workloadReadyReplicas := readyWL\<rparr>\<rparr>
      in if \<not> abiOK then
           set_plugin_condition k conditionWorkersAvailable ConditionFalse ''ABIMismatch'' ''Plugin not injected due to ABI mismatch''
             (set_phase PluginPhaseFailed (p3\<lparr>jp_status := (jp_status p3)\<lparr>jpst_injected := False\<rparr>\<rparr>))
         else if jfo = None then
           set_plugin_condition k conditionWorkersAvailable ConditionFalse ''NoInstance'' ''Not bound to an instance''
             (set_phase PluginPhasePending p3)
         else
           let installed = (jps_install (jp_spec p) = None);
               p4 = set_plugin_condition k conditionInjected ConditionTrue ''Bound''
                      ''Plugin bound and injected into the instance pod template''
                      (p3\<lparr>jp_status := (jp_status p3)\<lparr>jpst_injected := True, jpst_installed := installed\<rparr>\<rparr>);
               p5 = (if installed then set_plugin_condition k conditionInstalled ConditionTrue ''NoInstallStep'' ''No install step declared'' p4
                     else p4)
           in if workloadsReady p desiredWL readyWL
              then set_plugin_condition k conditionWorkersAvailable ConditionTrue ''Ready'' (ready_text readyWL desiredWL)
                     (set_phase PluginPhaseLoaded p5)
              else set_plugin_condition k conditionWorkersAvailable ConditionFalse ''Scaling'' (ready_text readyWL desiredWL)
                     (set_phase PluginPhaseWorkloadsReady p5))"

definition updateStatus :: "'e cluster \<Rightarrow> JellyfinPlugin \<Rightarrow> Jellyfin option \<Rightarrow> bool \<times> string \<times> string \<Rightarrow> ('e, unit) act" where
  "updateStatus k p jfo abi =
     bind_io (fold_io (count_one k p) (jps_workloads (jp_spec p)) (0, 0)) (\<lambda>counts.
       StatusUpdate OPlugin (k_plugins k) (plugin_status k p jfo abi counts))"

section \<open>Reconcile\<close>

definition ensure_finalizer :: "'e cluster \<Rightarrow> JellyfinPlugin \<Rightarrow> ('e, JellyfinPlugin) act" where
  "ensure_finalizer k p =
     (if ContainsFinalizer k (jp_finalizers p) pluginFinalizer then ret p
      else Update OPlugin (k_plugins k) (p\<lparr>jp_finalizers := AddFinalizer k (jp_finalizers p) pluginFinalizer\<rparr>))"

definition reconcile_plugin :: "'e cluster \<Rightarrow> (abi_error \<Rightarrow> string) \<Rightarrow> JellyfinPlugin \<Rightarrow> ('e, int) act" where
  "reconcile_plugin k abiText p =
     bind_io (boundInstance k p) (\<lambda>jfo.
     let abi = validateABI abiText p jfo in
     bind_io (if fst abi
              then bind_io (wrapping (Wrap ''workloads'') (reconcileWorkloads k p jfo)) (\<lambda>_.
                   wrapping (Wrap ''services'') (reconcileServices k p jfo))
              else ret ()) (\<lambda>_.
     bind_io (updateStatus k p jfo abi) (\<lambda>_. ret 0)))"

definition PluginReconcile :: "'e cluster \<Rightarrow> (abi_error \<Rightarrow> string) \<Rightarrow> string \<Rightarrow> string \<Rightarrow> ('e, int) act" where
  "PluginReconcile k abiText ns name =
     bind_io (attempt (Get OPlugin KPlugin (k_plugins k) ns name)) (\<lambda>r. case r of
       Inl e \<Rightarrow> bind_io (lift (IgnoreNotFound (Inl e))) (\<lambda>_. ret 0)
     | Inr p \<Rightarrow>
         if jp_deleting p then finalize k p
         else bind_io (ensure_finalizer k p) (reconcile_plugin k abiText))"

end
