(* ===== verification/Plugin_Teardown.thy ===== *)
theory Plugin_Teardown
  imports Plugin_Controller
begin

text \<open>
  The finalizer of the plugin reconciler: companions are drained before they are deleted and the finalizer goes last, and
  draining ends.
\<close>

section \<open>Teardown\<close>

fun drain_event :: "JellyfinPlugin \<Rightarrow> event \<Rightarrow> bool" where
  "drain_event p (Got k ns n r) = (k = KDeployment \<and> ns = jp_namespace p)"
| "drain_event p (Updated (ODeployment d) r) = (d_replicas d = Some 0)"
| "drain_event p e = False"

text \<open>
  The calls show a workload as drained: its Deployment does not exist, or it is scaled to zero, before or by
  this run, and the status read after that counts no pod.
\<close>

definition seen_drained :: "JellyfinPlugin \<Rightarrow> event list \<Rightarrow> PluginWorkload \<Rightarrow> bool" where
  "seen_drained p es w \<longleftrightarrow> (\<exists>x. Got KDeployment (jp_namespace p) (WorkloadName p w) x \<in> set es
     \<and> (x = Inl NotFound
        \<or> (\<exists>d. x = Inr (ODeployment d) \<and> d_replicas d = Some 0 \<and> sint (ld_statusReplicas d) \<le> 0)
        \<or> (\<exists>d d'. x = Inr (ODeployment d) \<and> Updated (ODeployment (d\<lparr>d_replicas := Some 0\<rparr>)) (Inr (ODeployment d')) \<in> set es
            \<and> sint (ld_statusReplicas d') \<le> 0)))"

lemma seen_drained_append:
  "seen_drained p es w \<Longrightarrow> seen_drained p (es @ es') w"
  "seen_drained p es w \<Longrightarrow> seen_drained p (es' @ es) w"
  unfolding seen_drained_def set_append by blast+

lemma post_get_workload:
  "post (attempt (get_workload k p w)) s (\<lambda>r es s'. case r of Inl e \<Rightarrow> False
     | Inr x \<Rightarrow> es = [Got KDeployment (jp_namespace p) (WorkloadName p w) (map_ok ODeployment x)])"
  by (simp add: get_workload_def Get_def post_attempt post_call split: prod.split)

lemma post_drain_one:
  "post (drain_one k p w b) s (\<lambda>r es s'. list_all (drain_event p) es
     \<and> (case r of Inl e \<Rightarrow> True | Inr b' \<Rightarrow> b' \<or> (b' = b \<and> seen_drained p es w)))"
  unfolding drain_one_def
proof (rule post_bindI [OF post_get_workload])
  fix x es and s1 :: 'a
  assume "case Inr x of Inl e \<Rightarrow> False
     | Inr x \<Rightarrow> es = [Got KDeployment (jp_namespace p) (WorkloadName p w) (map_ok ODeployment x)]"
  then have es: "es = [Got KDeployment (jp_namespace p) (WorkloadName p w) (map_ok ODeployment x)]" by simp
  show "post (case x of Inl e \<Rightarrow> if e = NotFound then ret b else raise e
     | Inr dep \<Rightarrow> bind_io (if d_replicas dep \<noteq> Some 0
                  then Update ODeployment (k_deployments k) (dep\<lparr>d_replicas := Some 0\<rparr>) else ret dep) (\<lambda>dep.
           ret (if 0 < sint (ld_statusReplicas dep) then True else b))) s1
     (\<lambda>r es' s'. list_all (drain_event p) (es @ es')
     \<and> (case r of Inl e \<Rightarrow> True | Inr b' \<Rightarrow> b' \<or> (b' = b \<and> seen_drained p (es @ es') w)))"
    by (cases x) (auto simp: es post_simps Update_def seen_drained_def split: prod.split sum.split)
qed simp

lemma post_drain:
  "post (fold_io (drain_one k p) ws b) s (\<lambda>r es s'. list_all (drain_event p) es
     \<and> (case r of Inl e \<Rightarrow> True | Inr b' \<Rightarrow> b' \<or> (b' = b \<and> list_all (seen_drained p es) ws)))"
proof (induction ws arbitrary: b s)
  case (Cons w ws)
  show ?case unfolding fold_io.simps
  proof (rule post_bindI [OF post_drain_one])
    fix b1 es1 and s1 :: 'a
    assume 1: "list_all (drain_event p) es1 \<and> (case Inr b1 of Inl e \<Rightarrow> True | Inr b' \<Rightarrow> b' \<or> (b' = b \<and> seen_drained p es1 w))"
    show "post (fold_io (drain_one k p) ws b1) s1 (\<lambda>r es s'. list_all (drain_event p) (es1 @ es)
     \<and> (case r of Inl e \<Rightarrow> True | Inr b' \<Rightarrow> b' \<or> (b' = b \<and> list_all (seen_drained p (es1 @ es)) (w # ws))))"
      by (rule post_mono [OF Cons.IH])
        (use 1 in \<open>auto simp: list_all_iff split: sum.splits intro: seen_drained_append\<close>)
  qed simp
qed (simp add: post_ret)

definition deletion :: "JellyfinPlugin \<Rightarrow> PluginWorkload \<Rightarrow> event" where
  "deletion p w = Deleted KDeployment (jp_namespace p) (WorkloadName p w) True"

fun is_deletion :: "event \<Rightarrow> bool" where
  "is_deletion (Deleted k ns n good) = (k = KDeployment)"
| "is_deletion e = False"

lemma post_DeleteIfExists:
  "post (DeleteIfExists kd st ns n) s (\<lambda>r es s'. es = [Deleted kd ns n (is_ok r)])"
  by (auto simp: DeleteIfExists_def Delete_def post_simps IgnoreNotFound_def split: prod.split)

lemma post_deletions:
  "post (each (delete_workload k p) ws) s (\<lambda>r es s'. list_all is_deletion es
     \<and> (case r of Inl e \<Rightarrow> True | Inr u \<Rightarrow> es = map (deletion p) ws))"
proof (induction ws arbitrary: s)
  case (Cons w ws)
  show ?case unfolding each.simps delete_workload_def
    by (rule post_bindI [OF post_DeleteIfExists])
      (auto simp: delete_workload_def [symmetric] deletion_def split: sum.splits intro!: post_mono [OF Cons.IH])
qed (simp add: post_ret)

text \<open>
  The order of a teardown: first every workload is scaled to zero and looked at; deletions only if all are drained; the
  update that removes the finalizer only after all deletions. Returning an interval means that
  nothing has been deleted yet, returning 0 that the finalizer is gone.
\<close>

definition teardown :: "'e cluster \<Rightarrow> JellyfinPlugin \<Rightarrow> go_error + int \<Rightarrow> event list \<Rightarrow> bool" where
  "teardown k p r es \<longleftrightarrow> (\<exists>looks deletions updates. es = looks @ deletions @ updates
     \<and> list_all (drain_event p) looks \<and> list_all is_deletion deletions
     \<and> (deletions @ updates = [] \<or> list_all (seen_drained p looks) (jps_workloads (jp_spec p)))
     \<and> (updates = [] \<or> deletions = map (deletion p) (jps_workloads (jp_spec p))
          \<and> (\<exists>answer. updates = [Updated (OPlugin (without_finalizer k p)) answer]))
     \<and> (case r of Inl e \<Rightarrow> True
        | Inr t \<Rightarrow> t = drainRequeueInterval \<and> deletions @ updates = []
            \<or> t = 0 \<and> es = [] \<and> \<not> ContainsFinalizer k (jp_finalizers p) pluginFinalizer
            \<or> t = 0 \<and> (\<exists>p'. updates = [Updated (OPlugin (without_finalizer k p)) (Inr (OPlugin p'))])))"

text \<open>The end of a teardown whose companions have been seen to be drained.\<close>

lemma post_release:
  assumes drained: "list_all (drain_event p) es" "list_all (seen_drained p es) (jps_workloads (jp_spec p))"
  shows "post (bind_io (each (delete_workload k p) (jps_workloads (jp_spec p))) (\<lambda>_.
      bind_io (Update OPlugin (k_plugins k) (without_finalizer k p)) (\<lambda>_. ret 0))) s
    (\<lambda>r es' s'. teardown k p r (es @ es'))"
proof (rule post_bindI [OF post_deletions])
  let ?ws = "jps_workloads (jp_spec p)"
  fix e :: go_error and dels and s2 :: 'a
  assume "list_all is_deletion dels \<and> (case Inl e of Inl e \<Rightarrow> True | Inr u \<Rightarrow> dels = map (deletion p) ?ws)"
  then show "teardown k p (Inl e) (es @ dels)" unfolding teardown_def
    by (intro exI [of _ es] exI [of _ dels] exI [of _ "[]"]) (use drained in simp)
next
  let ?ws = "jps_workloads (jp_spec p)"
  fix u dels and s2 :: 'a
  assume d: "list_all is_deletion dels \<and> (case Inr u of Inl e \<Rightarrow> True | Inr u \<Rightarrow> dels = map (deletion p) ?ws)"
  have t: "teardown k p r (es @ dels @ [Updated (OPlugin (without_finalizer k p)) x])"
    if "case r of Inl e \<Rightarrow> True | Inr t \<Rightarrow> t = 0 \<and> (\<exists>p'. x = Inr (OPlugin p'))" for r x
    unfolding teardown_def
    by (intro exI [of _ es] exI [of _ dels] exI [of _ "[Updated (OPlugin (without_finalizer k p)) x]"])
      (use drained d that in \<open>auto split: sum.splits\<close>)
  show "post (bind_io (Update OPlugin (k_plugins k) (without_finalizer k p)) (\<lambda>_. ret 0)) s2
    (\<lambda>r es' s'. teardown k p r (es @ dels @ es'))"
    by (auto simp: post_simps Update_def intro!: t split: prod.split sum.split)
qed

text \<open>
  C4. Teardown order. In every run of \<open>finalize\<close>, whatever the API server answers, no companion Deployment is
  deleted, and the finalizer is not removed, unless this very run has seen every companion absent
  or scaled to zero with no pod left; the finalizer goes last, after all deletions have succeeded.
\<close>

theorem finalize_teardown: "post (finalize k p) s (\<lambda>r es s'. teardown k p r es)"
proof (cases "ContainsFinalizer k (jp_finalizers p) pluginFinalizer")
  case False
  then show ?thesis by (simp add: finalize_def post_ret teardown_def)
next
  case True
  let ?ws = "jps_workloads (jp_spec p)"
  have "finalize k p = bind_io (fold_io (drain_one k p) ?ws False) (\<lambda>draining.
        if draining then ret drainRequeueInterval
        else bind_io (each (delete_workload k p) ?ws) (\<lambda>_.
             bind_io (Update OPlugin (k_plugins k) (without_finalizer k p)) (\<lambda>_. ret 0)))"
    using True by (simp add: finalize_def)
  then show ?thesis
  proof (elim ssubst, intro post_bindI [OF post_drain])
    fix e :: go_error and es and s1 :: 'a
    assume "list_all (drain_event p) es \<and> (case Inl e of Inl e \<Rightarrow> True | Inr b' \<Rightarrow> b' \<or> (b' = False \<and> list_all (seen_drained p es) ?ws))"
    then show "teardown k p (Inl e) es" unfolding teardown_def
      by (intro exI [of _ es] exI [of _ "[]"]) simp
  next
    fix draining es and s1 :: 'a
    assume 1: "list_all (drain_event p) es
      \<and> (case Inr draining of Inl e \<Rightarrow> True | Inr b' \<Rightarrow> b' \<or> (b' = False \<and> list_all (seen_drained p es) ?ws))"
    show "post (if draining then ret drainRequeueInterval
        else bind_io (each (delete_workload k p) ?ws) (\<lambda>_.
             bind_io (Update OPlugin (k_plugins k) (without_finalizer k p)) (\<lambda>_. ret 0))) s1
        (\<lambda>r es' s'. teardown k p r (es @ es'))"
    proof (cases draining)
      case True
      then show ?thesis unfolding teardown_def
        by (simp add: post_ret) (intro exI [of _ es] exI [of _ "[]"], use 1 in simp)
    next
      case False
      with 1 show ?thesis using post_release [of p es k s1] by simp
    qed
  qed
qed

section \<open>Draining ends\<close>

text \<open>
  The cluster while a plugin is being torn down: \<open>live\<close> gives the Deployment of each name in the plugin's
  namespace, and \<open>up\<close> says of a world that a reconcile which begins in it meets no failure. Any call may fail; one that fails changes
  nothing or has taken effect all the same. In a world that is \<open>up\<close> reading returns the Deployment, updating replaces it, and
  deleting and updating the plugin succeed.
\<close>

definition drain_cluster :: "'e cluster \<Rightarrow> JellyfinPlugin \<Rightarrow> ('e \<Rightarrow> string \<Rightarrow> LiveDeployment option) \<Rightarrow> ('e \<Rightarrow> bool) \<Rightarrow> bool" where
  "drain_cluster k p live up \<longleftrightarrow>
     (\<forall>n s. live (snd (raw_get (k_deployments k) (jp_namespace p) n s)) = live s)
     \<and> (\<forall>d s. live (snd (raw_update (k_deployments k) d s)) \<in> {live s, (live s)(d_name d \<mapsto> d)})
     \<and> (\<forall>n s. live (snd (raw_delete (k_deployments k) (jp_namespace p) n s)) \<in> {live s, (live s)(n := None)})
     \<and> (\<forall>q s. live (snd (raw_update (k_plugins k) q s)) = live s)
     \<and> (\<forall>n s d. live s n = Some d \<longrightarrow> d_name d = n)
     \<and> (\<forall>s. up s \<longrightarrow>
          (\<forall>n. raw_get (k_deployments k) (jp_namespace p) n s = (case live s n of None \<Rightarrow> Inl NotFound | Some d \<Rightarrow> Inr d, s))
        \<and> (\<forall>d. live s (d_name d) \<noteq> None \<longrightarrow>
             (\<exists>s'. raw_update (k_deployments k) d s = (Inr d, s') \<and> live s' = (live s)(d_name d \<mapsto> d) \<and> up s'))
        \<and> (\<forall>n. IgnoreNotFound (fst (raw_delete (k_deployments k) (jp_namespace p) n s)) = Inr ()
             \<and> up (snd (raw_delete (k_deployments k) (jp_namespace p) n s)))
        \<and> (\<forall>q. is_ok (fst (raw_update (k_plugins k) q s))))"

lemma drain_clusterD:
  assumes "drain_cluster k p live up"
  shows "live (snd (raw_get (k_deployments k) (jp_namespace p) n s)) = live s"
    and "live (snd (raw_update (k_deployments k) d s)) \<in> {live s, (live s)(d_name d \<mapsto> d)}"
    and "live (snd (raw_delete (k_deployments k) (jp_namespace p) n s)) \<in> {live s, (live s)(n := None)}"
    and "live (snd (raw_update (k_plugins k) q s)) = live s"
    and "live s n = Some d \<Longrightarrow> d_name d = n"
    and "up s \<Longrightarrow> raw_get (k_deployments k) (jp_namespace p) n s = (case live s n of None \<Rightarrow> Inl NotFound | Some d \<Rightarrow> Inr d, s)"
    and "up s \<Longrightarrow> live s (d_name d) \<noteq> None \<Longrightarrow>
      \<exists>s'. raw_update (k_deployments k) d s = (Inr d, s') \<and> live s' = (live s)(d_name d \<mapsto> d) \<and> up s'"
    and "up s \<Longrightarrow> IgnoreNotFound (fst (raw_delete (k_deployments k) (jp_namespace p) n s)) = Inr ()"
    and "up s \<Longrightarrow> up (snd (raw_delete (k_deployments k) (jp_namespace p) n s))"
    and "up s \<Longrightarrow> is_ok (fst (raw_update (k_plugins k) q s))"
  using assms by (simp_all add: drain_cluster_def)

text \<open>The worlds in which the reconciles of the deletion begin; \<open>between i\<close> is what happens between the reconciles \<open>i\<close> and \<open>i + 1\<close>.\<close>

primrec rounds :: "'e cluster \<Rightarrow> JellyfinPlugin \<Rightarrow> (nat \<Rightarrow> 'e \<Rightarrow> 'e) \<Rightarrow> 'e \<Rightarrow> nat \<Rightarrow> 'e" where
  "rounds k p between s 0 = s"
| "rounds k p between s (Suc i) = between i (final (finalize k p (rounds k p between s i)))"

definition scaled_to_zero :: "LiveDeployment option \<Rightarrow> bool" where
  "scaled_to_zero x \<longleftrightarrow> (case x of None \<Rightarrow> True | Some d \<Rightarrow> d_replicas d = Some 0)"

definition has_pods :: "LiveDeployment option \<Rightarrow> bool" where
  "has_pods x \<longleftrightarrow> (case x of None \<Rightarrow> False | Some d \<Rightarrow> 0 < sint (ld_statusReplicas d))"

definition companions :: "JellyfinPlugin \<Rightarrow> string set" where
  "companions p = WorkloadName p ` set (jps_workloads (jp_spec p))"

text \<open>
  What is expected of everybody else. Nobody scales a companion up again; the reconciles do not fail forever; and the Deployment
  controller does what it is for: the pods of a Deployment that stays scaled to zero are gone some day, however long that takes, and stay away.
\<close>

definition fair :: "JellyfinPlugin \<Rightarrow> ('e \<Rightarrow> string \<Rightarrow> LiveDeployment option) \<Rightarrow> ('e \<Rightarrow> bool) \<Rightarrow> (nat \<Rightarrow> 'e \<Rightarrow> 'e) \<Rightarrow> (nat \<Rightarrow> 'e) \<Rightarrow> bool" where
  "fair p live up between w \<longleftrightarrow>
     (\<forall>i s n. n \<in> companions p \<longrightarrow> scaled_to_zero (live s n) \<longrightarrow> scaled_to_zero (live (between i s) n))
     \<and> (\<forall>i. \<exists>j \<ge> i. up (w j))
     \<and> (\<forall>i. \<forall>n \<in> companions p. (\<forall>j \<ge> i. scaled_to_zero (live (w j) n)) \<longrightarrow> (\<exists>j \<ge> i. \<forall>m \<ge> j. \<not> has_pods (live (w m) n)))"

text \<open>No call of a teardown scales anything up.\<close>

definition keeps_zero :: "('e \<Rightarrow> string \<Rightarrow> LiveDeployment option) \<Rightarrow> ('e, 'a) act \<Rightarrow> bool" where
  "keeps_zero live m \<longleftrightarrow> (\<forall>s n. scaled_to_zero (live s n) \<longrightarrow> scaled_to_zero (live (final (m s)) n))"

named_theorems keeps_zero_intros \<open>computations that scale nothing up\<close>

lemma keeps_zero_rules [keeps_zero_intros]:
  "keeps_zero live (ret a)" "keeps_zero live (raise e)" "keeps_zero live (lift r)"
  "keeps_zero live m \<Longrightarrow> keeps_zero live (attempt m)"
  "keeps_zero live m \<Longrightarrow> (\<And>a. keeps_zero live (f a)) \<Longrightarrow> keeps_zero live (bind_io m f)"
  by (auto simp: keeps_zero_def ret_def raise_def lift_def attempt_def bind_io_def split: prod.split sum.split)
    (metis snd_conv)+

lemma keeps_zero_loops [keeps_zero_intros]:
  "(\<And>x. keeps_zero live (f x)) \<Longrightarrow> keeps_zero live (each f xs)"
  "(\<And>x a. keeps_zero live (g x a)) \<Longrightarrow> keeps_zero live (fold_io g xs a)"
  by (induction xs arbitrary: a) (auto intro: keeps_zero_intros)

lemma keeps_zero_call:
  "(\<And>s n. scaled_to_zero (live s n) \<Longrightarrow> scaled_to_zero (live (snd (f s)) n)) \<Longrightarrow> keeps_zero live (call f ev)"
  by (simp add: keeps_zero_def call_def split_beta)

lemma finalize_keeps_zero:
  assumes "drain_cluster k p live up"
  shows "keeps_zero live (finalize k p)"
proof -
  note law = drain_clusterD [OF assms]
  have get: "keeps_zero live (get_workload k p w)" for w
    unfolding get_workload_def Get_def by (rule keeps_zero_call) (simp add: law(1))
  have update: "keeps_zero live (Update ODeployment (k_deployments k) (d\<lparr>d_replicas := Some 0\<rparr>))" for d
  proof -
    let ?d = "d\<lparr>d_replicas := Some 0\<rparr>"
    have "scaled_to_zero (live (snd (raw_update (k_deployments k) ?d s)) n)" if "scaled_to_zero (live s n)" for s n
      using law(2) [of ?d s] that by (auto simp: scaled_to_zero_def)
    then show ?thesis unfolding Update_def by (rule keeps_zero_call)
  qed
  have delete: "keeps_zero live (delete_workload k p w)" for w
  proof -
    have "scaled_to_zero (live (snd (raw_delete (k_deployments k) (jp_namespace p) m s)) n)" if "scaled_to_zero (live s n)" for s n m
      using law(3) [of m s] that by (auto simp: scaled_to_zero_def)
    then show ?thesis unfolding delete_workload_def DeleteIfExists_def Delete_def by (intro keeps_zero_intros keeps_zero_call)
  qed
  have plugin: "keeps_zero live (Update OPlugin (k_plugins k) q)" for q
    unfolding Update_def by (rule keeps_zero_call) (simp add: law(4))
  have "keeps_zero live (drain_one k p w b)" for w b
    unfolding drain_one_def
    by (intro keeps_zero_rules get) (auto split: sum.split intro!: keeps_zero_rules update)
  then show ?thesis unfolding finalize_def by (auto intro!: keeps_zero_intros delete plugin)
qed

text \<open>A reconcile that meets no failure scales every companion to zero and tells whether pods are left.\<close>

definition drained :: "('e \<Rightarrow> string \<Rightarrow> LiveDeployment option) \<Rightarrow> string set \<Rightarrow> 'e \<Rightarrow> 'e \<Rightarrow> bool" where
  "drained live names s s' \<longleftrightarrow> (\<forall>n. has_pods (live s' n) = has_pods (live s n)
     \<and> (n \<in> names \<or> scaled_to_zero (live s n) \<longrightarrow> scaled_to_zero (live s' n)))"

lemma drained_trans: "drained live A s s1 \<Longrightarrow> drained live B s1 s2 \<Longrightarrow> drained live (A \<union> B) s s2"
  by (auto simp: drained_def)

lemma post_drain_one_live:
  assumes "drain_cluster k p live up" and "up s"
  shows "post (drain_one k p w b) s (\<lambda>r es s'. up s' \<and> r = Inr (b \<or> has_pods (live s (WorkloadName p w))) \<and> drained live {WorkloadName p w} s s')"
proof -
  let ?n = "WorkloadName p w"
  note law = drain_clusterD [OF assms(1)]
  note get = law(6) [OF assms(2), of ?n]
  show ?thesis
  proof (cases "live s ?n")
    case None
    then show ?thesis using assms(2) unfolding drain_one_def get_workload_def Get_def
      by (simp add: post_simps get has_pods_def drained_def scaled_to_zero_def)
  next
    case (Some d)
    note name = law(5) [OF Some]
    show ?thesis
    proof (cases "d_replicas d = Some 0")
      case True
      with Some assms(2) show ?thesis unfolding drain_one_def get_workload_def Get_def
        by (simp add: post_simps get has_pods_def drained_def scaled_to_zero_def)
    next
      case False
      let ?d = "d\<lparr>d_replicas := Some 0\<rparr>"
      have "live s (d_name ?d) \<noteq> None" using Some name by simp
      from law(7) [OF assms(2) this]
      obtain s' where u: "raw_update (k_deployments k) ?d s = (Inr ?d, s')" "live s' = (live s)(?n \<mapsto> ?d)" "up s'"
        using name by auto
      have "drained live {?n} s s'" unfolding drained_def u(2) using Some by (simp add: scaled_to_zero_def has_pods_def)
      with False Some u show ?thesis unfolding drain_one_def get_workload_def Get_def Update_def
        by (simp add: post_simps get has_pods_def)
    qed
  qed
qed

lemma post_drain_live:
  assumes "drain_cluster k p live up" and "up s"
  shows "post (fold_io (drain_one k p) ws b) s (\<lambda>r es s'. up s' \<and>
    r = Inr (b \<or> list_ex (\<lambda>w. has_pods (live s (WorkloadName p w))) ws) \<and> drained live (WorkloadName p ` set ws) s s')"
  using assms(2)
proof (induction ws arbitrary: b s)
  case Nil
  then show ?case by (simp add: post_ret drained_def)
next
  case (Cons w ws)
  show ?case unfolding fold_io.simps
  proof (rule post_bindI [OF post_drain_one_live [OF assms(1) Cons.prems]])
    fix b1 es1 and s1 :: 'a
    assume 1: "up s1 \<and> Inr b1 = Inr (b \<or> has_pods (live s (WorkloadName p w))) \<and> drained live {WorkloadName p w} s s1"
    then have "has_pods (live s1 n) = has_pods (live s n)" for n by (simp add: drained_def)
    with 1 show "post (fold_io (drain_one k p) ws b1) s1 (\<lambda>r es s'. up s' \<and>
        r = Inr (b \<or> list_ex (\<lambda>w. has_pods (live s (WorkloadName p w))) (w # ws))
        \<and> drained live (WorkloadName p ` set (w # ws)) s s')"
      by (intro post_mono [OF Cons.IH]) (auto dest: drained_trans)
  qed simp
qed

lemma deletions_succeed:
  assumes "drain_cluster k p live up" and "up s"
  shows "post (each (delete_workload k p) ws) s (\<lambda>r es s'. r = Inr () \<and> up s')"
  using assms(2)
proof (induction ws arbitrary: s)
  case (Cons w ws)
  have "post (delete_workload k p w) s (\<lambda>r es s'. r = Inr () \<and> up s')"
    using drain_clusterD(8,9) [OF assms(1) Cons.prems, of "WorkloadName p w"]
    by (simp add: delete_workload_def DeleteIfExists_def Delete_def post_simps split_beta)
  then show ?case unfolding each.simps
    by (rule post_bindI) (auto intro: post_mono [OF Cons.IH])
qed (simp add: post_ret)

lemma finalize_round:
  assumes "drain_cluster k p live up" and "up s"
  shows "post (finalize k p) s (\<lambda>r es s'. r = Inr 0 \<or>
    (\<forall>n \<in> companions p. scaled_to_zero (live s' n)) \<and> (\<exists>n \<in> companions p. has_pods (live s n)))"
proof (cases "ContainsFinalizer k (jp_finalizers p) pluginFinalizer")
  case True
  let ?ws = "jps_workloads (jp_spec p)"
  have "finalize k p = bind_io (fold_io (drain_one k p) ?ws False) (\<lambda>draining.
        if draining then ret drainRequeueInterval
        else bind_io (each (delete_workload k p) ?ws) (\<lambda>_.
             bind_io (Update OPlugin (k_plugins k) (without_finalizer k p)) (\<lambda>_. ret 0)))"
    using True by (simp add: finalize_def)
  then show ?thesis
  proof (elim ssubst, intro post_bindI [OF post_drain_live [OF assms]])
    fix draining es and s1 :: 'a
    assume 1: "up s1 \<and> Inr draining = Inr (False \<or> list_ex (\<lambda>w. has_pods (live s (WorkloadName p w))) ?ws)
      \<and> drained live (WorkloadName p ` set ?ws) s s1"
    have "post (Update OPlugin (k_plugins k) (without_finalizer k p)) s2 (\<lambda>r es s'. is_ok r)" if "up s2" for s2
      using drain_clusterD(10) [OF assms(1) that, of "without_finalizer k p"] by (simp add: Update_def post_call split_beta)
    then have "post (bind_io (Update OPlugin (k_plugins k) (without_finalizer k p)) (\<lambda>_. ret 0)) s2 (\<lambda>r es s'. r = Inr 0)" if "up s2" for s2
      by (rule post_bindI [OF _]) (use that in \<open>simp_all add: post_ret\<close>)
    then have "post (bind_io (each (delete_workload k p) ?ws) (\<lambda>_.
             bind_io (Update OPlugin (k_plugins k) (without_finalizer k p)) (\<lambda>_. ret 0))) s1 (\<lambda>r es s'. r = Inr 0)"
      by (intro post_bindI [OF deletions_succeed [OF assms(1)]]) (use 1 in simp_all)
    with 1 show "post (if draining then ret drainRequeueInterval
        else bind_io (each (delete_workload k p) ?ws) (\<lambda>_.
             bind_io (Update OPlugin (k_plugins k) (without_finalizer k p)) (\<lambda>_. ret 0))) s1
        (\<lambda>r es' s'. r = Inr 0 \<or> (\<forall>n \<in> companions p. scaled_to_zero (live s' n)) \<and> (\<exists>n \<in> companions p. has_pods (live s n)))"
      by (auto simp: post_ret drained_def companions_def list_ex_iff elim: post_mono)
  qed simp
qed (simp add: finalize_def post_ret)

text \<open>
  C12. A teardown ends. The reconciles of a deleted plugin may fail, in any call and any number of times, and its pods may take any
  time to stop: as long as reconciles go through again and again, nobody scales a companion up, and the pods of a
  Deployment that stays scaled to zero are gone eventually, some reconcile deletes the companions, removes the finalizer and asks
  for no further one. In particular the operator itself scales every companion to zero and never waits for anything but pods.
\<close>

theorem drain_terminates:
  assumes cluster: "drain_cluster k p live up" and fair: "fair p live up between (rounds k p between s)"
  shows "\<exists>i. result (finalize k p (rounds k p between s i)) = Inr 0"
proof (rule ccontr)
  let ?w = "rounds k p between s"
  assume "\<nexists>i. result (finalize k p (?w i)) = Inr 0"
  then have busy: "(\<forall>n \<in> companions p. scaled_to_zero (live (final (finalize k p (?w i))) n)) \<and> (\<exists>n \<in> companions p. has_pods (live (?w i) n))"
    if "up (?w i)" for i
    using finalize_round [OF cluster that] by (auto simp: post_iff)
  have keep: "scaled_to_zero (live (?w (Suc i)) n)" if "n \<in> companions p" "scaled_to_zero (live (final (finalize k p (?w i))) n)" for i n
    using fair that by (simp add: fair_def)
  have step: "scaled_to_zero (live (?w (Suc i)) n)" if "n \<in> companions p" "scaled_to_zero (live (?w i) n)" for i n
    using finalize_keeps_zero [OF cluster] that by (intro keep) (simp_all add: keeps_zero_def)
  obtain i where "up (?w i)" using fair unfolding fair_def by blast
  with busy keep have start: "scaled_to_zero (live (?w (Suc i)) n)" if "n \<in> companions p" for n using that by blast
  have zero: "scaled_to_zero (live (?w j) n)" if "n \<in> companions p" "Suc i \<le> j" for n j
    using that(2) by (induction rule: dec_induct) (use that(1) start step in blast)+
  have "\<exists>j. \<forall>m \<ge> j. \<not> has_pods (live (?w m) n)" if "n \<in> companions p" for n
    using fair zero that unfolding fair_def by blast
  then obtain f where f: "\<not> has_pods (live (?w m) n)" if "n \<in> companions p" "f n \<le> m" for n m by metis
  have "finite (companions p)" by (simp add: companions_def)
  then have later: "f n \<le> Max (insert 0 (f ` companions p))" if "n \<in> companions p" for n using that by simp
  obtain m where "Max (insert 0 (f ` companions p)) \<le> m" "up (?w m)" using fair unfolding fair_def by blast
  with busy f later show False by (meson order_trans)
qed

text \<open>
  A cluster whose Deployments are the entries of a map. Every other reconcile meets a server that does not answer, and pods of
  Deployments scaled to zero stop after the tenth reconcile only.
\<close>

definition stored :: "(string \<Rightarrow> LiveDeployment option) \<Rightarrow> string \<Rightarrow> LiveDeployment option" where
  "stored s n = (case s n of None \<Rightarrow> None | Some d \<Rightarrow> if d_name d = n then Some d else None)"

type_synonym drain_world = "nat \<times> (string \<Rightarrow> LiveDeployment option)"

definition memory_deployments :: "drain_world cluster" where
  "memory_deployments = empty_cluster
     \<lparr>k_deployments := empty_store
        \<lparr>raw_get := (\<lambda>ns n (t, m). (if 0 < t then Inl (KubeErr ''timeout'')
           else case stored m n of None \<Rightarrow> Inl NotFound | Some d \<Rightarrow> Inr d, (t, m))),
         raw_update := (\<lambda>d (t, m). if 0 < t then (Inl Conflict, (t, m)) else (Inr d, (t, m(d_name d \<mapsto> d)))),
         raw_delete := (\<lambda>ns n (t, m). if 0 < t then (Inl (KubeErr ''timeout''), (t, m)) else (Inr (), (t, m(n := None))))\<rparr>,
      k_plugins := empty_store\<lparr>raw_update := (\<lambda>q (t, m). (if 0 < t then Inl Conflict else Inr q, (t, m)))\<rparr>\<rparr>"

definition stop_pods :: "(string \<Rightarrow> LiveDeployment option) \<Rightarrow> string \<Rightarrow> LiveDeployment option" where
  "stop_pods s n = map_option (\<lambda>d. if d_replicas d = Some 0 then d\<lparr>ld_statusReplicas := 0\<rparr> else d) (s n)"

definition slow_cluster :: "nat \<Rightarrow> drain_world \<Rightarrow> drain_world" where
  "slow_cluster i = (\<lambda>(t, m). (i mod 2, if i < 10 then m else stop_pods m))"

definition torn_down :: JellyfinPlugin where
  "torn_down = (sample_plugin ''a'')\<lparr>jp_deleting := True, jp_finalizers := [pluginFinalizer],
     jp_spec := no_plugin_spec\<lparr>jps_workloads := [sample_workload ''w'']\<rparr>\<rparr>"

definition live_deployment :: "string \<Rightarrow> int32 option \<Rightarrow> int32 \<Rightarrow> LiveDeployment" where
  "live_deployment n replicas pods = \<lparr>d_name = n, d_namespace = ''media'', d_labels = [], d_replicas = replicas,
     d_selector = [], d_strategy = '''', d_template = \<lparr>pt_labels = [], pt_annotations = [], pt_spec = no_pod\<rparr>,
     ld_created = True, ld_owners = [], ld_statusReplicas = pods, ld_readyReplicas = pods, ld_availableReplicas = pods\<rparr>"

abbreviation live_in :: "drain_world \<Rightarrow> string \<Rightarrow> LiveDeployment option" where "live_in s \<equiv> stored (snd s)"

abbreviation answering :: "drain_world \<Rightarrow> bool" where "answering s \<equiv> fst s = 0"

lemma stored_upd: "stored (m(n := None)) = (stored m)(n := None)" "stored (m(d_name d \<mapsto> d)) = (stored m)(d_name d \<mapsto> d)"
  by (auto simp: stored_def fun_eq_iff)

lemma memory_drain_cluster: "drain_cluster memory_deployments p live_in answering"
  unfolding drain_cluster_def
  by (auto simp: memory_deployments_def stored_upd IgnoreNotFound_def stored_def split: option.splits if_splits)

lemma stop_pods_zero: "scaled_to_zero (stored m n) \<Longrightarrow> scaled_to_zero (stored (stop_pods m) n)"
  "scaled_to_zero (stored m n) \<Longrightarrow> \<not> has_pods (stored (stop_pods m) n)"
  by (auto simp: scaled_to_zero_def has_pods_def stored_def stop_pods_def split: option.splits)

lemma slow_cluster_fair: "fair p live_in answering slow_cluster (rounds memory_deployments p slow_cluster s)"
proof -
  let ?w = "rounds memory_deployments p slow_cluster s"
  have pods: "\<not> has_pods (live_in (?w m) n)" if zero: "scaled_to_zero (live_in (?w (m - 1)) n)" and "10 < m" for m n
  proof -
    obtain i where m: "m = Suc i" "10 \<le> i" using \<open>10 < m\<close> by (cases m) auto
    have "scaled_to_zero (live_in (final (finalize memory_deployments p (?w i))) n)"
      using finalize_keeps_zero [OF memory_drain_cluster] zero unfolding keeps_zero_def m diff_Suc_1 by blast
    then show ?thesis using m(2) stop_pods_zero(2) by (simp add: m(1) slow_cluster_def split_beta)
  qed
  have "\<exists>j \<ge> i. \<forall>m \<ge> j. \<not> has_pods (live_in (?w m) n)" if "\<forall>j \<ge> i. scaled_to_zero (live_in (?w j) n)" for i n
    by (rule exI [of _ "i + 11"]) (use that pods in simp)
  moreover have "\<exists>j \<ge> i. answering (?w j)" for i
    by (rule exI [of _ "Suc (2 * i)"]) (simp add: slow_cluster_def split_beta)
  ultimately show ?thesis by (auto simp: fair_def slow_cluster_def split_beta stop_pods_zero)
qed

theorem drain_terminates_witness:
  "\<exists>i. result (finalize memory_deployments torn_down
     (rounds memory_deployments torn_down slow_cluster (1, [''a-w'' \<mapsto> live_deployment ''a-w'' (Some 3) 3]) i)) = Inr 0"
  by (rule drain_terminates [OF memory_drain_cluster slow_cluster_fair])

end
