(* ===== verification/Plugin_Correct.thy ===== *)
theory Plugin_Correct
  imports Plugin_Teardown
begin

text \<open>
  What the plugin reconciler keeps of the spec in the cluster and in the status: pruning touches only companions of removed
  workloads, the replica counts are sums modulo \<open>2 ^ 32\<close>, and the reported phase decides whether the plugin enters the
  instance's pod.
\<close>

section \<open>Pruning\<close>

text \<open>
  The deletions that the calls contain are of Deployments just listed for this plugin, made by the operator for a
  workload that the plugin's spec no longer has.
\<close>

definition prunes :: "JellyfinPlugin \<Rightarrow> event list \<Rightarrow> event \<Rightarrow> bool" where
  "prunes p es e \<longleftrightarrow> (case e of Deleted kd ns n good \<Rightarrow> kd = KDeployment
     \<and> (\<exists>items dep workload. Listed KDeployment (jp_namespace p) [(PluginLabel, jp_name p)] (Inr (map ODeployment items)) \<in> set es
          \<and> dep \<in> set items \<and> d_namespace dep = ns \<and> d_name dep = n
          \<and> map_of (d_labels dep) ManagedByLabel = Some ManagedByValue
          \<and> map_of (d_labels dep) WorkloadLabel = Some workload
          \<and> workload \<notin> w_name ` set (jps_workloads (jp_spec p)))
   | _ \<Rightarrow> True)"

definition pruned :: "JellyfinPlugin \<Rightarrow> LiveDeployment list \<Rightarrow> event list" where
  "pruned p items = map (\<lambda>dep. Deleted KDeployment (d_namespace dep) (d_name dep) True)
     (filter (stale_workload (string_set (map w_name (jps_workloads (jp_spec p))))) items)"

lemma stale_workload_iff:
  "stale_workload (string_set (map w_name ws)) dep \<longleftrightarrow> map_of (d_labels dep) ManagedByLabel = Some ManagedByValue
     \<and> (\<exists>workload. map_of (d_labels dep) WorkloadLabel = Some workload \<and> workload \<notin> w_name ` set ws)"
proof -
  have "deref x '''' = ManagedByValue \<longleftrightarrow> x = Some ManagedByValue" for x
    by (cases x) (simp_all add: ManagedByValue_def)
  then show ?thesis by (auto simp: stale_workload_def split: option.splits)
qed

definition prune_item :: "'e cluster \<Rightarrow> (string, bool) go_map \<Rightarrow> LiveDeployment \<Rightarrow> ('e, unit) act" where
  "prune_item k desired dep = (if stale_workload desired dep
     then DeleteIfExists KDeployment (k_deployments k) (d_namespace dep) (d_name dep) else ret ())"

definition stale_deletion :: "(string, bool) go_map \<Rightarrow> LiveDeployment list \<Rightarrow> event \<Rightarrow> bool" where
  "stale_deletion desired items e \<longleftrightarrow> (\<exists>dep good. e = Deleted KDeployment (d_namespace dep) (d_name dep) good
     \<and> dep \<in> set items \<and> stale_workload desired dep)"

lemma stale_deletion_Cons: "stale_deletion desired items e \<Longrightarrow> stale_deletion desired (dep # items) e"
  by (auto simp: stale_deletion_def)

lemma post_prune_items:
  "post (each (prune_item k desired) items) s (\<lambda>r es s'. list_all (stale_deletion desired items) es
     \<and> (case r of Inl e \<Rightarrow> True | Inr u \<Rightarrow> es = map (\<lambda>dep. Deleted KDeployment (d_namespace dep) (d_name dep) True)
          (filter (stale_workload desired) items)))"
proof (induction items arbitrary: s)
  case (Cons dep items)
  show ?case
  proof (cases "stale_workload desired dep")
    case True
    then have item: "prune_item k desired dep = DeleteIfExists KDeployment (k_deployments k) (d_namespace dep) (d_name dep)"
      by (simp add: prune_item_def)
    then have this_one: "stale_deletion desired (dep # items) (Deleted KDeployment (d_namespace dep) (d_name dep) good)" for good
      using True by (auto simp: stale_deletion_def)
    show ?thesis unfolding each.simps item
      by (intro post_bindI [OF post_DeleteIfExists]; (rule post_mono [OF Cons.IH])?)
        (use this_one True in \<open>auto intro: stale_deletion_Cons list.pred_mono_strong split: sum.splits\<close>)
  next
    case False
    then have item: "prune_item k desired dep = ret ()" by (simp add: prune_item_def)
    show ?thesis unfolding each.simps item post_bind post_ret sum.case
      by (rule post_mono [OF Cons.IH]) (use False in \<open>auto intro: stale_deletion_Cons list.pred_mono_strong split: sum.splits\<close>)
  qed
qed (simp add: post_ret)

fun upserted :: "JellyfinPlugin \<Rightarrow> PluginWorkload \<Rightarrow> event \<Rightarrow> bool" where
  "upserted p w (Upserted kd ns n answer) = (kd = KDeployment \<and> ns = jp_namespace p \<and> n = WorkloadName p w \<and> is_ok answer)"
| "upserted p w e = False"

fun not_deletion :: "event \<Rightarrow> bool" where
  "not_deletion (Deleted kd ns n good) = False"
| "not_deletion e = True"

lemma not_deletion_prunes: "not_deletion e \<Longrightarrow> prunes p es e"
  by (cases e) (simp_all add: prunes_def)

definition upsert_workload :: "'e cluster \<Rightarrow> JellyfinPlugin \<Rightarrow> Jellyfin option \<Rightarrow> PluginWorkload \<Rightarrow> ('e, unit) act" where
  "upsert_workload k p jfo w = (let dep = BuildWorkloadDeployment jfo p w in
     bind_io (CreateOrUpdate ODeployment KDeployment (k_deployments k) (d_namespace dep) (d_name dep) (workload_mutate k p dep))
       (\<lambda>_. ret ()))"

lemma post_upsert_workload:
  "post (upsert_workload k p jfo w) s (\<lambda>r es s'. \<exists>e. es = [e] \<and> not_deletion e \<and> (is_ok r \<longrightarrow> upserted p w e))"
  by (auto simp: upsert_workload_def Let_def CreateOrUpdate_def post_simps BuildWorkloadDeployment_def split: prod.split sum.split)

lemma post_upsert_workloads:
  "post (each (upsert_workload k p jfo) ws) s (\<lambda>r es s'. list_all not_deletion es
     \<and> (case r of Inl e \<Rightarrow> True | Inr u \<Rightarrow> list_all2 (upserted p) ws es))"
proof (induction ws arbitrary: s)
  case (Cons w ws)
  show ?case unfolding each.simps
    by (rule post_bindI [OF post_upsert_workload]; (rule post_mono [OF Cons.IH])?) (auto split: sum.splits)
qed (simp add: post_ret)

text \<open>
  What \<open>reconcileWorkloads\<close> does: it deletes nothing but what \<open>prunes\<close> allows, and when it succeeds it has created
  or updated the Deployment of every workload in the order of the spec, listed the plugin's
  Deployments, and deleted exactly the stale ones.
\<close>

definition companions_reconciled :: "JellyfinPlugin \<Rightarrow> go_error + unit \<Rightarrow> event list \<Rightarrow> bool" where
  "companions_reconciled p r es \<longleftrightarrow> list_all (prunes p es) es
     \<and> (case r of Inl e \<Rightarrow> True | Inr u \<Rightarrow> \<exists>upserts items. list_all2 (upserted p) (jps_workloads (jp_spec p)) upserts
          \<and> es = upserts @ Listed KDeployment (jp_namespace p) [(PluginLabel, jp_name p)] (Inr (map ODeployment items)) # pruned p items)"

lemma stale_deletion_prunes:
  assumes "stale_deletion (string_set (map w_name (jps_workloads (jp_spec p)))) items e"
    and "Listed KDeployment (jp_namespace p) [(PluginLabel, jp_name p)] (Inr (map ODeployment items)) \<in> set es"
  shows "prunes p es e"
  using assms unfolding stale_deletion_def prunes_def stale_workload_iff by fastforce

lemma post_list_workloads:
  "post (list_workloads k p) s (\<lambda>r es s'. es = [Listed KDeployment (jp_namespace p) [(PluginLabel, jp_name p)] (map_ok (map ODeployment) r)])"
  by (simp add: list_workloads_def List_in_def post_call split: prod.split)

text \<open>
  C13. Companions follow the spec. In every run of \<open>reconcileWorkloads\<close> the only Deployments deleted are managed companions
  that were just listed under this plugin's label and whose workload the spec no longer has; a run that
  succeeds has upserted every declared workload, in order, and deleted all such stale companions and nothing else.
\<close>

theorem reconcileWorkloads_companions: "post (reconcileWorkloads k p jfo) s (\<lambda>r es s'. companions_reconciled p r es)"
proof -
  let ?desired = "string_set (map w_name (jps_workloads (jp_spec p)))"
  have unfold: "reconcileWorkloads k p jfo = bind_io (each (upsert_workload k p jfo) (jps_workloads (jp_spec p))) (\<lambda>_.
      bind_io (list_workloads k p) (each (prune_item k ?desired)))"
    by (simp add: reconcileWorkloads_def pruneWorkloads_def upsert_workload_def [abs_def] prune_item_def [abs_def])
  show ?thesis unfolding unfold
  proof (rule post_bindI [OF post_upsert_workloads])
    fix e :: go_error and es and s1 :: 'a
    assume "list_all not_deletion es \<and> (case Inl e of Inl e \<Rightarrow> True | Inr u \<Rightarrow> list_all2 (upserted p) (jps_workloads (jp_spec p)) es)"
    then show "companions_reconciled p (Inl e) es"
      by (auto simp: companions_reconciled_def list_all_iff intro: not_deletion_prunes)
  next
    fix u es and s1 :: 'a
    assume 1: "list_all not_deletion es \<and> (case Inr u of Inl e \<Rightarrow> True | Inr u \<Rightarrow> list_all2 (upserted p) (jps_workloads (jp_spec p)) es)"
    show "post (bind_io (list_workloads k p) (each (prune_item k ?desired))) s1 (\<lambda>r es' s'. companions_reconciled p r (es @ es'))"
    proof (rule post_bindI [OF post_list_workloads])
      fix e :: go_error and es2 and s2 :: 'a
      assume "es2 = [Listed KDeployment (jp_namespace p) [(PluginLabel, jp_name p)] (map_ok (map ODeployment) (Inl e))]"
      with 1 show "companions_reconciled p (Inl e) (es @ es2)"
        by (auto simp: companions_reconciled_def list_all_iff intro: not_deletion_prunes)
    next
      fix items es2 and s2 :: 'a
      assume 2: "es2 = [Listed KDeployment (jp_namespace p) [(PluginLabel, jp_name p)] (map_ok (map ODeployment) (Inr items))]"
      show "post (each (prune_item k ?desired) items) s2 (\<lambda>r es' s'. companions_reconciled p r (es @ es2 @ es'))"
      proof (rule post_mono [OF post_prune_items])
        fix r :: "go_error + unit" and es3 and s3 :: 'a
        assume 3: "list_all (stale_deletion ?desired items) es3 \<and> (case r of Inl e \<Rightarrow> True
          | Inr u \<Rightarrow> es3 = map (\<lambda>dep. Deleted KDeployment (d_namespace dep) (d_name dep) True) (filter (stale_workload ?desired) items))"
        have "prunes p (es @ es2 @ es3) e" if "e \<in> set (es @ es2 @ es3)" for e
          using that 1 2 3 by (auto simp: list_all_iff intro: not_deletion_prunes stale_deletion_prunes)
        then show "companions_reconciled p r (es @ es2 @ es3)"
          using 1 2 3 unfolding companions_reconciled_def list_all_iff
          by (cases r) (simp_all add: pruned_def, blast)
      qed
    qed
  qed
qed

section \<open>Status\<close>

text \<open>The replica counts of the Deployments that could be read, as integers.\<close>

definition desired_sum :: "(go_error + LiveDeployment) list \<Rightarrow> int" where
  "desired_sum answers = (\<Sum>a\<leftarrow>answers. case a of Inl e \<Rightarrow> 0 | Inr dep \<Rightarrow> sint (deref (d_replicas dep) 0))"

definition ready_sum :: "(go_error + LiveDeployment) list \<Rightarrow> int" where
  "ready_sum answers = (\<Sum>a\<leftarrow>answers. case a of Inl e \<Rightarrow> 0 | Inr dep \<Rightarrow> sint (ld_readyReplicas dep))"

definition workload_reads :: "JellyfinPlugin \<Rightarrow> (go_error + LiveDeployment) list \<Rightarrow> event list" where
  "workload_reads p answers = map2 (\<lambda>w a. Got KDeployment (jp_namespace p) (WorkloadName p w) (map_ok ODeployment a))
     (jps_workloads (jp_spec p)) answers"

lemma post_count_one:
  "post (count_one k p w (a, b)) s (\<lambda>r es s'. \<exists>x. es = [Got KDeployment (jp_namespace p) (WorkloadName p w) (map_ok ODeployment x)]
     \<and> r = Inr (a + word_of_int (desired_sum [x]), b + word_of_int (ready_sum [x])))"
  unfolding count_one_def prod.case
proof (rule post_bindI [OF post_get_workload])
  fix x es and s1 :: 'a
  assume "case Inr x of Inl e \<Rightarrow> False
     | Inr x \<Rightarrow> es = [Got KDeployment (jp_namespace p) (WorkloadName p w) (map_ok ODeployment x)]"
  then show "post (ret (case x of Inl e \<Rightarrow> (a, b) | Inr dep \<Rightarrow> (a + deref (d_replicas dep) 0, b + ld_readyReplicas dep))) s1
     (\<lambda>r es' s'. \<exists>x. es @ es' = [Got KDeployment (jp_namespace p) (WorkloadName p w) (map_ok ODeployment x)]
       \<and> r = Inr (a + word_of_int (desired_sum [x]), b + word_of_int (ready_sum [x])))"
    unfolding post_ret by (intro exI [of _ x]) (cases x; simp add: desired_sum_def ready_sum_def)
qed simp

lemma post_counts:
  "post (fold_io (count_one k p) ws (a, b)) s (\<lambda>r es s'. \<exists>answers. length answers = length ws
     \<and> es = map2 (\<lambda>w x. Got KDeployment (jp_namespace p) (WorkloadName p w) (map_ok ODeployment x)) ws answers
     \<and> r = Inr (a + word_of_int (desired_sum answers), b + word_of_int (ready_sum answers)))"
proof (induction ws arbitrary: a b s)
  case Nil
  show ?case by (auto simp: post_ret desired_sum_def ready_sum_def)
next
  case (Cons w ws)
  show ?case unfolding fold_io.simps
  proof (rule post_bindI [OF post_count_one])
    fix c :: "int32 \<times> int32" and es and s1 :: 'a
    assume "\<exists>x. es = [Got KDeployment (jp_namespace p) (WorkloadName p w) (map_ok ODeployment x)]
      \<and> Inr c = Inr (a + word_of_int (desired_sum [x]), b + word_of_int (ready_sum [x]))"
    then obtain x where es: "es = [Got KDeployment (jp_namespace p) (WorkloadName p w) (map_ok ODeployment x)]"
      and c: "c = (a + word_of_int (desired_sum [x]), b + word_of_int (ready_sum [x]))" by auto
    show "post (fold_io (count_one k p) ws c) s1 (\<lambda>r es' s'. \<exists>answers. length answers = length (w # ws)
       \<and> es @ es' = map2 (\<lambda>w x. Got KDeployment (jp_namespace p) (WorkloadName p w) (map_ok ODeployment x)) (w # ws) answers
       \<and> r = Inr (a + word_of_int (desired_sum answers), b + word_of_int (ready_sum answers)))"
      unfolding c
    proof (rule post_mono [OF Cons.IH])
      fix r es2 and s2 :: 'a
      assume "\<exists>answers. length answers = length ws
        \<and> es2 = map2 (\<lambda>w x. Got KDeployment (jp_namespace p) (WorkloadName p w) (map_ok ODeployment x)) ws answers
        \<and> r = Inr (a + word_of_int (desired_sum [x]) + word_of_int (desired_sum answers),
                   b + word_of_int (ready_sum [x]) + word_of_int (ready_sum answers))"
      then obtain answers where "length answers = length ws"
        "es2 = map2 (\<lambda>w x. Got KDeployment (jp_namespace p) (WorkloadName p w) (map_ok ODeployment x)) ws answers"
        "r = Inr (a + word_of_int (desired_sum [x]) + word_of_int (desired_sum answers),
                   b + word_of_int (ready_sum [x]) + word_of_int (ready_sum answers))" by blast
      then show "\<exists>answers. length answers = length (w # ws)
        \<and> es @ es2 = map2 (\<lambda>w x. Got KDeployment (jp_namespace p) (WorkloadName p w) (map_ok ODeployment x)) (w # ws) answers
        \<and> r = Inr (a + word_of_int (desired_sum answers), b + word_of_int (ready_sum answers))"
        by (intro exI [of _ "x # answers"]) (simp add: es desired_sum_def ready_sum_def add.assoc)
    qed
  qed simp
qed

lemma post_StatusUpdate: "post (StatusUpdate mk st x) s (\<lambda>r es s'. es = [StatusUpdated (mk x) (is_ok r)])"
  by (simp add: StatusUpdate_def post_call split: prod.split)

text \<open>The phase that a plugin should have, with the replica counts as integers.\<close>

definition phase_of :: "JellyfinPlugin \<Rightarrow> Jellyfin option \<Rightarrow> bool \<Rightarrow> int \<Rightarrow> int \<Rightarrow> string" where
  "phase_of p jfo abiOK desired ready =
     (if \<not> abiOK then PluginPhaseFailed else if jfo = None then PluginPhasePending
      else if jps_workloads (jp_spec p) = [] \<or> (0 < desired \<and> desired \<le> ready) then PluginPhaseLoaded
      else PluginPhaseWorkloadsReady)"

lemmas status_updates = plugin_status_def set_plugin_condition_def set_phase_def

lemma plugin_status_phase:
  "jpst_phase (jp_status (plugin_status k p jfo (ok, reason, msg) (d, y))) = phase_of p jfo ok (sint d) (sint y)"
  "jpst_workloadReadyReplicas (jp_status (plugin_status k p jfo (ok, reason, msg) (d, y))) = y"
  by (simp_all add: status_updates Let_def phase_of_def workloadsReady_def)

lemma sint_of_int32: "- (2 ^ 31) \<le> i \<Longrightarrow> i < 2 ^ 31 \<Longrightarrow> sint (word_of_int i :: int32) = i"
  by (simp add: signed_of_int signed_take_bit_int_eq_self)

definition reports_counts :: "'e cluster \<Rightarrow> JellyfinPlugin \<Rightarrow> Jellyfin option \<Rightarrow> bool \<Rightarrow> event list \<Rightarrow> bool" where
  "reports_counts k p jfo abiOK es \<longleftrightarrow> (\<exists>answers p' good. length answers = length (jps_workloads (jp_spec p))
     \<and> es = workload_reads p answers @ [StatusUpdated (OPlugin p') good]
     \<and> jpst_workloadReadyReplicas (jp_status p') = word_of_int (ready_sum answers)
     \<and> (let d = desired_sum answers; y = ready_sum answers in
         - (2 ^ 31) \<le> d \<and> d < 2 ^ 31 \<and> - (2 ^ 31) \<le> y \<and> y < 2 ^ 31 \<longrightarrow>
         sint (jpst_workloadReadyReplicas (jp_status p')) = y \<and> jpst_phase (jp_status p') = phase_of p jfo abiOK d y))"

text \<open>
  C14. Replica counts. \<open>updateStatus\<close> reads the Deployment of every declared workload once, in order, and then writes the
  plugin's status, whatever the reads answer. The count written is the sum of the ready replicas modulo
  \<open>2 ^ 32\<close>; while both sums fit \<open>int32\<close> it is exact, and the phase written is the one the true sums call for.
\<close>

theorem updateStatus_counts: "post (updateStatus k p jfo abi) s (\<lambda>r es s'. reports_counts k p jfo (fst abi) es)"
  unfolding updateStatus_def
proof (rule post_bindI [OF post_counts])
  fix c :: "int32 \<times> int32" and es and s1 :: 'a
  assume "\<exists>answers. length answers = length (jps_workloads (jp_spec p))
     \<and> es = map2 (\<lambda>w x. Got KDeployment (jp_namespace p) (WorkloadName p w) (map_ok ODeployment x)) (jps_workloads (jp_spec p)) answers
     \<and> Inr c = Inr (0 + word_of_int (desired_sum answers), 0 + word_of_int (ready_sum answers))"
  then obtain answers where a: "length answers = length (jps_workloads (jp_spec p))" "es = workload_reads p answers"
    "c = (word_of_int (desired_sum answers), word_of_int (ready_sum answers))" by (auto simp: workload_reads_def)
  obtain ok reason msg where abi: "abi = (ok, reason, msg)" by (cases abi)
  show "post (StatusUpdate OPlugin (k_plugins k) (plugin_status k p jfo abi c)) s1
    (\<lambda>r es' s'. reports_counts k p jfo (fst abi) (es @ es'))"
    by (rule post_mono [OF post_StatusUpdate])
      (auto simp: reports_counts_def Let_def abi a plugin_status_phase sint_of_int32 intro!: exI [of _ answers])
qed auto

lemma healthy_plugin_status:
  assumes "conditions_work k"
  shows "healthy k (plugin_status k p jfo (ok, reason, msg) (d, y)) \<longleftrightarrow> ok"
  by (simp add: status_updates Let_def find_setCondition [OF assms] condition_names ConditionTrue_def ConditionFalse_def
        healthy_def PluginPhaseFailed_def PluginPhasePending_def PluginPhaseLoaded_def PluginPhaseWorkloadsReady_def)



text \<open>Whatever the companions report, a plugin that passes the ABI check is not \<open>Failed\<close>, and stays in the pod.\<close>

lemma failed_only_by_abi:
  assumes "conditions_work k" and "fst abi"
  shows "jpst_phase (jp_status (plugin_status k p jfo abi counts)) \<noteq> PluginPhaseFailed \<and> healthy k (plugin_status k p jfo abi counts)"
proof -
  obtain reason msg d y where "abi = (True, reason, msg)" "counts = (d, y)" using assms(2) by (cases abi, cases counts) auto
  then show ?thesis using healthy_plugin_status [OF assms(1), of p jfo True reason msg d y] by (auto simp: healthy_def)
qed

text \<open>
  The workers are reported as not available when the plugin is bound to no instance or has failed its ABI check, with all replicas
  ready or no workload declared; and when all workloads are scaled to zero.
\<close>

lemma workers_unavailable_unbound:
  assumes "conditions_work k" and "jfo = None \<or> \<not> fst abi \<or> jps_workloads (jp_spec p) \<noteq> [] \<and> fst counts = 0"
  shows "map_option cond_status (FindStatusCondition k (jpst_conditions (jp_status (plugin_status k p jfo abi counts))) conditionWorkersAvailable)
    = Some ConditionFalse"
proof -
  obtain ok reason msg d y where "abi = (ok, reason, msg)" "counts = (d, y)" by (cases abi, cases counts)
  then show ?thesis using assms(2)
    by (auto simp: status_updates Let_def find_setCondition [OF assms(1)] condition_names workloadsReady_def)
qed

text \<open>
  A plugin that loses its instance keeps what was reported while it was bound: \<open>injected\<close> and the \<open>Injected\<close> condition are
  not reset. A plugin that fails its ABI check resets the field and keeps the condition.
\<close>

lemma unbound_plugin_stays_injected:
  assumes "conditions_work k"
  shows "jpst_injected (jp_status (plugin_status k p None (True, reason, msg) counts)) = jpst_injected (jp_status p)"
    and "FindStatusCondition k (jpst_conditions (jp_status (plugin_status k p None abi counts))) conditionInjected
      = FindStatusCondition k (jpst_conditions (jp_status p)) conditionInjected"
    and "FindStatusCondition k (jpst_conditions (jp_status (plugin_status k p jfo (False, reason, msg) counts))) conditionInjected
      = FindStatusCondition k (jpst_conditions (jp_status p)) conditionInjected"
  by (cases abi; cases counts;
      simp add: status_updates Let_def find_setCondition [OF assms] condition_names)+

text \<open>
  The installed condition does not follow the install step: it is set, to true, only for a plugin without one, and a plugin that has one
  keeps the condition it had.
\<close>

lemma installed_without_step:
  assumes "conditions_work k" and "jps_install (jp_spec p) = None"
  shows "map_option cond_status (FindStatusCondition k (jpst_conditions (jp_status
    (plugin_status k p (Some jf) (True, reason, msg) (d, y)))) conditionInstalled) = Some ConditionTrue"
  using assms(2) by (simp add: status_updates Let_def find_setCondition [OF assms(1)] condition_names)

lemma installed_never_set:
  assumes "conditions_work k" and "jps_install (jp_spec p) \<noteq> None"
  shows "FindStatusCondition k (jpst_conditions (jp_status (plugin_status k p jfo (ok, reason, msg) (d, y)))) conditionInstalled
    = FindStatusCondition k (jpst_conditions (jp_status p)) conditionInstalled"
  using assms(2) by (auto simp: status_updates Let_def find_setCondition [OF assms(1)] condition_names)

text \<open>
  A plugin that names an instance in \<open>jellyfinRef\<close> is also bound into any other instance whose selector matches
  its labels, although its own reconciler checks it against the named one.
\<close>

lemma selector_binds_foreign_plugin:
  assumes "jps_jellyfinRef (jp_spec p) = Some (jf_name a)" "js_pluginSelector (jf_spec b) = Some sel"
    and "LabelSelectorAsSelector k sel = Inr matches" "matches (jp_labels p)"
    and "jf_namespace a = jp_namespace p" "jf_namespace b = jp_namespace p"
  shows "pluginBinds k a p \<and> pluginBinds k b p"
  using assms by (simp add: pluginBinds_def)

text \<open>Services are only ever upserted: one that the spec no longer declares stays.\<close>

fun is_upsert :: "event \<Rightarrow> bool" where
  "is_upsert (Upserted kd ns n r) = True"
| "is_upsert e = False"

lemma services_never_pruned: "emits is_upsert (reconcileServices k p jfo)"
  unfolding reconcileServices_def CreateOrUpdate_def by (intro emits_intros) simp

end
