(* ===== verification/Instance_Controller.thy ===== *)
theory Instance_Controller
  imports Bindings
begin

text \<open>
  The instance reconciler (\<open>src/internal/controller/jellyfin_controller.go\<close>): it provisions the claims and volumes of an
  instance, keeps its Deployment, Services, Ingress and route equal to what the builders of the other theories ask
  for, and reports its status.
  A call of \<open>controllerutil.CreateOrUpdate\<close> is given the function that the source writes as a closure; each such
  function is a definition of its own, named \<open>..._mutate\<close>.
  The texts of the drift errors use the verb \<open>%q\<close> of \<open>fmt\<close>, which is the parameter \<open>quoted\<close>.
\<close>

definition instance_owner :: "Jellyfin \<Rightarrow> string" where
  "instance_owner jf = ''Jellyfin/'' @ jf_name jf"

definition ReadWriteOnce :: string where "ReadWriteOnce = ''ReadWriteOnce''"
definition ReadWriteMany :: string where "ReadWriteMany = ''ReadWriteMany''"
definition ResourceStorage :: string where "ResourceStorage = ''storage''"
definition ClaimBound :: string where "ClaimBound = ''Bound''"
definition VolumeBound :: string where "VolumeBound = ''Bound''"
definition VolumePending :: string where "VolumePending = ''Pending''"

text \<open>\<open>resource.MustParse\<close> of a number of gibibytes, in the units of \<^typ>\<open>quantity\<close>.\<close>

definition Gi :: "int \<Rightarrow> quantity" where "Gi n = n * 2 ^ 30 * 10 ^ 9"

section \<open>Claims\<close>

definition pvc_size_or :: "quantity \<Rightarrow> PVCSpec \<Rightarrow> quantity" where
  "pvc_size_or defaultSize spec = (if pvc_size spec = 0 then defaultSize else pvc_size spec)"

definition claim_mutate ::
  "'e cluster \<Rightarrow> Jellyfin \<Rightarrow> PVCSpec \<Rightarrow> string list \<Rightarrow> quantity \<Rightarrow> PersistentVolumeClaim \<Rightarrow> go_error + PersistentVolumeClaim" where
  "claim_mutate k jf spec modes storage pvc =
     (let pvc1 = pvc\<lparr>claim_labels := InstanceLabels jf\<rparr>;
          pvc2 = (if \<not> claim_created pvc
                  then pvc1\<lparr>claim_accessModes := modes, claim_requests := [(ResourceStorage, storage)],
                         claim_storageClassName := (if pvc_storageClassName spec \<noteq> '''' then Some (pvc_storageClassName spec)
                                                    else claim_storageClassName pvc)\<rparr>
                  else pvc1)
      in bind_res (SetControllerReference k (instance_owner jf) (claim_owners pvc2)) (\<lambda>owners.
           Inr (pvc2\<lparr>claim_owners := owners\<rparr>)))"

definition growPVC :: "'e cluster \<Rightarrow> PersistentVolumeClaim \<Rightarrow> quantity \<Rightarrow> ('e, unit) act" where
  "growPVC k pvc storage =
     (let cur = map_of (claim_requests pvc) ResourceStorage in
      if (case cur of None \<Rightarrow> False | Some c \<Rightarrow> storage = c) then ret ()
      else if (case cur of None \<Rightarrow> False | Some c \<Rightarrow> storage < c) then ret ()
      else if claim_phase pvc \<noteq> ClaimBound then ret ()
      else bind_io (attempt (Patch OClaim (k_claims k)
              (pvc\<lparr>claim_requests := map_put ResourceStorage storage (claim_requests pvc)\<rparr>) pvc)) (\<lambda>r. case r of
             Inl e \<Rightarrow> if e = Forbidden \<or> e = Invalid then ret () else raise e
           | Inr u \<Rightarrow> ret ()))"

definition ensurePVC ::
  "'e cluster \<Rightarrow> Jellyfin \<Rightarrow> string \<Rightarrow> PVCSpec \<Rightarrow> string list \<Rightarrow> quantity \<Rightarrow> ('e, unit) act" where
  "ensurePVC k jf name spec defaultModes defaultSize =
     (let storage = pvc_size_or defaultSize spec;
          modes = (if pvc_accessModes spec = [] then defaultModes else pvc_accessModes spec)
      in bind_io (CreateOrUpdate OClaim KClaim (k_claims k) (jf_namespace jf) name (claim_mutate k jf spec modes storage)) (\<lambda>pvc.
           growPVC k pvc storage))"

section \<open>Provisioned NFS volumes\<close>

definition show_bool :: "bool \<Rightarrow> string" where
  "show_bool b = (if b then ''true'' else ''false'')"

definition immutablePVDrift ::
  "(string \<Rightarrow> string) \<Rightarrow> PersistentVolume \<Rightarrow> string \<times> string \<times> bool \<Rightarrow> string \<Rightarrow> string" where
  "immutablePVDrift quoted pv want storageClass =
     (case pv_nfs pv of
        None \<Rightarrow> ''a non-NFS volume source''
      | Some (server, path, readOnly) \<Rightarrow>
          let (want_server, want_path, want_readOnly) = want in
          if server \<noteq> want_server then ''nfs.server '' @ quoted server @ '', but the spec asks for '' @ quoted want_server
          else if path \<noteq> want_path then ''nfs.path '' @ quoted path @ '', but the spec asks for '' @ quoted want_path
          else if readOnly \<noteq> want_readOnly
            then ''nfs.readOnly='' @ show_bool readOnly @ '', but the spec asks for '' @ show_bool want_readOnly
          else if pv_storageClassName pv \<noteq> storageClass
            then ''storageClassName '' @ quoted (pv_storageClassName pv) @ '', but the spec asks for '' @ quoted storageClass
          else '''')"

definition pvIsServingAClaim :: "PersistentVolume \<Rightarrow> bool" where
  "pvIsServingAClaim pv =
     (case pv_claimRef pv of
        None \<Rightarrow> False
      | Some ref \<Rightarrow> if ref_uid ref = '''' then False else pv_phase pv = VolumeBound \<or> pv_phase pv = VolumePending)"

definition migration_error :: "(string \<Rightarrow> string) \<Rightarrow> Jellyfin \<Rightarrow> MediaFolder \<Rightarrow> PersistentVolume \<Rightarrow> string \<Rightarrow> string \<Rightarrow> string \<Rightarrow> go_error" where
  "migration_error quoted jf mf existing pvName drift claim = ErrText
     (''PersistentVolume '' @ quoted pvName @ '' has '' @ drift
      @ ''; that field is immutable after creation and the volume is still bound to ''
      @ (case pv_claimRef existing of None \<Rightarrow> '''' | Some ref \<Rightarrow> ref_namespace ref @ ''/'' @ ref_name ref)
      @ ''. To migrate: set storage.media['' @ mf_name mf
      @ ''].nfs.provision=false and apply (pods fall back to an inline NFS volume source and release the claim), delete PVC ''
      @ jf_namespace jf @ ''/'' @ claim @ '' and PV '' @ pvName @ '', then set provision=true again'')"

definition nfs_capacity :: quantity where "nfs_capacity = Gi 1024"

definition volume_mutate ::
  "Jellyfin \<Rightarrow> NFSSource \<Rightarrow> string \<Rightarrow> PersistentVolume \<Rightarrow> go_error + PersistentVolume" where
  "volume_mutate jf nfs claim pv = Inr (pv\<lparr>pv_labels := InstanceLabels jf,
     pv_capacity := [(ResourceStorage, nfs_capacity)], pv_accessModes := [ReadWriteMany], pv_reclaimPolicy := ''Delete'',
     pv_mountOptions := nfs_mountOptions nfs, pv_storageClassName := nfs_storageClassName nfs,
     pv_nfs := Some (nfs_server nfs, nfs_path nfs, nfs_readOnly nfs),
     pv_claimRef := (if (case pv_claimRef pv of None \<Rightarrow> True
                         | Some ref \<Rightarrow> ref_namespace ref \<noteq> jf_namespace jf \<or> ref_name ref \<noteq> claim)
                     then Some \<lparr>ref_namespace = jf_namespace jf, ref_name = claim, ref_uid = ''''\<rparr>
                     else pv_claimRef pv)\<rparr>)"

definition nfs_claim_mutate ::
  "'e cluster \<Rightarrow> Jellyfin \<Rightarrow> NFSSource \<Rightarrow> string \<Rightarrow> PersistentVolumeClaim \<Rightarrow> go_error + PersistentVolumeClaim" where
  "nfs_claim_mutate k jf nfs pvName pvc =
     (let pvc1 = pvc\<lparr>claim_labels := InstanceLabels jf\<rparr>;
          pvc2 = (if \<not> claim_created pvc
                  then pvc1\<lparr>claim_accessModes := [ReadWriteMany], claim_requests := [(ResourceStorage, nfs_capacity)],
                         claim_volumeName := pvName, claim_storageClassName := Some (nfs_storageClassName nfs)\<rparr>
                  else pvc1)
      in bind_res (SetControllerReference k (instance_owner jf) (claim_owners pvc2)) (\<lambda>owners.
           Inr (pvc2\<lparr>claim_owners := owners\<rparr>)))"

definition pv_name_of :: "Jellyfin \<Rightarrow> MediaFolder \<Rightarrow> string" where
  "pv_name_of jf mf = MediaClaimName jf mf @ ''-pv''"

text \<open>The look at an existing volume before the upserts: a volume that has drifted ends the run with an error.\<close>

definition replace_drifted :: "'e cluster \<Rightarrow> (string \<Rightarrow> string) \<Rightarrow> Jellyfin \<Rightarrow> MediaFolder \<Rightarrow> NFSSource \<Rightarrow> ('e, unit) act" where
  "replace_drifted k quoted jf mf nfs =
     (let claim = MediaClaimName jf mf; pvName = pv_name_of jf mf in
      bind_io (attempt (Get OVolume KVolume (k_volumes k) '''' pvName)) (\<lambda>r. case r of
        Inl e \<Rightarrow> if e = NotFound then ret () else raise e
      | Inr existing \<Rightarrow>
          let drift = immutablePVDrift quoted existing (nfs_server nfs, nfs_path nfs, nfs_readOnly nfs) (nfs_storageClassName nfs) in
          if drift \<noteq> '''' then
            if pvIsServingAClaim existing then raise (migration_error quoted jf mf existing pvName drift claim)
            else bind_io (DeleteIfExists KVolume (k_volumes k) '''' pvName) (\<lambda>_.
              raise (ErrText (''replacing PersistentVolume '' @ quoted pvName @ '' ('' @ drift @ ''), retrying'')))
          else ret ()))"

definition ensureProvisionedNFS :: "'e cluster \<Rightarrow> (string \<Rightarrow> string) \<Rightarrow> Jellyfin \<Rightarrow> MediaFolder \<Rightarrow> NFSSource \<Rightarrow> ('e, unit) act" where
  "ensureProvisionedNFS k quoted jf mf nfs =
     bind_io (replace_drifted k quoted jf mf nfs) (\<lambda>_.
     bind_io (CreateOrUpdate OVolume KVolume (k_volumes k) '''' (pv_name_of jf mf) (volume_mutate jf nfs (MediaClaimName jf mf))) (\<lambda>_.
     bind_io (CreateOrUpdate OClaim KClaim (k_claims k) (jf_namespace jf) (MediaClaimName jf mf)
                (nfs_claim_mutate k jf nfs (pv_name_of jf mf))) (\<lambda>_. ret ())))"

section \<open>Storage\<close>

definition reconcile_media :: "'e cluster \<Rightarrow> (string \<Rightarrow> string) \<Rightarrow> Jellyfin \<Rightarrow> MediaFolder \<Rightarrow> ('e, unit) act" where
  "reconcile_media k quoted jf mf =
     (if mf_existingClaim mf \<noteq> '''' then ret ()
      else case mf_nfs mf of
        Some nfs \<Rightarrow> if nfs_provision nfs then ensureProvisionedNFS k quoted jf mf nfs else ret ()
      | None \<Rightarrow> (case mf_pvc mf of
            None \<Rightarrow> ret ()
          | Some pvc \<Rightarrow> if pvc_existingClaim pvc = ''''
                        then ensurePVC k jf (MediaClaimName jf mf) pvc [ReadWriteOnce] (Gi 100) else ret ()))"

definition reconcileStorage :: "'e cluster \<Rightarrow> (string \<Rightarrow> string) \<Rightarrow> Jellyfin \<Rightarrow> ('e, unit) act" where
  "reconcileStorage k quoted jf =
     (let st = js_storage (jf_spec jf) in
      bind_io (if pvc_existingClaim (st_config st) = ''''
               then ensurePVC k jf (ConfigClaimName jf) (st_config st) [ReadWriteOnce] (Gi 10) else ret ()) (\<lambda>_.
      bind_io (case st_cache st of None \<Rightarrow> ret ()
               | Some c \<Rightarrow> if pvc_existingClaim c = ''''
                           then ensurePVC k jf (CacheClaimName jf) c [ReadWriteOnce] (Gi 5) else ret ()) (\<lambda>_.
      bind_io (case st_trickplay st of None \<Rightarrow> ret ()
               | Some t \<Rightarrow> if pvc_existingClaim t = ''''
                           then ensurePVC k jf (TrickplayClaimName jf) t [ReadWriteOnce] (Gi 20) else ret ()) (\<lambda>_.
      each (reconcile_media k quoted jf) (st_media st)))))"

section \<open>Deployment, Service and Ingress\<close>

definition deployment_mutate :: "'e cluster \<Rightarrow> Jellyfin \<Rightarrow> Deployment \<Rightarrow> LiveDeployment \<Rightarrow> go_error + LiveDeployment" where
  "deployment_mutate k jf desired dep =
     bind_res (SetControllerReference k (instance_owner jf) (ld_owners dep)) (\<lambda>owners.
       Inr (dep\<lparr>d_labels := d_labels desired, d_replicas := d_replicas desired, d_selector := d_selector desired,
                d_strategy := d_strategy desired, d_template := d_template desired, ld_owners := owners\<rparr>))"

definition upsert_deployment :: "'e cluster \<Rightarrow> Jellyfin \<Rightarrow> string \<Rightarrow> Deployment \<Rightarrow> ('e, unit) act" where
  "upsert_deployment k jf name desired =
     bind_io (CreateOrUpdate ODeployment KDeployment (k_deployments k) (jf_namespace jf) name (deployment_mutate k jf desired))
       (\<lambda>_. ret ())"

definition reconcileDeployment :: "'e cluster \<Rightarrow> Jellyfin \<Rightarrow> JellyfinPlugin list \<Rightarrow> ('e, unit) act" where
  "reconcileDeployment k jf ready =
     bind_io (lift (map_err BuildErr (BuildDeployment jf ready))) (\<lambda>desired. upsert_deployment k jf (jf_name jf) desired)"

definition server_port :: "Jellyfin \<Rightarrow> int32" where
  "server_port jf = (let p = svc_port (js_service (jf_spec jf)) in if p \<noteq> 0 then p else DefaultJellyfinPort)"

text \<open>\<open>intstrFromInt\<close> of a port number is the number.\<close>

definition instance_service_mutate :: "'e cluster \<Rightarrow> Jellyfin \<Rightarrow> LiveService \<Rightarrow> go_error + LiveService" where
  "instance_service_mutate k jf svc =
     (let svcType = svc_type (js_service (jf_spec jf)) in
      bind_res (SetControllerReference k (instance_owner jf) (lsvc_owners svc)) (\<lambda>owners.
       Inr (svc\<lparr>s_labels := InstanceLabels jf, s_annotations := svc_annotations (js_service (jf_spec jf)),
                s_type := (if svcType = '''' then ''ClusterIP'' else svcType), s_selector := InstanceSelectorLabels jf,
                s_ports := [\<lparr>sp_name = PortNameHTTP, sp_port = server_port jf, sp_targetPort = DefaultJellyfinPort,
                             sp_protocol = ''TCP''\<rparr>], lsvc_owners := owners\<rparr>)))"

definition reconcileService :: "'e cluster \<Rightarrow> Jellyfin \<Rightarrow> ('e, unit) act" where
  "reconcileService k jf =
     bind_io (CreateOrUpdate OService KService (k_services k) (jf_namespace jf) (jf_name jf) (instance_service_mutate k jf))
       (\<lambda>_. ret ())"

definition ingress_mutate :: "'e cluster \<Rightarrow> Jellyfin \<Rightarrow> IngressSpec \<Rightarrow> Ingress \<Rightarrow> go_error + Ingress" where
  "ingress_mutate k jf spec ing =
     bind_res (SetControllerReference k (instance_owner jf) (ing_owners ing)) (\<lambda>owners.
       Inr (ing\<lparr>ing_labels := InstanceLabels jf, ing_annotations_of := ing_annotations spec,
                ing_class := (if ing_className spec \<noteq> '''' then Some (ing_className spec) else ing_class ing),
                ing_rules := [(ing_host spec, [\<lparr>ip_path = ''/'', ip_pathType = ''Prefix'', ip_serviceName = jf_name jf,
                                                ip_servicePort = server_port jf\<rparr>])],
                ing_tls_of := (case ing_tls spec of None \<Rightarrow> ing_tls_of ing | Some secret \<Rightarrow> [([ing_host spec], secret)]),
                ing_owners := owners\<rparr>))"

definition reconcileIngress :: "'e cluster \<Rightarrow> Jellyfin \<Rightarrow> ('e, unit) act" where
  "reconcileIngress k jf =
     (case js_ingress (jf_spec jf) of
        None \<Rightarrow> DeleteIfExists KIngress (k_ingresses k) (jf_namespace jf) (jf_name jf)
      | Some spec \<Rightarrow> bind_io (CreateOrUpdate OIngress KIngress (k_ingresses k) (jf_namespace jf) (jf_name jf)
                               (ingress_mutate k jf spec)) (\<lambda>_. ret ()))"

section \<open>Web tier and route\<close>

definition web_service_mutate :: "'e cluster \<Rightarrow> Jellyfin \<Rightarrow> Service \<Rightarrow> LiveService \<Rightarrow> go_error + LiveService" where
  "web_service_mutate k jf desired svc =
     bind_res (SetControllerReference k (instance_owner jf) (lsvc_owners svc)) (\<lambda>owners.
       Inr (svc\<lparr>s_labels := s_labels desired, s_annotations := s_annotations desired, s_type := s_type desired,
                s_selector := s_selector desired, s_ports := s_ports desired, lsvc_owners := owners\<rparr>))"

text \<open>The builders of the web tier and the route dereference the field that the guard before them has tested.\<close>

definition nil_dereference :: go_error where "nil_dereference = ErrText ''nil pointer dereference''"

definition reconcileWeb :: "'e cluster \<Rightarrow> Jellyfin \<Rightarrow> ('e, unit) act" where
  "reconcileWeb k jf =
     (if js_web (jf_spec jf) = None \<or> EffectiveMode (js_web (jf_spec jf)) = WebModeVolume then
        bind_io (DeleteIfExists KDeployment (k_deployments k) (jf_namespace jf) (WebDeploymentName jf)) (\<lambda>_.
          DeleteIfExists KService (k_services k) (jf_namespace jf) (WebServiceName jf))
      else case BuildWebDeployment jf of
        None \<Rightarrow> raise nil_dereference
      | Some desired \<Rightarrow>
          bind_io (upsert_deployment k jf (WebDeploymentName jf) desired) (\<lambda>_.
          bind_io (CreateOrUpdate OService KService (k_services k) (jf_namespace jf) (WebServiceName jf)
                     (web_service_mutate k jf (BuildWebService jf))) (\<lambda>_. ret ())))"

definition route_mutate :: "'e cluster \<Rightarrow> Jellyfin \<Rightarrow> HTTPRoute \<Rightarrow> LiveRoute \<Rightarrow> go_error + LiveRoute" where
  "route_mutate k jf desired route =
     bind_res (SetControllerReference k (instance_owner jf) (lr_owners route)) (\<lambda>owners.
       Inr (route\<lparr>hr_labels := hr_labels desired, hr_annotations := hr_annotations desired,
                  hr_parentGroup := hr_parentGroup desired, hr_parentKind := hr_parentKind desired,
                  hr_parentName := hr_parentName desired, hr_parentNamespace := hr_parentNamespace desired,
                  hr_parentSection := hr_parentSection desired, hr_hostnames := hr_hostnames desired,
                  hr_rules := hr_rules desired, lr_owners := owners\<rparr>))"

definition reconcileGateway :: "'e cluster \<Rightarrow> Jellyfin \<Rightarrow> ('e, unit) act" where
  "reconcileGateway k jf =
     (if js_gateway (jf_spec jf) = None then DeleteIfExists KRoute (k_routes k) (jf_namespace jf) (HTTPRouteName jf)
      else case BuildHTTPRoute jf of
        None \<Rightarrow> raise nil_dereference
      | Some desired \<Rightarrow> bind_io (CreateOrUpdate ORoute KRoute (k_routes k) (jf_namespace jf) (HTTPRouteName jf)
                                  (route_mutate k jf desired)) (\<lambda>_. ret ()))"

section \<open>Status\<close>

definition deployment_ready :: "go_error + LiveDeployment \<Rightarrow> bool" where
  "deployment_ready r =
     (case r of Inl e \<Rightarrow> False
      | Inr dep \<Rightarrow> let desired = deref (d_replicas dep) 1 in
          sint desired \<le> sint (ld_availableReplicas dep) \<and> 0 < sint desired)"

definition loaded_plugin :: "JellyfinPlugin \<Rightarrow> LoadedPlugin" where
  "loaded_plugin p = (let m = jps_meta (jp_spec p) in
     \<lparr>lp_name = jp_name p, lp_pluginName = pm_name m, lp_version = pm_version m, lp_guid = pm_guid m\<rparr>)"

definition instance_status :: "'e cluster \<Rightarrow> Jellyfin \<Rightarrow> JellyfinPlugin list \<Rightarrow> bool \<Rightarrow> Jellyfin" where
  "instance_status k jf plugins ready =
     (let jf1 = jf\<lparr>jf_status := (jf_status jf)\<lparr>jst_observedGeneration := jf_generation jf,
            jst_endpointService := ''http://'' @ jf_name jf @ ''.'' @ jf_namespace jf @ ''.svc:'' @ itoa (sint (server_port jf)),
            jst_endpointIngress := (case js_ingress (jf_spec jf) of None \<Rightarrow> jst_endpointIngress (jf_status jf)
              | Some ing \<Rightarrow> (if ing_tls ing \<noteq> None then ''https'' else ''http'') @ ''://'' @ ing_host ing),
            jst_loadedPlugins := map loaded_plugin plugins,
            jst_phase := (if ready then ''Ready'' else ''Pending'')\<rparr>\<rparr>
      in if ready then
           set_jf_condition k conditionPluginsLoaded ConditionTrue ''PodReady'' (itoa (int (length plugins)) @ '' plugin(s) mounted'')
             (set_jf_condition k conditionReady ConditionTrue ''DeploymentAvailable'' ''Jellyfin deployment is available'' jf1)
         else
           set_jf_condition k conditionPluginsLoaded ConditionFalse ''PodNotReady'' ''Pod not yet ready''
             (set_jf_condition k conditionReady ConditionFalse ''DeploymentNotAvailable''
                ''Waiting for Jellyfin deployment to become available'' jf1))"

definition updateInstanceStatus :: "'e cluster \<Rightarrow> Jellyfin \<Rightarrow> JellyfinPlugin list \<Rightarrow> ('e, unit) act" where
  "updateInstanceStatus k jf plugins =
     bind_io (attempt (Get ODeployment KDeployment (k_deployments k) (jf_namespace jf) (jf_name jf))) (\<lambda>r.
       writeJellyfinStatus k (instance_status k jf plugins (deployment_ready r)))"

section \<open>Reconcile\<close>

definition reconcile_instance :: "'e cluster \<Rightarrow> (string \<Rightarrow> string) \<Rightarrow> Jellyfin \<Rightarrow> ('e, unit) act" where
  "reconcile_instance k quoted jf =
     bind_io (BoundPlugins k jf) (\<lambda>bound. let plugins = HealthyPlugins k bound in
     bind_io (wrapping (Wrap ''storage'') (reconcileStorage k quoted jf)) (\<lambda>_.
     bind_io (wrapping (Wrap ''deployment'') (reconcileDeployment k jf plugins)) (\<lambda>_.
     bind_io (wrapping (Wrap ''service'') (reconcileService k jf)) (\<lambda>_.
     bind_io (wrapping (Wrap ''ingress'') (reconcileIngress k jf)) (\<lambda>_.
     bind_io (wrapping (Wrap ''web'') (reconcileWeb k jf)) (\<lambda>_.
     bind_io (wrapping (Wrap ''gateway'') (reconcileGateway k jf)) (\<lambda>_.
       updateInstanceStatus k jf plugins)))))))"

definition InstanceReconcile :: "'e cluster \<Rightarrow> (string \<Rightarrow> string) \<Rightarrow> string \<Rightarrow> string \<Rightarrow> ('e, unit) act" where
  "InstanceReconcile k quoted ns name =
     bind_io (attempt (get_jellyfin k ns name)) (\<lambda>r. case r of
       Inl e \<Rightarrow> lift (IgnoreNotFound (Inl e))
     | Inr jf \<Rightarrow> if jf_deleting jf then ret () else reconcile_instance k quoted jf)"

end
