(* ===== verification/Instance_Claims.thy ===== *)
theory Instance_Claims
  imports Instance_Controller
begin

text \<open>
  What the instance reconciler does to stored data: claims keep what is immutable and never shrink, and a provisioned volume
  that serves a claim is neither deleted nor rebound.
\<close>

section \<open>Claims never shrink\<close>

type_synonym claims = "string \<times> string \<Rightarrow> PersistentVolumeClaim option"

definition new_claim :: "string \<Rightarrow> string \<Rightarrow> PersistentVolumeClaim" where
  "new_claim ns n = \<lparr>claim_name = n, claim_namespace = ns, claim_created = False, claim_owners = [], claim_labels = [],
     claim_accessModes = [], claim_requests = [], claim_storageClassName = None, claim_volumeName = '''', claim_phase = ''''\<rparr>"

text \<open>
  The claim the API server keeps when it is asked for \<open>c\<close>: it may default the storage class and the volume, and
  reports a phase of its own.
\<close>

definition admitted :: "PersistentVolumeClaim \<Rightarrow> PersistentVolumeClaim \<Rightarrow> bool" where
  "admitted c c' \<longleftrightarrow> claim_name c' = claim_name c \<and> claim_namespace c' = claim_namespace c \<and> claim_created c'
     \<and> claim_accessModes c' = claim_accessModes c \<and> claim_requests c' = claim_requests c
     \<and> (claim_storageClassName c = None \<or> claim_storageClassName c' = claim_storageClassName c)
     \<and> (claim_volumeName c = '''' \<or> claim_volumeName c' = claim_volumeName c)"

text \<open>
  The documented behaviour of the API server on claims, \<open>live\<close> being those it stores: \<open>CreateOrUpdate\<close> fails and
  changes nothing, or keeps what the function makes of the stored or of a new claim; a merge patch of the stored
  claim fails and changes nothing, or sets the requests.
\<close>

definition upserts_claims :: "('e, PersistentVolumeClaim) store \<Rightarrow> ('e \<Rightarrow> claims) \<Rightarrow> bool" where
  "upserts_claims st live \<longleftrightarrow> (\<forall>ns n f s. case raw_upsert st ns n f s of
       (Inl e, s') \<Rightarrow> live s' = live s
     | (Inr c', s') \<Rightarrow> (case f (deref (live s (ns, n)) (new_claim ns n)) of
           Inl e \<Rightarrow> False | Inr c \<Rightarrow> admitted c c' \<and> live s' = (live s)((ns, n) \<mapsto> c')))"

definition patches_claims :: "('e, PersistentVolumeClaim) store \<Rightarrow> ('e \<Rightarrow> claims) \<Rightarrow> bool" where
  "patches_claims st live \<longleftrightarrow> (\<forall>ns n new base s. live s (ns, n) = Some base \<and> claim_namespace base = ns \<and> claim_name base = n
     \<longrightarrow> (case raw_patch st new base s of
       (Inl e, s') \<Rightarrow> live s' = live s
     | (Inr u, s') \<Rightarrow> live s' = (live s)((ns, n) \<mapsto> base\<lparr>claim_requests := claim_requests new\<rparr>)))"

definition keyed_claims :: "('e \<Rightarrow> claims) \<Rightarrow> bool" where
  "keyed_claims live \<longleftrightarrow> (\<forall>s ns n c. live s (ns, n) = Some c \<longrightarrow>
     claim_namespace c = ns \<and> claim_name c = n \<and> claim_created c)"

definition claim_store :: "('e, PersistentVolumeClaim) store \<Rightarrow> ('e \<Rightarrow> claims) \<Rightarrow> bool" where
  "claim_store st live \<longleftrightarrow> upserts_claims st live \<and> patches_claims st live \<and> keyed_claims live"

abbreviation request :: "PersistentVolumeClaim \<Rightarrow> quantity option" where
  "request c \<equiv> map_of (claim_requests c) ResourceStorage"

text \<open>What may become of a claim that exists.\<close>

definition kept_claim :: "PersistentVolumeClaim \<Rightarrow> PersistentVolumeClaim \<Rightarrow> quantity \<Rightarrow> bool" where
  "kept_claim c c' asked \<longleftrightarrow> claim_accessModes c' = claim_accessModes c
     \<and> (claim_storageClassName c = None \<or> claim_storageClassName c' = claim_storageClassName c)
     \<and> (claim_volumeName c = '''' \<or> claim_volumeName c' = claim_volumeName c)
     \<and> (request c' = request c \<or> request c' = Some asked \<and> (case request c of None \<Rightarrow> True | Some q \<Rightarrow> q < asked))"

text \<open>A successful run leaves the size asked for, or a larger one, or a claim that the server does not let grow.\<close>

definition size_settled :: "event list \<Rightarrow> PersistentVolumeClaim \<Rightarrow> quantity \<Rightarrow> bool" where
  "size_settled es c asked \<longleftrightarrow> (case request c of None \<Rightarrow> False | Some q \<Rightarrow> asked \<le> q)
     \<or> claim_phase c \<noteq> ClaimBound \<or> (\<exists>new base. Patched (OClaim new) (OClaim base) False \<in> set es)"

definition claim_kept ::
  "string \<times> string \<Rightarrow> string list \<Rightarrow> quantity \<Rightarrow> claims \<Rightarrow> bool \<Rightarrow> event list \<Rightarrow> claims \<Rightarrow> bool" where
  "claim_kept key modes asked before ok es after \<longleftrightarrow> (\<forall>other. other \<noteq> key \<longrightarrow> after other = before other)
     \<and> (case before key of
          Some c \<Rightarrow> (\<exists>c'. after key = Some c' \<and> kept_claim c c' asked)
        | None \<Rightarrow> after key = None
            \<or> (\<exists>c'. after key = Some c' \<and> claim_accessModes c' = modes \<and> request c' = Some asked))
     \<and> (ok \<longrightarrow> (\<exists>c'. after key = Some c' \<and> size_settled es c' asked))"

lemma claim_mutate_existing:
  assumes "claim_mutate k jf spec modes asked c = Inr c1" and "claim_created c"
  shows "claim_accessModes c1 = claim_accessModes c" "claim_requests c1 = claim_requests c"
    "claim_storageClassName c1 = claim_storageClassName c" "claim_volumeName c1 = claim_volumeName c"
  using assms by (auto simp: claim_mutate_def)

lemma claim_mutate_new:
  assumes "claim_mutate k jf spec modes asked (new_claim ns n) = Inr c1"
  shows "claim_accessModes c1 = modes" "claim_requests c1 = [(ResourceStorage, asked)]"
  using assms by (auto simp: claim_mutate_def new_claim_def)

lemma upsert_failed:
  assumes "claim_store st live" and "raw_upsert st ns n f s = (Inl e, s')"
  shows "live s' = live s"
proof -
  have "case raw_upsert st ns n f s of (Inl e, s') \<Rightarrow> live s' = live s
     | (Inr c', s') \<Rightarrow> (case f (deref (live s (ns, n)) (new_claim ns n)) of
           Inl e \<Rightarrow> False | Inr c \<Rightarrow> admitted c c' \<and> live s' = (live s)((ns, n) \<mapsto> c'))"
    using assms(1) by (simp only: claim_store_def upserts_claims_def)
  then show ?thesis by (simp add: assms(2))
qed

lemma upsert_kept:
  assumes "claim_store st live" and "raw_upsert st ns n f s = (Inr c', s')"
  obtains c where "f (deref (live s (ns, n)) (new_claim ns n)) = Inr c" "admitted c c'" "live s' = (live s)((ns, n) \<mapsto> c')"
proof -
  have "case raw_upsert st ns n f s of (Inl e, s') \<Rightarrow> live s' = live s
     | (Inr c', s') \<Rightarrow> (case f (deref (live s (ns, n)) (new_claim ns n)) of
           Inl e \<Rightarrow> False | Inr c \<Rightarrow> admitted c c' \<and> live s' = (live s)((ns, n) \<mapsto> c'))"
    using assms(1) by (simp only: claim_store_def upserts_claims_def)
  then show ?thesis
    by (cases "f (deref (live s (ns, n)) (new_claim ns n))") (auto simp: assms(2) intro: that)
qed

lemma stored_claim:
  "claim_store st live \<Longrightarrow> live s (ns, n) = Some c \<Longrightarrow> claim_namespace c = ns \<and> claim_name c = n \<and> claim_created c"
  by (simp add: claim_store_def keyed_claims_def)

lemma patch_kept:
  assumes "claim_store st live" and "live s (ns, n) = Some base"
  shows "case raw_patch st new base s of (Inl e, s') \<Rightarrow> live s' = live s
     | (Inr u, s') \<Rightarrow> live s' = (live s)((ns, n) \<mapsto> base\<lparr>claim_requests := claim_requests new\<rparr>)"
proof -
  have "claim_namespace base = ns \<and> claim_name base = n" using stored_claim [OF assms] by simp
  with assms show ?thesis by (simp only: claim_store_def patches_claims_def)
qed

text \<open>The first half: the upsert leaves an existing claim as large as it was.\<close>

definition upserted_claim :: "string list \<Rightarrow> quantity \<Rightarrow> PersistentVolumeClaim option \<Rightarrow> PersistentVolumeClaim \<Rightarrow> bool" where
  "upserted_claim modes asked before c' \<longleftrightarrow> (case before of
     Some c \<Rightarrow> kept_claim c c' asked \<and> request c' = request c
   | None \<Rightarrow> claim_accessModes c' = modes \<and> request c' = Some asked)"

lemma upserted_claimI:
  assumes "claim_mutate k jf spec modes asked (deref before (new_claim ns n)) = Inr c" and "admitted c c'"
    and "\<And>c0. before = Some c0 \<Longrightarrow> claim_created c0"
  shows "upserted_claim modes asked before c'"
proof (cases before)
  case None
  with assms(1) have "claim_mutate k jf spec modes asked (new_claim ns n) = Inr c" by simp
  note c = claim_mutate_new [OF this]
  show ?thesis using assms(2) None by (simp add: upserted_claim_def admitted_def c)
next
  case (Some c0)
  with assms(1,3) have "claim_mutate k jf spec modes asked c0 = Inr c" "claim_created c0" by simp_all
  note c = claim_mutate_existing [OF this]
  show ?thesis using assms(2) Some by (simp add: upserted_claim_def admitted_def kept_claim_def c)
qed

lemma post_upsert_claim:
  assumes "claim_store (k_claims k) live"
  shows "post (CreateOrUpdate OClaim KClaim (k_claims k) ns n (claim_mutate k jf spec modes asked)) s (\<lambda>r es s'.
    case r of Inl e \<Rightarrow> live s' = live s
    | Inr c' \<Rightarrow> live s' = (live s)((ns, n) \<mapsto> c') \<and> upserted_claim modes asked (live s (ns, n)) c')"
proof -
  obtain r s' where u: "raw_upsert (k_claims k) ns n (claim_mutate k jf spec modes asked) s = (r, s')"
    by (cases "raw_upsert (k_claims k) ns n (claim_mutate k jf spec modes asked) s")
  show ?thesis
  proof (cases r)
    case (Inl e)
    then show ?thesis using upsert_failed [OF assms u [unfolded Inl]] by (simp add: CreateOrUpdate_def post_call u)
  next
    case (Inr c')
    obtain c where "claim_mutate k jf spec modes asked (deref (live s (ns, n)) (new_claim ns n)) = Inr c" "admitted c c'"
      and live: "live s' = (live s)((ns, n) \<mapsto> c')" using upsert_kept [OF assms u [unfolded Inr]] by blast
    then have "upserted_claim modes asked (live s (ns, n)) c'"
      using stored_claim [OF assms] by (intro upserted_claimI) auto
    then show ?thesis by (simp add: CreateOrUpdate_def post_call u Inr live)
  qed
qed

text \<open>The second half: a patch is sent only to let a bound claim grow.\<close>

definition grown_claim :: "quantity \<Rightarrow> bool \<Rightarrow> event list \<Rightarrow> PersistentVolumeClaim \<Rightarrow> PersistentVolumeClaim \<Rightarrow> bool" where
  "grown_claim asked ok es c c' \<longleftrightarrow>
     (c' = c \<or> (case request c of None \<Rightarrow> True | Some q \<Rightarrow> q < asked)
        \<and> c' = c\<lparr>claim_requests := map_put ResourceStorage asked (claim_requests c)\<rparr>)
     \<and> (ok \<longrightarrow> size_settled es c' asked)"

lemma grown_claim_same:
  "(case request c of None \<Rightarrow> False | Some q \<Rightarrow> asked \<le> q) \<or> claim_phase c \<noteq> ClaimBound \<Longrightarrow> grown_claim asked ok es c c"
  by (auto simp: grown_claim_def size_settled_def)

lemma post_growPVC:
  assumes "claim_store (k_claims k) live" and "live s (ns, n) = Some c"
  shows "post (growPVC k c asked) s (\<lambda>r es s'. \<exists>c'. live s' = (live s)((ns, n) \<mapsto> c') \<and> grown_claim asked (is_ok r) es c c')"
proof -
  let ?new = "c\<lparr>claim_requests := map_put ResourceStorage asked (claim_requests c)\<rparr>"
  obtain r s' where p: "raw_patch (k_claims k) ?new c s = (r, s')" by (cases "raw_patch (k_claims k) ?new c s")
  have same: "(live s)((ns, n) \<mapsto> c) = live s" using assms(2) by auto
  show ?thesis
  proof (cases "(case request c of None \<Rightarrow> False | Some q \<Rightarrow> asked \<le> q) \<or> claim_phase c \<noteq> ClaimBound")
    case True
    then have "growPVC k c asked = ret ()" by (auto simp: growPVC_def Let_def split: option.splits)
    with True same show ?thesis by (auto simp: post_ret intro!: exI [of _ c] grown_claim_same)
  next
    case False
    then have less: "case request c of None \<Rightarrow> True | Some q \<Rightarrow> q < asked" and bound: "claim_phase c = ClaimBound"
      by (auto split: option.splits)
    have grow: "growPVC k c asked = bind_io (attempt (Patch OClaim (k_claims k) ?new c)) (\<lambda>r. case r of
        Inl e \<Rightarrow> if e = Forbidden \<or> e = Invalid then ret () else raise e | Inr u \<Rightarrow> ret ())"
      using less bound by (auto simp: growPVC_def Let_def split: option.splits)
    show ?thesis
    proof (cases r)
      case (Inl e)
      then have "live s' = live s" using patch_kept [OF assms, of ?new] p by simp
      with same show ?thesis unfolding grow
        by (auto simp: Patch_def post_simps p Inl grown_claim_def size_settled_def intro!: exI [of _ c])
    next
      case (Inr u)
      then have "live s' = (live s)((ns, n) \<mapsto> ?new)" using patch_kept [OF assms, of ?new] p by simp
      with less show ?thesis unfolding grow
        by (auto simp: Patch_def post_simps p Inr grown_claim_def size_settled_def intro!: exI [of _ ?new])
    qed
  qed
qed

lemma claim_keptI:
  assumes "upserted_claim modes asked (before key) c" and "grown_claim asked ok es c c'"
    and "after = before(key \<mapsto> c')" and "set es \<subseteq> set es'"
  shows "claim_kept key modes asked before ok es' after"
proof -
  have "claim_accessModes c' = claim_accessModes c" "claim_storageClassName c' = claim_storageClassName c"
    "claim_volumeName c' = claim_volumeName c"
    "request c' = request c \<or> request c' = Some asked \<and> (case request c of None \<Rightarrow> True | Some q \<Rightarrow> q < asked)"
    using assms(2) by (auto simp: grown_claim_def)
  note c' = this
  have "ok \<longrightarrow> size_settled es' c' asked" using assms(2,4) by (auto simp: grown_claim_def size_settled_def)
  then show ?thesis
    using assms(1,3) c' unfolding claim_kept_def
    by (cases "before key") (auto simp: upserted_claim_def kept_claim_def)
qed

lemma ensurePVC_kept:
  assumes "claim_store (k_claims k) live"
  shows "post (ensurePVC k jf n spec modes asked) s (\<lambda>r es s'.
    claim_kept (jf_namespace jf, n) (if pvc_accessModes spec = [] then modes else pvc_accessModes spec)
      (pvc_size_or asked spec) (live s) (is_ok r) es (live s'))"
  unfolding ensurePVC_def Let_def
proof (rule post_bindI [OF post_upsert_claim [OF assms]])
  fix e :: go_error and es s'
  assume "case (Inl e :: go_error + PersistentVolumeClaim) of Inl e \<Rightarrow> live s' = live s
    | Inr c' \<Rightarrow> live s' = (live s)((jf_namespace jf, n) \<mapsto> c')
      \<and> upserted_claim (if pvc_accessModes spec = [] then modes else pvc_accessModes spec) (pvc_size_or asked spec)
          (live s (jf_namespace jf, n)) c'"
  then show "claim_kept (jf_namespace jf, n) (if pvc_accessModes spec = [] then modes else pvc_accessModes spec)
      (pvc_size_or asked spec) (live s) (is_ok (Inl e)) es (live s')"
    by (auto simp: claim_kept_def kept_claim_def split: option.split)
next
  fix c es and s1 :: 'a
  assume "case Inr c of Inl e \<Rightarrow> live s1 = live s
    | Inr c' \<Rightarrow> live s1 = (live s)((jf_namespace jf, n) \<mapsto> c')
      \<and> upserted_claim (if pvc_accessModes spec = [] then modes else pvc_accessModes spec) (pvc_size_or asked spec)
          (live s (jf_namespace jf, n)) c'"
  then have c: "live s1 = (live s)((jf_namespace jf, n) \<mapsto> c)"
    and up: "upserted_claim (if pvc_accessModes spec = [] then modes else pvc_accessModes spec) (pvc_size_or asked spec)
          (live s (jf_namespace jf, n)) c" by simp_all
  have "live s1 (jf_namespace jf, n) = Some c" using c by simp
  from post_growPVC [OF assms this, of "pvc_size_or asked spec"]
  show "post (growPVC k c (pvc_size_or asked spec)) s1 (\<lambda>r es' s'. claim_kept (jf_namespace jf, n)
      (if pvc_accessModes spec = [] then modes else pvc_accessModes spec) (pvc_size_or asked spec)
      (live s) (is_ok r) (es @ es') (live s'))"
  proof (rule post_mono)
    fix r :: "go_error + unit" and es' s'
    assume "\<exists>c'. live s' = (live s1)((jf_namespace jf, n) \<mapsto> c') \<and> grown_claim (pvc_size_or asked spec) (is_ok r) es' c c'"
    then obtain c' where "live s' = (live s)((jf_namespace jf, n) \<mapsto> c')"
      and grown: "grown_claim (pvc_size_or asked spec) (is_ok r) es' c c'" by (auto simp: c)
    then show "claim_kept (jf_namespace jf, n) (if pvc_accessModes spec = [] then modes else pvc_accessModes spec)
      (pvc_size_or asked spec) (live s) (is_ok r) (es @ es') (live s')"
      by (intro claim_keptI [where before = "live s" and key = "(jf_namespace jf, n)", OF up grown]) simp_all
  qed
qed

text \<open>
  C5. A claim outlives every edit of its spec. Whatever size, modes or class the spec asks for, and however the API server
  answers, \<open>ensurePVC\<close> touches no other claim, never changes the access modes of an existing claim or the storage class
  and volume it has, and never makes its request smaller; a request only becomes the size asked for. After a successful
  run the claim exists and requests at least that size, unless it is not bound or the server refused the growth.
\<close>

theorem ensurePVC_never_shrinks:
  assumes "claim_store (k_claims k) live"
  shows "post (ensurePVC k jf n spec modes asked) s (\<lambda>r es s'.
    claim_kept (jf_namespace jf, n) (if pvc_accessModes spec = [] then modes else pvc_accessModes spec)
      (pvc_size_or asked spec) (live s) (is_ok r) es (live s'))"
  by (rule ensurePVC_kept [OF assms])

text \<open>An API server that is the map of its claims; every claim is bound and may grow.\<close>

definition claim_map :: "claims \<Rightarrow> claims" where
  "claim_map s key = (case s key of None \<Rightarrow> None | Some c \<Rightarrow>
     if claim_namespace c = fst key \<and> claim_name c = snd key \<and> claim_created c then Some c else None)"

definition memory_claims :: "claims cluster" where
  "memory_claims = empty_cluster\<lparr>k_claims := empty_store
     \<lparr>raw_upsert := (\<lambda>ns n f s. case f (deref (claim_map s (ns, n)) (new_claim ns n)) of
          Inl e \<Rightarrow> (Inl e, s)
        | Inr c \<Rightarrow> if claim_namespace c = ns \<and> claim_name c = n
            then (let c' = c\<lparr>claim_created := True, claim_phase := ClaimBound\<rparr> in (Inr c', s((ns, n) \<mapsto> c')))
            else (Inl Invalid, s)),
      raw_patch := (\<lambda>new base s. (Inr (), s((claim_namespace base, claim_name base) \<mapsto> base\<lparr>claim_requests := claim_requests new\<rparr>)))\<rparr>\<rparr>"

lemma memory_claim_store: "claim_store (k_claims memory_claims) claim_map"
  unfolding claim_store_def
proof (intro conjI)
  show "upserts_claims (k_claims memory_claims) claim_map"
    by (auto simp: upserts_claims_def memory_claims_def claim_map_def admitted_def Let_def fun_eq_iff split: sum.split)
  show "patches_claims (k_claims memory_claims) claim_map"
    by (auto simp: patches_claims_def memory_claims_def claim_map_def fun_eq_iff split: option.splits if_splits)
  show "keyed_claims claim_map"
    by (auto simp: keyed_claims_def claim_map_def split: option.splits if_splits)
qed

theorem ensurePVC_never_shrinks_witness:
  "case ensurePVC memory_claims sample_jf ''jf-config'' no_pvc [ReadWriteOnce] (Gi 10) Map.empty of (r, es, s') \<Rightarrow>
     claim_kept (''media'', ''jf-config'') [ReadWriteOnce] (Gi 10) (claim_map Map.empty) (is_ok r) es (claim_map s')"
  using ensurePVC_never_shrinks [OF memory_claim_store, of sample_jf "''jf-config''" no_pvc "[ReadWriteOnce]" "Gi 10" Map.empty]
  by (simp add: post_def sample_jf_def no_pvc_def pvc_size_or_def)

text \<open>Any number of runs with any specs: the request of an existing claim only ever grows.\<close>

lemma request_monotone:
  assumes "claim_kept key modes asked before ok es after" and "before key = Some c" and "request c = Some q"
  obtains c' q' where "after key = Some c'" "request c' = Some q'" "q \<le> q'"
  using assms by (auto simp: claim_kept_def kept_claim_def)

lemma ensurePVC_history:
  assumes "claim_store (k_claims k) live" and "live s (jf_namespace jf, n) = Some c" and "request c = Some q"
  shows "\<exists>c' q'. live (fold (\<lambda>spec s. final (ensurePVC k jf n spec modes asked s)) specs s) (jf_namespace jf, n) = Some c'
    \<and> request c' = Some q' \<and> q \<le> q'"
  using assms(2,3)
proof (induction specs arbitrary: s c q)
  case (Cons spec specs)
  have "claim_kept (jf_namespace jf, n) (if pvc_accessModes spec = [] then modes else pvc_accessModes spec)
      (pvc_size_or asked spec) (live s) (is_ok (result (ensurePVC k jf n spec modes asked s)))
      (events (ensurePVC k jf n spec modes asked s)) (live (final (ensurePVC k jf n spec modes asked s)))"
    using ensurePVC_kept [OF assms(1), of jf n spec modes asked s] by (simp add: post_iff)
  from request_monotone [OF this Cons.prems] obtain c1 q1 where
    "live (final (ensurePVC k jf n spec modes asked s)) (jf_namespace jf, n) = Some c1" "request c1 = Some q1" "q \<le> q1" .
  from Cons.IH [OF this(1,2)] this(3) show ?case by (auto intro: order_trans)
qed simp

section \<open>Provisioned volumes keep their claim\<close>

type_synonym volumes = "string \<Rightarrow> PersistentVolume option"

definition new_volume :: "string \<Rightarrow> PersistentVolume" where
  "new_volume n = \<lparr>pv_name = n, pv_labels = [], pv_capacity = [], pv_accessModes = [], pv_reclaimPolicy = '''',
     pv_mountOptions = [], pv_storageClassName = '''', pv_nfs = None, pv_claimRef = None, pv_phase = ''''\<rparr>"

text \<open>
  The documented behaviour of the API server on volumes: reading tells what is stored or fails, \<open>CreateOrUpdate\<close> fails or
  stores what the function makes of the stored or of a new volume, a deletion removes the volume or fails, and
  creating a claim changes no volume in this call.
\<close>

definition volume_cluster :: "'e cluster \<Rightarrow> ('e \<Rightarrow> volumes) \<Rightarrow> bool" where
  "volume_cluster k live \<longleftrightarrow>
     (\<forall>n s. case raw_get (k_volumes k) '''' n s of
        (Inl e, s') \<Rightarrow> live s' = live s \<and> (e = NotFound \<longrightarrow> live s n = None)
      | (Inr pv, s') \<Rightarrow> live s' = live s \<and> live s n = Some pv)
   \<and> (\<forall>n f s. case raw_upsert (k_volumes k) '''' n f s of
        (Inl e, s') \<Rightarrow> live s' = live s
      | (Inr pv, s') \<Rightarrow> f (deref (live s n) (new_volume n)) = Inr pv \<and> live s' = (live s)(n \<mapsto> pv))
   \<and> (\<forall>n s. case raw_delete (k_volumes k) '''' n s of
        (r, s') \<Rightarrow> live s' = live s \<or> live s' = (live s)(n := None))
   \<and> (\<forall>ns n f s. live (snd (raw_upsert (k_claims k) ns n f s)) = live s)"

lemma volume_clusterD:
  assumes "volume_cluster k live"
  shows "raw_get (k_volumes k) '''' n s = (Inl e, s') \<Longrightarrow> live s' = live s \<and> (e = NotFound \<longrightarrow> live s n = None)"
    and "raw_get (k_volumes k) '''' n s = (Inr pv, s') \<Longrightarrow> live s' = live s \<and> live s n = Some pv"
    and "raw_upsert (k_volumes k) '''' n f s = (Inl e, s') \<Longrightarrow> live s' = live s"
    and "raw_upsert (k_volumes k) '''' n f s = (Inr pv, s') \<Longrightarrow>
      f (deref (live s n) (new_volume n)) = Inr pv \<and> live s' = (live s)(n \<mapsto> pv)"
    and "raw_delete (k_volumes k) '''' n s = (r, s') \<Longrightarrow> live s' = live s \<or> live s' = (live s)(n := None)"
    and "raw_upsert (k_claims k) ns m g s = (x, s') \<Longrightarrow> live s' = live s"
proof -
  show "live s' = live s \<and> (e = NotFound \<longrightarrow> live s n = None)" if "raw_get (k_volumes k) '''' n s = (Inl e, s')"
    using assms that unfolding volume_cluster_def by (elim conjE allE [of _ n]) (auto dest: spec [of _ s])
  show "live s' = live s \<and> live s n = Some pv" if "raw_get (k_volumes k) '''' n s = (Inr pv, s')"
    using assms that unfolding volume_cluster_def by (elim conjE allE [of _ n]) (auto dest: spec [of _ s])
  show "live s' = live s" if "raw_upsert (k_volumes k) '''' n f s = (Inl e, s')"
    using assms that unfolding volume_cluster_def by (elim conjE) (drule spec [of _ n], drule spec [of _ f], drule spec [of _ s], simp)
  show "f (deref (live s n) (new_volume n)) = Inr pv \<and> live s' = (live s)(n \<mapsto> pv)"
    if "raw_upsert (k_volumes k) '''' n f s = (Inr pv, s')"
    using assms that unfolding volume_cluster_def by (elim conjE) (drule spec [of _ n], drule spec [of _ f], drule spec [of _ s], simp)
  show "live s' = live s \<or> live s' = (live s)(n := None)" if "raw_delete (k_volumes k) '''' n s = (r, s')"
    using assms that unfolding volume_cluster_def by (elim conjE) (drule spec [of _ n], drule spec [of _ s], simp)
  show "live s' = live s" if "raw_upsert (k_claims k) ns m g s = (x, s')"
    using assms that unfolding volume_cluster_def by (elim conjE) (metis snd_conv)
qed

abbreviation drifted :: "(string \<Rightarrow> string) \<Rightarrow> NFSSource \<Rightarrow> PersistentVolume \<Rightarrow> bool" where
  "drifted quoted nfs pv \<equiv> immutablePVDrift quoted pv (nfs_server nfs, nfs_path nfs, nfs_readOnly nfs) (nfs_storageClassName nfs) \<noteq> ''''"

text \<open>A volume has drifted exactly when its source or class is not the one asked for, whatever the texts say.\<close>

lemma drifted_iff:
  "drifted quoted nfs pv \<longleftrightarrow> pv_nfs pv \<noteq> Some (nfs_server nfs, nfs_path nfs, nfs_readOnly nfs)
     \<or> pv_storageClassName pv \<noteq> nfs_storageClassName nfs"
  by (auto simp: immutablePVDrift_def split: option.splits prod.splits)

definition bound_to :: "PersistentVolume \<Rightarrow> string \<Rightarrow> string \<Rightarrow> bool" where
  "bound_to pv ns claim \<longleftrightarrow> (case pv_claimRef pv of None \<Rightarrow> False | Some ref \<Rightarrow> ref_namespace ref = ns \<and> ref_name ref = claim)"

lemma volume_mutate_kept:
  assumes "volume_mutate jf nfs claim pv = Inr pv'"
  shows "pv_nfs pv' = Some (nfs_server nfs, nfs_path nfs, nfs_readOnly nfs)" "pv_storageClassName pv' = nfs_storageClassName nfs"
    "bound_to pv' (jf_namespace jf) claim" "bound_to pv (jf_namespace jf) claim \<Longrightarrow> pv_claimRef pv' = pv_claimRef pv"
  using assms by (auto simp: volume_mutate_def bound_to_def split: option.splits if_splits)

text \<open>What a run may do to the volumes, given what was stored before it.\<close>

definition volume_kept ::
  "(string \<Rightarrow> string) \<Rightarrow> Jellyfin \<Rightarrow> MediaFolder \<Rightarrow> NFSSource \<Rightarrow> volumes \<Rightarrow> bool \<Rightarrow> volumes \<Rightarrow> bool" where
  "volume_kept quoted jf mf nfs before ok after \<longleftrightarrow> (let n = pv_name_of jf mf; claim = MediaClaimName jf mf in
     (\<forall>other. other \<noteq> n \<longrightarrow> after other = before other)
     \<and> (case before n of
          None \<Rightarrow> True
        | Some pv \<Rightarrow>
            if drifted quoted nfs pv
            then \<not> ok \<and> (after n = Some pv \<or> after n = None \<and> \<not> pvIsServingAClaim pv)
            else (\<exists>pv'. after n = Some pv' \<and> pv_nfs pv' = pv_nfs pv \<and> pv_storageClassName pv' = pv_storageClassName pv
                   \<and> (bound_to pv (jf_namespace jf) claim \<longrightarrow> pv_claimRef pv' = pv_claimRef pv)))
     \<and> (ok \<longrightarrow> (\<exists>pv'. after n = Some pv' \<and> \<not> drifted quoted nfs pv' \<and> bound_to pv' (jf_namespace jf) claim)))"

lemma volume_kept_refl: "volume_kept quoted jf mf nfs s False s"
  by (auto simp: volume_kept_def Let_def split: option.splits)

lemma post_replace_drifted:
  assumes "volume_cluster k live"
  shows "post (replace_drifted k quoted jf mf nfs) s (\<lambda>r es s'. case r of
     Inl e \<Rightarrow> volume_kept quoted jf mf nfs (live s) False (live s')
   | Inr u \<Rightarrow> live s' = live s \<and> (case live s (pv_name_of jf mf) of None \<Rightarrow> True | Some pv \<Rightarrow> \<not> drifted quoted nfs pv))"
proof -
  let ?n = "pv_name_of jf mf"
  obtain r s1 where g: "raw_get (k_volumes k) '''' ?n s = (r, s1)" by (cases "raw_get (k_volumes k) '''' ?n s")
  show ?thesis
  proof (cases r)
    case (Inl e)
    then show ?thesis using volume_clusterD(1) [OF assms g [unfolded Inl]] volume_kept_refl
      by (simp add: replace_drifted_def Let_def Get_def post_simps g)
  next
    case (Inr pv)
    have live: "live s1 = live s" "live s ?n = Some pv" using volume_clusterD(2) [OF assms g [unfolded Inr]] by simp_all
    obtain r2 s2 where d: "raw_delete (k_volumes k) '''' ?n s1 = (r2, s2)" by (cases "raw_delete (k_volumes k) '''' ?n s1")
    have gone: "live s2 = live s \<or> live s2 = (live s)(?n := None)" using volume_clusterD(5) [OF assms d] live by simp
    have kept: "volume_kept quoted jf mf nfs (live s) False (live s2)" if "drifted quoted nfs pv" "\<not> pvIsServingAClaim pv"
      using that gone live(2) by (auto simp: volume_kept_def Let_def)
    show ?thesis
    proof (cases "drifted quoted nfs pv")
      case True
      then show ?thesis using kept live volume_kept_refl [of quoted jf mf nfs "live s"]
        by (cases "pvIsServingAClaim pv"; cases r2)
          (simp_all add: replace_drifted_def Let_def Get_def DeleteIfExists_def Delete_def IgnoreNotFound_def post_simps g Inr d)
    next
      case False
      with live show ?thesis by (simp add: replace_drifted_def Let_def Get_def post_simps g Inr)
    qed
  qed
qed

lemma post_upsert_volume:
  assumes "volume_cluster k live" and "case live s (pv_name_of jf mf) of None \<Rightarrow> True | Some pv \<Rightarrow> \<not> drifted quoted nfs pv"
  shows "post (CreateOrUpdate OVolume KVolume (k_volumes k) '''' (pv_name_of jf mf) (volume_mutate jf nfs (MediaClaimName jf mf))) s
    (\<lambda>r es s'. volume_kept quoted jf mf nfs (live s) (is_ok r) (live s'))"
proof -
  let ?n = "pv_name_of jf mf" and ?f = "volume_mutate jf nfs (MediaClaimName jf mf)"
  obtain r s' where u: "raw_upsert (k_volumes k) '''' ?n ?f s = (r, s')" by (cases "raw_upsert (k_volumes k) '''' ?n ?f s")
  show ?thesis
  proof (cases r)
    case (Inl e)
    then show ?thesis using volume_clusterD(3) [OF assms(1) u [unfolded Inl]] volume_kept_refl
      by (simp add: CreateOrUpdate_def post_call u)
  next
    case (Inr pv')
    have pv': "?f (deref (live s ?n) (new_volume ?n)) = Inr pv'" "live s' = (live s)(?n \<mapsto> pv')"
      using volume_clusterD(4) [OF assms(1) u [unfolded Inr]] by simp_all
    note kept = volume_mutate_kept [OF pv'(1)]
    have "volume_kept quoted jf mf nfs (live s) True (live s')"
    proof (cases "live s ?n")
      case None
      then show ?thesis using pv'(2) kept(1-3) by (simp add: volume_kept_def Let_def drifted_iff)
    next
      case (Some pv)
      then have "\<not> drifted quoted nfs pv" using assms(2) by simp
      then show ?thesis using Some pv'(2) kept by (simp add: volume_kept_def Let_def drifted_iff)
    qed
    then show ?thesis by (simp add: CreateOrUpdate_def post_call u Inr)
  qed
qed

lemma volume_kept_weaken: "volume_kept quoted jf mf nfs before ok after \<Longrightarrow> ok \<or> \<not> ok' \<Longrightarrow>
  (case before (pv_name_of jf mf) of None \<Rightarrow> True | Some pv \<Rightarrow> \<not> drifted quoted nfs pv) \<Longrightarrow>
  volume_kept quoted jf mf nfs before ok' after"
  by (cases "before (pv_name_of jf mf)") (auto simp: volume_kept_def Let_def)

lemma post_nfs_claim:
  assumes "volume_cluster k live"
  shows "post (CreateOrUpdate OClaim KClaim (k_claims k) ns m g) s (\<lambda>r es s'. live s' = live s)"
proof -
  obtain r s' where "raw_upsert (k_claims k) ns m g s = (r, s')" by (cases "raw_upsert (k_claims k) ns m g s")
  then show ?thesis using volume_clusterD(6) [OF assms] by (simp add: CreateOrUpdate_def post_call)
qed

text \<open>
  C6. A provisioned NFS volume keeps its data reachable. A volume whose source or class differs from the spec is left as it
  is, or removed if it serves no claim, and the run fails; any other volume keeps its source, its class and the binding
  to its claim, with the UID the binder wrote; no other volume is touched; and a successful run leaves a volume with the
  source asked for, bound to the folder's claim.
\<close>

theorem ensureProvisionedNFS_keeps_binding:
  assumes "volume_cluster k live"
  shows "post (ensureProvisionedNFS k quoted jf mf nfs) s (\<lambda>r es s'.
    volume_kept quoted jf mf nfs (live s) (is_ok r) (live s'))"
  unfolding ensureProvisionedNFS_def
proof (rule post_bindI [OF post_replace_drifted [OF assms]])
  fix u es and s1 :: 'a
  assume "case Inr u of Inl e \<Rightarrow> volume_kept quoted jf mf nfs (live s) False (live s1)
   | Inr u \<Rightarrow> live s1 = live s \<and> (case live s (pv_name_of jf mf) of None \<Rightarrow> True | Some pv \<Rightarrow> \<not> drifted quoted nfs pv)"
  then have live: "live s1 = live s" and fits: "case live s (pv_name_of jf mf) of None \<Rightarrow> True | Some pv \<Rightarrow> \<not> drifted quoted nfs pv"
    by simp_all
  have "case live s1 (pv_name_of jf mf) of None \<Rightarrow> True | Some pv \<Rightarrow> \<not> drifted quoted nfs pv" using fits live by simp
  then show "post (bind_io (CreateOrUpdate OVolume KVolume (k_volumes k) '''' (pv_name_of jf mf) (volume_mutate jf nfs (MediaClaimName jf mf)))
     (\<lambda>_. bind_io (CreateOrUpdate OClaim KClaim (k_claims k) (jf_namespace jf) (MediaClaimName jf mf)
                (nfs_claim_mutate k jf nfs (pv_name_of jf mf))) (\<lambda>_. ret ()))) s1
     (\<lambda>r es' s'. volume_kept quoted jf mf nfs (live s) (is_ok r) (live s'))"
  proof (intro post_bindI [OF post_upsert_volume [OF assms]])
    fix e :: go_error and s2 :: 'a
    assume "volume_kept quoted jf mf nfs (live s1) (is_ok (Inl e)) (live s2)"
    then show "volume_kept quoted jf mf nfs (live s) (is_ok (Inl e)) (live s2)" by (simp add: live)
  next
    fix pv and s2 :: 'a
    assume "volume_kept quoted jf mf nfs (live s1) (is_ok (Inr pv)) (live s2)"
    then have kept: "volume_kept quoted jf mf nfs (live s) True (live s2)" by (simp add: live)
    show "post (bind_io (CreateOrUpdate OClaim KClaim (k_claims k) (jf_namespace jf) (MediaClaimName jf mf)
        (nfs_claim_mutate k jf nfs (pv_name_of jf mf))) (\<lambda>_. ret ())) s2
      (\<lambda>r es' s'. volume_kept quoted jf mf nfs (live s) (is_ok r) (live s'))"
      by (rule post_bindI [OF post_nfs_claim [OF assms]])
        (use volume_kept_weaken [OF kept _ fits] kept in \<open>simp_all add: post_ret\<close>)
  qed
qed simp

text \<open>An API server whose volumes are the entries of a map.\<close>

definition memory_volumes :: "volumes cluster" where
  "memory_volumes = empty_cluster
     \<lparr>k_volumes := empty_store
        \<lparr>raw_get := (\<lambda>ns n s. (case s n of None \<Rightarrow> Inl NotFound | Some pv \<Rightarrow> Inr pv, s)),
         raw_upsert := (\<lambda>ns n f s. case f (deref (s n) (new_volume n)) of Inl e \<Rightarrow> (Inl e, s) | Inr pv \<Rightarrow> (Inr pv, s(n \<mapsto> pv))),
         raw_delete := (\<lambda>ns n s. (Inr (), s(n := None)))\<rparr>,
      k_claims := empty_store\<lparr>raw_upsert := (\<lambda>ns n f s. (f (new_claim ns n), s))\<rparr>\<rparr>"

lemma memory_volume_cluster: "volume_cluster memory_volumes (\<lambda>s. s)"
  by (auto simp: volume_cluster_def memory_volumes_def split: option.split sum.split)

definition sample_export :: NFSSource where
  "sample_export = no_nfs\<lparr>nfs_server := ''nas'', nfs_path := ''/export'', nfs_provision := True\<rparr>"

theorem ensureProvisionedNFS_keeps_binding_witness:
  "case ensureProvisionedNFS memory_volumes (\<lambda>t. t) sample_jf (sample_media ''movies'' ''/media'') sample_export Map.empty of
     (r, es, s') \<Rightarrow> volume_kept (\<lambda>t. t) sample_jf (sample_media ''movies'' ''/media'') sample_export Map.empty (is_ok r) s'"
  using ensureProvisionedNFS_keeps_binding [OF memory_volume_cluster, of "\<lambda>t. t" sample_jf "sample_media ''movies'' ''/media''"
      sample_export Map.empty]
  by (simp add: post_def)

text \<open>
  The name of a provisioned volume does not contain the namespace of its instance, although volumes have none: two instances of one name
  in two namespaces with a folder of one name share a volume, and each reconcile of one takes it away from the other.
\<close>

lemma volume_name_ignores_namespace:
  assumes "jf_name jf' = jf_name jf"
  shows "pv_name_of jf' mf = pv_name_of jf mf"
  using assms by (simp add: pv_name_of_def MediaClaimName_def split: option.split)

lemma volume_taken_over:
  assumes "jf_namespace jf' \<noteq> jf_namespace jf" and "pv_claimRef pv = Some ref" and "ref_namespace ref = jf_namespace jf"
    and "volume_mutate jf' nfs claim pv = Inr pv'"
  shows "pv_claimRef pv' = Some \<lparr>ref_namespace = jf_namespace jf', ref_name = claim, ref_uid = ''''\<rparr>"
  using assms by (auto simp: volume_mutate_def)

end
