(* ===== verification/Instance_Storage.thy ===== *)
theory Instance_Storage
  imports Instance_Claims Builder_Correct
begin

text \<open>
  The pod builder and the storage reconcile agree: the claims that the built pod mounts exist after the reconcile.
\<close>

section \<open>The claims of the pod exist\<close>

text \<open>The claims that the user owns, and the folders for which nothing is provisioned.\<close>

definition user_claims :: "Jellyfin \<Rightarrow> string set" where
  "user_claims jf = (let st = js_storage (jf_spec jf) in
     pvc_existingClaim ` ({st_config st} \<union> set_option (st_cache st) \<union> set_option (st_trickplay st)
       \<union> (\<Union>mf \<in> set (st_media st). set_option (mf_pvc mf)))
     \<union> mf_existingClaim ` set (st_media st) - {''''})"

definition unprovisioned :: "MediaFolder \<Rightarrow> bool" where
  "unprovisioned mf \<longleftrightarrow> (case mf_nfs mf of
     Some nfs \<Rightarrow> \<not> nfs_provision nfs \<and> nfs_mountOptions nfs \<noteq> []
   | None \<Rightarrow> mf_pvc mf = None \<and> mf_existingClaim mf = '''')"

definition claim_made :: "Jellyfin \<Rightarrow> event list \<Rightarrow> string \<Rightarrow> bool" where
  "claim_made jf es n \<longleftrightarrow> (\<exists>c. Upserted KClaim (jf_namespace jf) n (Inr (OClaim c)) \<in> set es)"

lemma claim_made_append: "claim_made jf es n \<Longrightarrow> claim_made jf (es @ es') n" "claim_made jf es n \<Longrightarrow> claim_made jf (es' @ es) n"
  by (auto simp: claim_made_def)

lemma post_claim_made:
  assumes "\<And>c s. post (f c) s (\<lambda>r es s'. True)"
  shows "post (bind_io (CreateOrUpdate OClaim KClaim (k_claims k) (jf_namespace jf) n g) f) s
    (\<lambda>r es s'. is_ok r \<longrightarrow> claim_made jf es n)"
  unfolding CreateOrUpdate_def post_bind post_call
  by (auto simp: claim_made_def post_iff split: prod.split sum.split)

lemma ensurePVC_made: "post (ensurePVC k jf n spec modes asked) s (\<lambda>r es s'. is_ok r \<longrightarrow> claim_made jf es n)"
  unfolding ensurePVC_def Let_def by (rule post_claim_made) (simp add: post_iff)

lemma ensureProvisionedNFS_made:
  "post (ensureProvisionedNFS k quoted jf mf nfs) s (\<lambda>r es s'. is_ok r \<longrightarrow> claim_made jf es (MediaClaimName jf mf))"
  unfolding ensureProvisionedNFS_def
  by (rule post_bindI [where P = "\<lambda>r es s'. True"], simp add: post_iff, simp,
      rule post_bindI [where P = "\<lambda>r es s'. True"], simp add: post_iff, simp,
      rule post_mono [OF post_claim_made]) (simp_all add: post_iff claim_made_append)

definition covered :: "Jellyfin \<Rightarrow> event list \<Rightarrow> string \<Rightarrow> bool" where
  "covered jf es n \<longleftrightarrow> n \<in> user_claims jf \<or> claim_made jf es n
     \<or> (\<exists>mf \<in> set (st_media (js_storage (jf_spec jf))). unprovisioned mf \<and> n = MediaClaimName jf mf)"

lemma covered_append: "covered jf es n \<Longrightarrow> covered jf (es @ es') n" "covered jf es n \<Longrightarrow> covered jf (es' @ es) n"
  by (auto simp: covered_def intro: claim_made_append)

definition inline_nfs :: "MediaFolder \<Rightarrow> bool" where
  "inline_nfs mf \<longleftrightarrow> (case mf_nfs mf of None \<Rightarrow> False | Some nfs \<Rightarrow> \<not> nfs_provision nfs \<and> nfs_mountOptions nfs = [])"

text \<open>The claim names that a part of the pod's storage mounts.\<close>

definition part_claims :: "(Volume \<times> VolumeMount) list \<Rightarrow> string set" where
  "part_claims parts = {n. \<exists>p \<in> set parts. \<exists>ro. v_source (fst p) = VS_PVC n ro}"

lemma part_claims_append: "part_claims (xs @ ys) = part_claims xs \<union> part_claims ys"
  by (auto simp: part_claims_def)

lemma storage_claims:
  "part_claims (storage_parts jf) = part_claims [(configVolume jf, config_mount)] \<union> (part_claims (cache_part jf)
     \<union> (part_claims (trickplay_part jf)
     \<union> (part_claims (map (mediaVolumeAndMount jf) (st_media (js_storage (jf_spec jf)))) \<union> part_claims (web_part jf))))"
  unfolding storage_parts_def part_claims_append [symmetric] by simp

lemma part_claims_own:
  "part_claims [(configVolume jf, config_mount)] = {ConfigClaimName jf}"
  "part_claims (cache_part jf) = (if st_cache (js_storage (jf_spec jf)) = None then {} else {CacheClaimName jf})"
  "part_claims (trickplay_part jf) = (if st_trickplay (js_storage (jf_spec jf)) = None then {} else {TrickplayClaimName jf})"
  "part_claims (web_part jf) = {}"
  by (auto simp: part_claims_def configVolume_def cache_part_def trickplay_part_def web_part_def webContentVolume_def
      split: option.split)

lemma part_claims_media:
  "part_claims (map (mediaVolumeAndMount jf) mfs) = MediaClaimName jf ` {mf \<in> set mfs. \<not> inline_nfs mf}"
  by (auto simp: part_claims_def mediaVolumeAndMount_def inline_nfs_def Let_def split: option.split if_splits)

lemma config_covered:
  "post (if pvc_existingClaim (st_config (js_storage (jf_spec jf))) = ''''
     then ensurePVC k jf (ConfigClaimName jf) (st_config (js_storage (jf_spec jf))) modes asked else ret ()) s
   (\<lambda>r es s'. is_ok r \<longrightarrow> (\<forall>n \<in> part_claims [(configVolume jf, config_mount)]. covered jf es n))"
  by (auto simp: part_claims_own post_ret ConfigClaimName_def covered_def user_claims_def Let_def
      intro: post_mono [OF ensurePVC_made])

lemma cache_covered:
  "post (case st_cache (js_storage (jf_spec jf)) of None \<Rightarrow> ret ()
     | Some c \<Rightarrow> if pvc_existingClaim c = '''' then ensurePVC k jf (CacheClaimName jf) c modes asked else ret ()) s
   (\<lambda>r es s'. is_ok r \<longrightarrow> (\<forall>n \<in> part_claims (cache_part jf). covered jf es n))"
  by (auto simp: part_claims_own post_ret CacheClaimName_def covered_def user_claims_def Let_def
      intro: post_mono [OF ensurePVC_made] split: option.split)

lemma trickplay_covered:
  "post (case st_trickplay (js_storage (jf_spec jf)) of None \<Rightarrow> ret ()
     | Some c \<Rightarrow> if pvc_existingClaim c = '''' then ensurePVC k jf (TrickplayClaimName jf) c modes asked else ret ()) s
   (\<lambda>r es s'. is_ok r \<longrightarrow> (\<forall>n \<in> part_claims (trickplay_part jf). covered jf es n))"
  by (auto simp: part_claims_own post_ret TrickplayClaimName_def covered_def user_claims_def Let_def
      intro: post_mono [OF ensurePVC_made] split: option.split)

lemma media_covered:
  assumes "mf \<in> set (st_media (js_storage (jf_spec jf)))"
  shows "post (reconcile_media k quoted jf mf) s (\<lambda>r es s'. is_ok r \<longrightarrow> inline_nfs mf \<or> covered jf es (MediaClaimName jf mf))"
proof -
  have user: "covered jf es (MediaClaimName jf mf)" if "mf_existingClaim mf \<noteq> ''''" for es
    using assms that by (auto simp: covered_def user_claims_def MediaClaimName_def Let_def)
  have pvc_user: "covered jf es (MediaClaimName jf mf)"
    if "mf_existingClaim mf = ''''" "mf_pvc mf = Some pvc" "pvc_existingClaim pvc \<noteq> ''''" for es pvc
    using assms that by (auto simp: covered_def user_claims_def MediaClaimName_def Let_def)
  have left_out: "covered jf es (MediaClaimName jf mf)" if "unprovisioned mf" for es
    using assms that by (auto simp: covered_def)
  have made: "claim_made jf es n \<Longrightarrow> covered jf es n" for es n by (simp add: covered_def)
  show ?thesis
  proof (cases "mf_existingClaim mf = ''''")
    case False
    then show ?thesis by (simp add: reconcile_media_def post_ret user)
  next
    case True
    show ?thesis
    proof (cases "mf_nfs mf")
      case None
      then show ?thesis using True left_out pvc_user
        by (auto simp: reconcile_media_def post_ret unprovisioned_def
            intro: post_mono [OF ensurePVC_made] made split: option.split)
    next
      case (Some nfs)
      then have "inline_nfs mf \<or> unprovisioned mf" if "\<not> nfs_provision nfs"
        using that by (auto simp: inline_nfs_def unprovisioned_def)
      then show ?thesis using True Some left_out
        by (auto simp: reconcile_media_def post_ret intro: post_mono [OF ensureProvisionedNFS_made] made)
    qed
  qed
qed

lemma all_media_covered:
  assumes "set mfs \<subseteq> set (st_media (js_storage (jf_spec jf)))"
  shows "post (each (reconcile_media k quoted jf) mfs) s
    (\<lambda>r es s'. is_ok r \<longrightarrow> (\<forall>n \<in> part_claims (map (mediaVolumeAndMount jf) mfs). covered jf es n))"
  using assms
proof (induction mfs arbitrary: s)
  case (Cons mf mfs)
  show ?case unfolding each.simps
  proof (rule post_bindI [OF media_covered [of mf]])
    show "mf \<in> set (st_media (js_storage (jf_spec jf)))" using Cons.prems by simp
  next
    fix u es and s1 :: 'a
    assume 1: "is_ok (Inr u) \<longrightarrow> inline_nfs mf \<or> covered jf es (MediaClaimName jf mf)"
    show "post (each (reconcile_media k quoted jf) mfs) s1 (\<lambda>r es' s'. is_ok r \<longrightarrow>
      (\<forall>n \<in> part_claims (map (mediaVolumeAndMount jf) (mf # mfs)). covered jf (es @ es') n))"
    proof (rule post_mono [OF Cons.IH])
      show "set mfs \<subseteq> set (st_media (js_storage (jf_spec jf)))" using Cons.prems by simp
    qed (use 1 in \<open>auto simp: part_claims_media simp del: list.map intro: covered_append\<close>)
  qed simp
qed (simp add: post_ret part_claims_def)

lemma covered_bindI:
  assumes "post m s (\<lambda>r es s'. is_ok r \<longrightarrow> (\<forall>n \<in> A. covered jf es n))"
    and "\<And>a s'. post (f a) s' (\<lambda>r es s'. is_ok r \<longrightarrow> (\<forall>n \<in> B. covered jf es n))"
  shows "post (bind_io m f) s (\<lambda>r es s'. is_ok r \<longrightarrow> (\<forall>n \<in> A \<union> B. covered jf es n))"
  by (rule post_bindI [OF assms(1)]) (auto intro!: post_mono [OF assms(2)] intro: covered_append)

definition pod_claims_exist :: "Jellyfin \<Rightarrow> JellyfinPlugin list \<Rightarrow> event list \<Rightarrow> bool" where
  "pod_claims_exist jf plugins es \<longleftrightarrow> (case BuildDeployment jf plugins of
     Inl e \<Rightarrow> True
   | Inr d \<Rightarrow> list_all (\<lambda>v. case v_source v of VS_PVC n ro \<Rightarrow> covered jf es n | _ \<Rightarrow> True) (ps_volumes (pt_spec (d_template d))))"

lemma pod_claims_existI:
  assumes "\<forall>n \<in> part_claims (storage_parts jf). covered jf es n"
  shows "pod_claims_exist jf plugins es"
proof (cases "BuildDeployment jf plugins")
  case (Inr d)
  from BuildDeployment_Inr [OF this] have vols: "ps_volumes (pt_spec (d_template d)) = map fst (storage_parts jf)
     @ map imageVolume (sorted_plugins plugins) @ accel_volumes (js_hardwareAcceleration (jf_spec jf))" by metis
  have "case v_source v of VS_PVC n ro \<Rightarrow> covered jf es n | _ \<Rightarrow> True"
    if "v \<in> set (ps_volumes (pt_spec (d_template d)))" for v
  proof -
    from that vols consider "v \<in> fst ` set (storage_parts jf)" | p where "v = imageVolume p"
      | "v \<in> set (accel_volumes (js_hardwareAcceleration (jf_spec jf)))" by auto
    then show ?thesis
    proof cases
      case 1
      then show ?thesis using assms by (auto simp: part_claims_def split: VolumeSource.split)
    next
      case 2
      then show ?thesis by (simp add: imageVolume_def Let_def)
    next
      case 3
      then show ?thesis by (auto simp: accel_volumes_def split: option.splits if_splits)
    qed
  qed
  then show ?thesis by (simp add: pod_claims_exist_def Inr list_all_iff)
qed (simp add: pod_claims_exist_def)

text \<open>
  C7. The pod finds its claims. After a successful \<open>reconcileStorage\<close> every claim that a volume of the built pod names is one
  the user brought, or one this run has created or updated; the only exceptions are the folders for
  which nothing is provisioned, NFS folders with mount options and without \<open>provision\<close>.
\<close>

theorem reconcileStorage_covers_pod:
  "post (reconcileStorage k quoted jf) s (\<lambda>r es s'. case r of Inl e \<Rightarrow> True | Inr u \<Rightarrow> pod_claims_exist jf plugins es)"
proof -
  have "post (reconcileStorage k quoted jf) s (\<lambda>r es s'. is_ok r \<longrightarrow>
    (\<forall>n \<in> part_claims [(configVolume jf, config_mount)] \<union> (part_claims (cache_part jf) \<union> (part_claims (trickplay_part jf)
       \<union> part_claims (map (mediaVolumeAndMount jf) (st_media (js_storage (jf_spec jf)))))). covered jf es n))"
    unfolding reconcileStorage_def Let_def
    by (intro covered_bindI config_covered cache_covered trickplay_covered all_media_covered) simp
  then show ?thesis
  proof (rule post_mono)
    fix r :: "go_error + unit" and es s'
    assume 1: "is_ok r \<longrightarrow> (\<forall>n \<in> part_claims [(configVolume jf, config_mount)] \<union> (part_claims (cache_part jf)
      \<union> (part_claims (trickplay_part jf)
      \<union> part_claims (map (mediaVolumeAndMount jf) (st_media (js_storage (jf_spec jf)))))). covered jf es n)"
    then have "\<forall>n \<in> part_claims (storage_parts jf). covered jf es n" if "is_ok r"
      using that by (simp only: storage_claims part_claims_own(4) Un_empty_right simp_thms)
    then show "case r of Inl e \<Rightarrow> True | Inr u \<Rightarrow> pod_claims_exist jf plugins es"
      by (cases r) (simp_all add: pod_claims_existI)
  qed
qed

text \<open>The exception is real: such a folder's pod volume is a claim, and nothing provisions it.\<close>

lemma nfs_mount_options_unprovisioned:
  assumes "mf_nfs mf = Some nfs" "\<not> nfs_provision nfs" "nfs_mountOptions nfs \<noteq> []"
  shows "v_source (fst (mediaVolumeAndMount jf mf)) = VS_PVC (MediaClaimName jf mf) (mediaReadOnly mf)"
    and "reconcile_media k quoted jf mf = ret ()"
  using assms by (auto simp: mediaVolumeAndMount_def reconcile_media_def Let_def)

end
