(* ===== verification/Instance_Correct.thy ===== *)
theory Instance_Correct
  imports Instance_Storage
begin

text \<open>
  The runs of the instance reconciler as a whole: which objects each stage writes, in which order, and the status it reports.
\<close>

section \<open>Stages\<close>

text \<open>A write or a listing that the API server has carried out.\<close>

fun carried_out :: "event \<Rightarrow> bool" where
  "carried_out (Upserted kd ns n r) = is_ok r"
| "carried_out (Deleted kd ns n good) = good"
| "carried_out (Listed kd ns ls r) = is_ok r"
| "carried_out e = True"

text \<open>
  A sequence of calls that falls into consecutive parts, one per predicate; nothing follows a part in which a call was not
  carried out.
\<close>

fun staged :: "(event \<Rightarrow> bool) list \<Rightarrow> event list \<Rightarrow> bool" where
  "staged [] es = (es = [])"
| "staged (P # Ps) es = (\<exists>now later. es = now @ later \<and> list_all P now
     \<and> (list_all carried_out now \<or> later = []) \<and> staged Ps later)"

lemma staged_Nil: "staged Ps []"
  by (induction Ps) simp_all

text \<open>Computations that do not return normally after such a call.\<close>

definition propagates :: "(event, 'e, 'a) io \<Rightarrow> bool" where
  "propagates m \<longleftrightarrow> (\<forall>s. post m s (\<lambda>r es s'. is_ok r \<longrightarrow> list_all carried_out es))"

named_theorems propagates_intros \<open>one rule per construct for reporting failed calls\<close>

lemma propagates_bind [propagates_intros]:
  assumes "propagates m" and "\<And>a. propagates (f a)"
  shows "propagates (bind_io m f)"
  unfolding propagates_def
proof
  fix s
  have first: "post m s (\<lambda>r es s'. is_ok r \<longrightarrow> list_all carried_out es)" using assms(1) by (simp add: propagates_def)
  have second: "post (f a) s' (\<lambda>r es s'. is_ok r \<longrightarrow> list_all carried_out es)" for a s'
    using assms(2) by (simp add: propagates_def)
  show "post (bind_io m f) s (\<lambda>r es s'. is_ok r \<longrightarrow> list_all carried_out es)"
    by (rule post_bindI [OF first]) (auto intro: post_mono [OF second])
qed

lemma propagates_emits: "emits carried_out m \<Longrightarrow> propagates m"
  using emits_post by (auto simp: propagates_def post_iff)

lemma propagates_simple [propagates_intros]:
  "propagates (ret a)" "propagates (raise e)" "propagates (lift r)"
  by (auto intro: propagates_emits emits_intros)

lemma is_ok_map_err [simp]: "is_ok (map_err f r) = is_ok r"
  by (cases r) simp_all

lemma propagates_wrapping [propagates_intros]: "propagates m \<Longrightarrow> propagates (wrapping f m)"
  by (simp add: propagates_def post_wrapping)

lemma propagates_each [propagates_intros]: "(\<And>x. x \<in> set xs \<Longrightarrow> propagates (f x)) \<Longrightarrow> propagates (each f xs)"
  by (induction xs) (auto intro: propagates_intros)

lemma propagates_if [propagates_intros]: "(b \<Longrightarrow> propagates m) \<Longrightarrow> (\<not> b \<Longrightarrow> propagates n) \<Longrightarrow> propagates (if b then m else n)"
  by simp

lemma propagates_option [propagates_intros]:
  "(x = None \<Longrightarrow> propagates m) \<Longrightarrow> (\<And>y. x = Some y \<Longrightarrow> propagates (f y)) \<Longrightarrow> propagates (case x of None \<Rightarrow> m | Some y \<Rightarrow> f y)"
  by (simp split: option.split)

lemma propagates_sum [propagates_intros]:
  "(\<And>e. x = Inl e \<Longrightarrow> propagates (f e)) \<Longrightarrow> (\<And>y. x = Inr y \<Longrightarrow> propagates (g y)) \<Longrightarrow> propagates (case x of Inl e \<Rightarrow> f e | Inr y \<Rightarrow> g y)"
  by (simp split: sum.split)

lemma propagates_writes [propagates_intros]:
  "propagates (CreateOrUpdate mk kd st ns n f)" "propagates (List_in mk kd st ns ls)" "propagates (DeleteIfExists kd st ns n)"
  by (auto simp: propagates_def CreateOrUpdate_def List_in_def DeleteIfExists_def Delete_def IgnoreNotFound_def post_simps
      split: prod.split)

lemma propagates_reads [propagates_intros]:
  "propagates (attempt (Get mk kd st ns n))" "propagates (attempt (Patch mk st x y))"
  by (auto simp: Get_def Patch_def intro!: propagates_emits emits_intros)

lemma staged_bind:
  assumes "emits P m" and "propagates m" and "\<And>a s'. post (f a) s' (\<lambda>r es s'. staged Ps es)"
  shows "post (bind_io m f) s (\<lambda>r es s'. staged (P # Ps) es)"
proof -
  have m: "post m s (\<lambda>r es s'. list_all P es \<and> (is_ok r \<longrightarrow> list_all carried_out es))"
    using emits_post [OF assms(1)] assms(2) by (simp add: propagates_def post_iff)
  show ?thesis
  proof (rule post_bindI [OF m])
    fix e :: go_error and es and s' :: 'a
    assume "list_all P es \<and> (is_ok (Inl e) \<longrightarrow> list_all carried_out es)"
    then show "staged (P # Ps) es" using staged_Nil [of Ps] by auto
  next
    fix a :: 'b and es and s' :: 'a
    assume now: "list_all P es \<and> (is_ok (Inr a :: go_error + 'b) \<longrightarrow> list_all carried_out es)"
    show "post (f a) s' (\<lambda>r es' s''. staged (P # Ps) (es @ es'))"
      by (rule post_mono [OF assms(3)]) (use now in auto)
  qed
qed

lemma staged_last: "emits P m \<Longrightarrow> post m s (\<lambda>r es s'. staged [P] es)"
  by (rule post_mono [OF emits_post]) auto

text \<open>The objects of an instance, by the stage that writes them.\<close>

fun upserts_in :: "(kind \<times> string \<times> string) set \<Rightarrow> event \<Rightarrow> bool" where
  "upserts_in objs (Upserted kd ns n r) = ((kd, ns, n) \<in> objs)"
| "upserts_in objs e = False"

fun deletes_in :: "(kind \<times> string \<times> string) set \<Rightarrow> event \<Rightarrow> bool" where
  "deletes_in objs (Deleted kd ns n good) = ((kd, ns, n) \<in> objs)"
| "deletes_in objs e = False"

definition provisioned_media :: "Jellyfin \<Rightarrow> MediaFolder set" where
  "provisioned_media jf = {mf \<in> set (st_media (js_storage (jf_spec jf))). mf_existingClaim mf = ''''
     \<and> (case mf_nfs mf of Some nfs \<Rightarrow> nfs_provision nfs
        | None \<Rightarrow> (case mf_pvc mf of None \<Rightarrow> False | Some pvc \<Rightarrow> pvc_existingClaim pvc = ''''))}"

text \<open>The claims that the spec asks the operator to provide; none for which the user names an existing claim.\<close>

definition managed_claims :: "Jellyfin \<Rightarrow> (kind \<times> string \<times> string) set" where
  "managed_claims jf = (let st = js_storage (jf_spec jf); ns = jf_namespace jf in
     {(KClaim, ns, ConfigClaimName jf) | x :: unit. pvc_existingClaim (st_config st) = ''''}
     \<union> {(KClaim, ns, CacheClaimName jf) | c. st_cache st = Some c \<and> pvc_existingClaim c = ''''}
     \<union> {(KClaim, ns, TrickplayClaimName jf) | c. st_trickplay st = Some c \<and> pvc_existingClaim c = ''''}
     \<union> (\<lambda>mf. (KClaim, ns, MediaClaimName jf mf)) ` provisioned_media jf)"

definition managed_volumes :: "Jellyfin \<Rightarrow> (kind \<times> string \<times> string) set" where
  "managed_volumes jf = {(KVolume, '''', pv_name_of jf mf) | mf. mf \<in> provisioned_media jf \<and> mf_nfs mf \<noteq> None}"

text \<open>A patch of a claim changes the requests only, and lets a bound claim grow.\<close>

fun grows_claim :: "event \<Rightarrow> bool" where
  "grows_claim (Patched (OClaim new) (OClaim base) good) = (claim_phase base = ClaimBound
     \<and> (\<exists>asked. new = base\<lparr>claim_requests := map_put ResourceStorage asked (claim_requests base)\<rparr>
          \<and> (case request base of None \<Rightarrow> True | Some q \<Rightarrow> q < asked)))"
| "grows_claim e = False"

fun reads_volume :: "event \<Rightarrow> bool" where
  "reads_volume (Got kd ns n r) = (kd = KVolume)"
| "reads_volume e = False"

definition storage_stage :: "Jellyfin \<Rightarrow> event \<Rightarrow> bool" where
  "storage_stage jf e \<longleftrightarrow> upserts_in (managed_claims jf \<union> managed_volumes jf) e \<or> deletes_in (managed_volumes jf) e
     \<or> grows_claim e \<or> reads_volume e"

fun lists_plugins :: "Jellyfin \<Rightarrow> event \<Rightarrow> bool" where
  "lists_plugins jf (Listed kd ns ls r) = (kd = KPlugin \<and> ns = jf_namespace jf)"
| "lists_plugins jf e = False"

definition server_stage :: "Jellyfin \<Rightarrow> event \<Rightarrow> bool" where
  "server_stage jf = upserts_in {(KDeployment, jf_namespace jf, jf_name jf)}"

definition service_stage :: "Jellyfin \<Rightarrow> event \<Rightarrow> bool" where
  "service_stage jf = upserts_in {(KService, jf_namespace jf, jf_name jf)}"

text \<open>The optional parts: written when the spec has them, removed when it does not.\<close>

definition optional_stage :: "bool \<Rightarrow> (kind \<times> string \<times> string) set \<Rightarrow> event \<Rightarrow> bool" where
  "optional_stage wanted objs = (if wanted then upserts_in objs else deletes_in objs)"

definition ingress_stage :: "Jellyfin \<Rightarrow> event \<Rightarrow> bool" where
  "ingress_stage jf = optional_stage (js_ingress (jf_spec jf) \<noteq> None) {(KIngress, jf_namespace jf, jf_name jf)}"

definition web_stage :: "Jellyfin \<Rightarrow> event \<Rightarrow> bool" where
  "web_stage jf = optional_stage (js_web (jf_spec jf) \<noteq> None \<and> EffectiveMode (js_web (jf_spec jf)) \<noteq> WebModeVolume)
     {(KDeployment, jf_namespace jf, WebDeploymentName jf), (KService, jf_namespace jf, WebServiceName jf)}"

definition route_stage :: "Jellyfin \<Rightarrow> event \<Rightarrow> bool" where
  "route_stage jf = optional_stage (js_gateway (jf_spec jf) \<noteq> None) {(KRoute, jf_namespace jf, HTTPRouteName jf)}"

fun status_stage :: "Jellyfin \<Rightarrow> event \<Rightarrow> bool" where
  "status_stage jf (Got kd ns n r) = (kd \<in> {KDeployment, KJellyfin} \<and> ns = jf_namespace jf \<and> n = jf_name jf)"
| "status_stage jf (StatusUpdated (OJellyfin j) good) = True"
| "status_stage jf e = False"

definition stages_of :: "Jellyfin \<Rightarrow> (event \<Rightarrow> bool) list" where
  "stages_of jf = [lists_plugins jf, storage_stage jf, server_stage jf, service_stage jf, ingress_stage jf,
     web_stage jf, route_stage jf, status_stage jf]"

section \<open>What each stage calls\<close>

lemma emits_upsert: "(\<And>r. P (Upserted kd ns n r)) \<Longrightarrow> emits P (CreateOrUpdate mk kd st ns n f)"
  by (simp add: CreateOrUpdate_def emits_call)

lemma emits_DeleteIfExists: "(\<And>good. P (Deleted kd ns n good)) \<Longrightarrow> emits P (DeleteIfExists kd st ns n)"
  by (auto simp: DeleteIfExists_def Delete_def intro!: emits_intros)

lemma emits_ensurePVC:
  assumes "(KClaim, jf_namespace jf, n) \<in> managed_claims jf"
  shows "emits (storage_stage jf) (ensurePVC k jf n spec modes asked)"
  unfolding ensurePVC_def Let_def
proof (rule emits_bind)
  show "emits (storage_stage jf) (CreateOrUpdate OClaim KClaim (k_claims k) (jf_namespace jf) n
      (claim_mutate k jf spec (if pvc_accessModes spec = [] then modes else pvc_accessModes spec) (pvc_size_or asked spec)))"
    using assms by (intro emits_upsert) (simp add: storage_stage_def)
  fix c
  show "emits (storage_stage jf) (growPVC k c (pvc_size_or asked spec))"
    unfolding growPVC_def Let_def Patch_def
    by (intro emits_intros) (auto simp: storage_stage_def split: option.splits)
qed

lemma emits_nfs:
  assumes "mf \<in> provisioned_media jf" and "mf_nfs mf = Some nfs"
  shows "emits (storage_stage jf) (ensureProvisionedNFS k quoted jf mf nfs)"
proof -
  have claim: "(KClaim, jf_namespace jf, MediaClaimName jf mf) \<in> managed_claims jf"
    using assms(1) by (auto simp: managed_claims_def Let_def)
  have volume: "(KVolume, '''', pv_name_of jf mf) \<in> managed_volumes jf"
    using assms by (auto simp: managed_volumes_def)
  show ?thesis
    unfolding ensureProvisionedNFS_def replace_drifted_def Let_def Get_def
    by (intro emits_intros emits_upsert emits_DeleteIfExists) (simp_all add: storage_stage_def claim volume)
qed

lemma emits_storage: "emits (storage_stage jf) (reconcileStorage k quoted jf)"
proof -
  have media: "emits (storage_stage jf) (reconcile_media k quoted jf mf)" if mf: "mf \<in> set (st_media (js_storage (jf_spec jf)))" for mf
  proof (cases "mf \<in> provisioned_media jf")
    case True
    then have claim: "(KClaim, jf_namespace jf, MediaClaimName jf mf) \<in> managed_claims jf"
      by (auto simp: managed_claims_def Let_def)
    show ?thesis
      unfolding reconcile_media_def
      by (intro emits_intros emits_ensurePVC [OF claim] emits_nfs [OF True])
  next
    case False
    with mf have "reconcile_media k quoted jf mf = ret ()"
      by (auto simp: reconcile_media_def provisioned_media_def split: option.split)
    then show ?thesis by (simp add: emits_ret)
  qed
  show ?thesis
    unfolding reconcileStorage_def Let_def
    by (intro emits_intros media emits_ensurePVC) (auto simp: managed_claims_def Let_def)
qed

lemma emits_stages:
  "emits (lists_plugins jf) (BoundPlugins k jf)"
  "emits (server_stage jf) (reconcileDeployment k jf plugins)"
  "emits (service_stage jf) (reconcileService k jf)"
  "emits (ingress_stage jf) (reconcileIngress k jf)"
  "emits (web_stage jf) (reconcileWeb k jf)"
  "emits (route_stage jf) (reconcileGateway k jf)"
proof -
  show "emits (lists_plugins jf) (BoundPlugins k jf)"
    unfolding BoundPlugins_def list_plugins_def List_in_def by (intro emits_intros) simp
  show "emits (server_stage jf) (reconcileDeployment k jf plugins)"
    unfolding reconcileDeployment_def upsert_deployment_def by (intro emits_intros emits_upsert) (simp add: server_stage_def)
  show "emits (service_stage jf) (reconcileService k jf)"
    unfolding reconcileService_def by (intro emits_intros emits_upsert) (simp add: service_stage_def)
  show "emits (ingress_stage jf) (reconcileIngress k jf)"
    unfolding reconcileIngress_def
    by (intro emits_intros emits_upsert emits_DeleteIfExists) (simp_all add: ingress_stage_def optional_stage_def)
  show "emits (web_stage jf) (reconcileWeb k jf)"
    unfolding reconcileWeb_def upsert_deployment_def
    by (intro emits_intros emits_upsert emits_DeleteIfExists) (auto simp: web_stage_def optional_stage_def)
  show "emits (route_stage jf) (reconcileGateway k jf)"
    unfolding reconcileGateway_def
    by (intro emits_intros emits_upsert emits_DeleteIfExists) (auto simp: route_stage_def optional_stage_def)
qed

lemma emits_writeJellyfinStatus:
  assumes "retry_works k" and "\<And>r. P (Got KJellyfin (jf_namespace jf) (jf_name jf) r)"
    and "\<And>cur good. P (StatusUpdated (OJellyfin (cur\<lparr>jf_status := jf_status jf\<rparr>)) good)"
  shows "emits P (writeJellyfinStatus k jf)"
  unfolding writeJellyfinStatus_def get_jellyfin_def Get_def StatusUpdate_def
  by (intro emits_retry [OF assms(1)] emits_intros assms(2,3))

lemma instance_status_key:
  "jf_namespace (instance_status k jf plugins ready) = jf_namespace jf"
  "jf_name (instance_status k jf plugins ready) = jf_name jf"
  by (simp_all add: instance_status_def set_jf_condition_def Let_def)

lemma emits_status:
  assumes "retry_works k"
  shows "emits (status_stage jf) (updateInstanceStatus k jf plugins)"
  unfolding updateInstanceStatus_def Get_def
  by (intro emits_intros emits_writeJellyfinStatus [OF assms]) (simp_all add: instance_status_key)

lemma propagates_growPVC [propagates_intros]: "propagates (growPVC k c asked)"
  unfolding growPVC_def Let_def by (intro propagates_intros)

lemma propagates_ensurePVC [propagates_intros]: "propagates (ensurePVC k jf n spec modes asked)"
  unfolding ensurePVC_def Let_def by (intro propagates_intros)

lemma propagates_storage: "propagates (reconcileStorage k quoted jf)"
  unfolding reconcileStorage_def reconcile_media_def [abs_def] ensureProvisionedNFS_def replace_drifted_def Let_def
  by (intro propagates_intros)

lemma propagates_stages:
  "propagates (BoundPlugins k jf)" "propagates (reconcileDeployment k jf plugins)" "propagates (reconcileService k jf)"
  "propagates (reconcileIngress k jf)" "propagates (reconcileWeb k jf)" "propagates (reconcileGateway k jf)"
  unfolding BoundPlugins_def list_plugins_def reconcileDeployment_def upsert_deployment_def reconcileService_def
    reconcileIngress_def reconcileWeb_def reconcileGateway_def
  by (intro propagates_intros)+



section \<open>Status\<close>

text \<open>\<open>RetryOnConflict\<close> returns normally only after a run that does.\<close>

lemma post_attempts_ok:
  assumes "\<And>s. post m s (\<lambda>r es s'. is_ok r \<longrightarrow> list_ex Q es)"
  shows "post (attempts n m) s (\<lambda>r es s'. is_ok r \<longrightarrow> list_ex Q es)"
proof (induction n arbitrary: s)
  case 0
  show ?case using assms by simp
next
  case (Suc n)
  show ?case unfolding attempts.simps post_bind post_attempt
    by (rule post_mono [OF assms [of s]]) (auto simp: post_lift intro: post_mono [OF Suc.IH])
qed

fun written_status :: "JellyfinStatus \<Rightarrow> event \<Rightarrow> bool" where
  "written_status st (StatusUpdated (OJellyfin j) good) = (jf_status j = st)"
| "written_status st (Got kd ns n r) = (kd = KJellyfin)"
| "written_status st e = False"

fun status_accepted :: "event \<Rightarrow> bool" where
  "status_accepted (StatusUpdated (OJellyfin j) good) = good"
| "status_accepted e = False"

lemma post_writeJellyfinStatus:
  assumes "retry_works k"
  shows "post (writeJellyfinStatus k jf) s (\<lambda>r es s'. list_all (written_status (jf_status jf)) es \<and> (is_ok r \<longrightarrow> list_ex status_accepted es))"
proof (rule post_conj)
  have "emits (written_status (jf_status jf)) (writeJellyfinStatus k jf)"
    by (intro emits_writeJellyfinStatus [OF assms]) simp_all
  then show "post (writeJellyfinStatus k jf) s (\<lambda>r es s'. list_all (written_status (jf_status jf)) es)" by (rule emits_post)
  obtain n where retry: "RetryOnConflict k = attempts n" using assms by (auto simp: retry_works_def)
  show "post (writeJellyfinStatus k jf) s (\<lambda>r es s'. is_ok r \<longrightarrow> list_ex status_accepted es)"
    unfolding writeJellyfinStatus_def retry
    by (rule post_attempts_ok)
      (auto simp: get_jellyfin_def Get_def StatusUpdate_def post_simps split: prod.split sum.split)
qed

text \<open>The status that a read of the instance's Deployment calls for.\<close>

definition status_for :: "'e cluster \<Rightarrow> Jellyfin \<Rightarrow> JellyfinPlugin list \<Rightarrow> go_error + LiveDeployment \<Rightarrow> JellyfinStatus \<Rightarrow> bool" where
  "status_for k jf plugins x st \<longleftrightarrow> (let
       available = (\<exists>dep. x = Inr dep \<and> 0 < sint (deref (d_replicas dep) 1)
         \<and> sint (deref (d_replicas dep) 1) \<le> sint (ld_availableReplicas dep));
       told = (\<lambda>t. map_option cond_status (FindStatusCondition k (jst_conditions st) t))
     in jst_phase st = (if available then ''Ready'' else ''Pending'')
        \<and> told conditionReady = Some (if available then ConditionTrue else ConditionFalse)
        \<and> told conditionPluginsLoaded = Some (if available then ConditionTrue else ConditionFalse)
        \<and> (\<forall>t. t = conditionReady \<or> t = conditionPluginsLoaded
              \<or> FindStatusCondition k (jst_conditions st) t = FindStatusCondition k (jst_conditions (jf_status jf)) t)
        \<and> map lp_name (jst_loadedPlugins st) = map jp_name plugins \<and> jst_observedGeneration st = jf_generation jf
        \<and> jst_apiCredentialsSecret st = jst_apiCredentialsSecret (jf_status jf)
        \<and> jst_managedLibraries st = jst_managedLibraries (jf_status jf))"

lemma instance_status_for:
  assumes "conditions_work k"
  shows "status_for k jf plugins x (jf_status (instance_status k jf plugins (deployment_ready x)))"
proof -
  have ready: "deployment_ready x \<longleftrightarrow> (\<exists>dep. x = Inr dep \<and> 0 < sint (deref (d_replicas dep) 1)
         \<and> sint (deref (d_replicas dep) 1) \<le> sint (ld_availableReplicas dep))"
    by (cases x) (auto simp: deployment_ready_def Let_def)
  have names: "lp_name (loaded_plugin p) = jp_name p" for p by (simp add: loaded_plugin_def Let_def)
  show ?thesis
    unfolding status_for_def Let_def ready [symmetric]
    by (cases "deployment_ready x")
      (simp_all add: instance_status_def set_jf_condition_def Let_def find_setCondition [OF assms] condition_names
        ConditionTrue_def ConditionFalse_def names)
qed

definition reports_instance :: "'e cluster \<Rightarrow> Jellyfin \<Rightarrow> JellyfinPlugin list \<Rightarrow> bool \<Rightarrow> event list \<Rightarrow> bool" where
  "reports_instance k jf plugins ok es \<longleftrightarrow> (\<exists>x st writes.
     es = Got KDeployment (jf_namespace jf) (jf_name jf) (map_ok ODeployment x) # writes
     \<and> status_for k jf plugins x st \<and> list_all (written_status st) writes \<and> (ok \<longrightarrow> list_ex status_accepted writes))"

lemma reports_instance_run:
  assumes "conditions_work k" and "retry_works k"
  shows "post (updateInstanceStatus k jf plugins) s (\<lambda>r es s'. reports_instance k jf plugins (is_ok r) es)"
proof -
  have read: "post (attempt (Get ODeployment KDeployment (k_deployments k) (jf_namespace jf) (jf_name jf))) s
    (\<lambda>r es s'. case r of Inl e \<Rightarrow> False | Inr x \<Rightarrow> es = [Got KDeployment (jf_namespace jf) (jf_name jf) (map_ok ODeployment x)])"
    by (simp add: Get_def post_attempt post_call split: prod.split)
  show ?thesis unfolding updateInstanceStatus_def
  proof (rule post_bindI [OF read])
    fix x es and s1 :: 'a
    assume "case Inr x of Inl e \<Rightarrow> False | Inr x \<Rightarrow> es = [Got KDeployment (jf_namespace jf) (jf_name jf) (map_ok ODeployment x)]"
    then have es: "es = [Got KDeployment (jf_namespace jf) (jf_name jf) (map_ok ODeployment x)]" by simp
    show "post (writeJellyfinStatus k (instance_status k jf plugins (deployment_ready x))) s1
      (\<lambda>r es' s'. reports_instance k jf plugins (is_ok r) (es @ es'))"
      by (rule post_mono [OF post_writeJellyfinStatus [OF assms(2)]])
        (use instance_status_for [OF assms(1), of jf plugins x] in \<open>auto simp: reports_instance_def es\<close>)
  qed simp
qed

text \<open>
  C27. The status of an instance. \<open>updateStatus\<close> reads the instance's Deployment and writes, in every attempt, the status that
  this read calls for: ready exactly if the Deployment was read, wants at least one replica and has that many available;
  the two conditions of this reconciler say the same, all conditions and fields of the day-2 loop are kept, and a run
  without error has had such a status accepted.
\<close>

theorem updateInstanceStatus_reports:
  assumes "conditions_work k" and "retry_works k"
  shows "post (updateInstanceStatus k jf plugins) s (\<lambda>r es s'. reports_instance k jf plugins (is_ok r) es)"
  by (rule reports_instance_run [OF assms])

theorem updateInstanceStatus_reports_witness:
  "reports_instance (empty_cluster :: unit cluster) sample_jf []
     (is_ok (result (updateInstanceStatus empty_cluster sample_jf [] ())))
     (events (updateInstanceStatus empty_cluster sample_jf [] ()))"
  using updateInstanceStatus_reports [OF empty_cluster_works, of sample_jf "[]" "()"] by (simp add: post_iff)

section \<open>Divergences between the parts\<close>

text \<open>
  The Service of an instance listens on \<open>spec.service.port\<close>, while the route always names port 8096 of that Service.
\<close>

lemma route_ignores_service_port:
  assumes "svc_port (js_service (jf_spec jf)) = 80" and "instance_service_mutate k jf svc = Inr svc'"
  shows "map sp_port (s_ports svc') = [80]" and "ru_action (default_rule jf) = Backend (jf_name jf) 8096"
  using assms by (auto simp: instance_service_mutate_def server_port_def default_rule_def DefaultJellyfinPort_def Let_def)

text \<open>A class or a TLS section removed from the spec stays in the Ingress.\<close>

lemma ingress_keeps_dropped_fields:
  assumes "ing_className spec = ''''" "ing_tls spec = None" and "ingress_mutate k jf spec ing = Inr ing'"
  shows "ing_class ing' = ing_class ing" "ing_tls_of ing' = ing_tls_of ing"
  using assms by (auto simp: ingress_mutate_def)

text \<open>
  Both controllers write the whole status of an instance: whatever the other has stored since this one read the object is
  replaced by what this one read.
\<close>

lemma status_write_overwrites:
  assumes "RetryOnConflict k = attempts n" and "raw_get (k_jellyfins k) (jf_namespace jf) (jf_name jf) s = (Inr cur, s1)"
    and "raw_updateStatus (k_jellyfins k) (cur\<lparr>jf_status := jf_status jf\<rparr>) s1 = (Inr (), s2)"
  shows "result (writeJellyfinStatus k jf s) = Inr ()"
    and "StatusUpdated (OJellyfin (cur\<lparr>jf_status := jf_status jf\<rparr>)) True \<in> set (events (writeJellyfinStatus k jf s))"
proof -
  have once: "bind_io (get_jellyfin k (jf_namespace jf) (jf_name jf)) (\<lambda>cur.
      StatusUpdate OJellyfin (k_jellyfins k) (cur\<lparr>jf_status := jf_status jf\<rparr>)) s
    = (Inr (), [Got KJellyfin (jf_namespace jf) (jf_name jf) (Inr (OJellyfin cur)),
         StatusUpdated (OJellyfin (cur\<lparr>jf_status := jf_status jf\<rparr>)) True], s2)"
    using assms(2,3) by (simp add: bind_io_def get_jellyfin_def Get_def StatusUpdate_def call_def)
  have "writeJellyfinStatus k jf s = (Inr (), [Got KJellyfin (jf_namespace jf) (jf_name jf) (Inr (OJellyfin cur)),
         StatusUpdated (OJellyfin (cur\<lparr>jf_status := jf_status jf\<rparr>)) True], s2)"
    unfolding writeJellyfinStatus_def assms(1)
    by (cases n) (simp_all add: once, simp add: bind_io_def attempt_def lift_def once [unfolded bind_io_def])
  then show "result (writeJellyfinStatus k jf s) = Inr ()"
    and "StatusUpdated (OJellyfin (cur\<lparr>jf_status := jf_status jf\<rparr>)) True \<in> set (events (writeJellyfinStatus k jf s))"
    by simp_all
qed

end
