(* ===== verification/Convergence.thy ===== *)
theory Convergence
  imports Instance_Correct Plugin_Correct
begin

text \<open>
  The functions that the reconcilers give to \<open>controllerutil.CreateOrUpdate\<close> settle: applied to an object they have already
  been applied to, and which the API server has stored, they change nothing, so \<open>CreateOrUpdate\<close> writes nothing and
  a converged cluster is left alone.
\<close>

section \<open>The interface\<close>

definition settled_by :: "('o \<Rightarrow> go_error + 'o) \<Rightarrow> ('o \<Rightarrow> 'o) \<Rightarrow> bool" where
  "settled_by f kept \<longleftrightarrow> (\<forall>x. case f x of Inl e \<Rightarrow> True | Inr y \<Rightarrow> f (kept y) = Inr (kept y))"

text \<open>\<open>kept\<close> is what the server adds to an object that it keeps: its creation timestamp.\<close>

locale settling =
  fixes f :: "'o \<Rightarrow> go_error + 'o" and kept :: "'o \<Rightarrow> 'o"
  assumes settles: "f x = Inr y \<Longrightarrow> f (kept y) = Inr (kept y)"
begin

lemma settled: "settled_by f kept"
  using settles by (auto simp: settled_by_def split: sum.split)

text \<open>
  \<open>CreateOrUpdate\<close> on a store that keeps what it is given and does not write an object that has not changed: the second of
  two calls leaves the world as it is, and a third does too.
\<close>

lemma second_call_writes_nothing:
  assumes keeps: "\<And>s y s'. raw_upsert st ns n f s = (Inr y, s') \<Longrightarrow> \<exists>x. f x = Inr y \<and> live s' = Some (kept y)"
    and unchanged: "\<And>s x. live s = Some x \<Longrightarrow> f x = Inr x \<Longrightarrow> raw_upsert st ns n f s = (Inr x, s)"
    and first: "raw_upsert st ns n f s = (Inr y, s')"
  shows "final (CreateOrUpdate mk kd st ns n f s') = s'"
proof -
  obtain x where "f x = Inr y" "live s' = Some (kept y)" using keeps [OF first] by blast
  then have "raw_upsert st ns n f s' = (Inr (kept y), s')" using unchanged settles by blast
  then show ?thesis by (simp add: CreateOrUpdate_def call_def)
qed

end

text \<open>The documented behaviour of \<open>SetControllerReference\<close>: a reference that is there is not added again.\<close>

locale owner_refs =
  fixes k :: "'e cluster"
  assumes again: "SetControllerReference k owner owners = Inr owners' \<Longrightarrow> SetControllerReference k owner owners' = Inr owners'"

interpretation list_refs: owner_refs empty_cluster
  by unfold_locales (auto simp: empty_cluster_def split: if_splits)

section \<open>Every closure settles\<close>

definition stored_claim_of :: "PersistentVolumeClaim \<Rightarrow> PersistentVolumeClaim" where
  "stored_claim_of c = c\<lparr>claim_created := True\<rparr>"

definition stored_deployment :: "LiveDeployment \<Rightarrow> LiveDeployment" where
  "stored_deployment d = d\<lparr>ld_created := True\<rparr>"

sublocale owner_refs \<subseteq> claim: settling "claim_mutate k jf spec modes asked" stored_claim_of for jf spec modes asked
  by unfold_locales (auto simp: claim_mutate_def stored_claim_of_def Let_def again)

sublocale owner_refs \<subseteq> nfs_claim: settling "nfs_claim_mutate k jf nfs pvName" stored_claim_of for jf nfs pvName
  by unfold_locales (auto simp: nfs_claim_mutate_def stored_claim_of_def Let_def again)

sublocale owner_refs \<subseteq> deployment: settling "deployment_mutate k jf desired" stored_deployment for jf desired
  by unfold_locales (auto simp: deployment_mutate_def stored_deployment_def again)

sublocale owner_refs \<subseteq> workload: settling "workload_mutate k p desired" stored_deployment for p desired
  by unfold_locales (auto simp: workload_mutate_def stored_deployment_def again)

sublocale owner_refs \<subseteq> service: settling "instance_service_mutate k jf" "\<lambda>x. x" for jf
  by unfold_locales (auto simp: instance_service_mutate_def Let_def again)

sublocale owner_refs \<subseteq> web_service: settling "web_service_mutate k jf desired" "\<lambda>x. x" for jf desired
  by unfold_locales (auto simp: web_service_mutate_def again)

sublocale owner_refs \<subseteq> plugin_service: settling "service_mutate k p desired" "\<lambda>x. x" for p desired
  by unfold_locales (auto simp: service_mutate_def again)

sublocale owner_refs \<subseteq> ingress: settling "ingress_mutate k jf spec" "\<lambda>x. x" for jf spec
  by unfold_locales (auto simp: ingress_mutate_def again split: option.split)

sublocale owner_refs \<subseteq> route: settling "route_mutate k jf desired" "\<lambda>x. x" for jf desired
  by unfold_locales (auto simp: route_mutate_def again)

interpretation volume: settling "volume_mutate jf nfs claim" "\<lambda>x. x" for jf nfs claim
  by unfold_locales (auto simp: volume_mutate_def split: option.split)

context owner_refs begin

lemma all_settled:
  "settled_by (claim_mutate k jf spec modes asked) stored_claim_of
    \<and> settled_by (nfs_claim_mutate k jf nfs pvName) stored_claim_of
    \<and> settled_by (volume_mutate jf nfs claim) (\<lambda>x. x)
    \<and> settled_by (deployment_mutate k jf dep) stored_deployment
    \<and> settled_by (workload_mutate k p dep) stored_deployment
    \<and> settled_by (instance_service_mutate k jf) (\<lambda>x. x)
    \<and> settled_by (web_service_mutate k jf svc) (\<lambda>x. x)
    \<and> settled_by (service_mutate k p svc) (\<lambda>x. x)
    \<and> settled_by (ingress_mutate k jf ing) (\<lambda>x. x)
    \<and> settled_by (route_mutate k jf route) (\<lambda>x. x)"
  by (intro conjI claim.settled nfs_claim.settled volume.settled deployment.settled workload.settled service.settled
      web_service.settled plugin_service.settled ingress.settled route.settled)

end

text \<open>
  Reconciling twice writes once. Each of the ten functions that the reconcilers give to \<open>CreateOrUpdate\<close> (claims, volumes,
  Deployments, companion workloads, Services, Ingress, route) leaves an object that it has produced and the server has
  stored exactly as it is, so a reconcile of an unchanged spec does not write again.
\<close>

theorem mutations_settle:
  assumes "owner_refs k"
  shows "settled_by (claim_mutate k jf spec modes asked) stored_claim_of
    \<and> settled_by (nfs_claim_mutate k jf nfs pvName) stored_claim_of
    \<and> settled_by (volume_mutate jf nfs claim) (\<lambda>x. x)
    \<and> settled_by (deployment_mutate k jf dep) stored_deployment
    \<and> settled_by (workload_mutate k p dep) stored_deployment
    \<and> settled_by (instance_service_mutate k jf) (\<lambda>x. x)
    \<and> settled_by (web_service_mutate k jf svc) (\<lambda>x. x)
    \<and> settled_by (service_mutate k p svc) (\<lambda>x. x)
    \<and> settled_by (ingress_mutate k jf ing) (\<lambda>x. x)
    \<and> settled_by (route_mutate k jf route) (\<lambda>x. x)"
  using assms by (rule owner_refs.all_settled)

theorem mutations_settle_witness:
  "settled_by (claim_mutate (empty_cluster :: unit cluster) sample_jf no_pvc [ReadWriteOnce] (Gi 10)) stored_claim_of
   \<and> settled_by (instance_service_mutate (empty_cluster :: unit cluster) sample_jf) (\<lambda>x. x)"
  using mutations_settle [OF list_refs.owner_refs_axioms] by blast

end
