(* ===== verification/Manager.thy ===== *)
theory Manager
  imports Effects
begin

text \<open>
  Start-up of the operator (\<open>cmd/main.go\<close>): the options of its servers as functions of the command line, and the order in
  which the manager is created, the reconcilers and health checks are registered, and the manager is started. The manager
  itself is a parameter; parsing of the command line and logging are left out.
\<close>

section \<open>Flags and options\<close>

record flags =
  fl_metricsAddr :: string
  fl_probeAddr :: string
  fl_enableLeaderElection :: bool
  fl_secureMetrics :: bool
  fl_webhookCertPath :: string
  fl_webhookCertName :: string
  fl_webhookCertKey :: string
  fl_metricsCertPath :: string
  fl_metricsCertName :: string
  fl_metricsCertKey :: string
  fl_enableHTTP2 :: bool

text \<open>The values of flags that are not given.\<close>

definition default_flags :: flags where
  "default_flags = \<lparr>fl_metricsAddr = ''0'', fl_probeAddr = '':8081'', fl_enableLeaderElection = False, fl_secureMetrics = True,
     fl_webhookCertPath = '''', fl_webhookCertName = ''tls.crt'', fl_webhookCertKey = ''tls.key'', fl_metricsCertPath = '''',
     fl_metricsCertName = ''tls.crt'', fl_metricsCertKey = ''tls.key'', fl_enableHTTP2 = False\<rparr>"

text \<open>Of a \<open>tls.Config\<close> only \<open>NextProtos\<close> is used; an option is a function that changes it.\<close>

type_synonym tls_option = "string list \<Rightarrow> string list"

definition disableHTTP2 :: tls_option where
  "disableHTTP2 protos = [''http/1.1'']"

definition tlsOpts :: "flags \<Rightarrow> tls_option list" where
  "tlsOpts fl = (if \<not> fl_enableHTTP2 fl then [disableHTTP2] else [])"

record server_options =
  so_bindAddress :: string
  so_secureServing :: bool
  so_authenticated :: bool
  so_certDir :: string
  so_certName :: string
  so_keyName :: string
  so_tlsOpts :: "tls_option list"

definition webhookServerOptions :: "flags \<Rightarrow> server_options" where
  "webhookServerOptions fl =
     (let opts = \<lparr>so_bindAddress = '''', so_secureServing = True, so_authenticated = False, so_certDir = '''', so_certName = '''',
            so_keyName = '''', so_tlsOpts = tlsOpts fl\<rparr>
      in if 0 < length (fl_webhookCertPath fl)
         then opts\<lparr>so_certDir := fl_webhookCertPath fl, so_certName := fl_webhookCertName fl, so_keyName := fl_webhookCertKey fl\<rparr>
         else opts)"

definition metricsServerOptions :: "flags \<Rightarrow> server_options" where
  "metricsServerOptions fl =
     (let opts = \<lparr>so_bindAddress = fl_metricsAddr fl, so_secureServing = fl_secureMetrics fl, so_authenticated = False,
            so_certDir = '''', so_certName = '''', so_keyName = '''', so_tlsOpts = tlsOpts fl\<rparr>;
          opts = (if fl_secureMetrics fl then opts\<lparr>so_authenticated := True\<rparr> else opts)
      in if 0 < length (fl_metricsCertPath fl)
         then opts\<lparr>so_certDir := fl_metricsCertPath fl, so_certName := fl_metricsCertName fl, so_keyName := fl_metricsCertKey fl\<rparr>
         else opts)"

record manager_options =
  mo_metrics :: server_options
  mo_webhook :: server_options
  mo_probeAddr :: string
  mo_leaderElection :: bool
  mo_leaderElectionID :: string

definition manager_options_of :: "flags \<Rightarrow> manager_options" where
  "manager_options_of fl = \<lparr>mo_metrics = metricsServerOptions fl, mo_webhook = webhookServerOptions fl,
     mo_probeAddr = fl_probeAddr fl, mo_leaderElection = fl_enableLeaderElection fl,
     mo_leaderElectionID = ''3948b309.jellyops.io''\<rparr>"

text \<open>The protocols that a server with some options announces, whatever they were before.\<close>

definition announced :: "server_options \<Rightarrow> string list \<Rightarrow> string list" where
  "announced opts protos = fold (\<lambda>f. f) (so_tlsOpts opts) protos"

section \<open>Start-up\<close>

datatype startup_step =
    NewManager manager_options
  | SetupController string
  | AddHealthzCheck string
  | AddReadyzCheck string
  | StartManager

text \<open>Every step is a call into the manager, which may fail.\<close>

type_synonym 'e manager = "startup_step \<Rightarrow> 'e \<Rightarrow> (go_error + unit) \<times> 'e"

definition perform :: "'e manager \<Rightarrow> startup_step \<Rightarrow> (startup_step \<times> bool, 'e, unit) io" where
  "perform mgr st = call (mgr st) (\<lambda>r. (st, is_ok r))"

definition startup :: "'e manager \<Rightarrow> flags \<Rightarrow> (startup_step \<times> bool, 'e, unit) io" where
  "startup mgr fl =
     bind_io (perform mgr (NewManager (manager_options_of fl))) (\<lambda>_.
     bind_io (perform mgr (SetupController ''jellyfin'')) (\<lambda>_.
     bind_io (perform mgr (SetupController ''jellyfinplugin'')) (\<lambda>_.
     bind_io (perform mgr (SetupController ''jellyfinapi'')) (\<lambda>_.
     bind_io (perform mgr (AddHealthzCheck ''healthz'')) (\<lambda>_.
     bind_io (perform mgr (AddReadyzCheck ''readyz'')) (\<lambda>_.
       perform mgr StartManager))))))"

text \<open>Every error branch of \<open>main\<close> ends in \<open>os.Exit(1)\<close>.\<close>

definition main_exit :: "'e manager \<Rightarrow> flags \<Rightarrow> (startup_step \<times> bool, 'e, int) io" where
  "main_exit mgr fl = bind_io (attempt (startup mgr fl)) (\<lambda>r. ret (case r of Inl e \<Rightarrow> 1 | Inr u \<Rightarrow> 0))"

definition startup_plan :: "flags \<Rightarrow> startup_step list" where
  "startup_plan fl = [NewManager (manager_options_of fl), SetupController ''jellyfin'', SetupController ''jellyfinplugin'',
     SetupController ''jellyfinapi'', AddHealthzCheck ''healthz'', AddReadyzCheck ''readyz'', StartManager]"

text \<open>The steps done are the first \<open>n\<close> of the plan, all but perhaps the last successfully.\<close>

definition follows_plan :: "startup_step list \<Rightarrow> bool \<Rightarrow> (startup_step \<times> bool) list \<Rightarrow> bool" where
  "follows_plan plan ok es \<longleftrightarrow> es \<noteq> [] \<and> map fst es = take (length es) plan \<and> list_all snd (butlast es)
     \<and> (ok \<longleftrightarrow> length es = length plan \<and> snd (last es))"

fun all_steps :: "'e manager \<Rightarrow> startup_step list \<Rightarrow> (startup_step \<times> bool, 'e, unit) io" where
  "all_steps mgr [] = ret ()"
| "all_steps mgr (st # sts) = bind_io (perform mgr st) (\<lambda>_. all_steps mgr sts)"

lemma bind_ret_right: "bind_io m ret = m"
  by (auto simp: bind_io_def ret_def fun_eq_iff split: prod.split sum.split)

lemma startup_all_steps: "startup mgr fl = all_steps mgr (startup_plan fl)"
  by (simp add: startup_def startup_plan_def bind_ret_right)

lemma post_perform: "post (perform mgr st) s (\<lambda>r es s'. es = [(st, is_ok r)])"
  by (simp add: perform_def post_call split: prod.split)

lemma post_all_steps: "plan \<noteq> [] \<Longrightarrow> post (all_steps mgr plan) s (\<lambda>r es s'. follows_plan plan (is_ok r) es)"
proof (induction plan arbitrary: s)
  case (Cons st plan)
  show ?case unfolding all_steps.simps
  proof (rule post_bindI [OF post_perform])
    fix e :: go_error and es and s' :: 'a
    assume "es = [(st, is_ok (Inl e :: go_error + unit))]"
    then show "follows_plan (st # plan) (is_ok (Inl e :: go_error + unit)) es" by (simp add: follows_plan_def)
  next
    fix u :: unit and es and s' :: 'a
    assume es: "es = [(st, is_ok (Inr u :: go_error + unit))]"
    show "post (all_steps mgr plan) s' (\<lambda>r es' s''. follows_plan (st # plan) (is_ok r) (es @ es'))"
    proof (cases plan)
      case Nil
      then show ?thesis by (simp add: post_ret follows_plan_def es)
    next
      case (Cons st' plan')
      then have "plan \<noteq> []" by simp
      from Cons.IH [OF this] show ?thesis
        by (rule post_mono) (auto simp: follows_plan_def es)
    qed
  qed
qed simp

text \<open>
  Start-up. The operator starts the manager only after all three reconcilers and both health checks have been
  registered, in the order of the source; it stops at the first step that fails, and exits with 1 exactly if one does.
  Unless HTTP/2 is enabled on the command line both servers announce HTTP/1.1 alone, and a metrics endpoint
  that is served securely asks for authentication.
\<close>

theorem main_starts_complete:
  "post (main_exit mgr fl) s (\<lambda>r es s'. \<exists>code. r = Inr code \<and> code \<in> {0, 1} \<and> follows_plan (startup_plan fl) (code = 0) es)
   \<and> (fl_enableHTTP2 fl \<or> announced (metricsServerOptions fl) protos = [''http/1.1'']
        \<and> announced (webhookServerOptions fl) protos = [''http/1.1''])
   \<and> so_authenticated (metricsServerOptions fl) = so_secureServing (metricsServerOptions fl)"
proof (intro conjI)
  have "startup_plan fl \<noteq> []" by (simp add: startup_plan_def)
  from post_all_steps [OF this, of mgr s]
  have "post (startup mgr fl) s (\<lambda>r es s'. follows_plan (startup_plan fl) (is_ok r) es)" by (simp add: startup_all_steps)
  then show "post (main_exit mgr fl) s (\<lambda>r es s'. \<exists>code. r = Inr code \<and> code \<in> {0, 1} \<and> follows_plan (startup_plan fl) (code = 0) es)"
    unfolding main_exit_def post_bind post_attempt by (rule post_mono) (auto simp: post_ret split: sum.split)
  show "fl_enableHTTP2 fl \<or> announced (metricsServerOptions fl) protos = [''http/1.1'']
        \<and> announced (webhookServerOptions fl) protos = [''http/1.1'']"
    by (simp add: announced_def metricsServerOptions_def webhookServerOptions_def tlsOpts_def disableHTTP2_def Let_def)
  show "so_authenticated (metricsServerOptions fl) = so_secureServing (metricsServerOptions fl)"
    by (simp add: metricsServerOptions_def Let_def)
qed

end
