(* ===== verification/Go_Heap.thy ===== *)
theory Go_Heap
  imports Prelude
begin

text \<open>
  Go values with sharing. The other theories model API objects as values; the generated deep
  copies (api/v1alpha1/zz_generated.deepcopy.go) are about what such a value shares, so here a
  value may hold references into a heap: pointers, slices with an array, an offset and a length,
  and maps. A type descriptor says how a Go type is laid out; from it we read whether a value is
  well typed, the finite tree it stands for, and the heap cells it can reach. A copier is what one
  assignment or \<open>DeepCopyInto\<close> does with a value; each form of statement that the generator emits is
  a combinator on copiers, with one lemma that says when it is a deep copy.

  The heap is a list of objects, an address is an index and an allocation appends: addresses are not
  used twice, as in a language with a garbage collector.
\<close>

section \<open>Values, types and the heap\<close>

text \<open>A library value that is never changed in place, such as a time, is basic.\<close>

datatype basic = GoString string | GoBool bool | GoInt32 int32 | GoInt64 int64 | GoByte "8 word" | GoTime int

datatype go_val =
    Basic basic
  | Struct "(string \<times> go_val) list"
  | Pointer "nat option"
  | Slice "(nat \<times> nat \<times> nat) option"
  | MapRef "nat option"

datatype go_obj = Cell go_val | Array "go_val list" | Table labels

type_synonym heap = "go_obj list"

datatype basic_ty = KString | KBool | KInt32 | KInt64 | KByte | KTime

datatype ty =
    TBasic basic_ty
  | TStruct "(string \<times> ty) list"
  | TPtr ty
  | TSlice ty
  | TMap

fun basic_type :: "basic \<Rightarrow> basic_ty" where
  "basic_type (GoString s) = KString"
| "basic_type (GoBool b) = KBool"
| "basic_type (GoInt32 i) = KInt32"
| "basic_type (GoInt64 i) = KInt64"
| "basic_type (GoByte i) = KByte"
| "basic_type (GoTime t) = KTime"

definition cell_at :: "heap \<Rightarrow> nat \<Rightarrow> go_obj option" where
  "cell_at h a = (if a < length h then Some (h ! a) else None)"

fun var_at :: "heap \<Rightarrow> nat \<Rightarrow> go_val option" where
  "var_at h a = (case cell_at h a of Some (Cell v) \<Rightarrow> Some v | _ \<Rightarrow> None)"

fun array_at :: "heap \<Rightarrow> nat \<times> nat \<times> nat \<Rightarrow> go_val list option" where
  "array_at h (a, off, n) = (case cell_at h a of
     Some (Array vs) \<Rightarrow> if off + n \<le> length vs then Some (take n (drop off vs)) else None | _ \<Rightarrow> None)"

fun table_at :: "heap \<Rightarrow> nat \<Rightarrow> labels option" where
  "table_at h a = (case cell_at h a of Some (Table m) \<Rightarrow> Some m | _ \<Rightarrow> None)"

definition get_field :: "(string \<times> go_val) list \<Rightarrow> string \<Rightarrow> go_val" where
  "get_field vs f = (case map_of vs f of Some v \<Rightarrow> v | None \<Rightarrow> Struct [])"

text \<open>The zero value of a type, which \<open>new(T)\<close> and \<open>make([]T, n)\<close> fill their memory with.\<close>

fun zero_of_basic :: "basic_ty \<Rightarrow> basic" where
  "zero_of_basic KString = GoString ''''"
| "zero_of_basic KBool = GoBool False"
| "zero_of_basic KInt32 = GoInt32 0"
| "zero_of_basic KInt64 = GoInt64 0"
| "zero_of_basic KByte = GoByte 0"
| "zero_of_basic KTime = GoTime 0"

fun zero_value :: "ty \<Rightarrow> go_val" where
  "zero_value (TBasic k) = Basic (zero_of_basic k)"
| "zero_value (TStruct fs) = Struct (map (\<lambda>p. (fst p, zero_value (snd p))) fs)"
| "zero_value (TPtr T) = Pointer None"
| "zero_value (TSlice T) = Slice None"
| "zero_value TMap = MapRef None"

section \<open>Typing, denotation and reachable cells\<close>

lemma field_size [termination_simp]: "p \<in> set fs \<Longrightarrow> size (snd p) < Suc (size_list (size_prod (\<lambda>x. 0) size) fs)"
  by (induction fs) auto

fun typed :: "heap \<Rightarrow> ty \<Rightarrow> go_val \<Rightarrow> bool" where
  "typed h (TBasic k) v = (case v of Basic b \<Rightarrow> basic_type b = k | _ \<Rightarrow> False)"
| "typed h (TStruct fs) v = (case v of
     Struct vs \<Rightarrow> map fst vs = map fst fs \<and> distinct (map fst fs)
                  \<and> (\<forall>p \<in> set fs. typed h (snd p) (get_field vs (fst p)))
   | _ \<Rightarrow> False)"
| "typed h (TPtr T) v = (case v of
     Pointer None \<Rightarrow> True
   | Pointer (Some a) \<Rightarrow> (case var_at h a of Some w \<Rightarrow> typed h T w | None \<Rightarrow> False)
   | _ \<Rightarrow> False)"
| "typed h (TSlice T) v = (case v of
     Slice None \<Rightarrow> True
   | Slice (Some s) \<Rightarrow> (case array_at h s of Some vs \<Rightarrow> (\<forall>w \<in> set vs. typed h T w) | None \<Rightarrow> False)
   | _ \<Rightarrow> False)"
| "typed h TMap v = (case v of
     MapRef None \<Rightarrow> True
   | MapRef (Some a) \<Rightarrow> (case table_at h a of Some m \<Rightarrow> distinct (map fst m) | None \<Rightarrow> False)
   | _ \<Rightarrow> False)"

text \<open>What a reader of the value sees, without addresses: a nil reference and an empty one differ.\<close>

datatype go_tree =
    Leaf basic
  | Fields "(string \<times> go_tree) list"
  | Nil_ref
  | Target go_tree
  | Elements "go_tree list"
  | Mapping "string \<Rightarrow> string option"

fun denote :: "heap \<Rightarrow> ty \<Rightarrow> go_val \<Rightarrow> go_tree" where
  "denote h (TBasic k) v = (case v of Basic b \<Rightarrow> Leaf b | _ \<Rightarrow> Nil_ref)"
| "denote h (TStruct fs) v = (case v of
     Struct vs \<Rightarrow> Fields (map (\<lambda>p. (fst p, denote h (snd p) (get_field vs (fst p)))) fs) | _ \<Rightarrow> Nil_ref)"
| "denote h (TPtr T) v = (case v of
     Pointer (Some a) \<Rightarrow> (case var_at h a of Some w \<Rightarrow> Target (denote h T w) | None \<Rightarrow> Nil_ref) | _ \<Rightarrow> Nil_ref)"
| "denote h (TSlice T) v = (case v of
     Slice (Some s) \<Rightarrow> (case array_at h s of Some vs \<Rightarrow> Elements (map (denote h T) vs) | None \<Rightarrow> Nil_ref) | _ \<Rightarrow> Nil_ref)"
| "denote h TMap v = (case v of
     MapRef (Some a) \<Rightarrow> (case table_at h a of Some m \<Rightarrow> Mapping (map_of m) | None \<Rightarrow> Nil_ref) | _ \<Rightarrow> Nil_ref)"

fun reach :: "heap \<Rightarrow> ty \<Rightarrow> go_val \<Rightarrow> nat list" where
  "reach h (TBasic k) v = []"
| "reach h (TStruct fs) v = (case v of
     Struct vs \<Rightarrow> concat (map (\<lambda>p. reach h (snd p) (get_field vs (fst p))) fs) | _ \<Rightarrow> [])"
| "reach h (TPtr T) v = (case v of
     Pointer (Some a) \<Rightarrow> a # (case var_at h a of Some w \<Rightarrow> reach h T w | None \<Rightarrow> []) | _ \<Rightarrow> [])"
| "reach h (TSlice T) v = (case v of
     Slice (Some s) \<Rightarrow> fst s # (case array_at h s of Some vs \<Rightarrow> concat (map (reach h T) vs) | None \<Rightarrow> []) | _ \<Rightarrow> [])"
| "reach h TMap v = (case v of MapRef (Some a) \<Rightarrow> [a] | _ \<Rightarrow> [])"

text \<open>Types whose values hold no reference: for these \<open>*out = *in\<close> is already a deep copy.\<close>

fun plain :: "ty \<Rightarrow> bool" where
  "plain (TBasic k) = True"
| "plain (TStruct fs) = (\<forall>p \<in> set fs. plain (snd p))"
| "plain (TPtr T) = False"
| "plain (TSlice T) = False"
| "plain TMap = False"

section \<open>Frames\<close>

definition same_on :: "nat set \<Rightarrow> heap \<Rightarrow> heap \<Rightarrow> bool" where
  "same_on A h h' = (\<forall>a \<in> A. cell_at h' a = cell_at h a)"

text \<open>A value is read through the cells it reaches and no others.\<close>

lemma frame:
  "same_on (set (reach h T v)) h h' \<Longrightarrow>
     denote h' T v = denote h T v \<and> reach h' T v = reach h T v \<and> (typed h' T v = typed h T v)"
proof (induction h T v rule: reach.induct)
  case (2 h fs v)
  then show ?case by (cases v) (auto simp: same_on_def intro!: arg_cong [where f = concat])
next
  case (3 h T v)
  then show ?case by (cases v) (auto simp: same_on_def split: option.splits go_obj.splits)
next
  case (4 h T v)
  show ?case
  proof (cases "\<exists>s vs. v = Slice (Some s) \<and> array_at h s = Some vs")
    case True
    then obtain s vs where v: "v = Slice (Some s)" and w: "array_at h s = Some vs" by blast
    obtain a off n where s: "s = (a, off, n)" by (cases s)
    from 4 (2) v s have "cell_at h' a = cell_at h a" by (simp add: same_on_def)
    with w s have w': "array_at h' s = Some vs" by simp
    have "denote h' T x = denote h T x \<and> reach h' T x = reach h T x \<and> (typed h' T x = typed h T x)" if "x \<in> set vs" for x
      using 4 (1) [OF v refl w that] 4 (2) v w that by (auto simp: same_on_def)
    then show ?thesis using v w w' by (auto intro!: arg_cong [where f = concat])
  next
    case False
    with 4 (2) show ?thesis
      by (cases v) (auto simp: same_on_def split: option.splits go_obj.splits)
  qed
next
  case (5 h v)
  then show ?case by (cases v) (auto simp: same_on_def split: option.splits go_obj.splits)
qed auto

lemma typed_reach: "typed h T v \<Longrightarrow> a \<in> set (reach h T v) \<Longrightarrow> a < length h"
proof (induction h T v rule: reach.induct)
  case (2 h fs v)
  then show ?case by (cases v) auto
next
  case (3 h T v)
  then show ?case by (cases v) (auto simp: cell_at_def split: option.splits go_obj.splits if_splits)
next
  case (4 h T v)
  then show ?case by (cases v) (auto simp: cell_at_def split: option.splits go_obj.splits if_splits)
next
  case (5 h v)
  then show ?case by (cases v) (auto simp: cell_at_def split: option.splits go_obj.splits if_splits)
qed auto

lemma plain_reach: "plain T \<Longrightarrow> reach h T v = []"
  by (induction h T v rule: reach.induct) (auto split: go_val.split)

lemma cell_at_append: "a < length h \<Longrightarrow> cell_at (h @ ys) a = cell_at h a"
  by (simp add: cell_at_def nth_append)

lemma cell_at_update_other: "a \<noteq> p \<Longrightarrow> cell_at (h[p := x]) a = cell_at h a"
  by (simp add: cell_at_def)

lemma extend:
  assumes "typed h T v"
  shows "denote (h @ ys) T v = denote h T v" "reach (h @ ys) T v = reach h T v" "typed (h @ ys) T v"
proof -
  have "same_on (set (reach h T v)) h (h @ ys)"
    unfolding same_on_def using typed_reach [OF assms] by (simp add: cell_at_append)
  from frame [OF this] assms show "denote (h @ ys) T v = denote h T v" "reach (h @ ys) T v = reach h T v" "typed (h @ ys) T v"
    by simp_all
qed

section \<open>Copiers\<close>

text \<open>
  A copier takes the value of \<open>*in\<close> and the heap, and returns the value that \<open>*out\<close> has at the end
  and the heap then. The memory of \<open>out\<close> is always fresh in the code that calls one, so its
  intermediate contents are seen by nobody.
\<close>

type_synonym copier = "go_val \<Rightarrow> heap \<Rightarrow> go_val \<times> heap"

text \<open>\<open>*out = *in\<close>\<close>

definition assign :: copier where
  "assign v h = (v, h)"

text \<open>\<open>if in != nil { *out = new(T); c(*in, *out) }\<close>\<close>

fun new_copy :: "ty \<Rightarrow> copier \<Rightarrow> copier" where
  "new_copy T c (Pointer (Some a)) h =
     (let p = length h; h1 = h @ [Cell (zero_value T)] in
      case var_at h1 a of
        Some w \<Rightarrow> (let (w', h2) = c w h1 in (Pointer (Some p), h2[p := Cell w']))
      | None \<Rightarrow> (Pointer (Some a), h))"
| "new_copy T c v h = (v, h)"

text \<open>
  \<open>if in != nil { *out = make([]T, len(*in)); for i := range *in { c((*in)[i], (*out)[i]) } }\<close>, and
  with \<^const>\<open>assign\<close> the built-in \<open>copy(*out, *in)\<close>.
\<close>

definition set_elem :: "heap \<Rightarrow> nat \<Rightarrow> nat \<Rightarrow> go_val \<Rightarrow> heap" where
  "set_elem h p i w = (case cell_at h p of Some (Array vs) \<Rightarrow> h[p := Array (vs[i := w])] | _ \<Rightarrow> h)"

fun copy_range :: "copier \<Rightarrow> nat \<times> nat \<times> nat \<Rightarrow> nat \<Rightarrow> nat list \<Rightarrow> heap \<Rightarrow> heap" where
  "copy_range c s p [] h = h"
| "copy_range c s p (i # js) h = (case array_at h s of
     Some vs \<Rightarrow> (let (w, h') = c (vs ! i) h in copy_range c s p js (set_elem h' p i w))
   | None \<Rightarrow> h)"

fun slice_copy :: "ty \<Rightarrow> copier \<Rightarrow> copier" where
  "slice_copy T c (Slice (Some (a, off, n))) h =
     (let p = length h in
      (Slice (Some (p, 0, n)), copy_range c (a, off, n) p [0..<n] (h @ [Array (replicate n (zero_value T))])))"
| "slice_copy T c v h = (v, h)"

text \<open>
  \<open>if in != nil { *out = make(map[string]string, len(*in)); for key, val := range *in { (*out)[key] = val } }\<close>;
  the table_at are met in some order, and no order gives another map.
\<close>

fun map_copy :: copier where
  "map_copy (MapRef (Some a)) h = (case table_at h a of
     Some m \<Rightarrow> (MapRef (Some (length h)), h @ [Table (fold (\<lambda>(k, v). map_put k v) m [])])
   | None \<Rightarrow> (MapRef (Some a), h))"
| "map_copy v h = (v, h)"

text \<open>\<open>*out = *in\<close> for a struct, then one statement for each of the listed fields, in order.\<close>

fun copy_fields :: "(string \<times> copier) list \<Rightarrow> (string \<times> go_val) list \<Rightarrow> (string \<times> go_val) list \<Rightarrow> heap
    \<Rightarrow> (string \<times> go_val) list \<times> heap" where
  "copy_fields [] ins outs h = (outs, h)"
| "copy_fields ((f, c) # cs) ins outs h =
     (let (v, h') = c (get_field ins f) h in copy_fields cs ins (map_put f v outs) h')"

fun struct_copy :: "(string \<times> copier) list \<Rightarrow> copier" where
  "struct_copy cs (Struct vs) h = (let (vs', h') = copy_fields cs vs vs h in (Struct vs', h'))"
| "struct_copy cs v h = (v, h)"

section \<open>Deep copies\<close>

definition deep_result :: "heap \<Rightarrow> ty \<Rightarrow> go_val \<Rightarrow> go_val \<times> heap \<Rightarrow> bool" where
  "deep_result h T v r = (case r of (v', h') \<Rightarrow>
     (\<exists>ys. h' = h @ ys) \<and> typed h' T v' \<and> denote h' T v' = denote h T v
     \<and> (\<forall>a \<in> set (reach h' T v'). length h \<le> a))"

definition deep :: "ty \<Rightarrow> copier \<Rightarrow> bool" where
  "deep T c = (\<forall>h v. typed h T v \<longrightarrow> deep_result h T v (c v h))"

lemma deepD:
  assumes "deep T c" "typed h T v"
  obtains v' ys where "c v h = (v', h @ ys)" "typed (h @ ys) T v'" "denote (h @ ys) T v' = denote h T v"
    "\<forall>a \<in> set (reach (h @ ys) T v'). length h \<le> a"
  using assms unfolding deep_def deep_result_def by (cases "c v h") fastforce

lemma deep_assign [simp]: "plain T \<Longrightarrow> deep T assign"
  by (simp add: deep_def deep_result_def assign_def plain_reach)

text \<open>Storing into a cell that a value does not reach does not change what the value stands for.\<close>

lemma store_elsewhere:
  assumes "p \<notin> set (reach h T v)"
  shows "denote (h[p := x]) T v = denote h T v" "reach (h[p := x]) T v = reach h T v"
    "typed (h[p := x]) T v = typed h T v"
proof -
  have "same_on (set (reach h T v)) h (h[p := x])"
    unfolding same_on_def using assms by (metis cell_at_update_other)
  from frame [OF this] show "denote (h[p := x]) T v = denote h T v" "reach (h[p := x]) T v = reach h T v"
    "typed (h[p := x]) T v = typed h T v" by simp_all
qed

lemma deep_new [simp]:
  assumes "deep T c"
  shows "deep (TPtr T) (new_copy T c)"
  unfolding deep_def
proof (intro allI impI)
  fix h v assume t: "typed h (TPtr T) v"
  show "deep_result h (TPtr T) v (new_copy T c v h)"
  proof (cases "v = Pointer None")
    case False
    with t obtain a w where v: "v = Pointer (Some a)" and l: "var_at h a = Some w" and w: "typed h T w"
      by (cases v) (auto split: option.splits)
    define h1 where "h1 = h @ [Cell (zero_value T)]"
    have l1: "var_at h1 a = Some w" using l by (auto simp: h1_def cell_at_def nth_append split: option.splits if_splits)
    have w1: "typed h1 T w" and d1: "denote h1 T w = denote h T w" unfolding h1_def by (simp_all add: extend w)
    obtain w' ys where c: "c w h1 = (w', h1 @ ys)" and w': "typed (h1 @ ys) T w'"
      and d: "denote (h1 @ ys) T w' = denote h1 T w" and r: "\<forall>a \<in> set (reach (h1 @ ys) T w'). length h1 \<le> a"
      by (rule deepD [OF assms w1])
    let ?p = "length h" and ?h2 = "(h1 @ ys)[length h := Cell w']"
    have "?p \<notin> set (reach (h1 @ ys) T w')" using r by (auto simp: h1_def)
    note same = store_elsewhere [OF this, of "Cell w'"]
    have o: "cell_at ?h2 ?p = Some (Cell w')" by (simp add: cell_at_def h1_def)
    have "\<exists>zs. ?h2 = h @ zs" by (simp add: h1_def list_update_append)
    then show ?thesis using v l l1 c d d1 w' r same o
      by (auto simp: deep_result_def h1_def [symmetric]) (auto simp: h1_def)
  qed (auto simp: deep_result_def)
qed

lemma table_at_iff: "table_at h a = Some m \<longleftrightarrow> a < length h \<and> h ! a = Table m"
  by (auto simp: cell_at_def split: go_obj.split)

lemma deep_map [simp]: "deep TMap map_copy"
  unfolding deep_def
proof (intro allI impI)
  fix h v assume t: "typed h TMap v"
  show "deep_result h TMap v (map_copy v h)"
  proof (cases "v = MapRef None")
    case False
    with t obtain a m where v: "v = MapRef (Some a)" and m: "table_at h a = Some m" and d: "distinct (map fst m)"
      by (cases v) (auto split: option.splits simp del: table_at.simps)
    let ?m = "fold (\<lambda>(k, v). map_put k v) m []"
    have "table_at (h @ [Table ?m]) (length h) = Some ?m" by (simp add: table_at_iff del: table_at.simps)
    with v m d show ?thesis
      by (auto simp: deep_result_def map_of_fold_put distinct_fold_put fold_put_distinct simp del: table_at.simps)
  qed (simp add: deep_result_def)
qed

text \<open>The loop over a slice: element after element of the new array is deep, and none of them reaches the array.\<close>

definition copied :: "heap \<Rightarrow> ty \<Rightarrow> go_val \<Rightarrow> heap \<Rightarrow> go_val \<Rightarrow> bool" where
  "copied h T v g w = (typed g T w \<and> denote g T w = denote h T v \<and> (\<forall>a \<in> set (reach g T w). length h < a))"

lemma copied_extend: "copied h T v g w \<Longrightarrow> copied h T v (g @ ys) w"
  by (simp add: copied_def extend)

lemma copied_store:
  assumes "copied h T v g w"
  shows "copied h T v (g[length h := x]) w"
proof -
  from assms have "length h \<notin> set (reach g T w)" by (auto simp: copied_def)
  from store_elsewhere [OF this, of x] assms show ?thesis by (simp add: copied_def)
qed

lemma array_at_iff: "array_at h (a, off, n) = Some vs
    \<longleftrightarrow> (\<exists>ws. a < length h \<and> h ! a = Array ws \<and> off + n \<le> length ws \<and> vs = take n (drop off ws))"
  by (auto simp: cell_at_def split: go_obj.split)

lemma array_at_append: "array_at h s = Some vs \<Longrightarrow> array_at (h @ ys) s = Some vs"
  by (cases s) (auto simp: array_at_iff nth_append simp del: array_at.simps)

lemma copy_range_deep:
  assumes c: "deep T c" and win: "array_at h s = Some vs" and vs: "\<forall>v \<in> set vs. typed h T v" and n: "length vs = n"
  shows "i \<le> n \<Longrightarrow> length ws = n \<Longrightarrow> \<forall>j < i. copied h T (vs ! j) (h @ Array ws # ys) (ws ! j)
    \<Longrightarrow> \<exists>ws' ys'. copy_range c s (length h) [i..<n] (h @ Array ws # ys) = h @ Array ws' # ys' \<and> length ws' = n
          \<and> (\<forall>j < n. copied h T (vs ! j) (h @ Array ws' # ys') (ws' ! j))"
proof (induction "n - i" arbitrary: i ws ys)
  case 0
  then show ?case by auto
next
  case (Suc k)
  let ?g = "h @ Array ws # ys"
  have i: "i < n" using Suc.hyps(2) by simp
  have "typed h T (vs ! i)" using vs n i by simp
  from extend [OF this, of "Array ws # ys"] have t: "typed ?g T (vs ! i)" and d: "denote ?g T (vs ! i) = denote h T (vs ! i)"
    by simp_all
  obtain w zs where w: "c (vs ! i) ?g = (w, ?g @ zs)" "typed (?g @ zs) T w" "denote (?g @ zs) T w = denote ?g T (vs ! i)"
    "\<forall>a \<in> set (reach (?g @ zs) T w). length ?g \<le> a"
    by (rule deepD [OF c t])
  let ?ws = "ws[i := w]"
  have set: "set_elem (?g @ zs) (length h) i w = h @ Array ?ws # (ys @ zs)"
    by (simp add: set_elem_def cell_at_def)
  have upd: "h @ Array ?ws # (ys @ zs) = (?g @ zs)[length h := Array ?ws]" by simp
  have "copied h T (vs ! i) (?g @ zs) w" using w d by (fastforce simp: copied_def)
  moreover have "copied h T (vs ! j) (?g @ zs) (ws ! j)" if "j < i" for j
    using Suc.prems(3) that copied_extend by blast
  ultimately have "copied h T (vs ! j) (?g @ zs) (?ws ! j)" if "j < Suc i" for j
    using that i Suc.prems(2) by (cases "j = i") auto
  then have all: "\<forall>j < Suc i. copied h T (vs ! j) (h @ Array ?ws # (ys @ zs)) (?ws ! j)"
    unfolding upd using copied_store by blast
  have step: "copy_range c s (length h) [i..<n] ?g = copy_range c s (length h) [Suc i..<n] (h @ Array ?ws # (ys @ zs))"
    using array_at_append [OF win, of "Array ws # ys"] w(1) set i by (simp add: upt_conv_Cons del: array_at.simps)
  have "k = n - Suc i" "Suc i \<le> n" "length ?ws = n" using Suc.hyps(2) i Suc.prems(2) by simp_all
  from Suc.hyps(1) [OF this all] show ?case unfolding step .
qed

lemma deep_slice [simp]:
  assumes "deep T c"
  shows "deep (TSlice T) (slice_copy T c)"
  unfolding deep_def
proof (intro allI impI)
  fix h v assume t: "typed h (TSlice T) v"
  show "deep_result h (TSlice T) v (slice_copy T c v h)"
  proof (cases "v = Slice None")
    case False
    with t obtain s vs where v: "v = Slice (Some s)" and w: "array_at h s = Some vs" and vs: "\<forall>v \<in> set vs. typed h T v"
      by (cases v) (auto split: option.splits simp del: array_at.simps)
    obtain a off n where s: "s = (a, off, n)" by (cases s)
    have n: "length vs = n" using w s by (auto simp: array_at_iff simp del: array_at.simps)
    obtain ws ys where r: "copy_range c s (length h) [0..<n] (h @ [Array (replicate n (zero_value T))]) = h @ Array ws # ys"
      and l: "length ws = n" and all: "\<forall>j < n. copied h T (vs ! j) (h @ Array ws # ys) (ws ! j)"
      using copy_range_deep [OF assms w vs n, of 0 "replicate n (zero_value T)" "[]"] by auto
    let ?g = "h @ Array ws # ys"
    have win: "array_at ?g (length h, 0, n) = Some ws" using l by (simp add: array_at_iff del: array_at.simps)
    have "\<exists>v. copied h T v ?g w" if "w \<in> set ws" for w
      using that all l by (metis in_set_conv_nth)
    then have "\<forall>w \<in> set ws. typed ?g T w" "\<forall>w \<in> set ws. \<forall>a \<in> set (reach ?g T w). length h \<le> a"
      unfolding copied_def by (blast intro: less_imp_le)+
    moreover have "map (denote ?g T) ws = map (denote h T) vs"
      using all l n by (auto simp: copied_def list_eq_iff_nth_eq)
    ultimately show ?thesis using v s w r win by (auto simp: deep_result_def simp del: array_at.simps)
  qed (simp add: deep_result_def)
qed

text \<open>The statements for the fields of a struct.\<close>

lemma get_field_put [simp]: "get_field (map_put f v vs) g = (if g = f then v else get_field vs g)"
  by (simp add: get_field_def)

lemma keys_put_present: "f \<in> set (map fst vs) \<Longrightarrow> map fst (map_put f v vs) = map fst vs"
  by (induction vs) auto

definition fields_copied :: "heap \<Rightarrow> (string \<times> ty) list \<Rightarrow> (string \<times> go_val) list \<Rightarrow> string set
    \<Rightarrow> (string \<times> go_val) list \<Rightarrow> heap \<Rightarrow> bool" where
  "fields_copied h fs ins done outs g =
     (map fst outs = map fst fs
      \<and> (\<forall>p \<in> set fs. typed g (snd p) (get_field outs (fst p))
            \<and> denote g (snd p) (get_field outs (fst p)) = denote h (snd p) (get_field ins (fst p))
            \<and> (fst p \<in> done \<longrightarrow> (\<forall>a \<in> set (reach g (snd p) (get_field outs (fst p))). length h \<le> a))))"

lemma fields_copied_step:
  assumes inv: "fields_copied h fs ins done outs (h @ ys)" and dist: "distinct (map fst fs)" and fT: "(f, T) \<in> set fs"
    and c: "deep T c" and t: "typed h T (get_field ins f)" and run: "c (get_field ins f) (h @ ys) = (v, g)"
  shows "\<exists>zs. g = h @ zs \<and> fields_copied h fs ins (insert f done) (map_put f v outs) g"
proof -
  obtain v' zs where v': "c (get_field ins f) (h @ ys) = (v', (h @ ys) @ zs)" "typed ((h @ ys) @ zs) T v'"
    "denote ((h @ ys) @ zs) T v' = denote (h @ ys) T (get_field ins f)"
    "\<forall>a \<in> set (reach ((h @ ys) @ zs) T v'). length (h @ ys) \<le> a"
    by (rule deepD [OF c extend (3) [OF t]])
  with run have v: "v' = v" and g: "g = h @ ys @ zs" by simp_all
  have keys: "map fst (map_put f v outs) = map fst fs"
    using inv fT by (simp add: fields_copied_def) (metis fst_conv image_eqI keys_put_present list.set_map)
  have field: "typed g (snd p) (get_field (map_put f v outs) (fst p))
      \<and> denote g (snd p) (get_field (map_put f v outs) (fst p)) = denote h (snd p) (get_field ins (fst p))
      \<and> (fst p \<in> insert f done \<longrightarrow> (\<forall>a \<in> set (reach g (snd p) (get_field (map_put f v outs) (fst p))). length h \<le> a))"
    if p: "p \<in> set fs" for p
  proof (cases "fst p = f")
    case True
    with p fT dist have "p = (f, T)" by (metis eq_key_imp_eq_value prod.collapse)
    with v' v g extend (1) [OF t, of ys] show ?thesis by fastforce
  next
    case False
    from inv p have q: "typed (h @ ys) (snd p) (get_field outs (fst p))"
      "denote (h @ ys) (snd p) (get_field outs (fst p)) = denote h (snd p) (get_field ins (fst p))"
      "fst p \<in> done \<longrightarrow> (\<forall>a \<in> set (reach (h @ ys) (snd p) (get_field outs (fst p))). length h \<le> a)"
      by (auto simp: fields_copied_def)
    with False extend [OF q(1), of zs] g show ?thesis by simp
  qed
  from keys field g show ?thesis by (auto simp: fields_copied_def)
qed

lemma copy_fields_copied:
  assumes dist: "distinct (map fst fs)" and ins: "\<forall>p \<in> set fs. typed h (snd p) (get_field ins (fst p))"
  shows "fields_copied h fs ins done outs (h @ ys) \<Longrightarrow> \<forall>(f, c) \<in> set cs. \<exists>T. (f, T) \<in> set fs \<and> deep T c
    \<Longrightarrow> copy_fields cs ins outs (h @ ys) = (outs', g)
    \<Longrightarrow> \<exists>zs. g = h @ zs \<and> fields_copied h fs ins (done \<union> fst ` set cs) outs' g"
proof (induction cs arbitrary: "done" outs ys)
  case Nil
  then show ?case by auto
next
  case (Cons fc cs)
  obtain f c where fc: "fc = (f, c)" by (cases fc)
  obtain v g1 where run: "c (get_field ins f) (h @ ys) = (v, g1)" by fastforce
  from Cons.prems(2) fc obtain T where T: "(f, T) \<in> set fs" "deep T c" by auto
  have t: "typed h T (get_field ins f)" using bspec [OF ins T(1)] by simp
  obtain zs where g1: "g1 = h @ zs" "fields_copied h fs ins (insert f done) (map_put f v outs) g1"
    using fields_copied_step [OF Cons.prems(1) dist T t run] by blast
  have "\<exists>zs. g = h @ zs \<and> fields_copied h fs ins (insert f done \<union> fst ` set cs) outs' g"
    using Cons.IH [of "insert f done" "map_put f v outs" zs] g1 Cons.prems(2, 3) run fc by auto
  then show ?case using fc by simp
qed

text \<open>
  A struct is copied deeply if every listed field is, and every field that holds a reference is
  listed. The second half is what a copy function out of step with its type declaration violates.
\<close>

definition listed_deep :: "(string \<times> ty) list \<Rightarrow> (string \<times> copier) list \<Rightarrow> bool" where
  "listed_deep fs cs = list_all (\<lambda>(f, c). case map_of fs f of Some T \<Rightarrow> deep T c | None \<Rightarrow> False) cs"

definition nothing_missed :: "(string \<times> ty) list \<Rightarrow> (string \<times> copier) list \<Rightarrow> bool" where
  "nothing_missed fs cs = list_all (\<lambda>(f, T). f \<in> set (map fst cs) \<or> plain T) fs"

lemma deep_struct:
  assumes "listed_deep fs cs" "nothing_missed fs cs"
  shows "deep (TStruct fs) (struct_copy cs)"
  unfolding deep_def
proof (intro allI impI)
  fix h v assume t: "typed h (TStruct fs) v"
  then obtain vs where v: "v = Struct vs" and keys: "map fst vs = map fst fs" and dist: "distinct (map fst fs)"
    and vs: "\<forall>p \<in> set fs. typed h (snd p) (get_field vs (fst p))"
    by (cases v) auto
  obtain outs g where run: "copy_fields cs vs vs h = (outs, g)" by fastforce
  have "fields_copied h fs vs {} vs (h @ [])" using keys vs by (simp add: fields_copied_def)
  moreover have "\<forall>(f, c) \<in> set cs. \<exists>T. (f, T) \<in> set fs \<and> deep T c"
    using assms(1) by (force simp: listed_deep_def list_all_iff split: option.splits dest: map_of_SomeD)
  ultimately obtain ys where g: "g = h @ ys" and f: "fields_copied h fs vs ({} \<union> fst ` set cs) outs g"
    using copy_fields_copied [OF dist vs, of "{}" vs "[]" cs outs g] run by auto
  have "\<forall>a \<in> set (reach g (snd p) (get_field outs (fst p))). length h \<le> a" if "p \<in> set fs" for p
  proof (cases "fst p \<in> fst ` set cs")
    case False
    with assms(2) that have "plain (snd p)" by (force simp: nothing_missed_def list_all_iff)
    then show ?thesis by (simp add: plain_reach)
  qed (use f that in \<open>auto simp: fields_copied_def\<close>)
  with f show "deep_result h (TStruct fs) v (struct_copy cs v h)"
    using v run g dist by (auto simp: deep_result_def fields_copied_def)
qed

section \<open>Independence\<close>

text \<open>
  What follows from depth for a program that holds the original and the copy. \<open>through R h g\<close>: the
  heap \<open>g\<close> has been made from \<open>h\<close> by writing cells of \<open>R\<close> and allocating, in any way.
\<close>

definition through :: "nat set \<Rightarrow> heap \<Rightarrow> heap \<Rightarrow> bool" where
  "through R h g = same_on ({..<length h} - R) h g"

lemma deep_independent:
  assumes "deep T c" "typed h T v" "c v h = (v', h')"
  shows "denote h' T v' = denote h T v" "denote h' T v = denote h T v"
    "through (set (reach h' T v')) h' g \<Longrightarrow> denote g T v = denote h T v"
    "through (set (reach h' T v)) h' g \<Longrightarrow> denote g T v' = denote h T v"
proof -
  obtain ys where h': "h' = h @ ys" and t': "typed h' T v'" and d': "denote h' T v' = denote h T v"
    and fresh: "\<forall>a \<in> set (reach h' T v'). length h \<le> a"
    using deepD [OF assms(1, 2)] assms(3) by (metis prod.inject)
  have old: "typed h' T v" "reach h' T v = reach h T v" and dv: "denote h' T v = denote h T v"
    using extend [OF assms(2), of ys] h' by simp_all
  show "denote h' T v' = denote h T v" "denote h' T v = denote h T v" by (fact d') (fact dv)
  have disjoint: "set (reach h' T v) \<inter> set (reach h' T v') = {}"
    using fresh typed_reach [OF assms(2)] old(2) by (fastforce simp: not_le [symmetric])
  have inside: "set (reach h' T v) \<subseteq> {..<length h'}" "set (reach h' T v') \<subseteq> {..<length h'}"
    using typed_reach [OF old(1)] typed_reach [OF t'] by auto
  show "denote g T v = denote h T v" if "through (set (reach h' T v')) h' g"
  proof -
    have "same_on (set (reach h' T v)) h' g"
      using that disjoint inside unfolding through_def same_on_def by blast
    from frame [OF this] dv show ?thesis by simp
  qed
  show "denote g T v' = denote h T v" if "through (set (reach h' T v)) h' g"
  proof -
    have "same_on (set (reach h' T v')) h' g"
      using that disjoint inside unfolding through_def same_on_def by blast
    from frame [OF this] d' show ?thesis by simp
  qed
qed

end
