(* ===== verification/Deepcopy.thy ===== *)
theory Deepcopy
  imports Go_Heap
begin

text \<open>
  The generated deep copies of the API types (api/v1alpha1/zz_generated.deepcopy.go). Each struct of
  api/v1alpha1 has a type descriptor, translated from its declaration, and the copy functions that
  the file defines for it, translated statement by statement into the copiers of \<open>Go_Heap\<close>. That
  the one fits the other is what the deep copies are for: the controllers, the cache and the client
  all hold objects that must not share memory, and the file is only right as long as it has been
  generated from the declarations as they are.

  The types and copy functions of the Kubernetes libraries are parameters: \<open>E n\<close> describes the
  type \<open>n\<close>, and \<open>C n\<close> is its \<open>DeepCopyInto\<close> (\<open>DeepCopy\<close> for a quantity). \<open>library_copies\<close> states what
  the code relies on: these functions are deep, and the library types that the code copies by
  assignment hold no references.
\<close>

section \<open>Library types\<close>

type_synonym library_types = "string \<Rightarrow> ty"
type_synonym library_copiers = "string \<Rightarrow> copier"

definition assigned_library_types :: "string list" where
  "assigned_library_types =
    [''metav1.TypeMeta'',
     ''v1.ContainerPort'',
     ''v1.LocalObjectReference'',
     ''v1.PersistentVolumeAccessMode'',
     ''v1.PullPolicy'',
     ''v1.ServiceType'']"

definition copied_library_types :: "string list" where
  "copied_library_types =
    [''metav1.Condition'',
     ''metav1.LabelSelector'',
     ''metav1.ListMeta'',
     ''metav1.ObjectMeta'',
     ''resource.Quantity'',
     ''runtime.RawExtension'',
     ''v1.EnvVar'',
     ''v1.Probe'',
     ''v1.ResourceRequirements'',
     ''v1.ServicePort'',
     ''v1.Toleration'',
     ''v1.Volume'',
     ''v1.VolumeMount'']"

definition library_copies :: "library_types \<Rightarrow> library_copiers \<Rightarrow> bool" where
  "library_copies E C =
     (list_all (\<lambda>n. plain (E n)) assigned_library_types \<and> list_all (\<lambda>n. deep (E n) (C n)) copied_library_types)"

text \<open>A value of the interface \<open>runtime.Object\<close>: nil, or a type name with a pointer that may be nil itself.\<close>

type_synonym interface = "(string \<times> go_val) option"

text \<open>\<open>if c := in.DeepCopy(); c != nil { return c }; return nil\<close>\<close>

definition as_object :: "string \<Rightarrow> copier \<Rightarrow> go_val \<Rightarrow> heap \<Rightarrow> interface \<times> heap" where
  "as_object name copy p h = (let (q, h') = copy p h in (if q = Pointer None then None else Some (name, q), h'))"

section \<open>The declared types\<close>

definition BrandingSpec_ty :: "ty" where
  "BrandingSpec_ty = TStruct
    [(''LoginDisclaimer'', TPtr (TBasic KString)),
     (''CustomCss'', TPtr (TBasic KString)),
     (''SplashscreenEnabled'', TPtr (TBasic KBool))]"

definition GatewayReference_ty :: "ty" where
  "GatewayReference_ty = TStruct
    [(''Name'', TBasic KString),
     (''Namespace'', TBasic KString),
     (''SectionName'', TBasic KString)]"

definition GatewaySSO_ty :: "ty" where
  "GatewaySSO_ty = TStruct
    [(''AutoLoginRedirect'', TBasic KBool),
     (''AuthorizePath'', TBasic KString)]"

definition GatewaySpec_ty :: "ty" where
  "GatewaySpec_ty = TStruct
    [(''GatewayRef'', GatewayReference_ty),
     (''Hostname'', TBasic KString),
     (''Annotations'', TMap),
     (''SSO'', TPtr GatewaySSO_ty)]"

definition GeneralSpec_ty :: "ty" where
  "GeneralSpec_ty = TStruct
    [(''ServerName'', TPtr (TBasic KString)),
     (''UICulture'', TPtr (TBasic KString)),
     (''QuickConnectAvailable'', TPtr (TBasic KBool)),
     (''EnableMetrics'', TPtr (TBasic KBool)),
     (''EnableNormalizedItemByNameIds'', TPtr (TBasic KBool)),
     (''AllowClientLogUpload'', TPtr (TBasic KBool)),
     (''EnableSlowResponseWarning'', TPtr (TBasic KBool)),
     (''SlowResponseThresholdMs'', TPtr (TBasic KInt64)),
     (''LibraryScanFanoutConcurrency'', TPtr (TBasic KInt32)),
     (''LibraryMetadataRefreshConcurrency'', TPtr (TBasic KInt32)),
     (''ParallelImageEncodingLimit'', TPtr (TBasic KInt32)),
     (''ActivityLogRetentionDays'', TPtr (TBasic KInt32)),
     (''LibraryMonitorDelay'', TPtr (TBasic KInt32)),
     (''LibraryUpdateDuration'', TPtr (TBasic KInt32)),
     (''InactiveSessionThreshold'', TPtr (TBasic KInt32)),
     (''LogFileRetentionDays'', TPtr (TBasic KInt32)),
     (''CachePath'', TPtr (TBasic KString)),
     (''MetadataPath'', TPtr (TBasic KString)),
     (''CorsHosts'', TSlice (TBasic KString))]"

definition HardwareAccel_ty :: "ty" where
  "HardwareAccel_ty = TStruct
    [(''Type'', TBasic KString),
     (''DevicePath'', TBasic KString),
     (''DeviceResource'', TBasic KString),
     (''RenderGroupGID'', TPtr (TBasic KInt64)),
     (''RuntimeClassName'', TBasic KString)]"

definition ImageSource_ty :: "library_types \<Rightarrow> ty" where
  "ImageSource_ty E = TStruct
    [(''Reference'', TBasic KString),
     (''PullPolicy'', E ''v1.PullPolicy''),
     (''SubPath'', TBasic KString)]"

definition IngressTLS_ty :: "ty" where
  "IngressTLS_ty = TStruct
    [(''SecretName'', TBasic KString)]"

definition IngressSpec_ty :: "ty" where
  "IngressSpec_ty = TStruct
    [(''ClassName'', TBasic KString),
     (''Host'', TBasic KString),
     (''TLS'', TPtr IngressTLS_ty),
     (''Annotations'', TMap)]"

definition InstanceEndpoints_ty :: "ty" where
  "InstanceEndpoints_ty = TStruct
    [(''Service'', TBasic KString),
     (''Ingress'', TBasic KString)]"

definition InstanceMediaSelection_ty :: "ty" where
  "InstanceMediaSelection_ty = TStruct
    [(''Mode'', TBasic KString),
     (''Include'', TSlice (TBasic KString)),
     (''ReadWrite'', TSlice (TBasic KString))]"

definition JellyfinAPISpec_ty :: "library_types \<Rightarrow> ty" where
  "JellyfinAPISpec_ty E = TStruct
    [(''Mode'', TBasic KString),
     (''CredentialsSecret'', TPtr (E ''v1.LocalObjectReference'')),
     (''GeneratedSecretName'', TBasic KString),
     (''ManageLibraries'', TBasic KBool),
     (''Prune'', TBasic KBool),
     (''RefreshLibraryOnChange'', TBasic KBool)]"

definition LibrarySpec_ty :: "library_types \<Rightarrow> ty" where
  "LibrarySpec_ty E = TStruct
    [(''Name'', TBasic KString),
     (''CollectionType'', TBasic KString),
     (''Options'', TPtr (E ''runtime.RawExtension''))]"

definition NFSSource_ty :: "ty" where
  "NFSSource_ty = TStruct
    [(''Server'', TBasic KString),
     (''Path'', TBasic KString),
     (''ReadOnly'', TBasic KBool),
     (''Provision'', TBasic KBool),
     (''StorageClassName'', TBasic KString),
     (''MountOptions'', TSlice (TBasic KString))]"

definition PVCSpec_ty :: "library_types \<Rightarrow> ty" where
  "PVCSpec_ty E = TStruct
    [(''ExistingClaim'', TBasic KString),
     (''Size'', E ''resource.Quantity''),
     (''StorageClassName'', TBasic KString),
     (''AccessModes'', TSlice (E ''v1.PersistentVolumeAccessMode'')),
     (''MountPath'', TBasic KString)]"

definition MediaFolder_ty :: "library_types \<Rightarrow> ty" where
  "MediaFolder_ty E = TStruct
    [(''Name'', TBasic KString),
     (''MountPath'', TBasic KString),
     (''ReadOnly'', TBasic KBool),
     (''NFS'', TPtr NFSSource_ty),
     (''PVC'', TPtr (PVCSpec_ty E)),
     (''ExistingClaim'', TBasic KString),
     (''Library'', TPtr (LibrarySpec_ty E))]"

definition JellyfinStorage_ty :: "library_types \<Rightarrow> ty" where
  "JellyfinStorage_ty E = TStruct
    [(''Config'', PVCSpec_ty E),
     (''Cache'', TPtr (PVCSpec_ty E)),
     (''Trickplay'', TPtr (PVCSpec_ty E)),
     (''Media'', TSlice (MediaFolder_ty E))]"

definition PlaybackSpec_ty :: "ty" where
  "PlaybackSpec_ty = TStruct
    [(''MinResumePct'', TPtr (TBasic KInt32)),
     (''MaxResumePct'', TPtr (TBasic KInt32)),
     (''MinResumeDurationSeconds'', TPtr (TBasic KInt32)),
     (''MinAudiobookResumeMinutes'', TPtr (TBasic KInt32)),
     (''MaxAudiobookResumeMinutes'', TPtr (TBasic KInt32)),
     (''RemoteClientBitrateLimit'', TPtr (TBasic KInt32))]"

definition PodSecuritySpec_ty :: "ty" where
  "PodSecuritySpec_ty = TStruct
    [(''RunAsNonRoot'', TPtr (TBasic KBool)),
     (''RunAsUser'', TPtr (TBasic KInt64)),
     (''RunAsGroup'', TPtr (TBasic KInt64)),
     (''FsGroup'', TPtr (TBasic KInt64)),
     (''SupplementalGroups'', TSlice (TBasic KInt64))]"

definition ServiceSpec_ty :: "library_types \<Rightarrow> ty" where
  "ServiceSpec_ty E = TStruct
    [(''Type'', E ''v1.ServiceType''),
     (''Port'', TBasic KInt32),
     (''Annotations'', TMap)]"

definition SegmentDeletionSpec_ty :: "ty" where
  "SegmentDeletionSpec_ty = TStruct
    [(''Enabled'', TPtr (TBasic KBool)),
     (''KeepSeconds'', TPtr (TBasic KInt32))]"

definition ThrottleSpec_ty :: "ty" where
  "ThrottleSpec_ty = TStruct
    [(''Enabled'', TPtr (TBasic KBool)),
     (''DelaySeconds'', TPtr (TBasic KInt32))]"

definition TranscodingSpec_ty :: "ty" where
  "TranscodingSpec_ty = TStruct
    [(''Throttle'', TPtr ThrottleSpec_ty),
     (''SegmentDeletion'', TPtr SegmentDeletionSpec_ty)]"

definition WebSpec_ty :: "library_types \<Rightarrow> ty" where
  "WebSpec_ty E = TStruct
    [(''Image'', TBasic KString),
     (''Mode'', TBasic KString),
     (''SubPath'', TBasic KString),
     (''PullPolicy'', E ''v1.PullPolicy''),
     (''Replicas'', TPtr (TBasic KInt32)),
     (''Resources'', E ''v1.ResourceRequirements''),
     (''Service'', ServiceSpec_ty E),
     (''PodAnnotations'', TMap)]"

definition JellyfinSpec_ty :: "library_types \<Rightarrow> ty" where
  "JellyfinSpec_ty E = TStruct
    [(''Image'', TBasic KString),
     (''Replicas'', TPtr (TBasic KInt32)),
     (''Storage'', JellyfinStorage_ty E),
     (''Service'', ServiceSpec_ty E),
     (''Ingress'', TPtr IngressSpec_ty),
     (''Web'', TPtr (WebSpec_ty E)),
     (''Gateway'', TPtr GatewaySpec_ty),
     (''Resources'', E ''v1.ResourceRequirements''),
     (''HardwareAcceleration'', TPtr HardwareAccel_ty),
     (''PodSecurity'', TPtr PodSecuritySpec_ty),
     (''API'', TPtr (JellyfinAPISpec_ty E)),
     (''Transcoding'', TPtr TranscodingSpec_ty),
     (''General'', TPtr GeneralSpec_ty),
     (''Branding'', TPtr BrandingSpec_ty),
     (''Playback'', TPtr PlaybackSpec_ty),
     (''PluginSelector'', TPtr (E ''metav1.LabelSelector'')),
     (''PodAnnotations'', TMap),
     (''ImagePullSecrets'', TSlice (E ''v1.LocalObjectReference''))]"

definition LoadedPlugin_ty :: "ty" where
  "LoadedPlugin_ty = TStruct
    [(''Name'', TBasic KString),
     (''PluginName'', TBasic KString),
     (''Version'', TBasic KString),
     (''GUID'', TBasic KString)]"

definition JellyfinStatus_ty :: "library_types \<Rightarrow> ty" where
  "JellyfinStatus_ty E = TStruct
    [(''Phase'', TBasic KString),
     (''ObservedGeneration'', TBasic KInt64),
     (''Endpoints'', InstanceEndpoints_ty),
     (''LoadedPlugins'', TSlice LoadedPlugin_ty),
     (''APICredentialsSecret'', TBasic KString),
     (''ManagedLibraries'', TSlice (TBasic KString)),
     (''Conditions'', TSlice (E ''metav1.Condition''))]"

definition Jellyfin_ty :: "library_types \<Rightarrow> ty" where
  "Jellyfin_ty E = TStruct
    [(''TypeMeta'', E ''metav1.TypeMeta''),
     (''ObjectMeta'', E ''metav1.ObjectMeta''),
     (''Spec'', JellyfinSpec_ty E),
     (''Status'', JellyfinStatus_ty E)]"

definition JellyfinList_ty :: "library_types \<Rightarrow> ty" where
  "JellyfinList_ty E = TStruct
    [(''TypeMeta'', E ''metav1.TypeMeta''),
     (''ListMeta'', E ''metav1.ListMeta''),
     (''Items'', TSlice (Jellyfin_ty E))]"

definition PluginInstall_ty :: "library_types \<Rightarrow> ty" where
  "PluginInstall_ty E = TStruct
    [(''Image'', TPtr (ImageSource_ty E)),
     (''Script'', TBasic KString),
     (''Command'', TSlice (TBasic KString)),
     (''Args'', TSlice (TBasic KString)),
     (''Env'', TSlice (E ''v1.EnvVar'')),
     (''VolumeMounts'', TSlice (E ''v1.VolumeMount'')),
     (''Resources'', E ''v1.ResourceRequirements''),
     (''FailurePolicy'', TBasic KString),
     (''TimeoutSeconds'', TPtr (TBasic KInt32)),
     (''RunOnce'', TBasic KBool)]"

definition PluginMeta_ty :: "ty" where
  "PluginMeta_ty = TStruct
    [(''GUID'', TBasic KString),
     (''Name'', TBasic KString),
     (''Version'', TBasic KString),
     (''TargetABI'', TBasic KString),
     (''SubPath'', TBasic KString)]"

definition PluginService_ty :: "library_types \<Rightarrow> ty" where
  "PluginService_ty E = TStruct
    [(''Name'', TBasic KString),
     (''Selector'', TBasic KString),
     (''Ports'', TSlice (E ''v1.ServicePort'')),
     (''Type'', E ''v1.ServiceType'')]"

definition WorkloadAutoscaling_ty :: "ty" where
  "WorkloadAutoscaling_ty = TStruct
    [(''MinReplicas'', TPtr (TBasic KInt32)),
     (''MaxReplicas'', TBasic KInt32),
     (''TargetCPUUtilizationPercentage'', TPtr (TBasic KInt32))]"

definition PluginWorkload_ty :: "library_types \<Rightarrow> ty" where
  "PluginWorkload_ty E = TStruct
    [(''Name'', TBasic KString),
     (''Image'', ImageSource_ty E),
     (''Replicas'', TPtr (TBasic KInt32)),
     (''Command'', TSlice (TBasic KString)),
     (''Args'', TSlice (TBasic KString)),
     (''Env'', TSlice (E ''v1.EnvVar'')),
     (''Ports'', TSlice (E ''v1.ContainerPort'')),
     (''Resources'', E ''v1.ResourceRequirements''),
     (''VolumeMounts'', TSlice (E ''v1.VolumeMount'')),
     (''Volumes'', TSlice (E ''v1.Volume'')),
     (''InstanceMedia'', TPtr InstanceMediaSelection_ty),
     (''TerminationGracePeriodSeconds'', TPtr (TBasic KInt64)),
     (''NodeSelector'', TMap),
     (''Tolerations'', TSlice (E ''v1.Toleration'')),
     (''PriorityClassName'', TBasic KString),
     (''RuntimeClassName'', TBasic KString),
     (''PodSecurity'', TPtr PodSecuritySpec_ty),
     (''ReadinessProbe'', TPtr (E ''v1.Probe'')),
     (''LivenessProbe'', TPtr (E ''v1.Probe'')),
     (''StartupProbe'', TPtr (E ''v1.Probe'')),
     (''Autoscaling'', TPtr WorkloadAutoscaling_ty)]"

definition JellyfinPluginSpec_ty :: "library_types \<Rightarrow> ty" where
  "JellyfinPluginSpec_ty E = TStruct
    [(''JellyfinRef'', TPtr (E ''v1.LocalObjectReference'')),
     (''PluginImage'', ImageSource_ty E),
     (''Meta'', PluginMeta_ty),
     (''Injection'', TBasic KString),
     (''Install'', TPtr (PluginInstall_ty E)),
     (''Workloads'', TSlice (PluginWorkload_ty E)),
     (''Services'', TSlice (PluginService_ty E))]"

definition JellyfinPluginStatus_ty :: "library_types \<Rightarrow> ty" where
  "JellyfinPluginStatus_ty E = TStruct
    [(''Phase'', TBasic KString),
     (''ObservedGeneration'', TBasic KInt64),
     (''Injected'', TBasic KBool),
     (''Installed'', TBasic KBool),
     (''ABICompatible'', TBasic KBool),
     (''LoadedVersion'', TBasic KString),
     (''WorkloadReadyReplicas'', TBasic KInt32),
     (''Conditions'', TSlice (E ''metav1.Condition''))]"

definition JellyfinPlugin_ty :: "library_types \<Rightarrow> ty" where
  "JellyfinPlugin_ty E = TStruct
    [(''TypeMeta'', E ''metav1.TypeMeta''),
     (''ObjectMeta'', E ''metav1.ObjectMeta''),
     (''Spec'', JellyfinPluginSpec_ty E),
     (''Status'', JellyfinPluginStatus_ty E)]"

definition JellyfinPluginList_ty :: "library_types \<Rightarrow> ty" where
  "JellyfinPluginList_ty E = TStruct
    [(''TypeMeta'', E ''metav1.TypeMeta''),
     (''ListMeta'', E ''metav1.ListMeta''),
     (''Items'', TSlice (JellyfinPlugin_ty E))]"

section \<open>The copy functions\<close>

definition DeepCopyInto_BrandingSpec :: "copier" where
  "DeepCopyInto_BrandingSpec = struct_copy
    [(''LoginDisclaimer'', new_copy (TBasic KString) assign),
     (''CustomCss'', new_copy (TBasic KString) assign),
     (''SplashscreenEnabled'', new_copy (TBasic KBool) assign)]"

definition DeepCopy_BrandingSpec :: "copier" where
  "DeepCopy_BrandingSpec = new_copy BrandingSpec_ty DeepCopyInto_BrandingSpec"

definition DeepCopyInto_GatewayReference :: "copier" where
  "DeepCopyInto_GatewayReference = struct_copy
    []"

definition DeepCopy_GatewayReference :: "copier" where
  "DeepCopy_GatewayReference = new_copy GatewayReference_ty DeepCopyInto_GatewayReference"

definition DeepCopyInto_GatewaySSO :: "copier" where
  "DeepCopyInto_GatewaySSO = struct_copy
    []"

definition DeepCopy_GatewaySSO :: "copier" where
  "DeepCopy_GatewaySSO = new_copy GatewaySSO_ty DeepCopyInto_GatewaySSO"

definition DeepCopyInto_GatewaySpec :: "copier" where
  "DeepCopyInto_GatewaySpec = struct_copy
    [(''GatewayRef'', assign),
     (''Annotations'', map_copy),
     (''SSO'', new_copy GatewaySSO_ty assign)]"

definition DeepCopy_GatewaySpec :: "copier" where
  "DeepCopy_GatewaySpec = new_copy GatewaySpec_ty DeepCopyInto_GatewaySpec"

definition DeepCopyInto_GeneralSpec :: "copier" where
  "DeepCopyInto_GeneralSpec = struct_copy
    [(''ServerName'', new_copy (TBasic KString) assign),
     (''UICulture'', new_copy (TBasic KString) assign),
     (''QuickConnectAvailable'', new_copy (TBasic KBool) assign),
     (''EnableMetrics'', new_copy (TBasic KBool) assign),
     (''EnableNormalizedItemByNameIds'', new_copy (TBasic KBool) assign),
     (''AllowClientLogUpload'', new_copy (TBasic KBool) assign),
     (''EnableSlowResponseWarning'', new_copy (TBasic KBool) assign),
     (''SlowResponseThresholdMs'', new_copy (TBasic KInt64) assign),
     (''LibraryScanFanoutConcurrency'', new_copy (TBasic KInt32) assign),
     (''LibraryMetadataRefreshConcurrency'', new_copy (TBasic KInt32) assign),
     (''ParallelImageEncodingLimit'', new_copy (TBasic KInt32) assign),
     (''ActivityLogRetentionDays'', new_copy (TBasic KInt32) assign),
     (''LibraryMonitorDelay'', new_copy (TBasic KInt32) assign),
     (''LibraryUpdateDuration'', new_copy (TBasic KInt32) assign),
     (''InactiveSessionThreshold'', new_copy (TBasic KInt32) assign),
     (''LogFileRetentionDays'', new_copy (TBasic KInt32) assign),
     (''CachePath'', new_copy (TBasic KString) assign),
     (''MetadataPath'', new_copy (TBasic KString) assign),
     (''CorsHosts'', slice_copy (TBasic KString) assign)]"

definition DeepCopy_GeneralSpec :: "copier" where
  "DeepCopy_GeneralSpec = new_copy GeneralSpec_ty DeepCopyInto_GeneralSpec"

definition DeepCopyInto_HardwareAccel :: "copier" where
  "DeepCopyInto_HardwareAccel = struct_copy
    [(''RenderGroupGID'', new_copy (TBasic KInt64) assign)]"

definition DeepCopy_HardwareAccel :: "copier" where
  "DeepCopy_HardwareAccel = new_copy HardwareAccel_ty DeepCopyInto_HardwareAccel"

definition DeepCopyInto_ImageSource :: "library_types \<Rightarrow> library_copiers \<Rightarrow> copier" where
  "DeepCopyInto_ImageSource E C = struct_copy
    []"

definition DeepCopy_ImageSource :: "library_types \<Rightarrow> library_copiers \<Rightarrow> copier" where
  "DeepCopy_ImageSource E C = new_copy (ImageSource_ty E) (DeepCopyInto_ImageSource E C)"

definition DeepCopyInto_IngressTLS :: "copier" where
  "DeepCopyInto_IngressTLS = struct_copy
    []"

definition DeepCopy_IngressTLS :: "copier" where
  "DeepCopy_IngressTLS = new_copy IngressTLS_ty DeepCopyInto_IngressTLS"

definition DeepCopyInto_IngressSpec :: "copier" where
  "DeepCopyInto_IngressSpec = struct_copy
    [(''TLS'', new_copy IngressTLS_ty assign),
     (''Annotations'', map_copy)]"

definition DeepCopy_IngressSpec :: "copier" where
  "DeepCopy_IngressSpec = new_copy IngressSpec_ty DeepCopyInto_IngressSpec"

definition DeepCopyInto_InstanceEndpoints :: "copier" where
  "DeepCopyInto_InstanceEndpoints = struct_copy
    []"

definition DeepCopy_InstanceEndpoints :: "copier" where
  "DeepCopy_InstanceEndpoints = new_copy InstanceEndpoints_ty DeepCopyInto_InstanceEndpoints"

definition DeepCopyInto_InstanceMediaSelection :: "copier" where
  "DeepCopyInto_InstanceMediaSelection = struct_copy
    [(''Include'', slice_copy (TBasic KString) assign),
     (''ReadWrite'', slice_copy (TBasic KString) assign)]"

definition DeepCopy_InstanceMediaSelection :: "copier" where
  "DeepCopy_InstanceMediaSelection = new_copy InstanceMediaSelection_ty DeepCopyInto_InstanceMediaSelection"

definition DeepCopyInto_JellyfinAPISpec :: "library_types \<Rightarrow> library_copiers \<Rightarrow> copier" where
  "DeepCopyInto_JellyfinAPISpec E C = struct_copy
    [(''CredentialsSecret'', new_copy (E ''v1.LocalObjectReference'') assign)]"

definition DeepCopy_JellyfinAPISpec :: "library_types \<Rightarrow> library_copiers \<Rightarrow> copier" where
  "DeepCopy_JellyfinAPISpec E C = new_copy (JellyfinAPISpec_ty E) (DeepCopyInto_JellyfinAPISpec E C)"

definition DeepCopyInto_LibrarySpec :: "library_types \<Rightarrow> library_copiers \<Rightarrow> copier" where
  "DeepCopyInto_LibrarySpec E C = struct_copy
    [(''Options'', new_copy (E ''runtime.RawExtension'') (C ''runtime.RawExtension''))]"

definition DeepCopy_LibrarySpec :: "library_types \<Rightarrow> library_copiers \<Rightarrow> copier" where
  "DeepCopy_LibrarySpec E C = new_copy (LibrarySpec_ty E) (DeepCopyInto_LibrarySpec E C)"

definition DeepCopyInto_NFSSource :: "copier" where
  "DeepCopyInto_NFSSource = struct_copy
    [(''MountOptions'', slice_copy (TBasic KString) assign)]"

definition DeepCopy_NFSSource :: "copier" where
  "DeepCopy_NFSSource = new_copy NFSSource_ty DeepCopyInto_NFSSource"

definition DeepCopyInto_PVCSpec :: "library_types \<Rightarrow> library_copiers \<Rightarrow> copier" where
  "DeepCopyInto_PVCSpec E C = struct_copy
    [(''Size'', C ''resource.Quantity''),
     (''AccessModes'', slice_copy (E ''v1.PersistentVolumeAccessMode'') assign)]"

definition DeepCopy_PVCSpec :: "library_types \<Rightarrow> library_copiers \<Rightarrow> copier" where
  "DeepCopy_PVCSpec E C = new_copy (PVCSpec_ty E) (DeepCopyInto_PVCSpec E C)"

definition DeepCopyInto_MediaFolder :: "library_types \<Rightarrow> library_copiers \<Rightarrow> copier" where
  "DeepCopyInto_MediaFolder E C = struct_copy
    [(''NFS'', new_copy NFSSource_ty DeepCopyInto_NFSSource),
     (''PVC'', new_copy (PVCSpec_ty E) (DeepCopyInto_PVCSpec E C)),
     (''Library'', new_copy (LibrarySpec_ty E) (DeepCopyInto_LibrarySpec E C))]"

definition DeepCopy_MediaFolder :: "library_types \<Rightarrow> library_copiers \<Rightarrow> copier" where
  "DeepCopy_MediaFolder E C = new_copy (MediaFolder_ty E) (DeepCopyInto_MediaFolder E C)"

definition DeepCopyInto_JellyfinStorage :: "library_types \<Rightarrow> library_copiers \<Rightarrow> copier" where
  "DeepCopyInto_JellyfinStorage E C = struct_copy
    [(''Config'', DeepCopyInto_PVCSpec E C),
     (''Cache'', new_copy (PVCSpec_ty E) (DeepCopyInto_PVCSpec E C)),
     (''Trickplay'', new_copy (PVCSpec_ty E) (DeepCopyInto_PVCSpec E C)),
     (''Media'', slice_copy (MediaFolder_ty E) (DeepCopyInto_MediaFolder E C))]"

definition DeepCopy_JellyfinStorage :: "library_types \<Rightarrow> library_copiers \<Rightarrow> copier" where
  "DeepCopy_JellyfinStorage E C = new_copy (JellyfinStorage_ty E) (DeepCopyInto_JellyfinStorage E C)"

definition DeepCopyInto_PlaybackSpec :: "copier" where
  "DeepCopyInto_PlaybackSpec = struct_copy
    [(''MinResumePct'', new_copy (TBasic KInt32) assign),
     (''MaxResumePct'', new_copy (TBasic KInt32) assign),
     (''MinResumeDurationSeconds'', new_copy (TBasic KInt32) assign),
     (''MinAudiobookResumeMinutes'', new_copy (TBasic KInt32) assign),
     (''MaxAudiobookResumeMinutes'', new_copy (TBasic KInt32) assign),
     (''RemoteClientBitrateLimit'', new_copy (TBasic KInt32) assign)]"

definition DeepCopy_PlaybackSpec :: "copier" where
  "DeepCopy_PlaybackSpec = new_copy PlaybackSpec_ty DeepCopyInto_PlaybackSpec"

definition DeepCopyInto_PodSecuritySpec :: "copier" where
  "DeepCopyInto_PodSecuritySpec = struct_copy
    [(''RunAsNonRoot'', new_copy (TBasic KBool) assign),
     (''RunAsUser'', new_copy (TBasic KInt64) assign),
     (''RunAsGroup'', new_copy (TBasic KInt64) assign),
     (''FsGroup'', new_copy (TBasic KInt64) assign),
     (''SupplementalGroups'', slice_copy (TBasic KInt64) assign)]"

definition DeepCopy_PodSecuritySpec :: "copier" where
  "DeepCopy_PodSecuritySpec = new_copy PodSecuritySpec_ty DeepCopyInto_PodSecuritySpec"

definition DeepCopyInto_ServiceSpec :: "library_types \<Rightarrow> library_copiers \<Rightarrow> copier" where
  "DeepCopyInto_ServiceSpec E C = struct_copy
    [(''Annotations'', map_copy)]"

definition DeepCopy_ServiceSpec :: "library_types \<Rightarrow> library_copiers \<Rightarrow> copier" where
  "DeepCopy_ServiceSpec E C = new_copy (ServiceSpec_ty E) (DeepCopyInto_ServiceSpec E C)"

definition DeepCopyInto_SegmentDeletionSpec :: "copier" where
  "DeepCopyInto_SegmentDeletionSpec = struct_copy
    [(''Enabled'', new_copy (TBasic KBool) assign),
     (''KeepSeconds'', new_copy (TBasic KInt32) assign)]"

definition DeepCopy_SegmentDeletionSpec :: "copier" where
  "DeepCopy_SegmentDeletionSpec = new_copy SegmentDeletionSpec_ty DeepCopyInto_SegmentDeletionSpec"

definition DeepCopyInto_ThrottleSpec :: "copier" where
  "DeepCopyInto_ThrottleSpec = struct_copy
    [(''Enabled'', new_copy (TBasic KBool) assign),
     (''DelaySeconds'', new_copy (TBasic KInt32) assign)]"

definition DeepCopy_ThrottleSpec :: "copier" where
  "DeepCopy_ThrottleSpec = new_copy ThrottleSpec_ty DeepCopyInto_ThrottleSpec"

definition DeepCopyInto_TranscodingSpec :: "copier" where
  "DeepCopyInto_TranscodingSpec = struct_copy
    [(''Throttle'', new_copy ThrottleSpec_ty DeepCopyInto_ThrottleSpec),
     (''SegmentDeletion'', new_copy SegmentDeletionSpec_ty DeepCopyInto_SegmentDeletionSpec)]"

definition DeepCopy_TranscodingSpec :: "copier" where
  "DeepCopy_TranscodingSpec = new_copy TranscodingSpec_ty DeepCopyInto_TranscodingSpec"

definition DeepCopyInto_WebSpec :: "library_types \<Rightarrow> library_copiers \<Rightarrow> copier" where
  "DeepCopyInto_WebSpec E C = struct_copy
    [(''Replicas'', new_copy (TBasic KInt32) assign),
     (''Resources'', C ''v1.ResourceRequirements''),
     (''Service'', DeepCopyInto_ServiceSpec E C),
     (''PodAnnotations'', map_copy)]"

definition DeepCopy_WebSpec :: "library_types \<Rightarrow> library_copiers \<Rightarrow> copier" where
  "DeepCopy_WebSpec E C = new_copy (WebSpec_ty E) (DeepCopyInto_WebSpec E C)"

definition DeepCopyInto_JellyfinSpec :: "library_types \<Rightarrow> library_copiers \<Rightarrow> copier" where
  "DeepCopyInto_JellyfinSpec E C = struct_copy
    [(''Replicas'', new_copy (TBasic KInt32) assign),
     (''Storage'', DeepCopyInto_JellyfinStorage E C),
     (''Service'', DeepCopyInto_ServiceSpec E C),
     (''Ingress'', new_copy IngressSpec_ty DeepCopyInto_IngressSpec),
     (''Web'', new_copy (WebSpec_ty E) (DeepCopyInto_WebSpec E C)),
     (''Gateway'', new_copy GatewaySpec_ty DeepCopyInto_GatewaySpec),
     (''Resources'', C ''v1.ResourceRequirements''),
     (''HardwareAcceleration'', new_copy HardwareAccel_ty DeepCopyInto_HardwareAccel),
     (''PodSecurity'', new_copy PodSecuritySpec_ty DeepCopyInto_PodSecuritySpec),
     (''API'', new_copy (JellyfinAPISpec_ty E) (DeepCopyInto_JellyfinAPISpec E C)),
     (''Transcoding'', new_copy TranscodingSpec_ty DeepCopyInto_TranscodingSpec),
     (''General'', new_copy GeneralSpec_ty DeepCopyInto_GeneralSpec),
     (''Branding'', new_copy BrandingSpec_ty DeepCopyInto_BrandingSpec),
     (''Playback'', new_copy PlaybackSpec_ty DeepCopyInto_PlaybackSpec),
     (''PluginSelector'', new_copy (E ''metav1.LabelSelector'') (C ''metav1.LabelSelector'')),
     (''PodAnnotations'', map_copy),
     (''ImagePullSecrets'', slice_copy (E ''v1.LocalObjectReference'') assign)]"

definition DeepCopy_JellyfinSpec :: "library_types \<Rightarrow> library_copiers \<Rightarrow> copier" where
  "DeepCopy_JellyfinSpec E C = new_copy (JellyfinSpec_ty E) (DeepCopyInto_JellyfinSpec E C)"

definition DeepCopyInto_LoadedPlugin :: "copier" where
  "DeepCopyInto_LoadedPlugin = struct_copy
    []"

definition DeepCopy_LoadedPlugin :: "copier" where
  "DeepCopy_LoadedPlugin = new_copy LoadedPlugin_ty DeepCopyInto_LoadedPlugin"

definition DeepCopyInto_JellyfinStatus :: "library_types \<Rightarrow> library_copiers \<Rightarrow> copier" where
  "DeepCopyInto_JellyfinStatus E C = struct_copy
    [(''Endpoints'', assign),
     (''LoadedPlugins'', slice_copy LoadedPlugin_ty assign),
     (''ManagedLibraries'', slice_copy (TBasic KString) assign),
     (''Conditions'', slice_copy (E ''metav1.Condition'') (C ''metav1.Condition''))]"

definition DeepCopy_JellyfinStatus :: "library_types \<Rightarrow> library_copiers \<Rightarrow> copier" where
  "DeepCopy_JellyfinStatus E C = new_copy (JellyfinStatus_ty E) (DeepCopyInto_JellyfinStatus E C)"

definition DeepCopyInto_Jellyfin :: "library_types \<Rightarrow> library_copiers \<Rightarrow> copier" where
  "DeepCopyInto_Jellyfin E C = struct_copy
    [(''TypeMeta'', assign),
     (''ObjectMeta'', C ''metav1.ObjectMeta''),
     (''Spec'', DeepCopyInto_JellyfinSpec E C),
     (''Status'', DeepCopyInto_JellyfinStatus E C)]"

definition DeepCopy_Jellyfin :: "library_types \<Rightarrow> library_copiers \<Rightarrow> copier" where
  "DeepCopy_Jellyfin E C = new_copy (Jellyfin_ty E) (DeepCopyInto_Jellyfin E C)"

definition DeepCopyObject_Jellyfin :: "library_types \<Rightarrow> library_copiers \<Rightarrow> go_val \<Rightarrow> heap \<Rightarrow> interface \<times> heap" where
  "DeepCopyObject_Jellyfin E C = as_object ''Jellyfin'' (DeepCopy_Jellyfin E C)"

definition DeepCopyInto_JellyfinList :: "library_types \<Rightarrow> library_copiers \<Rightarrow> copier" where
  "DeepCopyInto_JellyfinList E C = struct_copy
    [(''TypeMeta'', assign),
     (''ListMeta'', C ''metav1.ListMeta''),
     (''Items'', slice_copy (Jellyfin_ty E) (DeepCopyInto_Jellyfin E C))]"

definition DeepCopy_JellyfinList :: "library_types \<Rightarrow> library_copiers \<Rightarrow> copier" where
  "DeepCopy_JellyfinList E C = new_copy (JellyfinList_ty E) (DeepCopyInto_JellyfinList E C)"

definition DeepCopyObject_JellyfinList :: "library_types \<Rightarrow> library_copiers \<Rightarrow> go_val \<Rightarrow> heap \<Rightarrow> interface \<times> heap" where
  "DeepCopyObject_JellyfinList E C = as_object ''JellyfinList'' (DeepCopy_JellyfinList E C)"

definition DeepCopyInto_PluginInstall :: "library_types \<Rightarrow> library_copiers \<Rightarrow> copier" where
  "DeepCopyInto_PluginInstall E C = struct_copy
    [(''Image'', new_copy (ImageSource_ty E) assign),
     (''Command'', slice_copy (TBasic KString) assign),
     (''Args'', slice_copy (TBasic KString) assign),
     (''Env'', slice_copy (E ''v1.EnvVar'') (C ''v1.EnvVar'')),
     (''VolumeMounts'', slice_copy (E ''v1.VolumeMount'') (C ''v1.VolumeMount'')),
     (''Resources'', C ''v1.ResourceRequirements''),
     (''TimeoutSeconds'', new_copy (TBasic KInt32) assign)]"

definition DeepCopy_PluginInstall :: "library_types \<Rightarrow> library_copiers \<Rightarrow> copier" where
  "DeepCopy_PluginInstall E C = new_copy (PluginInstall_ty E) (DeepCopyInto_PluginInstall E C)"

definition DeepCopyInto_PluginMeta :: "copier" where
  "DeepCopyInto_PluginMeta = struct_copy
    []"

definition DeepCopy_PluginMeta :: "copier" where
  "DeepCopy_PluginMeta = new_copy PluginMeta_ty DeepCopyInto_PluginMeta"

definition DeepCopyInto_PluginService :: "library_types \<Rightarrow> library_copiers \<Rightarrow> copier" where
  "DeepCopyInto_PluginService E C = struct_copy
    [(''Ports'', slice_copy (E ''v1.ServicePort'') (C ''v1.ServicePort''))]"

definition DeepCopy_PluginService :: "library_types \<Rightarrow> library_copiers \<Rightarrow> copier" where
  "DeepCopy_PluginService E C = new_copy (PluginService_ty E) (DeepCopyInto_PluginService E C)"

definition DeepCopyInto_WorkloadAutoscaling :: "copier" where
  "DeepCopyInto_WorkloadAutoscaling = struct_copy
    [(''MinReplicas'', new_copy (TBasic KInt32) assign),
     (''TargetCPUUtilizationPercentage'', new_copy (TBasic KInt32) assign)]"

definition DeepCopy_WorkloadAutoscaling :: "copier" where
  "DeepCopy_WorkloadAutoscaling = new_copy WorkloadAutoscaling_ty DeepCopyInto_WorkloadAutoscaling"

definition DeepCopyInto_PluginWorkload :: "library_types \<Rightarrow> library_copiers \<Rightarrow> copier" where
  "DeepCopyInto_PluginWorkload E C = struct_copy
    [(''Image'', assign),
     (''Replicas'', new_copy (TBasic KInt32) assign),
     (''Command'', slice_copy (TBasic KString) assign),
     (''Args'', slice_copy (TBasic KString) assign),
     (''Env'', slice_copy (E ''v1.EnvVar'') (C ''v1.EnvVar'')),
     (''Ports'', slice_copy (E ''v1.ContainerPort'') assign),
     (''Resources'', C ''v1.ResourceRequirements''),
     (''VolumeMounts'', slice_copy (E ''v1.VolumeMount'') (C ''v1.VolumeMount'')),
     (''Volumes'', slice_copy (E ''v1.Volume'') (C ''v1.Volume'')),
     (''InstanceMedia'', new_copy InstanceMediaSelection_ty DeepCopyInto_InstanceMediaSelection),
     (''TerminationGracePeriodSeconds'', new_copy (TBasic KInt64) assign),
     (''NodeSelector'', map_copy),
     (''Tolerations'', slice_copy (E ''v1.Toleration'') (C ''v1.Toleration'')),
     (''PodSecurity'', new_copy PodSecuritySpec_ty DeepCopyInto_PodSecuritySpec),
     (''ReadinessProbe'', new_copy (E ''v1.Probe'') (C ''v1.Probe'')),
     (''LivenessProbe'', new_copy (E ''v1.Probe'') (C ''v1.Probe'')),
     (''StartupProbe'', new_copy (E ''v1.Probe'') (C ''v1.Probe'')),
     (''Autoscaling'', new_copy WorkloadAutoscaling_ty DeepCopyInto_WorkloadAutoscaling)]"

definition DeepCopy_PluginWorkload :: "library_types \<Rightarrow> library_copiers \<Rightarrow> copier" where
  "DeepCopy_PluginWorkload E C = new_copy (PluginWorkload_ty E) (DeepCopyInto_PluginWorkload E C)"

definition DeepCopyInto_JellyfinPluginSpec :: "library_types \<Rightarrow> library_copiers \<Rightarrow> copier" where
  "DeepCopyInto_JellyfinPluginSpec E C = struct_copy
    [(''JellyfinRef'', new_copy (E ''v1.LocalObjectReference'') assign),
     (''PluginImage'', assign),
     (''Meta'', assign),
     (''Install'', new_copy (PluginInstall_ty E) (DeepCopyInto_PluginInstall E C)),
     (''Workloads'', slice_copy (PluginWorkload_ty E) (DeepCopyInto_PluginWorkload E C)),
     (''Services'', slice_copy (PluginService_ty E) (DeepCopyInto_PluginService E C))]"

definition DeepCopy_JellyfinPluginSpec :: "library_types \<Rightarrow> library_copiers \<Rightarrow> copier" where
  "DeepCopy_JellyfinPluginSpec E C = new_copy (JellyfinPluginSpec_ty E) (DeepCopyInto_JellyfinPluginSpec E C)"

definition DeepCopyInto_JellyfinPluginStatus :: "library_types \<Rightarrow> library_copiers \<Rightarrow> copier" where
  "DeepCopyInto_JellyfinPluginStatus E C = struct_copy
    [(''Conditions'', slice_copy (E ''metav1.Condition'') (C ''metav1.Condition''))]"

definition DeepCopy_JellyfinPluginStatus :: "library_types \<Rightarrow> library_copiers \<Rightarrow> copier" where
  "DeepCopy_JellyfinPluginStatus E C = new_copy (JellyfinPluginStatus_ty E) (DeepCopyInto_JellyfinPluginStatus E C)"

definition DeepCopyInto_JellyfinPlugin :: "library_types \<Rightarrow> library_copiers \<Rightarrow> copier" where
  "DeepCopyInto_JellyfinPlugin E C = struct_copy
    [(''TypeMeta'', assign),
     (''ObjectMeta'', C ''metav1.ObjectMeta''),
     (''Spec'', DeepCopyInto_JellyfinPluginSpec E C),
     (''Status'', DeepCopyInto_JellyfinPluginStatus E C)]"

definition DeepCopy_JellyfinPlugin :: "library_types \<Rightarrow> library_copiers \<Rightarrow> copier" where
  "DeepCopy_JellyfinPlugin E C = new_copy (JellyfinPlugin_ty E) (DeepCopyInto_JellyfinPlugin E C)"

definition DeepCopyObject_JellyfinPlugin :: "library_types \<Rightarrow> library_copiers \<Rightarrow> go_val \<Rightarrow> heap \<Rightarrow> interface \<times> heap" where
  "DeepCopyObject_JellyfinPlugin E C = as_object ''JellyfinPlugin'' (DeepCopy_JellyfinPlugin E C)"

definition DeepCopyInto_JellyfinPluginList :: "library_types \<Rightarrow> library_copiers \<Rightarrow> copier" where
  "DeepCopyInto_JellyfinPluginList E C = struct_copy
    [(''TypeMeta'', assign),
     (''ListMeta'', C ''metav1.ListMeta''),
     (''Items'', slice_copy (JellyfinPlugin_ty E) (DeepCopyInto_JellyfinPlugin E C))]"

definition DeepCopy_JellyfinPluginList :: "library_types \<Rightarrow> library_copiers \<Rightarrow> copier" where
  "DeepCopy_JellyfinPluginList E C = new_copy (JellyfinPluginList_ty E) (DeepCopyInto_JellyfinPluginList E C)"

definition DeepCopyObject_JellyfinPluginList :: "library_types \<Rightarrow> library_copiers \<Rightarrow> go_val \<Rightarrow> heap \<Rightarrow> interface \<times> heap" where
  "DeepCopyObject_JellyfinPluginList E C = as_object ''JellyfinPluginList'' (DeepCopy_JellyfinPluginList E C)"

definition generated :: "library_types \<Rightarrow> library_copiers \<Rightarrow> (string \<times> ty \<times> copier) list" where
  "generated E C =
    [(''BrandingSpec'', BrandingSpec_ty, DeepCopyInto_BrandingSpec),
     (''GatewayReference'', GatewayReference_ty, DeepCopyInto_GatewayReference),
     (''GatewaySSO'', GatewaySSO_ty, DeepCopyInto_GatewaySSO),
     (''GatewaySpec'', GatewaySpec_ty, DeepCopyInto_GatewaySpec),
     (''GeneralSpec'', GeneralSpec_ty, DeepCopyInto_GeneralSpec),
     (''HardwareAccel'', HardwareAccel_ty, DeepCopyInto_HardwareAccel),
     (''ImageSource'', ImageSource_ty E, DeepCopyInto_ImageSource E C),
     (''IngressSpec'', IngressSpec_ty, DeepCopyInto_IngressSpec),
     (''IngressTLS'', IngressTLS_ty, DeepCopyInto_IngressTLS),
     (''InstanceEndpoints'', InstanceEndpoints_ty, DeepCopyInto_InstanceEndpoints),
     (''InstanceMediaSelection'', InstanceMediaSelection_ty, DeepCopyInto_InstanceMediaSelection),
     (''Jellyfin'', Jellyfin_ty E, DeepCopyInto_Jellyfin E C),
     (''JellyfinAPISpec'', JellyfinAPISpec_ty E, DeepCopyInto_JellyfinAPISpec E C),
     (''JellyfinList'', JellyfinList_ty E, DeepCopyInto_JellyfinList E C),
     (''JellyfinPlugin'', JellyfinPlugin_ty E, DeepCopyInto_JellyfinPlugin E C),
     (''JellyfinPluginList'', JellyfinPluginList_ty E, DeepCopyInto_JellyfinPluginList E C),
     (''JellyfinPluginSpec'', JellyfinPluginSpec_ty E, DeepCopyInto_JellyfinPluginSpec E C),
     (''JellyfinPluginStatus'', JellyfinPluginStatus_ty E, DeepCopyInto_JellyfinPluginStatus E C),
     (''JellyfinSpec'', JellyfinSpec_ty E, DeepCopyInto_JellyfinSpec E C),
     (''JellyfinStatus'', JellyfinStatus_ty E, DeepCopyInto_JellyfinStatus E C),
     (''JellyfinStorage'', JellyfinStorage_ty E, DeepCopyInto_JellyfinStorage E C),
     (''LibrarySpec'', LibrarySpec_ty E, DeepCopyInto_LibrarySpec E C),
     (''LoadedPlugin'', LoadedPlugin_ty, DeepCopyInto_LoadedPlugin),
     (''MediaFolder'', MediaFolder_ty E, DeepCopyInto_MediaFolder E C),
     (''NFSSource'', NFSSource_ty, DeepCopyInto_NFSSource),
     (''PVCSpec'', PVCSpec_ty E, DeepCopyInto_PVCSpec E C),
     (''PlaybackSpec'', PlaybackSpec_ty, DeepCopyInto_PlaybackSpec),
     (''PluginInstall'', PluginInstall_ty E, DeepCopyInto_PluginInstall E C),
     (''PluginMeta'', PluginMeta_ty, DeepCopyInto_PluginMeta),
     (''PluginService'', PluginService_ty E, DeepCopyInto_PluginService E C),
     (''PluginWorkload'', PluginWorkload_ty E, DeepCopyInto_PluginWorkload E C),
     (''PodSecuritySpec'', PodSecuritySpec_ty, DeepCopyInto_PodSecuritySpec),
     (''SegmentDeletionSpec'', SegmentDeletionSpec_ty, DeepCopyInto_SegmentDeletionSpec),
     (''ServiceSpec'', ServiceSpec_ty E, DeepCopyInto_ServiceSpec E C),
     (''ThrottleSpec'', ThrottleSpec_ty, DeepCopyInto_ThrottleSpec),
     (''TranscodingSpec'', TranscodingSpec_ty, DeepCopyInto_TranscodingSpec),
     (''WebSpec'', WebSpec_ty E, DeepCopyInto_WebSpec E C),
     (''WorkloadAutoscaling'', WorkloadAutoscaling_ty, DeepCopyInto_WorkloadAutoscaling)]"

section \<open>Every function fits its type\<close>

lemma library_plain [simp]:
  assumes "library_copies E C"
  shows "plain (E ''metav1.TypeMeta'')"
    "plain (E ''v1.ContainerPort'')"
    "plain (E ''v1.LocalObjectReference'')"
    "plain (E ''v1.PersistentVolumeAccessMode'')"
    "plain (E ''v1.PullPolicy'')"
    "plain (E ''v1.ServiceType'')"
  using assms by (simp_all add: library_copies_def assigned_library_types_def)

lemma library_deep [simp]:
  assumes "library_copies E C"
  shows "deep (E ''metav1.Condition'') (C ''metav1.Condition'')"
    "deep (E ''metav1.LabelSelector'') (C ''metav1.LabelSelector'')"
    "deep (E ''metav1.ListMeta'') (C ''metav1.ListMeta'')"
    "deep (E ''metav1.ObjectMeta'') (C ''metav1.ObjectMeta'')"
    "deep (E ''resource.Quantity'') (C ''resource.Quantity'')"
    "deep (E ''runtime.RawExtension'') (C ''runtime.RawExtension'')"
    "deep (E ''v1.EnvVar'') (C ''v1.EnvVar'')"
    "deep (E ''v1.Probe'') (C ''v1.Probe'')"
    "deep (E ''v1.ResourceRequirements'') (C ''v1.ResourceRequirements'')"
    "deep (E ''v1.ServicePort'') (C ''v1.ServicePort'')"
    "deep (E ''v1.Toleration'') (C ''v1.Toleration'')"
    "deep (E ''v1.Volume'') (C ''v1.Volume'')"
    "deep (E ''v1.VolumeMount'') (C ''v1.VolumeMount'')"
  using assms by (simp_all add: library_copies_def copied_library_types_def)

lemmas deep_simps = listed_deep_def nothing_missed_def

lemma plain_GatewayReference [simp]: "plain GatewayReference_ty"
  by (simp add: GatewayReference_ty_def)

lemma plain_GatewaySSO [simp]: "plain GatewaySSO_ty"
  by (simp add: GatewaySSO_ty_def)

lemma plain_ImageSource [simp]: "library_copies E C \<Longrightarrow> plain (ImageSource_ty E)"
  by (simp add: ImageSource_ty_def)

lemma plain_IngressTLS [simp]: "plain IngressTLS_ty"
  by (simp add: IngressTLS_ty_def)

lemma plain_InstanceEndpoints [simp]: "plain InstanceEndpoints_ty"
  by (simp add: InstanceEndpoints_ty_def)

lemma plain_LoadedPlugin [simp]: "plain LoadedPlugin_ty"
  by (simp add: LoadedPlugin_ty_def)

lemma plain_PluginMeta [simp]: "plain PluginMeta_ty"
  by (simp add: PluginMeta_ty_def)

lemma deep_BrandingSpec [simp]: "deep BrandingSpec_ty DeepCopyInto_BrandingSpec"
  unfolding BrandingSpec_ty_def DeepCopyInto_BrandingSpec_def by (rule deep_struct) (simp_all add: deep_simps)

lemma deep_GatewayReference [simp]: "deep GatewayReference_ty DeepCopyInto_GatewayReference"
  unfolding GatewayReference_ty_def DeepCopyInto_GatewayReference_def by (rule deep_struct) (simp_all add: deep_simps)

lemma deep_GatewaySSO [simp]: "deep GatewaySSO_ty DeepCopyInto_GatewaySSO"
  unfolding GatewaySSO_ty_def DeepCopyInto_GatewaySSO_def by (rule deep_struct) (simp_all add: deep_simps)

lemma deep_GatewaySpec [simp]: "deep GatewaySpec_ty DeepCopyInto_GatewaySpec"
  unfolding GatewaySpec_ty_def DeepCopyInto_GatewaySpec_def by (rule deep_struct) (simp_all add: deep_simps)

lemma deep_GeneralSpec [simp]: "deep GeneralSpec_ty DeepCopyInto_GeneralSpec"
  unfolding GeneralSpec_ty_def DeepCopyInto_GeneralSpec_def by (rule deep_struct) (simp_all add: deep_simps)

lemma deep_HardwareAccel [simp]: "deep HardwareAccel_ty DeepCopyInto_HardwareAccel"
  unfolding HardwareAccel_ty_def DeepCopyInto_HardwareAccel_def by (rule deep_struct) (simp_all add: deep_simps)

lemma deep_ImageSource [simp]: "library_copies E C \<Longrightarrow> deep (ImageSource_ty E) (DeepCopyInto_ImageSource E C)"
  unfolding ImageSource_ty_def DeepCopyInto_ImageSource_def by (rule deep_struct) (simp_all add: deep_simps)

lemma deep_IngressTLS [simp]: "deep IngressTLS_ty DeepCopyInto_IngressTLS"
  unfolding IngressTLS_ty_def DeepCopyInto_IngressTLS_def by (rule deep_struct) (simp_all add: deep_simps)

lemma deep_IngressSpec [simp]: "deep IngressSpec_ty DeepCopyInto_IngressSpec"
  unfolding IngressSpec_ty_def DeepCopyInto_IngressSpec_def by (rule deep_struct) (simp_all add: deep_simps)

lemma deep_InstanceEndpoints [simp]: "deep InstanceEndpoints_ty DeepCopyInto_InstanceEndpoints"
  unfolding InstanceEndpoints_ty_def DeepCopyInto_InstanceEndpoints_def by (rule deep_struct) (simp_all add: deep_simps)

lemma deep_InstanceMediaSelection [simp]: "deep InstanceMediaSelection_ty DeepCopyInto_InstanceMediaSelection"
  unfolding InstanceMediaSelection_ty_def DeepCopyInto_InstanceMediaSelection_def by (rule deep_struct) (simp_all add: deep_simps)

lemma deep_JellyfinAPISpec [simp]: "library_copies E C \<Longrightarrow> deep (JellyfinAPISpec_ty E) (DeepCopyInto_JellyfinAPISpec E C)"
  unfolding JellyfinAPISpec_ty_def DeepCopyInto_JellyfinAPISpec_def by (rule deep_struct) (simp_all add: deep_simps)

lemma deep_LibrarySpec [simp]: "library_copies E C \<Longrightarrow> deep (LibrarySpec_ty E) (DeepCopyInto_LibrarySpec E C)"
  unfolding LibrarySpec_ty_def DeepCopyInto_LibrarySpec_def by (rule deep_struct) (simp_all add: deep_simps)

lemma deep_NFSSource [simp]: "deep NFSSource_ty DeepCopyInto_NFSSource"
  unfolding NFSSource_ty_def DeepCopyInto_NFSSource_def by (rule deep_struct) (simp_all add: deep_simps)

lemma deep_PVCSpec [simp]: "library_copies E C \<Longrightarrow> deep (PVCSpec_ty E) (DeepCopyInto_PVCSpec E C)"
  unfolding PVCSpec_ty_def DeepCopyInto_PVCSpec_def by (rule deep_struct) (simp_all add: deep_simps)

lemma deep_MediaFolder [simp]: "library_copies E C \<Longrightarrow> deep (MediaFolder_ty E) (DeepCopyInto_MediaFolder E C)"
  unfolding MediaFolder_ty_def DeepCopyInto_MediaFolder_def by (rule deep_struct) (simp_all add: deep_simps)

lemma deep_JellyfinStorage [simp]: "library_copies E C \<Longrightarrow> deep (JellyfinStorage_ty E) (DeepCopyInto_JellyfinStorage E C)"
  unfolding JellyfinStorage_ty_def DeepCopyInto_JellyfinStorage_def by (rule deep_struct) (simp_all add: deep_simps)

lemma deep_PlaybackSpec [simp]: "deep PlaybackSpec_ty DeepCopyInto_PlaybackSpec"
  unfolding PlaybackSpec_ty_def DeepCopyInto_PlaybackSpec_def by (rule deep_struct) (simp_all add: deep_simps)

lemma deep_PodSecuritySpec [simp]: "deep PodSecuritySpec_ty DeepCopyInto_PodSecuritySpec"
  unfolding PodSecuritySpec_ty_def DeepCopyInto_PodSecuritySpec_def by (rule deep_struct) (simp_all add: deep_simps)

lemma deep_ServiceSpec [simp]: "library_copies E C \<Longrightarrow> deep (ServiceSpec_ty E) (DeepCopyInto_ServiceSpec E C)"
  unfolding ServiceSpec_ty_def DeepCopyInto_ServiceSpec_def by (rule deep_struct) (simp_all add: deep_simps)

lemma deep_SegmentDeletionSpec [simp]: "deep SegmentDeletionSpec_ty DeepCopyInto_SegmentDeletionSpec"
  unfolding SegmentDeletionSpec_ty_def DeepCopyInto_SegmentDeletionSpec_def by (rule deep_struct) (simp_all add: deep_simps)

lemma deep_ThrottleSpec [simp]: "deep ThrottleSpec_ty DeepCopyInto_ThrottleSpec"
  unfolding ThrottleSpec_ty_def DeepCopyInto_ThrottleSpec_def by (rule deep_struct) (simp_all add: deep_simps)

lemma deep_TranscodingSpec [simp]: "deep TranscodingSpec_ty DeepCopyInto_TranscodingSpec"
  unfolding TranscodingSpec_ty_def DeepCopyInto_TranscodingSpec_def by (rule deep_struct) (simp_all add: deep_simps)

lemma deep_WebSpec [simp]: "library_copies E C \<Longrightarrow> deep (WebSpec_ty E) (DeepCopyInto_WebSpec E C)"
  unfolding WebSpec_ty_def DeepCopyInto_WebSpec_def by (rule deep_struct) (simp_all add: deep_simps)

lemma deep_JellyfinSpec [simp]: "library_copies E C \<Longrightarrow> deep (JellyfinSpec_ty E) (DeepCopyInto_JellyfinSpec E C)"
  unfolding JellyfinSpec_ty_def DeepCopyInto_JellyfinSpec_def by (rule deep_struct) (simp_all add: deep_simps)

lemma deep_LoadedPlugin [simp]: "deep LoadedPlugin_ty DeepCopyInto_LoadedPlugin"
  unfolding LoadedPlugin_ty_def DeepCopyInto_LoadedPlugin_def by (rule deep_struct) (simp_all add: deep_simps)

lemma deep_JellyfinStatus [simp]: "library_copies E C \<Longrightarrow> deep (JellyfinStatus_ty E) (DeepCopyInto_JellyfinStatus E C)"
  unfolding JellyfinStatus_ty_def DeepCopyInto_JellyfinStatus_def by (rule deep_struct) (simp_all add: deep_simps)

lemma deep_Jellyfin [simp]: "library_copies E C \<Longrightarrow> deep (Jellyfin_ty E) (DeepCopyInto_Jellyfin E C)"
  unfolding Jellyfin_ty_def DeepCopyInto_Jellyfin_def by (rule deep_struct) (simp_all add: deep_simps)

lemma deep_JellyfinList [simp]: "library_copies E C \<Longrightarrow> deep (JellyfinList_ty E) (DeepCopyInto_JellyfinList E C)"
  unfolding JellyfinList_ty_def DeepCopyInto_JellyfinList_def by (rule deep_struct) (simp_all add: deep_simps)

lemma deep_PluginInstall [simp]: "library_copies E C \<Longrightarrow> deep (PluginInstall_ty E) (DeepCopyInto_PluginInstall E C)"
  unfolding PluginInstall_ty_def DeepCopyInto_PluginInstall_def by (rule deep_struct) (simp_all add: deep_simps)

lemma deep_PluginMeta [simp]: "deep PluginMeta_ty DeepCopyInto_PluginMeta"
  unfolding PluginMeta_ty_def DeepCopyInto_PluginMeta_def by (rule deep_struct) (simp_all add: deep_simps)

lemma deep_PluginService [simp]: "library_copies E C \<Longrightarrow> deep (PluginService_ty E) (DeepCopyInto_PluginService E C)"
  unfolding PluginService_ty_def DeepCopyInto_PluginService_def by (rule deep_struct) (simp_all add: deep_simps)

lemma deep_WorkloadAutoscaling [simp]: "deep WorkloadAutoscaling_ty DeepCopyInto_WorkloadAutoscaling"
  unfolding WorkloadAutoscaling_ty_def DeepCopyInto_WorkloadAutoscaling_def by (rule deep_struct) (simp_all add: deep_simps)

lemma deep_PluginWorkload [simp]: "library_copies E C \<Longrightarrow> deep (PluginWorkload_ty E) (DeepCopyInto_PluginWorkload E C)"
  unfolding PluginWorkload_ty_def DeepCopyInto_PluginWorkload_def by (rule deep_struct) (simp_all add: deep_simps)

lemma deep_JellyfinPluginSpec [simp]: "library_copies E C \<Longrightarrow> deep (JellyfinPluginSpec_ty E) (DeepCopyInto_JellyfinPluginSpec E C)"
  unfolding JellyfinPluginSpec_ty_def DeepCopyInto_JellyfinPluginSpec_def by (rule deep_struct) (simp_all add: deep_simps)

lemma deep_JellyfinPluginStatus [simp]: "library_copies E C \<Longrightarrow> deep (JellyfinPluginStatus_ty E) (DeepCopyInto_JellyfinPluginStatus E C)"
  unfolding JellyfinPluginStatus_ty_def DeepCopyInto_JellyfinPluginStatus_def by (rule deep_struct) (simp_all add: deep_simps)

lemma deep_JellyfinPlugin [simp]: "library_copies E C \<Longrightarrow> deep (JellyfinPlugin_ty E) (DeepCopyInto_JellyfinPlugin E C)"
  unfolding JellyfinPlugin_ty_def DeepCopyInto_JellyfinPlugin_def by (rule deep_struct) (simp_all add: deep_simps)

lemma deep_JellyfinPluginList [simp]: "library_copies E C \<Longrightarrow> deep (JellyfinPluginList_ty E) (DeepCopyInto_JellyfinPluginList E C)"
  unfolding JellyfinPluginList_ty_def DeepCopyInto_JellyfinPluginList_def by (rule deep_struct) (simp_all add: deep_simps)

lemma generated_deep: "library_copies E C \<Longrightarrow> (n, T, c) \<in> set (generated E C) \<Longrightarrow> deep T c"
  unfolding generated_def by auto

definition objects :: "library_types \<Rightarrow> library_copiers
    \<Rightarrow> (string \<times> ty \<times> (go_val \<Rightarrow> heap \<Rightarrow> interface \<times> heap)) list" where
  "objects E C =
    [(''Jellyfin'', Jellyfin_ty E, DeepCopyObject_Jellyfin E C),
     (''JellyfinList'', JellyfinList_ty E, DeepCopyObject_JellyfinList E C),
     (''JellyfinPlugin'', JellyfinPlugin_ty E, DeepCopyObject_JellyfinPlugin E C),
     (''JellyfinPluginList'', JellyfinPluginList_ty E, DeepCopyObject_JellyfinPluginList E C)]"

lemma objects_deep:
  assumes "library_copies E C" "(n, T, f) \<in> set (objects E C)"
  shows "\<exists>copy. f = as_object n copy \<and> deep (TPtr T) copy"
  using assms(2)
  unfolding objects_def list.set insert_iff empty_iff prod.inject
    DeepCopyObject_Jellyfin_def DeepCopyObject_JellyfinList_def DeepCopyObject_JellyfinPlugin_def
    DeepCopyObject_JellyfinPluginList_def DeepCopy_Jellyfin_def DeepCopy_JellyfinList_def
    DeepCopy_JellyfinPlugin_def DeepCopy_JellyfinPluginList_def
  by (elim disjE conjE FalseE; hypsubst) (rule exI, rule conjI, rule refl, simp add: assms(1))+

text \<open>A library for the examples: object metadata with a map of labels, and scalars.\<close>

definition sample_types :: library_types where
  "sample_types n = (if n = ''metav1.ObjectMeta'' then TStruct [(''Name'', TBasic KString), (''Labels'', TMap)]
                     else TBasic KString)"

definition sample_copiers :: library_copiers where
  "sample_copiers n = (if n = ''metav1.ObjectMeta'' then struct_copy [(''Labels'', map_copy)] else assign)"

lemma library_example: "library_copies sample_types sample_copiers"
  by (simp add: library_copies_def assigned_library_types_def copied_library_types_def sample_types_def
      sample_copiers_def deep_struct deep_simps)

text \<open>
  C39. Types and depth. Each \<open>DeepCopyInto\<close> of the file, applied to a value of the type it is declared
  for, yields a value of that type that reads the same, leaves every existing cell as it was, and
  reaches only cells that it has allocated itself. So every field that holds a reference, in each of
  the API types and whatever is nested in them, is copied by its own statement.
\<close>

theorem DeepCopyInto_typed_deep:
  assumes "library_copies E C" and "(n, T, c) \<in> set (generated E C)" and "typed h T v" and "c v h = (v', h')"
  shows "typed h' T v' \<and> denote h' T v' = denote h T v \<and> take (length h) h' = h
    \<and> set (reach h' T v') \<subseteq> {length h..<length h'}"
proof -
  obtain ys where h': "h' = h @ ys" and t: "typed h' T v'" and d: "denote h' T v' = denote h T v"
    and r: "\<forall>a \<in> set (reach h' T v'). length h \<le> a"
    using deepD [OF generated_deep [OF assms(1, 2)] assms(3)] assms(4) by (metis prod.inject)
  with typed_reach [OF t] show ?thesis by auto
qed

definition sample_status :: go_val where
  "sample_status = (case zero_value (JellyfinStatus_ty sample_types) of
     Struct vs \<Rightarrow> Struct (map_put ''ManagedLibraries'' (Slice (Some (0, 1, 2))) vs) | v \<Rightarrow> v)"

definition sample_heap :: heap where
  "sample_heap = [Array (map (Basic \<circ> GoString) [''Films'', ''Music'', ''Shows'']),
                  Table [(''app'', ''jellyfin'')]]"

lemmas heap_sample_defs = sample_status_def sample_heap_def JellyfinStatus_ty_def InstanceEndpoints_ty_def LoadedPlugin_ty_def

lemma sample_status_typed: "typed sample_heap (JellyfinStatus_ty sample_types) sample_status"
  by (simp add: heap_sample_defs cell_at_def get_field_def)

lemma DeepCopyInto_typed_deep_witness:
  "denote (snd (DeepCopyInto_JellyfinStatus sample_types sample_copiers sample_status sample_heap)) (JellyfinStatus_ty sample_types)
      (fst (DeepCopyInto_JellyfinStatus sample_types sample_copiers sample_status sample_heap))
    = denote sample_heap (JellyfinStatus_ty sample_types) sample_status
   \<and> snd (DeepCopyInto_JellyfinStatus sample_types sample_copiers sample_status sample_heap)
    = sample_heap @ [Array [Basic (GoString ''Music''), Basic (GoString ''Shows'')]]"
proof
  have "(''JellyfinStatus'', JellyfinStatus_ty sample_types, DeepCopyInto_JellyfinStatus sample_types sample_copiers)
      \<in> set (generated sample_types sample_copiers)" by (simp add: generated_def)
  from DeepCopyInto_typed_deep [OF library_example this sample_status_typed prod.collapse [symmetric]]
  show "denote (snd (DeepCopyInto_JellyfinStatus sample_types sample_copiers sample_status sample_heap)) (JellyfinStatus_ty sample_types)
      (fst (DeepCopyInto_JellyfinStatus sample_types sample_copiers sample_status sample_heap))
    = denote sample_heap (JellyfinStatus_ty sample_types) sample_status" by blast
  show "snd (DeepCopyInto_JellyfinStatus sample_types sample_copiers sample_status sample_heap)
    = sample_heap @ [Array [Basic (GoString ''Music''), Basic (GoString ''Shows'')]]"
    by (simp add: heap_sample_defs DeepCopyInto_JellyfinStatus_def get_field_def assign_def cell_at_def set_elem_def
        upt_conv_Cons numeral_2_eq_2)
qed

text \<open>
  C40. Independence. \<open>DeepCopyObject\<close> of each of the four kinds returns nil exactly for a nil receiver
  (and never a non-nil interface holding a nil pointer); otherwise the copy reads as the original does,
  and from then on no program that writes through one of the two, however it allocates and links cells
  meanwhile, changes what the other reads.
\<close>

theorem DeepCopyObject_independent:
  assumes "library_copies E C" and "(n, T, f) \<in> set (objects E C)" and "typed h (TPtr T) p" and "f p h = (r, h')"
  shows "if p = Pointer None then r = None
    else \<exists>q. r = Some (n, q) \<and> q \<noteq> Pointer None \<and> denote h' (TPtr T) q = denote h (TPtr T) p
      \<and> (\<forall>g. through (set (reach h' (TPtr T) q)) h' g \<longrightarrow> denote g (TPtr T) p = denote h (TPtr T) p)
      \<and> (\<forall>g. through (set (reach h' (TPtr T) p)) h' g \<longrightarrow> denote g (TPtr T) q = denote h (TPtr T) p)"
proof -
  obtain copy where f: "f = as_object n copy" and d: "deep (TPtr T) copy"
    using objects_deep [OF assms(1, 2)] by blast
  obtain q where run: "copy p h = (q, h')" and r: "r = (if q = Pointer None then None else Some (n, q))"
    using assms(4) f by (auto simp: as_object_def split: prod.splits)
  have "typed h' (TPtr T) q" using deepD [OF d assms(3)] run by (metis prod.inject)
  moreover note ind = deep_independent [OF d assms(3) run]
  ultimately have "q = Pointer None \<longleftrightarrow> p = Pointer None"
    using assms(3) by (auto split: go_val.splits option.splits)
  with r ind show ?thesis by auto
qed

definition sample_list :: heap where
  "sample_list = sample_heap @
     [Array [case zero_value (Jellyfin_ty sample_types) of
        Struct vs \<Rightarrow> Struct (map_put ''ObjectMeta'' (Struct [(''Name'', Basic (GoString ''tv'')), (''Labels'', MapRef (Some 1))]) vs)
      | v \<Rightarrow> v],
      Cell (Struct [(''TypeMeta'', Basic (GoString ''v1alpha1'')), (''ListMeta'', Basic (GoString '''')), (''Items'', Slice (Some (2, 0, 1)))])]"

lemma DeepCopyObject_independent_witness:
  "\<exists>q. fst (DeepCopyObject_JellyfinList sample_types sample_copiers (Pointer (Some 3)) sample_list) = Some (''JellyfinList'', q)
      \<and> q \<noteq> Pointer None"
proof -
  have member: "(''JellyfinList'', JellyfinList_ty sample_types, DeepCopyObject_JellyfinList sample_types sample_copiers)
      \<in> set (objects sample_types sample_copiers)" by (simp add: objects_def)
  have t: "typed sample_list (TPtr (JellyfinList_ty sample_types)) (Pointer (Some 3))"
    by (simp add: sample_list_def sample_heap_def cell_at_def get_field_def nth_append sample_types_def JellyfinList_ty_def
        Jellyfin_ty_def JellyfinSpec_ty_def JellyfinStatus_ty_def JellyfinStorage_ty_def PVCSpec_ty_def
        ServiceSpec_ty_def InstanceEndpoints_ty_def)
  from DeepCopyObject_independent [OF library_example member t prod.collapse [symmetric]] show ?thesis by auto
qed

end
