(* ===== verification/Api_Server.thy ===== *)
theory Api_Server
  imports Convergence
begin

text \<open>
  The Kubernetes API server as an interface: what a quiet and responsive server promises of the calls
  that the reconcilers make, stated on the objects it stores. Nobody else writes while a reconcile
  runs, every call is answered, and the server stores what it is given, adding only the creation time
  and the key of an object. Single stores are one locale, the whole server another on top of it; a map
  from keys to objects is a server of this kind.
\<close>

type_synonym key = "kind \<times> string \<times> string"
type_synonym objects = "key \<Rightarrow> obj option"

section \<open>One kind of object\<close>

locale object_store =
  fixes view :: "'e \<Rightarrow> objects" and mk :: "'o \<Rightarrow> obj" and kd :: kind
    and kept :: "string \<Rightarrow> string \<Rightarrow> 'o \<Rightarrow> 'o" and st :: "('e, 'o) store"
  assumes mk_inject: "mk x = mk y \<longleftrightarrow> x = y"
    and kinds: "view s (kd, ns, n) = Some ob \<Longrightarrow> \<exists>x. ob = mk x \<and> kept ns n x = x"
    and get_stored: "view s (kd, ns, n) = Some (mk x) \<Longrightarrow> raw_get st ns n s = (Inr x, s)"
    and get_missing: "view s (kd, ns, n) = None \<Longrightarrow> raw_get st ns n s = (Inl NotFound, s)"
    and upsert_elsewhere: "raw_upsert st ns n f s = (r, s') \<Longrightarrow> key \<noteq> (kd, ns, n) \<Longrightarrow> view s' key = view s key"
    and upsert_stores: "raw_upsert st ns n f s = (Inr y, s') \<Longrightarrow> view s' (kd, ns, n) = Some (mk y)
      \<and> (\<exists>x z. f x = Inr z \<and> y = kept ns n z \<and> (\<forall>ob. view s (kd, ns, n) = Some ob \<longrightarrow> ob = mk x))"
    and upsert_same: "view s (kd, ns, n) = Some (mk x) \<Longrightarrow> f x = Inr x \<Longrightarrow> raw_upsert st ns n f s = (Inr x, s)"
    and delete_elsewhere: "raw_delete st ns n s = (q, s') \<Longrightarrow> key \<noteq> (kd, ns, n) \<Longrightarrow> view s' key = view s key"
    and delete_removes: "raw_delete st ns n s = (Inr (), s') \<Longrightarrow> view s' (kd, ns, n) = None"
    and delete_NotFound: "raw_delete st ns n s = (Inl NotFound, s') \<Longrightarrow> view s' (kd, ns, n) = None"
    and delete_missing: "view s (kd, ns, n) = None \<Longrightarrow> raw_delete st ns n s = (Inl NotFound, s)"

section \<open>The server\<close>

definition stored_claim_at :: "string \<Rightarrow> string \<Rightarrow> PersistentVolumeClaim \<Rightarrow> PersistentVolumeClaim" where
  "stored_claim_at ns n c = c\<lparr>claim_namespace := ns, claim_name := n, claim_created := True\<rparr>"

definition stored_plugin_at :: "string \<Rightarrow> string \<Rightarrow> JellyfinPlugin \<Rightarrow> JellyfinPlugin" where
  "stored_plugin_at ns n p = p\<lparr>jp_namespace := ns, jp_name := n\<rparr>"

definition stored_jellyfin_at :: "string \<Rightarrow> string \<Rightarrow> Jellyfin \<Rightarrow> Jellyfin" where
  "stored_jellyfin_at ns n jf = jf\<lparr>jf_namespace := ns, jf_name := n\<rparr>"

locale api_server =
  owner_refs k +
  deployments: object_store view ODeployment KDeployment "\<lambda>ns n. stored_deployment" "k_deployments k" +
  services: object_store view OService KService "\<lambda>ns n x. x" "k_services k" +
  routes: object_store view ORoute KRoute "\<lambda>ns n x. x" "k_routes k" +
  claims: object_store view OClaim KClaim stored_claim_at "k_claims k" +
  volumes: object_store view OVolume KVolume "\<lambda>ns n x. x" "k_volumes k" +
  ingresses: object_store view OIngress KIngress "\<lambda>ns n x. x" "k_ingresses k" +
  jellyfins: object_store view OJellyfin KJellyfin stored_jellyfin_at "k_jellyfins k"
  for k :: "'e cluster" and view :: "'e \<Rightarrow> objects" +
  assumes list_reads: "\<exists>r. raw_list (k_plugins k) ns ls s = (r, s)"
    and list_stable: "(\<And>n. view s' (KPlugin, ns, n) = view s (KPlugin, ns, n)) \<Longrightarrow>
        fst (raw_list (k_plugins k) ns ls s') = fst (raw_list (k_plugins k) ns ls s)"
    and patch_elsewhere: "raw_patch (k_claims k) new base s = (r, s') \<Longrightarrow>
        key \<noteq> (KClaim, claim_namespace base, claim_name base) \<Longrightarrow> view s' key = view s key"
    and patch_merges: "raw_patch (k_claims k) new base s = (Inr (), s') \<Longrightarrow>
        view s (KClaim, claim_namespace base, claim_name base) = Some (OClaim c) \<Longrightarrow>
        view s' (KClaim, claim_namespace base, claim_name base) = Some (OClaim (c\<lparr>claim_requests := claim_requests new\<rparr>))"
    and patch_failed: "raw_patch (k_claims k) new base s = (Inl e, s') \<Longrightarrow> view s' = view s"
    and status_failed: "raw_updateStatus (k_jellyfins k) x s = (Inl e, s') \<Longrightarrow> view s' = view s"
    and status_written: "raw_updateStatus (k_jellyfins k) x s = (Inr (), s') \<Longrightarrow>
        view s (KJellyfin, jf_namespace x, jf_name x) = Some (OJellyfin cur) \<Longrightarrow>
        view s' = (view s)((KJellyfin, jf_namespace x, jf_name x) \<mapsto> OJellyfin (cur\<lparr>jf_status := jf_status x\<rparr>))"
    and status_same: "view s (KJellyfin, jf_namespace x, jf_name x) = Some (OJellyfin cur) \<Longrightarrow> jf_status cur = jf_status x \<Longrightarrow>
        raw_updateStatus (k_jellyfins k) x s = (Inr (), s)"
    and retries: "retry_works k"
    and conditions: "conditions_work k"
    and condition_again: "FindStatusCondition k cs (cond_type cd) = Some cd \<Longrightarrow> SetStatusCondition k cs cd = cs"

section \<open>A server that is a map\<close>

fun stored_as :: "string \<Rightarrow> string \<Rightarrow> obj \<Rightarrow> obj" where
  "stored_as ns n (ODeployment d) = ODeployment (stored_deployment d)"
| "stored_as ns n (OClaim c) = OClaim (stored_claim_at ns n c)"
| "stored_as ns n (OJellyfin jf) = OJellyfin (stored_jellyfin_at ns n jf)"
| "stored_as ns n (OPlugin p) = OPlugin (stored_plugin_at ns n p)"
| "stored_as ns n ob = ob"

text \<open>What a key of the map holds; an entry of another kind than its key says is none.\<close>

definition memory_view :: "objects \<Rightarrow> objects" where
  "memory_view s key = (case (key, s key) of
     ((kd, ns, n), Some ob) \<Rightarrow> if kind_of ob = kd then Some (stored_as ns n ob) else None | _ \<Rightarrow> None)"

definition memory_store :: "('o \<Rightarrow> obj) \<Rightarrow> (obj \<Rightarrow> 'o) \<Rightarrow> kind \<Rightarrow> (string \<Rightarrow> string \<Rightarrow> 'o \<Rightarrow> 'o)
    \<Rightarrow> (string \<Rightarrow> string \<Rightarrow> 'o) \<Rightarrow> (objects, 'o) store" where
  "memory_store mk un kd kept blank = empty_store
     \<lparr>raw_get := (\<lambda>ns n s. (case memory_view s (kd, ns, n) of None \<Rightarrow> Inl NotFound | Some ob \<Rightarrow> Inr (un ob), s)),
      raw_upsert := (\<lambda>ns n f s.
        case f (case memory_view s (kd, ns, n) of None \<Rightarrow> blank ns n | Some ob \<Rightarrow> un ob) of
          Inl e \<Rightarrow> (Inl e, s)
        | Inr z \<Rightarrow> if memory_view s (kd, ns, n) = Some (mk z) then (Inr z, s)
                  else (Inr (kept ns n z), s((kd, ns, n) \<mapsto> mk (kept ns n z)))),
      raw_delete := (\<lambda>ns n s. if memory_view s (kd, ns, n) = None then (Inl NotFound, s)
                              else (Inr (), s((kd, ns, n) := None)))\<rparr>"

lemma memory_object_store:
  assumes "\<And>x y. mk x = mk y \<longleftrightarrow> x = y" and "\<And>x. un (mk x) = x" and "\<And>x. kind_of (mk x) = kd"
    and "\<And>ob. kind_of ob = kd \<Longrightarrow> \<exists>x. ob = mk x" and "\<And>ns n x. stored_as ns n (mk x) = mk (kept ns n x)"
    and "\<And>ns n x. kept ns n (kept ns n x) = kept ns n x"
    and "raw_get st = raw_get (memory_store mk un kd kept blank)"
    and "raw_upsert st = raw_upsert (memory_store mk un kd kept blank)"
    and "raw_delete st = raw_delete (memory_store mk un kd kept blank)"
  shows "object_store memory_view mk kd kept st"
proof -
  have own: "\<exists>x. ob = mk x \<and> kept ns n x = x" if "memory_view s (kd, ns, n) = Some ob" for s ns n ob
    using that assms(4, 5, 6) by (fastforce simp: memory_view_def split: option.splits if_splits)
  have put: "memory_view (s((kd, ns, n) \<mapsto> mk (kept ns n z))) (kd, ns, n) = Some (mk (kept ns n z))" for s ns n z
    by (simp add: memory_view_def assms(3, 5, 6))
  have other: "memory_view (s(key := x)) key' = memory_view s key'" if "key' \<noteq> key" for s key key' x
    using that by (simp add: memory_view_def split: prod.split)
  have gone: "memory_view (s(key := None)) key = None" for s key
    by (simp add: memory_view_def split: prod.split)
  show ?thesis
  proof (unfold_locales, goal_cases)
    case 1 show ?case by (rule assms(1))
  next
    case 2 then show ?case by (rule own)
  next
    case 3 then show ?case by (simp add: assms(2, 7) memory_store_def)
  next
    case 4 then show ?case by (simp add: assms(7) memory_store_def)
  next
    case 5 then show ?case by (auto simp: assms(8) memory_store_def other split: sum.splits if_splits)
  next
    case (6 ns n f s y s')
    then show ?case using own [of s ns n]
      by (auto simp: assms(1, 2, 8) memory_store_def put split: sum.splits option.splits if_splits)
  next
    case 7 then show ?case by (simp add: assms(2, 8) memory_store_def)
  next
    case 8 then show ?case by (auto simp: assms(9) memory_store_def other split: if_splits)
  next
    case 9 then show ?case by (auto simp: assms(9) memory_store_def gone split: if_splits)
  next
    case 10 then show ?case by (auto simp: assms(9) memory_store_def split: if_splits)
  next
    case 11 then show ?case by (simp add: assms(9) memory_store_def)
  qed
qed

text \<open>The stores of the map; \<open>names\<close> are the names it lists.\<close>

fun the_deployment :: "obj \<Rightarrow> LiveDeployment" where "the_deployment (ODeployment x) = x"
fun the_service :: "obj \<Rightarrow> LiveService" where "the_service (OService x) = x"
fun the_route :: "obj \<Rightarrow> LiveRoute" where "the_route (ORoute x) = x"
fun the_claim :: "obj \<Rightarrow> PersistentVolumeClaim" where "the_claim (OClaim x) = x"
fun the_volume :: "obj \<Rightarrow> PersistentVolume" where "the_volume (OVolume x) = x"
fun the_ingress :: "obj \<Rightarrow> Ingress" where "the_ingress (OIngress x) = x"
fun the_jellyfin :: "obj \<Rightarrow> Jellyfin" where "the_jellyfin (OJellyfin x) = x"
fun the_plugin :: "obj \<Rightarrow> JellyfinPlugin" where "the_plugin (OPlugin x) = x"

definition new_deployment :: "string \<Rightarrow> string \<Rightarrow> LiveDeployment" where
  "new_deployment ns n = (live_deployment n None 0)\<lparr>d_namespace := ns, ld_created := False\<rparr>"

definition new_service :: "string \<Rightarrow> string \<Rightarrow> LiveService" where
  "new_service ns n = \<lparr>s_name = n, s_namespace = ns, s_labels = [], s_annotations = [], s_type = '''', s_selector = [],
     s_ports = [], lsvc_owners = []\<rparr>"

definition new_route :: "string \<Rightarrow> string \<Rightarrow> LiveRoute" where
  "new_route ns n = \<lparr>hr_name = n, hr_namespace = ns, hr_labels = [], hr_annotations = [], hr_parentGroup = '''',
     hr_parentKind = '''', hr_parentName = '''', hr_parentNamespace = None, hr_parentSection = None, hr_hostnames = [],
     hr_rules = [], lr_owners = []\<rparr>"

definition new_ingress :: "string \<Rightarrow> string \<Rightarrow> Ingress" where
  "new_ingress ns n = \<lparr>ing_name = n, ing_namespace = ns, ing_owners = [], ing_labels = [], ing_annotations_of = [],
     ing_class = None, ing_rules = [], ing_tls_of = []\<rparr>"

definition claim_key :: "PersistentVolumeClaim \<Rightarrow> key" where
  "claim_key c = (KClaim, claim_namespace c, claim_name c)"

definition jellyfin_key :: "Jellyfin \<Rightarrow> key" where
  "jellyfin_key jf = (KJellyfin, jf_namespace jf, jf_name jf)"

definition patch_claim :: "PersistentVolumeClaim \<Rightarrow> PersistentVolumeClaim \<Rightarrow> (objects, unit) op" where
  "patch_claim new base s = (case memory_view s (claim_key base) of
     Some (OClaim c) \<Rightarrow> (Inr (), s(claim_key base \<mapsto> OClaim (c\<lparr>claim_requests := claim_requests new\<rparr>)))
   | _ \<Rightarrow> (Inl NotFound, s))"

definition write_status :: "Jellyfin \<Rightarrow> (objects, unit) op" where
  "write_status x s = (case memory_view s (jellyfin_key x) of
     Some (OJellyfin cur) \<Rightarrow> (Inr (), if jf_status cur = jf_status x then s
                                      else s(jellyfin_key x \<mapsto> OJellyfin (cur\<lparr>jf_status := jf_status x\<rparr>)))
   | _ \<Rightarrow> (Inl NotFound, s))"

definition plugin_key :: "JellyfinPlugin \<Rightarrow> key" where
  "plugin_key p = (KPlugin, jp_namespace p, jp_name p)"

definition update_plugin :: "JellyfinPlugin \<Rightarrow> (objects, JellyfinPlugin) op" where
  "update_plugin x s = (case memory_view s (plugin_key x) of
     Some (OPlugin cur) \<Rightarrow> (Inr (x\<lparr>jp_status := jp_status cur\<rparr>), s(plugin_key x \<mapsto> OPlugin (x\<lparr>jp_status := jp_status cur\<rparr>)))
   | _ \<Rightarrow> (Inl NotFound, s))"

definition write_plugin_status :: "JellyfinPlugin \<Rightarrow> (objects, unit) op" where
  "write_plugin_status x s = (case memory_view s (plugin_key x) of
     Some (OPlugin cur) \<Rightarrow> (Inr (), if jp_status cur = jp_status x then s
                                    else s(plugin_key x \<mapsto> OPlugin (cur\<lparr>jp_status := jp_status x\<rparr>)))
   | _ \<Rightarrow> (Inl NotFound, s))"

definition list_named :: "kind \<Rightarrow> (obj \<Rightarrow> 'o) \<Rightarrow> string list \<Rightarrow> string \<Rightarrow> labels \<Rightarrow> (objects, 'o list) op" where
  "list_named kd un names ns ls s = (Inr (List.map_filter (\<lambda>n. map_option un (memory_view s (kd, ns, n))) names), s)"

text \<open>Deployments are selected by their labels, and by the name that they carry.\<close>

definition listed_deployment :: "string list \<Rightarrow> string \<Rightarrow> labels \<Rightarrow> LiveDeployment \<Rightarrow> bool" where
  "listed_deployment names ns ls d \<longleftrightarrow> d_namespace d = ns \<and> d_name d \<in> set names \<and> sub_labels ls (d_labels d)"

definition list_deployments :: "string list \<Rightarrow> string \<Rightarrow> labels \<Rightarrow> (objects, LiveDeployment list) op" where
  "list_deployments names ns ls s = (Inr (filter (listed_deployment names ns ls) (List.map_filter (\<lambda>n. case memory_view s (KDeployment, ns, n) of
     Some (ODeployment d) \<Rightarrow> if d_name d = n then Some d else None | _ \<Rightarrow> None) names)), s)"

definition memory_cluster :: "string list \<Rightarrow> objects cluster" where
  "memory_cluster names = empty_cluster
     \<lparr>k_deployments := (memory_store ODeployment the_deployment KDeployment (\<lambda>ns n. stored_deployment) new_deployment)
        \<lparr>raw_list := list_deployments names\<rparr>,
      k_services := memory_store OService the_service KService (\<lambda>ns n x. x) new_service,
      k_routes := memory_store ORoute the_route KRoute (\<lambda>ns n x. x) new_route,
      k_claims := (memory_store OClaim the_claim KClaim stored_claim_at new_claim)\<lparr>raw_patch := patch_claim\<rparr>,
      k_volumes := memory_store OVolume the_volume KVolume (\<lambda>ns n x. x) (\<lambda>ns. new_volume),
      k_ingresses := memory_store OIngress the_ingress KIngress (\<lambda>ns n x. x) new_ingress,
      k_jellyfins := (memory_store OJellyfin the_jellyfin KJellyfin stored_jellyfin_at (\<lambda>ns n. sample_jf))
        \<lparr>raw_list := list_named KJellyfin the_jellyfin names, raw_updateStatus := write_status\<rparr>,
      k_plugins := (memory_store OPlugin the_plugin KPlugin stored_plugin_at (\<lambda>ns n. sample_plugin n))
        \<lparr>raw_list := list_named KPlugin the_plugin names, raw_update := update_plugin,
         raw_updateStatus := write_plugin_status\<rparr>,
      SetStatusCondition := (\<lambda>cs c. if find (\<lambda>d. cond_type d = cond_type c) cs = Some c then cs
                                   else c # filter (\<lambda>d. cond_type d \<noteq> cond_type c) cs)\<rparr>"

lemma kinds_of:
  "kind_of ob = KDeployment \<Longrightarrow> \<exists>x. ob = ODeployment x" "kind_of ob = KService \<Longrightarrow> \<exists>x. ob = OService x"
  "kind_of ob = KRoute \<Longrightarrow> \<exists>x. ob = ORoute x" "kind_of ob = KClaim \<Longrightarrow> \<exists>x. ob = OClaim x"
  "kind_of ob = KVolume \<Longrightarrow> \<exists>x. ob = OVolume x" "kind_of ob = KIngress \<Longrightarrow> \<exists>x. ob = OIngress x"
  "kind_of ob = KJellyfin \<Longrightarrow> \<exists>x. ob = OJellyfin x" "kind_of ob = KPlugin \<Longrightarrow> \<exists>x. ob = OPlugin x"
  by (cases ob; simp)+

lemma memory_stores:
  "object_store memory_view ODeployment KDeployment (\<lambda>ns n. stored_deployment) (k_deployments (memory_cluster names))"
  "object_store memory_view OService KService (\<lambda>ns n x. x) (k_services (memory_cluster names))"
  "object_store memory_view ORoute KRoute (\<lambda>ns n x. x) (k_routes (memory_cluster names))"
  "object_store memory_view OClaim KClaim stored_claim_at (k_claims (memory_cluster names))"
  "object_store memory_view OVolume KVolume (\<lambda>ns n x. x) (k_volumes (memory_cluster names))"
  "object_store memory_view OIngress KIngress (\<lambda>ns n x. x) (k_ingresses (memory_cluster names))"
  "object_store memory_view OJellyfin KJellyfin stored_jellyfin_at (k_jellyfins (memory_cluster names))"
  "object_store memory_view OPlugin KPlugin stored_plugin_at (k_plugins (memory_cluster names))"
proof -
  show "object_store memory_view ODeployment KDeployment (\<lambda>ns n. stored_deployment) (k_deployments (memory_cluster names))"
    by (rule memory_object_store [where un = the_deployment and blank = new_deployment])
      (simp_all add: memory_cluster_def kinds_of stored_deployment_def memory_store_def)
  show "object_store memory_view OService KService (\<lambda>ns n x. x) (k_services (memory_cluster names))"
    by (rule memory_object_store [where un = the_service and blank = new_service]) (simp_all add: memory_cluster_def kinds_of)
  show "object_store memory_view ORoute KRoute (\<lambda>ns n x. x) (k_routes (memory_cluster names))"
    by (rule memory_object_store [where un = the_route and blank = new_route]) (simp_all add: memory_cluster_def kinds_of)
  show "object_store memory_view OClaim KClaim stored_claim_at (k_claims (memory_cluster names))"
    by (rule memory_object_store [where un = the_claim and blank = new_claim])
      (simp_all add: memory_cluster_def kinds_of stored_claim_at_def memory_store_def)
  show "object_store memory_view OVolume KVolume (\<lambda>ns n x. x) (k_volumes (memory_cluster names))"
    by (rule memory_object_store [where un = the_volume and blank = "\<lambda>ns. new_volume"]) (simp_all add: memory_cluster_def kinds_of)
  show "object_store memory_view OIngress KIngress (\<lambda>ns n x. x) (k_ingresses (memory_cluster names))"
    by (rule memory_object_store [where un = the_ingress and blank = new_ingress]) (simp_all add: memory_cluster_def kinds_of)
  show "object_store memory_view OJellyfin KJellyfin stored_jellyfin_at (k_jellyfins (memory_cluster names))"
    by (rule memory_object_store [where un = the_jellyfin and blank = "\<lambda>ns n. sample_jf"])
      (simp_all add: memory_cluster_def kinds_of stored_jellyfin_at_def memory_store_def)
  show "object_store memory_view OPlugin KPlugin stored_plugin_at (k_plugins (memory_cluster names))"
    by (rule memory_object_store [where un = the_plugin and blank = "\<lambda>ns n. sample_plugin n"])
      (simp_all add: memory_cluster_def kinds_of stored_plugin_at_def memory_store_def)
qed

lemma memory_view_other: "key' \<noteq> key \<Longrightarrow> memory_view (s(key := x)) key' = memory_view s key'"
  by (simp add: memory_view_def split: prod.split)

text \<open>What the map shows under a key knows the key.\<close>

lemma memory_claim_keyed: "memory_view s (KClaim, ns, n) = Some (OClaim c) \<Longrightarrow> stored_claim_at ns n c = c"
  using object_store.kinds [OF memory_stores(4)] by fastforce

lemma memory_jellyfin_keyed: "memory_view s (KJellyfin, ns, n) = Some (OJellyfin jf) \<Longrightarrow> stored_jellyfin_at ns n jf = jf"
  using object_store.kinds [OF memory_stores(7)] by fastforce

lemma memory_put_claim: "stored_claim_at ns n c = c \<Longrightarrow> memory_view (s((KClaim, ns, n) \<mapsto> OClaim c)) (KClaim, ns, n) = Some (OClaim c)"
  by (simp add: memory_view_def)

lemma memory_put_jellyfin:
  "stored_jellyfin_at ns n jf = jf \<Longrightarrow> memory_view (s((KJellyfin, ns, n) \<mapsto> OJellyfin jf)) (KJellyfin, ns, n) = Some (OJellyfin jf)"
  by (simp add: memory_view_def)

lemma stored_claim_requests:
  "stored_claim_at ns n c = c \<Longrightarrow> stored_claim_at ns n (c\<lparr>claim_requests := q\<rparr>) = c\<lparr>claim_requests := q\<rparr>"
  by (cases c) (simp add: stored_claim_at_def)

lemma stored_jellyfin_status:
  "stored_jellyfin_at ns n jf = jf \<Longrightarrow> stored_jellyfin_at ns n (jf\<lparr>jf_status := st\<rparr>) = jf\<lparr>jf_status := st\<rparr>"
  by (cases jf) (simp add: stored_jellyfin_at_def)

lemma memory_conditions:
  "conditions_work (memory_cluster names)"
  "FindStatusCondition (memory_cluster names) cs (cond_type c) = Some c \<Longrightarrow> SetStatusCondition (memory_cluster names) cs c = cs"
proof -
  have "find (\<lambda>c. cond_type c = t) (filter (\<lambda>d. cond_type d \<noteq> u) cs)
      = (if t = u then None else find (\<lambda>c. cond_type c = t) cs)" for t u and cs :: "Condition list"
    by (induction cs) auto
  then show "conditions_work (memory_cluster names)"
    by (auto simp: conditions_work_def memory_cluster_def empty_cluster_def)
  show "FindStatusCondition (memory_cluster names) cs (cond_type c) = Some c \<Longrightarrow>
      SetStatusCondition (memory_cluster names) cs c = cs"
    by (simp add: memory_cluster_def empty_cluster_def)
qed

interpretation memory: api_server "memory_cluster names" memory_view for names
proof (intro api_server.intro memory_stores owner_refs.intro api_server_axioms.intro, goal_cases)
  case 1 then show ?case by (auto simp: memory_cluster_def empty_cluster_def split: if_splits)
next
  case 2 show ?case by (simp add: memory_cluster_def list_named_def)
next
  case 3 then show ?case by (simp add: memory_cluster_def list_named_def)
next
  case 4 then show ?case
    by (auto simp: memory_cluster_def patch_claim_def claim_key_def memory_view_other split: option.splits obj.splits)
next
  case 5 then show ?case
    by (auto simp: memory_cluster_def patch_claim_def claim_key_def memory_put_claim stored_claim_requests
        dest!: memory_claim_keyed split: option.splits obj.splits)
next
  case 6 then show ?case
    by (auto simp: memory_cluster_def patch_claim_def split: option.splits obj.splits)
next
  case 7 then show ?case
    by (auto simp: memory_cluster_def write_status_def split: option.splits obj.splits)
next
  case (8 x s s' cur)
  let ?key = "(KJellyfin, jf_namespace x, jf_name x)" and ?new = "cur\<lparr>jf_status := jf_status x\<rparr>"
  from 8 have s': "s' = (if jf_status cur = jf_status x then s else s(?key \<mapsto> OJellyfin ?new))"
    by (auto simp: memory_cluster_def write_status_def jellyfin_key_def)
  note keyed = stored_jellyfin_status [OF memory_jellyfin_keyed [OF 8 (2)], of "jf_status x"]
  show ?case
  proof
    fix key
    have "?new = cur" if "jf_status cur = jf_status x" using that by (cases cur) simp
    with 8 (2) show "memory_view s' key = ((memory_view s)(?key \<mapsto> OJellyfin ?new)) key"
      by (cases "key = ?key") (simp_all add: s' memory_view_other memory_put_jellyfin [OF keyed])
  qed
next
  case 9 then show ?case by (simp add: memory_cluster_def write_status_def jellyfin_key_def)
next
  case 10 show ?case by (auto simp: retry_works_def memory_cluster_def empty_cluster_def)
next
  case 11 show ?case by (rule memory_conditions(1))
next
  case 12 then show ?case by (rule memory_conditions(2))
qed

end
