(* ===== verification/Steady_Stages.thy ===== *)
theory Steady_Stages
  imports Api_Server
begin

text \<open>
  A reconcile of an instance whose cluster is as the last one left it writes nothing. For each stage of the
  instance reconciler there is a description of the stored objects that the stage is satisfied with: a
  successful run of the stage establishes it, the other stages keep it because they write elsewhere, and a
  run of the stage on such objects changes nothing.
\<close>

section \<open>What runs establish, keep and write\<close>

text \<open>A patch that the server has refused leaves a claim smaller than asked for; the reconciler carries on.\<close>

fun unrefused :: "event \<Rightarrow> bool" where
  "unrefused (Patched new base good) = good"
| "unrefused e = True"

definition achieves :: "('e \<Rightarrow> objects) \<Rightarrow> ('e, 'a) act \<Rightarrow> (objects \<Rightarrow> bool) \<Rightarrow> bool" where
  "achieves view m D \<longleftrightarrow> (\<forall>s. post m s (\<lambda>r es s'. is_ok r \<longrightarrow> list_all unrefused es \<longrightarrow> D (view s')))"

definition preserves :: "('e \<Rightarrow> objects) \<Rightarrow> ('e, 'a) act \<Rightarrow> (objects \<Rightarrow> bool) \<Rightarrow> bool" where
  "preserves view m D \<longleftrightarrow> (\<forall>s. D (view s) \<longrightarrow> post m s (\<lambda>r es s'. D (view s')))"

definition writes_in :: "('e \<Rightarrow> objects) \<Rightarrow> key set \<Rightarrow> ('e, 'a) act \<Rightarrow> bool" where
  "writes_in view K m \<longleftrightarrow> (\<forall>s. post m s (\<lambda>r es s'. \<forall>key. key \<notin> K \<longrightarrow> view s' key = view s key))"

definition reads_in :: "key set \<Rightarrow> (objects \<Rightarrow> bool) \<Rightarrow> bool" where
  "reads_in L D \<longleftrightarrow> (\<forall>v v'. (\<forall>key \<in> L. v' key = v key) \<longrightarrow> D v \<longrightarrow> D v')"

text \<open>A run that succeeds and changes nothing at all.\<close>

definition still :: "('e, unit) act \<Rightarrow> 'e \<Rightarrow> bool" where
  "still m s \<longleftrightarrow> result (m s) = Inr () \<and> final (m s) = s"

lemma final_bind:
  "final (bind_io m f s) = (case result (m s) of Inl e \<Rightarrow> final (m s) | Inr a \<Rightarrow> final (f a (final (m s))))"
  by (auto simp: bind_io_def split: prod.split sum.split)

lemma run_wrapping:
  "final (wrapping f m s) = final (m s)" "events (wrapping f m s) = events (m s)"
  "is_ok (result (wrapping f m s)) = is_ok (result (m s))"
  by (simp_all add: wrapping_def split_beta)

lemma achieves_bind:
  assumes "achieves view m D" and "\<And>a. achieves view (f a) D'" and "\<And>a. preserves view (f a) D"
  shows "achieves view (bind_io m f) (\<lambda>v. D v \<and> D' v)"
  unfolding achieves_def
proof
  fix s
  have first: "post m s (\<lambda>r es s'. is_ok r \<longrightarrow> list_all unrefused es \<longrightarrow> D (view s'))" using assms(1) by (simp add: achieves_def)
  show "post (bind_io m f) s (\<lambda>r es s'. is_ok r \<longrightarrow> list_all unrefused es \<longrightarrow> D (view s') \<and> D' (view s'))"
  proof (rule post_bindI [OF first])
    fix a :: 'b and es and s' :: 'a
    assume a: "is_ok (Inr a :: go_error + 'b) \<longrightarrow> list_all unrefused es \<longrightarrow> D (view s')"
    have "post (f a) s' (\<lambda>r es s'. is_ok r \<longrightarrow> list_all unrefused es \<longrightarrow> D' (view s'))"
      using assms(2) by (simp add: achieves_def)
    moreover have "post (f a) s' (\<lambda>r es' s''. list_all unrefused es \<longrightarrow> D (view s''))"
      using a assms(3) [of a] by (cases "list_all unrefused es") (simp_all add: preserves_def post_iff)
    ultimately show "post (f a) s' (\<lambda>r es' s''. is_ok r \<longrightarrow> list_all unrefused (es @ es') \<longrightarrow> D (view s'') \<and> D' (view s''))"
      by (auto simp: post_iff)
  qed simp
qed

lemma achieves_after:
  assumes "\<And>a. achieves view (f a) D"
  shows "achieves view (bind_io m f) D"
proof -
  have "achieves view m (\<lambda>v. True)" by (simp add: achieves_def post_iff)
  from achieves_bind [OF this assms] show ?thesis by (simp add: preserves_def post_iff)
qed

lemma achieves_wrapping: "achieves view m D \<Longrightarrow> achieves view (wrapping f m) D"
  by (simp add: achieves_def post_iff run_wrapping)

lemma achieves_True: "achieves view m (\<lambda>v. True)"
  by (simp add: achieves_def post_iff)

lemma achieves_each:
  assumes "\<And>x. x \<in> set xs \<Longrightarrow> achieves view (f x) (D x)" and "\<And>x y. x \<in> set xs \<Longrightarrow> y \<in> set xs \<Longrightarrow> preserves view (f y) (D x)"
  shows "achieves view (each f xs) (\<lambda>v. \<forall>x \<in> set xs. D x v)"
  using assms
proof (induction xs)
  case (Cons x xs)
  have "preserves view (each f ys) (D x)" if "set ys \<subseteq> set (x # xs)" for ys
    using that
  proof (induction ys)
    case (Cons y ys)
    then have "preserves view (f y) (D x)" "preserves view (each f ys) (D x)" using Cons.prems(1) Cons.IH \<open>\<And>x' y. x' \<in> set (x # xs) \<Longrightarrow> y \<in> set (x # xs) \<Longrightarrow> preserves view (f y) (D x')\<close> by auto
    then show ?case by (auto simp: preserves_def post_iff final_bind split: sum.split)
  qed (simp add: preserves_def post_ret)
  then have "achieves view (each f (x # xs)) (\<lambda>v. D x v \<and> (\<forall>y \<in> set xs. D y v))"
    unfolding each.simps using Cons.prems by (intro achieves_bind Cons.IH) auto
  then show ?case by simp
qed (simp add: achieves_True)

lemma preserves_frame: "writes_in view K m \<Longrightarrow> reads_in L D \<Longrightarrow> L \<inter> K = {} \<Longrightarrow> preserves view m D"
  unfolding writes_in_def reads_in_def preserves_def post_iff by (metis disjoint_iff)

lemma preserves_bind: "preserves view m D \<Longrightarrow> (\<And>a. preserves view (f a) D) \<Longrightarrow> preserves view (bind_io m f) D"
  by (auto simp: preserves_def post_iff final_bind split: sum.split)

lemma preserves_conj: "preserves view m D \<Longrightarrow> preserves view m D' \<Longrightarrow> preserves view m (\<lambda>v. D v \<and> D' v)"
  by (auto simp: preserves_def post_iff)

lemma preserves_ready: "preserves view m (\<lambda>v. True)"
  by (simp add: preserves_def post_iff)

lemma preserves_cond: "(P \<Longrightarrow> preserves view m D) \<Longrightarrow> preserves view m (\<lambda>v. P \<longrightarrow> D v)"
  by (cases P) (simp_all add: preserves_ready)

lemma preserves_wrapping: "preserves view m D \<Longrightarrow> preserves view (wrapping f m) D"
  by (simp add: preserves_def post_iff run_wrapping)

lemma reads_in_conj: "reads_in L D \<Longrightarrow> reads_in L D' \<Longrightarrow> reads_in L (\<lambda>v. D v \<and> D' v)"
  by (auto simp: reads_in_def)

text \<open>One rule per construct for where a computation writes.\<close>

named_theorems writes_intros \<open>where a computation writes\<close>

lemma writes_simple [writes_intros]:
  "writes_in view K (ret a)" "writes_in view K (raise e)" "writes_in view K (lift r)"
  by (simp_all add: writes_in_def post_simps)

lemma writes_bind [writes_intros]: "writes_in view K m \<Longrightarrow> (\<And>a. writes_in view K (f a)) \<Longrightarrow> writes_in view K (bind_io m f)"
  by (auto simp: writes_in_def post_iff final_bind split: sum.split)

lemma writes_attempt [writes_intros]: "writes_in view K m \<Longrightarrow> writes_in view K (attempt m)"
  by (simp add: writes_in_def post_attempt)

lemma writes_wrapping [writes_intros]: "writes_in view K m \<Longrightarrow> writes_in view K (wrapping f m)"
  by (simp add: writes_in_def post_wrapping)

lemma writes_if [writes_intros]: "(b \<Longrightarrow> writes_in view K m) \<Longrightarrow> (\<not> b \<Longrightarrow> writes_in view K n) \<Longrightarrow> writes_in view K (if b then m else n)"
  by simp

lemma writes_option [writes_intros]:
  "(x = None \<Longrightarrow> writes_in view K m) \<Longrightarrow> (\<And>y. x = Some y \<Longrightarrow> writes_in view K (f y))
   \<Longrightarrow> writes_in view K (case x of None \<Rightarrow> m | Some y \<Rightarrow> f y)"
  by (simp split: option.split)

lemma writes_sum [writes_intros]:
  "(\<And>e. x = Inl e \<Longrightarrow> writes_in view K (f e)) \<Longrightarrow> (\<And>y. x = Inr y \<Longrightarrow> writes_in view K (g y))
   \<Longrightarrow> writes_in view K (case x of Inl e \<Rightarrow> f e | Inr y \<Rightarrow> g y)"
  by (simp split: sum.split)

lemma writes_each [writes_intros]: "(\<And>x. x \<in> set xs \<Longrightarrow> writes_in view K (f x)) \<Longrightarrow> writes_in view K (each f xs)"
  by (induction xs) (auto intro: writes_intros)

text \<open>Runs that change nothing.\<close>

named_theorems still_intros \<open>runs that change nothing\<close>

lemma still_ret [still_intros]: "still (ret ()) s"
  by (simp add: still_def ret_def)

lemma still_bind [still_intros]: "still m s \<Longrightarrow> still (f ()) s \<Longrightarrow> still (bind_io m f) s"
  by (auto simp: still_def bind_io_def split: prod.splits sum.splits)

lemma still_wrapping [still_intros]: "still m s \<Longrightarrow> still (wrapping f m) s"
  by (auto simp: still_def wrapping_def split_beta)

lemma still_each [still_intros]: "(\<And>x. x \<in> set xs \<Longrightarrow> still (f x) s) \<Longrightarrow> still (each f xs) s"
  by (induction xs) (auto intro: still_intros)

text \<open>A call that answers and changes nothing can be left out.\<close>

lemma still_answered: "m s = (Inr a, es, s) \<Longrightarrow> still (f a) s \<Longrightarrow> still (bind_io m f) s"
  by (auto simp: still_def bind_io_def split: prod.splits)

section \<open>Upserts and deletions\<close>

text \<open>The object under a key is one that the function given to \<open>CreateOrUpdate\<close> leaves alone; or there is none.\<close>

definition has_fixed :: "('o \<Rightarrow> obj) \<Rightarrow> key \<Rightarrow> ('o \<Rightarrow> go_error + 'o) \<Rightarrow> objects \<Rightarrow> bool" where
  "has_fixed mk key f v \<longleftrightarrow> (\<exists>x. v key = Some (mk x) \<and> f x = Inr x)"

definition has_none :: "key \<Rightarrow> objects \<Rightarrow> bool" where
  "has_none key v \<longleftrightarrow> v key = None"

lemma reads_fixed: "key \<in> L \<Longrightarrow> reads_in L (has_fixed mk key f)"
  by (simp add: reads_in_def has_fixed_def)

lemma reads_none: "key \<in> L \<Longrightarrow> reads_in L (has_none key)"
  by (simp add: reads_in_def has_none_def)

context object_store begin

lemma upsert_achieves:
  assumes "\<And>x y. f x = Inr y \<Longrightarrow> f (kept ns n y) = Inr (kept ns n y)"
  shows "achieves view (CreateOrUpdate mk kd st ns n f) (has_fixed mk (kd, ns, n) f)"
  unfolding achieves_def CreateOrUpdate_def post_call
proof
  fix s
  obtain r s' where run: "raw_upsert st ns n f s = (r, s')" by fastforce
  have "has_fixed mk (kd, ns, n) f (view s')" if "r = Inr y" for y
    using run that upsert_stores [of ns n f s y s'] assms by (auto simp: has_fixed_def)
  then show "case raw_upsert st ns n f s of (r, s') \<Rightarrow> is_ok r \<longrightarrow> list_all unrefused [Upserted kd ns n (map_ok mk r)]
      \<longrightarrow> has_fixed mk (kd, ns, n) f (view s')"
    using run by (auto simp: is_ok_iff)
qed

lemma upsert_answers:
  assumes "has_fixed mk (kd, ns, n) f (view s)"
  shows "\<exists>x es. CreateOrUpdate mk kd st ns n f s = (Inr x, es, s) \<and> view s (kd, ns, n) = Some (mk x) \<and> f x = Inr x"
  using assms upsert_same by (auto simp: has_fixed_def CreateOrUpdate_def call_def)

lemma upsert_still: "has_fixed mk (kd, ns, n) f (view s) \<Longrightarrow> still (bind_io (CreateOrUpdate mk kd st ns n f) (\<lambda>x. ret ())) s"
  using upsert_answers still_answered still_ret by metis

lemma upsert_writes: "(kd, ns, n) \<in> K \<Longrightarrow> writes_in view K (CreateOrUpdate mk' kd' st ns n f)"
  unfolding writes_in_def CreateOrUpdate_def post_call using upsert_elsewhere by (fastforce split: prod.split)

lemma delete_achieves: "achieves view (DeleteIfExists kd' st ns n) (has_none (kd, ns, n))"
  unfolding achieves_def DeleteIfExists_def Delete_def post_simps
  using delete_removes delete_NotFound
  by (auto simp: IgnoreNotFound_def has_none_def is_ok_iff post_simps split: prod.split sum.split)

lemma delete_still: "has_none (kd, ns, n) (view s) \<Longrightarrow> still (DeleteIfExists kd' st ns n) s"
  using delete_missing
  by (simp add: still_def has_none_def DeleteIfExists_def Delete_def bind_io_def attempt_def call_def lift_def IgnoreNotFound_def)

lemma delete_writes: "(kd, ns, n) \<in> K \<Longrightarrow> writes_in view K (DeleteIfExists kd' st ns n)"
  unfolding DeleteIfExists_def Delete_def
  by (intro writes_intros) (use delete_elsewhere in \<open>fastforce simp: writes_in_def post_call split: prod.split\<close>)

lemma get_answers: "\<exists>r es. Get mk kd st ns n s = (r, es, s) \<and> (case view s (kd, ns, n) of
    None \<Rightarrow> r = Inl NotFound | Some ob \<Rightarrow> (\<exists>x. ob = mk x \<and> r = Inr x))"
proof (cases "view s (kd, ns, n)")
  case None
  then show ?thesis using get_missing by (auto simp: Get_def call_def)
next
  case (Some ob)
  then obtain x where "ob = mk x" using kinds by blast
  with Some show ?thesis using get_stored by (auto simp: Get_def call_def)
qed

lemma get_writes: "writes_in view K (Get mk kd st ns n)"
  unfolding writes_in_def post_iff using get_answers by (metis snd_conv)

end

section \<open>Claims\<close>

abbreviation claim_keys :: "key set" where "claim_keys \<equiv> {key. fst key = KClaim}"
abbreviation volume_keys :: "key set" where "volume_keys \<equiv> {key. fst key = KVolume}"

definition settled_claim :: "'e cluster \<Rightarrow> Jellyfin \<Rightarrow> PersistentVolumeClaim \<Rightarrow> bool" where
  "settled_claim k jf c \<longleftrightarrow> claim_labels c = InstanceLabels jf
     \<and> SetControllerReference k (instance_owner jf) (claim_owners c) = Inr (claim_owners c)"

definition large_enough :: "quantity option \<Rightarrow> PersistentVolumeClaim \<Rightarrow> bool" where
  "large_enough asked c \<longleftrightarrow> (case asked of None \<Rightarrow> True
     | Some a \<Rightarrow> claim_phase c \<noteq> ClaimBound \<or> (\<exists>q. request c = Some q \<and> a \<le> q))"

definition claim_ready :: "'e cluster \<Rightarrow> Jellyfin \<Rightarrow> string \<Rightarrow> quantity option \<Rightarrow> objects \<Rightarrow> bool" where
  "claim_ready k jf n asked v \<longleftrightarrow> (\<exists>c. v (KClaim, jf_namespace jf, n) = Some (OClaim c) \<and> settled_claim k jf c \<and> large_enough asked c)"

lemma reads_claim: "(KClaim, jf_namespace jf, n) \<in> L \<Longrightarrow> reads_in L (claim_ready k jf n asked)"
  by (simp add: reads_in_def claim_ready_def)

lemma claim_mutate_settled:
  assumes "claim_created c" "settled_claim k jf c"
  shows "claim_mutate k jf spec modes asked c = Inr c" "nfs_claim_mutate k jf nfs pvName c = Inr c"
  using assms by (cases c; simp add: settled_claim_def claim_mutate_def nfs_claim_mutate_def Let_def)+

context api_server begin

lemma claim_mutate_settles:
  "claim_mutate k jf spec modes asked x = Inr z \<Longrightarrow> settled_claim k jf (stored_claim_at ns n z)"
  "nfs_claim_mutate k jf nfs pvName x = Inr z \<Longrightarrow> settled_claim k jf (stored_claim_at ns n z)"
  by (auto simp: settled_claim_def claim_mutate_def nfs_claim_mutate_def stored_claim_at_def Let_def again)

text \<open>The key of a stored claim, and that it has been created.\<close>

lemma stored_claim_key:
  assumes "view s (KClaim, ns, n) = Some (OClaim c)"
  shows "claim_namespace c = ns" "claim_name c = n" "claim_created c"
proof -
  have "stored_claim_at ns n c = c" using claims.kinds [OF assms] by auto
  then show "claim_namespace c = ns" "claim_name c = n" "claim_created c"
    by (cases c; simp add: stored_claim_at_def)+
qed

text \<open>Growing a claim that is settled.\<close>

lemma patch_writes: "claim_key base \<in> K \<Longrightarrow> writes_in view K (Patch mk (k_claims k) new base)"
  unfolding writes_in_def
proof
  fix s
  assume K: "claim_key base \<in> K"
  obtain r s' where run: "raw_patch (k_claims k) new base s = (r, s')" by fastforce
  have "view s' key = view s key" if "key \<notin> K" for key
    by (rule patch_elsewhere [OF run]) (use K that in \<open>auto simp: claim_key_def\<close>)
  then show "post (Patch mk (k_claims k) new base) s (\<lambda>r es s'. \<forall>key. key \<notin> K \<longrightarrow> view s' key = view s key)"
    by (simp add: Patch_def post_call run)
qed

text \<open>What a patch of the request does to a claim that is too small.\<close>

lemma growPVC_small:
  assumes "\<not> large_enough (Some asked) c"
  shows "growPVC k c asked = bind_io (attempt (Patch OClaim (k_claims k) (c\<lparr>claim_requests := map_put ResourceStorage asked (claim_requests c)\<rparr>) c))
    (\<lambda>r. case r of Inl e \<Rightarrow> if e = Forbidden \<or> e = Invalid then ret () else raise e | Inr u \<Rightarrow> ret ())"
proof -
  have bound: "claim_phase c = ClaimBound" and small: "\<And>q. request c = Some q \<Longrightarrow> q < asked"
    using assms by (auto simp: large_enough_def not_le)
  show ?thesis
  proof (cases "request c")
    case (Some q)
    with small [of q] bound show ?thesis by (simp add: growPVC_def Let_def cong: sum.case_cong)
  qed (simp add: growPVC_def Let_def bound cong: sum.case_cong)
qed

lemma grown_large_enough:
  assumes "\<not> large_enough (Some asked) c" and "large_enough a c"
  shows "large_enough a (c\<lparr>claim_requests := map_put ResourceStorage asked (claim_requests c)\<rparr>)"
proof (cases a)
  case (Some b)
  have small: "\<And>q. request c = Some q \<Longrightarrow> q < asked" using assms(1) by (auto simp: large_enough_def not_le)
  from assms Some obtain q where "request c = Some q" "b \<le> q" by (auto simp: large_enough_def)
  with small [of q] Some show ?thesis by (simp add: large_enough_def)
qed (simp add: large_enough_def)

lemma patched_claim:
  assumes "view s (KClaim, ns, n) = Some (OClaim c)" and "raw_patch (k_claims k) new c s = (Inr (), s')"
  shows "view s' = (view s)((KClaim, ns, n) \<mapsto> OClaim (c\<lparr>claim_requests := claim_requests new\<rparr>))"
proof
  fix x
  show "view s' x = ((view s)((KClaim, ns, n) \<mapsto> OClaim (c\<lparr>claim_requests := claim_requests new\<rparr>))) x"
    using patch_merges [OF assms(2), of c] patch_elsewhere [OF assms(2), of x] assms(1) stored_claim_key [OF assms(1)]
    by (cases "x = (KClaim, ns, n)") simp_all
qed

lemma growPVC_post:
  assumes stored: "view s (KClaim, ns, n) = Some (OClaim c)" and settled: "settled_claim k jf c" and ns: "ns = jf_namespace jf"
  shows "post (growPVC k c asked) s (\<lambda>r es s'. \<exists>c'. view s' = (view s)((KClaim, ns, n) \<mapsto> OClaim c') \<and> settled_claim k jf c'
    \<and> (\<forall>a. large_enough a c \<longrightarrow> large_enough a c') \<and> (is_ok r \<longrightarrow> list_all unrefused es \<longrightarrow> large_enough (Some asked) c'))"
    (is "post _ s ?Q")
proof (cases "large_enough (Some asked) c")
  case True
  then have "growPVC k c asked = ret ()"
    by (auto simp: growPVC_def large_enough_def Let_def split: option.splits)
  moreover have "view s = (view s)((KClaim, ns, n) \<mapsto> OClaim c)" using stored by auto
  then have "?Q (Inr ()) [] s" by (intro exI [of _ c] conjI allI impI settled True)
  ultimately show ?thesis by (simp only: post_ret)
next
  case False
  let ?new = "c\<lparr>claim_requests := map_put ResourceStorage asked (claim_requests c)\<rparr>"
  note grow = growPVC_small [OF False]
  obtain r s' where run: "raw_patch (k_claims k) ?new c s = (r, s')" by fastforce
  have patched: "view s' = (view s)((KClaim, ns, n) \<mapsto> OClaim ?new)" if "r = Inr ()"
    using patched_claim [OF stored, of ?new s'] run that by simp
  have new: "settled_claim k jf ?new" "large_enough (Some asked) ?new" using settled by (simp_all add: settled_claim_def large_enough_def)
  have good: "?Q (Inr ()) es s'" if "r = Inr ()" for es
    by (intro exI [of _ ?new] conjI allI impI patched [OF that] new grown_large_enough [OF False])
  have bad: "?Q q [Patched (OClaim ?new) (OClaim c) False] s'" if "r = Inl e" for q e
  proof (intro exI [of _ c] conjI)
    show "view s' = (view s)((KClaim, ns, n) \<mapsto> OClaim c)" using patch_failed [of ?new c s e s'] run that stored by auto
  qed (simp_all add: settled)
  show ?thesis
  proof (cases r)
    case (Inl e)
    have "post (if e = Forbidden \<or> e = Invalid then ret () else raise e) s'
        (\<lambda>r es s''. ?Q r ([Patched (OClaim ?new) (OClaim c) False] @ es) s'')"
      by (cases "e = Forbidden \<or> e = Invalid") (simp_all only: if_True if_False post_ret post_raise append_Nil2 bad [OF Inl])
    then show ?thesis unfolding grow Patch_def post_bind post_attempt post_call run by (simp only: Inl sum.case prod.case is_ok.simps)
  next
    case (Inr u)
    have "post (ret ()) s' (\<lambda>r es s''. ?Q r ([Patched (OClaim ?new) (OClaim c) True] @ es) s'')"
      unfolding post_ret append_Nil2 by (rule good) (simp add: Inr)
    then show ?thesis unfolding grow Patch_def post_bind post_attempt post_call run by (simp only: Inr sum.case prod.case is_ok.simps)
  qed
qed

lemma upsert_claim_post:
  assumes f: "\<And>x z. f x = Inr z \<Longrightarrow> settled_claim k jf (stored_claim_at (jf_namespace jf) n z)"
    and same: "\<And>c. claim_created c \<Longrightarrow> settled_claim k jf c \<Longrightarrow> f c = Inr c"
  shows "post (CreateOrUpdate OClaim KClaim (k_claims k) (jf_namespace jf) n f) s (\<lambda>r es s'. list_all unrefused es \<and> (case r of
      Inl e \<Rightarrow> True
    | Inr y \<Rightarrow> view s' (KClaim, jf_namespace jf, n) = Some (OClaim y) \<and> settled_claim k jf y)
    \<and> (\<forall>key. key \<noteq> (KClaim, jf_namespace jf, n) \<longrightarrow> view s' key = view s key)
    \<and> (\<forall>a. claim_ready k jf n a (view s) \<longrightarrow> s' = s \<and> is_ok r))"
proof -
  obtain r s' where run: "raw_upsert (k_claims k) (jf_namespace jf) n f s = (r, s')" by fastforce
  have stores: "view s' (KClaim, jf_namespace jf, n) = Some (OClaim y) \<and> settled_claim k jf y" if "r = Inr y" for y
    using claims.upsert_stores run that f by blast
  have "s' = s \<and> is_ok r" if ready: "claim_ready k jf n a (view s)" for a
  proof -
    obtain c where c: "view s (KClaim, jf_namespace jf, n) = Some (OClaim c)" "settled_claim k jf c"
      using ready by (auto simp: claim_ready_def)
    have "f c = Inr c" by (rule same [OF stored_claim_key(3) [OF c(1)] c(2)])
    with c(1) have "raw_upsert (k_claims k) (jf_namespace jf) n f s = (Inr c, s)" by (rule claims.upsert_same)
    with run show ?thesis by auto
  qed
  moreover note claims.upsert_elsewhere [OF run]
  ultimately show ?thesis using stores run by (auto simp: CreateOrUpdate_def post_call split: sum.split)
qed

lemma claim_functions:
  "claim_mutate k jf spec modes asked x = Inr z \<Longrightarrow> settled_claim k jf (stored_claim_at (jf_namespace jf) n z)"
  "claim_created c \<Longrightarrow> settled_claim k jf c \<Longrightarrow> claim_mutate k jf spec modes asked c = Inr c"
  "nfs_claim_mutate k jf nfs pvName x = Inr z \<Longrightarrow> settled_claim k jf (stored_claim_at (jf_namespace jf) n z)"
  "claim_created c \<Longrightarrow> settled_claim k jf c \<Longrightarrow> nfs_claim_mutate k jf nfs pvName c = Inr c"
  by (fact claim_mutate_settles claim_mutate_settled)+

lemma ensurePVC_post:
  "post (ensurePVC k jf n spec modes dflt) s (\<lambda>r es s'.
     (is_ok r \<longrightarrow> list_all unrefused es \<longrightarrow> claim_ready k jf n (Some (pvc_size_or dflt spec)) (view s'))
     \<and> (\<forall>a. claim_ready k jf n a (view s) \<longrightarrow> claim_ready k jf n a (view s'))
     \<and> (\<forall>key. key \<noteq> (KClaim, jf_namespace jf, n) \<longrightarrow> view s' key = view s key))"
proof -
  let ?f = "claim_mutate k jf spec (if pvc_accessModes spec = [] then modes else pvc_accessModes spec) (pvc_size_or dflt spec)"
  note up = upsert_claim_post [where f = ?f and n = n and s = s, OF claim_functions(1, 2)]
  show ?thesis unfolding ensurePVC_def Let_def
  proof (rule post_bindI [OF up])
    fix y es s'
    assume u: "list_all unrefused es \<and> (case Inr y of Inl e \<Rightarrow> True
      | Inr y \<Rightarrow> view s' (KClaim, jf_namespace jf, n) = Some (OClaim y) \<and> settled_claim k jf y)
      \<and> (\<forall>key. key \<noteq> (KClaim, jf_namespace jf, n) \<longrightarrow> view s' key = view s key)
      \<and> (\<forall>a. claim_ready k jf n a (view s) \<longrightarrow> s' = s \<and> is_ok (Inr y :: go_error + PersistentVolumeClaim))"
    then have stored: "view s' (KClaim, jf_namespace jf, n) = Some (OClaim y)" and settled: "settled_claim k jf y"
      and es: "list_all unrefused es" and same: "\<And>a. claim_ready k jf n a (view s) \<Longrightarrow> s' = s"
      and other: "\<And>key. key \<noteq> (KClaim, jf_namespace jf, n) \<Longrightarrow> view s' key = view s key" by auto
    have large: "large_enough a y" if "claim_ready k jf n a (view s)" for a
      using that same [OF that] stored by (auto simp: claim_ready_def)
    show "post (growPVC k y (pvc_size_or dflt spec)) s' (\<lambda>r es' s'.
       (is_ok r \<longrightarrow> list_all unrefused (es @ es') \<longrightarrow> claim_ready k jf n (Some (pvc_size_or dflt spec)) (view s'))
       \<and> (\<forall>a. claim_ready k jf n a (view s) \<longrightarrow> claim_ready k jf n a (view s'))
       \<and> (\<forall>key. key \<noteq> (KClaim, jf_namespace jf, n) \<longrightarrow> view s' key = view s key))"
      by (rule post_mono [OF growPVC_post [OF stored settled refl]]) (use es large other in \<open>auto simp: claim_ready_def\<close>)
  qed auto
qed

lemma ensurePVC_achieves: "achieves view (ensurePVC k jf n spec modes dflt) (claim_ready k jf n (Some (pvc_size_or dflt spec)))"
  unfolding achieves_def by (auto intro: post_mono [OF ensurePVC_post])

lemma ensurePVC_preserves: "preserves view (ensurePVC k jf n spec modes dflt) (claim_ready k jf n' a)"
  unfolding preserves_def
proof (intro allI impI)
  fix s assume ready: "claim_ready k jf n' a (view s)"
  show "post (ensurePVC k jf n spec modes dflt) s (\<lambda>r es s'. claim_ready k jf n' a (view s'))"
    by (rule post_mono [OF ensurePVC_post]) (use ready in \<open>cases "n' = n"; auto simp: claim_ready_def\<close>)
qed

lemma ensurePVC_writes: "writes_in view claim_keys (ensurePVC k jf n spec modes dflt)"
  unfolding writes_in_def by (auto intro: post_mono [OF ensurePVC_post])

lemma ensurePVC_still:
  assumes "claim_ready k jf n (Some (pvc_size_or dflt spec)) (view s)"
  shows "still (ensurePVC k jf n spec modes dflt) s"
proof -
  obtain c where c: "view s (KClaim, jf_namespace jf, n) = Some (OClaim c)" "settled_claim k jf c"
    "large_enough (Some (pvc_size_or dflt spec)) c" using assms by (auto simp: claim_ready_def)
  have "has_fixed OClaim (KClaim, jf_namespace jf, n) (claim_mutate k jf spec modes' a) (view s)" for modes' a
    using c claim_mutate_settled [OF stored_claim_key(3) [OF c(1)]] by (auto simp: has_fixed_def)
  from claims.upsert_answers [OF this]
  have "\<exists>es. CreateOrUpdate OClaim KClaim (k_claims k) (jf_namespace jf) n (claim_mutate k jf spec modes' a) s = (Inr c, es, s)" for modes' a
    using c(1) by fastforce
  moreover have "growPVC k c (pvc_size_or dflt spec) = ret ()"
    using c(3) by (auto simp: growPVC_def large_enough_def Let_def split: option.splits)
  ultimately show ?thesis unfolding ensurePVC_def Let_def using still_answered still_ret by metis
qed

end

section \<open>Provisioned volumes\<close>

definition volume_ready :: "Jellyfin \<Rightarrow> MediaFolder \<Rightarrow> NFSSource \<Rightarrow> objects \<Rightarrow> bool" where
  "volume_ready jf mf nfs = has_fixed OVolume (KVolume, '''', pv_name_of jf mf) (volume_mutate jf nfs (MediaClaimName jf mf))"

context api_server begin

lemma replace_writes: "(KVolume, '''', pv_name_of jf mf) \<in> K \<Longrightarrow> writes_in view K (replace_drifted k quoted jf mf nfs)"
  unfolding replace_drifted_def Let_def
  by (intro writes_intros volumes.get_writes volumes.delete_writes)

lemma replace_still:
  assumes "volume_ready jf mf nfs (view s)"
  shows "still (replace_drifted k quoted jf mf nfs) s"
proof -
  obtain pv where pv: "view s (KVolume, '''', pv_name_of jf mf) = Some (OVolume pv)"
    and fixed: "volume_mutate jf nfs (MediaClaimName jf mf) pv = Inr pv"
    using assms by (auto simp: volume_ready_def has_fixed_def)
  have "pv_nfs pv = Some (nfs_server nfs, nfs_path nfs, nfs_readOnly nfs)" "pv_storageClassName pv = nfs_storageClassName nfs"
    using fixed by (cases pv; simp add: volume_mutate_def)+
  then have "\<not> drifted quoted nfs pv" by (simp add: drifted_iff)
  moreover have "Get OVolume KVolume (k_volumes k) '''' (pv_name_of jf mf) s
      = (Inr pv, [Got KVolume '''' (pv_name_of jf mf) (Inr (OVolume pv))], s)"
    using volumes.get_stored [OF pv] by (simp add: Get_def call_def)
  ultimately show ?thesis
    unfolding replace_drifted_def Let_def
    by (intro still_answered [where a = "Inr pv"]) (auto simp: attempt_def intro: still_ret)
qed

lemma nfs_claim_post:
  "post (CreateOrUpdate OClaim KClaim (k_claims k) (jf_namespace jf) n (nfs_claim_mutate k jf nfs pvName)) s (\<lambda>r es s'.
     (is_ok r \<longrightarrow> claim_ready k jf n None (view s'))
     \<and> (\<forall>a. claim_ready k jf n a (view s) \<longrightarrow> claim_ready k jf n a (view s'))
     \<and> (\<forall>key. key \<noteq> (KClaim, jf_namespace jf, n) \<longrightarrow> view s' key = view s key))"
  by (rule post_mono [OF upsert_claim_post [OF claim_functions(3, 4)]])
    (auto simp: claim_ready_def large_enough_def is_ok_iff)

lemma nfs_claim_rules:
  "achieves view (CreateOrUpdate OClaim KClaim (k_claims k) (jf_namespace jf) n (nfs_claim_mutate k jf nfs pvName)) (claim_ready k jf n None)"
  "preserves view (CreateOrUpdate OClaim KClaim (k_claims k) (jf_namespace jf) n (nfs_claim_mutate k jf nfs pvName)) (claim_ready k jf n' a)"
  "writes_in view claim_keys (CreateOrUpdate OClaim KClaim (k_claims k) (jf_namespace jf) n (nfs_claim_mutate k jf nfs pvName))"
proof -
  show "achieves view (CreateOrUpdate OClaim KClaim (k_claims k) (jf_namespace jf) n (nfs_claim_mutate k jf nfs pvName)) (claim_ready k jf n None)"
    unfolding achieves_def by (auto intro: post_mono [OF nfs_claim_post])
  show "writes_in view claim_keys (CreateOrUpdate OClaim KClaim (k_claims k) (jf_namespace jf) n (nfs_claim_mutate k jf nfs pvName))"
    unfolding writes_in_def by (auto intro: post_mono [OF nfs_claim_post])
  show "preserves view (CreateOrUpdate OClaim KClaim (k_claims k) (jf_namespace jf) n (nfs_claim_mutate k jf nfs pvName)) (claim_ready k jf n' a)"
    unfolding preserves_def
  proof (intro allI impI)
    fix s assume ready: "claim_ready k jf n' a (view s)"
    show "post (CreateOrUpdate OClaim KClaim (k_claims k) (jf_namespace jf) n (nfs_claim_mutate k jf nfs pvName)) s
        (\<lambda>r es s'. claim_ready k jf n' a (view s'))"
      by (rule post_mono [OF nfs_claim_post]) (use ready in \<open>cases "n' = n"; auto simp: claim_ready_def\<close>)
  qed
qed

lemma volume_upsert_settles:
  "volume_mutate jf nfs claim x = Inr y \<Longrightarrow> volume_mutate jf nfs claim y = Inr y"
  using volume.settles by blast

lemma preserves_ret: "preserves view (ret a) D"
  by (simp add: preserves_def post_ret)

lemma nfs_achieves:
  "achieves view (ensureProvisionedNFS k quoted jf mf nfs)
     (\<lambda>v. volume_ready jf mf nfs v \<and> claim_ready k jf (MediaClaimName jf mf) None v)"
  unfolding ensureProvisionedNFS_def volume_ready_def
proof (rule achieves_after, rule achieves_bind)
  show "achieves view (CreateOrUpdate OVolume KVolume (k_volumes k) [] (pv_name_of jf mf) (volume_mutate jf nfs (MediaClaimName jf mf)))
      (has_fixed OVolume (KVolume, [], pv_name_of jf mf) (volume_mutate jf nfs (MediaClaimName jf mf)))"
    by (rule volumes.upsert_achieves) (rule volume_upsert_settles)
  fix x
  show "achieves view (bind_io (CreateOrUpdate OClaim KClaim (k_claims k) (jf_namespace jf) (MediaClaimName jf mf)
      (nfs_claim_mutate k jf nfs (pv_name_of jf mf))) (\<lambda>_. ret ())) (claim_ready k jf (MediaClaimName jf mf) None)"
    using achieves_bind [OF nfs_claim_rules(1) achieves_True preserves_ret] by simp
  show "preserves view (bind_io (CreateOrUpdate OClaim KClaim (k_claims k) (jf_namespace jf) (MediaClaimName jf mf)
      (nfs_claim_mutate k jf nfs (pv_name_of jf mf))) (\<lambda>_. ret ()))
     (has_fixed OVolume (KVolume, [], pv_name_of jf mf) (volume_mutate jf nfs (MediaClaimName jf mf)))"
    by (rule preserves_frame [where K = claim_keys and L = volume_keys])
      (auto intro!: writes_intros nfs_claim_rules reads_fixed)
qed

lemma nfs_preserves_claims: "preserves view (ensureProvisionedNFS k quoted jf mf nfs) (claim_ready k jf n a)"
  unfolding ensureProvisionedNFS_def
proof (intro preserves_bind nfs_claim_rules preserves_ret)
  show "preserves view (replace_drifted k quoted jf mf nfs) (claim_ready k jf n a)"
    by (rule preserves_frame [where K = volume_keys and L = claim_keys]) (auto intro!: replace_writes reads_claim)
  show "preserves view (CreateOrUpdate OVolume KVolume (k_volumes k) [] (pv_name_of jf mf)
      (volume_mutate jf nfs (MediaClaimName jf mf))) (claim_ready k jf n a)"
    by (rule preserves_frame [where K = volume_keys and L = claim_keys]) (auto intro!: volumes.upsert_writes reads_claim)
qed

lemma nfs_writes:
  "writes_in view (insert (KVolume, [], pv_name_of jf mf) claim_keys) (ensureProvisionedNFS k quoted jf mf nfs)"
proof -
  have "writes_in view (insert (KVolume, [], pv_name_of jf mf) claim_keys) (CreateOrUpdate OClaim KClaim (k_claims k) (jf_namespace jf) n
      (nfs_claim_mutate k jf nfs pvName))" for n pvName
    using nfs_claim_rules(3) unfolding writes_in_def post_iff by blast
  then show ?thesis unfolding ensureProvisionedNFS_def
    by (intro writes_intros replace_writes volumes.upsert_writes) auto
qed

lemma nfs_still:
  assumes "volume_ready jf mf nfs (view s)" "claim_ready k jf (MediaClaimName jf mf) None (view s)"
  shows "still (ensureProvisionedNFS k quoted jf mf nfs) s"
proof -
  obtain c where c: "view s (KClaim, jf_namespace jf, MediaClaimName jf mf) = Some (OClaim c)" "settled_claim k jf c"
    using assms(2) by (auto simp: claim_ready_def)
  have "has_fixed OClaim (KClaim, jf_namespace jf, MediaClaimName jf mf) (nfs_claim_mutate k jf nfs (pv_name_of jf mf)) (view s)"
    using c claim_mutate_settled [OF stored_claim_key(3) [OF c(1)]] by (auto simp: has_fixed_def)
  then have "still (bind_io (CreateOrUpdate OClaim KClaim (k_claims k) (jf_namespace jf) (MediaClaimName jf mf)
      (nfs_claim_mutate k jf nfs (pv_name_of jf mf))) (\<lambda>_. ret ())) s" by (rule claims.upsert_still)
  moreover obtain y es where "CreateOrUpdate OVolume KVolume (k_volumes k) [] (pv_name_of jf mf)
      (volume_mutate jf nfs (MediaClaimName jf mf)) s = (Inr y, es, s)"
    using volumes.upsert_answers assms(1) unfolding volume_ready_def by blast
  ultimately show ?thesis unfolding ensureProvisionedNFS_def
    by (intro still_bind [OF replace_still [OF assms(1)]]) (rule still_answered)
qed

text \<open>A run on a volume that is as asked for leaves it so.\<close>

lemma nfs_preserves_own: "preserves view (ensureProvisionedNFS k quoted jf mf nfs) (volume_ready jf mf nfs)"
  unfolding preserves_def
proof (intro allI impI)
  fix s assume ready: "volume_ready jf mf nfs (view s)"
  have first: "still (replace_drifted k quoted jf mf nfs) s" by (rule replace_still [OF ready])
  obtain y es where second: "CreateOrUpdate OVolume KVolume (k_volumes k) [] (pv_name_of jf mf)
      (volume_mutate jf nfs (MediaClaimName jf mf)) s = (Inr y, es, s)"
    using volumes.upsert_answers ready unfolding volume_ready_def by blast
  have "preserves view (bind_io (CreateOrUpdate OClaim KClaim (k_claims k) (jf_namespace jf) (MediaClaimName jf mf)
      (nfs_claim_mutate k jf nfs (pv_name_of jf mf))) (\<lambda>_. ret ())) (volume_ready jf mf nfs)"
    unfolding volume_ready_def
    by (rule preserves_frame [where K = claim_keys and L = volume_keys])
      (auto intro!: writes_intros nfs_claim_rules reads_fixed)
  with first second ready show "post (ensureProvisionedNFS k quoted jf mf nfs) s (\<lambda>r es s'. volume_ready jf mf nfs (view s'))"
    unfolding ensureProvisionedNFS_def by (simp add: preserves_def post_iff final_bind still_def)
qed

end

section \<open>Storage\<close>

definition media_ready :: "'e cluster \<Rightarrow> Jellyfin \<Rightarrow> MediaFolder \<Rightarrow> objects \<Rightarrow> bool" where
  "media_ready k jf mf v \<longleftrightarrow> mf_existingClaim mf \<noteq> '''' \<or> (case mf_nfs mf of
       Some nfs \<Rightarrow> nfs_provision nfs \<longrightarrow> volume_ready jf mf nfs v \<and> claim_ready k jf (MediaClaimName jf mf) None v
     | None \<Rightarrow> (case mf_pvc mf of
           None \<Rightarrow> True
         | Some pvc \<Rightarrow> pvc_existingClaim pvc = '''' \<longrightarrow>
             claim_ready k jf (MediaClaimName jf mf) (Some (pvc_size_or (Gi 100) pvc)) v))"

definition own_claim_run :: "'e cluster \<Rightarrow> Jellyfin \<Rightarrow> string \<Rightarrow> quantity \<Rightarrow> PVCSpec option \<Rightarrow> ('e, unit) act" where
  "own_claim_run k jf n dflt spec = (case spec of None \<Rightarrow> ret ()
     | Some c \<Rightarrow> if pvc_existingClaim c = '''' then ensurePVC k jf n c [ReadWriteOnce] dflt else ret ())"

definition wanted_claim :: "'e cluster \<Rightarrow> Jellyfin \<Rightarrow> string \<Rightarrow> quantity \<Rightarrow> PVCSpec option \<Rightarrow> objects \<Rightarrow> bool" where
  "wanted_claim k jf n dflt spec v \<longleftrightarrow> (case spec of None \<Rightarrow> True
     | Some c \<Rightarrow> pvc_existingClaim c = '''' \<longrightarrow> claim_ready k jf n (Some (pvc_size_or dflt c)) v)"

definition storage_ready :: "'e cluster \<Rightarrow> Jellyfin \<Rightarrow> objects \<Rightarrow> bool" where
  "storage_ready k jf v \<longleftrightarrow> (let st = js_storage (jf_spec jf) in
     wanted_claim k jf (ConfigClaimName jf) (Gi 10) (Some (st_config st)) v
     \<and> wanted_claim k jf (CacheClaimName jf) (Gi 5) (st_cache st) v
     \<and> wanted_claim k jf (TrickplayClaimName jf) (Gi 20) (st_trickplay st) v
     \<and> (\<forall>mf \<in> set (st_media st). media_ready k jf mf v))"

abbreviation storage_keys :: "key set" where "storage_keys \<equiv> {key. fst key \<in> {KClaim, KVolume}}"

lemma reads_media: "reads_in storage_keys (media_ready k jf mf)"
  unfolding reads_in_def
  by (auto simp: media_ready_def volume_ready_def has_fixed_def claim_ready_def split: option.split)

lemma reads_wanted: "reads_in storage_keys (wanted_claim k jf n dflt spec)"
  unfolding reads_in_def by (auto simp: wanted_claim_def claim_ready_def split: option.split)

lemma reads_storage: "reads_in storage_keys (storage_ready k jf)"
  using reads_media reads_wanted unfolding reads_in_def storage_ready_def Let_def by blast

text \<open>No two folders for which a volume is provisioned share its name; the API server keeps folder names distinct.\<close>

definition distinct_volumes :: "Jellyfin \<Rightarrow> bool" where
  "distinct_volumes jf \<longleftrightarrow> inj_on (MediaClaimName jf) {mf \<in> set (st_media (js_storage (jf_spec jf))). mf_existingClaim mf = ''''
     \<and> (\<exists>nfs. mf_nfs mf = Some nfs \<and> nfs_provision nfs)}"

context api_server begin

lemma media_achieves: "achieves view (reconcile_media k quoted jf mf) (media_ready k jf mf)"
  unfolding reconcile_media_def media_ready_def
  using ensurePVC_achieves nfs_achieves by (auto simp: achieves_True split: option.split)

lemma media_still: "media_ready k jf mf (view s) \<Longrightarrow> still (reconcile_media k quoted jf mf) s"
  unfolding reconcile_media_def media_ready_def
  by (auto simp: still_ret intro!: ensurePVC_still nfs_still split: option.splits)

lemma media_writes: "writes_in view storage_keys (reconcile_media k quoted jf mf)"
proof -
  have wider: "writes_in view K m \<Longrightarrow> K \<subseteq> storage_keys \<Longrightarrow> writes_in view storage_keys m" for K and m :: "('e, unit) act"
    unfolding writes_in_def post_iff by blast
  have "writes_in view storage_keys (ensurePVC k jf n spec modes dflt)" for n spec modes dflt
    by (rule wider [OF ensurePVC_writes]) auto
  moreover have "writes_in view storage_keys (ensureProvisionedNFS k quoted jf mf nfs)" for nfs
    by (rule wider [OF nfs_writes]) auto
  ultimately show ?thesis unfolding reconcile_media_def by (intro writes_intros)
qed

lemma media_preserves_claims: "preserves view (reconcile_media k quoted jf mf) (claim_ready k jf n a)"
  unfolding reconcile_media_def
  by (auto intro: ensurePVC_preserves nfs_preserves_claims preserves_ret split: option.split)

lemma media_preserves_volume:
  assumes "distinct_volumes jf" and "x \<in> set (st_media (js_storage (jf_spec jf)))" and "y \<in> set (st_media (js_storage (jf_spec jf)))"
    and x: "mf_existingClaim x = ''''" "mf_nfs x = Some nfs" "nfs_provision nfs"
  shows "preserves view (reconcile_media k quoted jf y) (volume_ready jf x nfs)"
proof (cases "mf_existingClaim y = '''' \<and> (\<exists>nfs'. mf_nfs y = Some nfs' \<and> nfs_provision nfs')")
  case True
  then obtain nfs' where y: "mf_existingClaim y = ''''" "mf_nfs y = Some nfs'" "nfs_provision nfs'" by blast
  then have run: "reconcile_media k quoted jf y = ensureProvisionedNFS k quoted jf y nfs'" by (simp add: reconcile_media_def)
  show ?thesis
  proof (cases "MediaClaimName jf y = MediaClaimName jf x")
    case True
    with assms y have "y = x" by (auto simp: distinct_volumes_def dest: inj_onD)
    with x y show ?thesis unfolding run using nfs_preserves_own by simp
  next
    case False
    then have "pv_name_of jf y \<noteq> pv_name_of jf x" by (simp add: pv_name_of_def)
    then show ?thesis unfolding run volume_ready_def
      by (intro preserves_frame [OF nfs_writes reads_fixed, of _ "{(KVolume, [], pv_name_of jf x)}"]) auto
  qed
next
  case False
  then have "reconcile_media k quoted jf y = ret () \<or> (\<exists>n spec modes dflt. reconcile_media k quoted jf y = ensurePVC k jf n spec modes dflt)"
    by (auto simp: reconcile_media_def split: option.split) blast
  then show ?thesis unfolding volume_ready_def
    by (auto simp: preserves_ret intro!: preserves_frame [OF ensurePVC_writes reads_fixed, of _ volume_keys])
qed

lemma media_preserves:
  assumes "distinct_volumes jf" and "x \<in> set (st_media (js_storage (jf_spec jf)))" and "y \<in> set (st_media (js_storage (jf_spec jf)))"
  shows "preserves view (reconcile_media k quoted jf y) (media_ready k jf x)"
proof (cases "mf_existingClaim x = ''''")
  case True
  show ?thesis
  proof (cases "mf_nfs x")
    case None
    with True show ?thesis unfolding media_ready_def [abs_def]
      by (cases "mf_pvc x") (simp_all add: preserves_ready preserves_cond media_preserves_claims)
  next
    case (Some nfs)
    have "preserves view (reconcile_media k quoted jf y)
        (\<lambda>v. volume_ready jf x nfs v \<and> claim_ready k jf (MediaClaimName jf x) None v)" if "nfs_provision nfs"
      by (intro preserves_conj media_preserves_claims media_preserves_volume [OF assms True Some that])
    with Some True show ?thesis unfolding media_ready_def [abs_def] by (simp add: preserves_cond)
  qed
qed (simp add: media_ready_def [abs_def] preserves_ready)

lemma own_claim_rules:
  "achieves view (own_claim_run k jf n dflt spec) (wanted_claim k jf n dflt spec)"
  "preserves view (own_claim_run k jf n dflt spec) (wanted_claim k jf n' dflt' spec')"
  "wanted_claim k jf n dflt spec (view s) \<Longrightarrow> still (own_claim_run k jf n dflt spec) s"
  "preserves view (reconcile_media k quoted jf mf) (wanted_claim k jf n dflt spec)"
proof -
  show "achieves view (own_claim_run k jf n dflt spec) (wanted_claim k jf n dflt spec)"
    unfolding own_claim_run_def wanted_claim_def using ensurePVC_achieves by (auto simp: achieves_True split: option.split)
  have kept: "preserves view m (wanted_claim k jf n dflt spec)"
    if "\<And>n a. preserves view m (claim_ready k jf n a)" for m :: "('e, unit) act" and n dflt spec
    using that unfolding wanted_claim_def [abs_def] by (cases spec) (simp_all add: preserves_ready preserves_cond)
  show "preserves view (own_claim_run k jf n dflt spec) (wanted_claim k jf n' dflt' spec')"
    by (rule kept) (auto simp: own_claim_run_def intro: ensurePVC_preserves preserves_ret split: option.split)
  show "preserves view (reconcile_media k quoted jf mf) (wanted_claim k jf n dflt spec)"
    by (rule kept) (rule media_preserves_claims)
  show "wanted_claim k jf n dflt spec (view s) \<Longrightarrow> still (own_claim_run k jf n dflt spec) s"
    unfolding own_claim_run_def wanted_claim_def
    by (auto simp: still_ret intro!: ensurePVC_still split: option.splits)
qed

lemma preserves_each: "(\<And>x. x \<in> set xs \<Longrightarrow> preserves view (f x) D) \<Longrightarrow> preserves view (each f xs) D"
  by (induction xs) (auto intro: preserves_bind preserves_ret)

lemma storage_eq:
  "reconcileStorage k quoted jf = (let st = js_storage (jf_spec jf) in
     bind_io (own_claim_run k jf (ConfigClaimName jf) (Gi 10) (Some (st_config st))) (\<lambda>_.
     bind_io (own_claim_run k jf (CacheClaimName jf) (Gi 5) (st_cache st)) (\<lambda>_.
     bind_io (own_claim_run k jf (TrickplayClaimName jf) (Gi 20) (st_trickplay st)) (\<lambda>_.
     each (reconcile_media k quoted jf) (st_media st)))))"
  by (simp add: reconcileStorage_def own_claim_run_def Let_def)

lemma storage_achieves:
  assumes "distinct_volumes jf"
  shows "achieves view (reconcileStorage k quoted jf) (storage_ready k jf)"
  unfolding storage_eq storage_ready_def Let_def
  by (intro achieves_bind achieves_each preserves_bind preserves_each own_claim_rules media_achieves
      media_preserves [OF assms])

lemma storage_still: "storage_ready k jf (view s) \<Longrightarrow> still (reconcileStorage k quoted jf) s"
  unfolding storage_eq storage_ready_def Let_def
  by (intro still_intros own_claim_rules media_still) auto

lemma storage_writes: "writes_in view storage_keys (reconcileStorage k quoted jf)"
proof -
  have "writes_in view storage_keys (ensurePVC k jf n spec modes dflt)" for n spec modes dflt
    using ensurePVC_writes unfolding writes_in_def post_iff by fastforce
  then have "writes_in view storage_keys (own_claim_run k jf n dflt spec)" for n dflt spec
    unfolding own_claim_run_def by (intro writes_intros)
  then show ?thesis unfolding storage_eq Let_def by (intro writes_intros media_writes)
qed

end

section \<open>Deployment, services, ingress, web tier and route\<close>

definition deployment_as :: "'e cluster \<Rightarrow> Jellyfin \<Rightarrow> string \<Rightarrow> Deployment \<Rightarrow> objects \<Rightarrow> bool" where
  "deployment_as k jf name d = has_fixed ODeployment (KDeployment, jf_namespace jf, name) (deployment_mutate k jf d)"

definition server_ready :: "'e cluster \<Rightarrow> Jellyfin \<Rightarrow> JellyfinPlugin list \<Rightarrow> objects \<Rightarrow> bool" where
  "server_ready k jf plugins v \<longleftrightarrow> (\<exists>d. BuildDeployment jf plugins = Inr d \<and> deployment_as k jf (jf_name jf) d v)"

definition service_ready :: "'e cluster \<Rightarrow> Jellyfin \<Rightarrow> objects \<Rightarrow> bool" where
  "service_ready k jf = has_fixed OService (KService, jf_namespace jf, jf_name jf) (instance_service_mutate k jf)"

definition ingress_ready :: "'e cluster \<Rightarrow> Jellyfin \<Rightarrow> objects \<Rightarrow> bool" where
  "ingress_ready k jf = (let key = (KIngress, jf_namespace jf, jf_name jf) in
     case js_ingress (jf_spec jf) of None \<Rightarrow> has_none key | Some spec \<Rightarrow> has_fixed OIngress key (ingress_mutate k jf spec))"

definition web_ready :: "'e cluster \<Rightarrow> Jellyfin \<Rightarrow> objects \<Rightarrow> bool" where
  "web_ready k jf v \<longleftrightarrow> (let service = (KService, jf_namespace jf, WebServiceName jf) in
     if js_web (jf_spec jf) = None \<or> EffectiveMode (js_web (jf_spec jf)) = WebModeVolume
     then has_none (KDeployment, jf_namespace jf, WebDeploymentName jf) v \<and> has_none service v
     else \<exists>d. BuildWebDeployment jf = Some d \<and> deployment_as k jf (WebDeploymentName jf) d v
            \<and> has_fixed OService service (web_service_mutate k jf (BuildWebService jf)) v)"

definition route_ready :: "'e cluster \<Rightarrow> Jellyfin \<Rightarrow> objects \<Rightarrow> bool" where
  "route_ready k jf v \<longleftrightarrow> (let key = (KRoute, jf_namespace jf, HTTPRouteName jf) in
     if js_gateway (jf_spec jf) = None then has_none key v
     else \<exists>d. BuildHTTPRoute jf = Some d \<and> has_fixed ORoute key (route_mutate k jf d) v)"

definition server_keys :: "Jellyfin \<Rightarrow> key set" where "server_keys jf = {(KDeployment, jf_namespace jf, jf_name jf)}"
definition service_keys :: "Jellyfin \<Rightarrow> key set" where "service_keys jf = {(KService, jf_namespace jf, jf_name jf)}"
definition web_keys :: "Jellyfin \<Rightarrow> key set" where
  "web_keys jf = {(KDeployment, jf_namespace jf, WebDeploymentName jf), (KService, jf_namespace jf, WebServiceName jf)}"
abbreviation ingress_keys :: "key set" where "ingress_keys \<equiv> {key. fst key = KIngress}"
abbreviation route_keys :: "key set" where "route_keys \<equiv> {key. fst key = KRoute}"

lemma reads_stages:
  "reads_in (server_keys jf) (server_ready k jf plugins)" "reads_in (service_keys jf) (service_ready k jf)"
  "reads_in ingress_keys (ingress_ready k jf)" "reads_in (web_keys jf) (web_ready k jf)" "reads_in route_keys (route_ready k jf)"
  by (auto simp: reads_in_def server_ready_def service_ready_def ingress_ready_def web_ready_def route_ready_def
      deployment_as_def has_fixed_def has_none_def server_keys_def service_keys_def web_keys_def Let_def
      split: option.splits if_splits)

context api_server begin

lemma upsert_deployment_rules:
  "achieves view (upsert_deployment k jf name d) (deployment_as k jf name d)"
  "(KDeployment, jf_namespace jf, name) \<in> K \<Longrightarrow> writes_in view K (upsert_deployment k jf name d)"
  "deployment_as k jf name d (view s) \<Longrightarrow> still (upsert_deployment k jf name d) s"
proof -
  have "achieves view (CreateOrUpdate ODeployment KDeployment (k_deployments k) (jf_namespace jf) name (deployment_mutate k jf d))
      (deployment_as k jf name d)"
    unfolding deployment_as_def by (rule deployments.upsert_achieves) (rule deployment.settles)
  from achieves_bind [OF this achieves_True preserves_ret]
  show "achieves view (upsert_deployment k jf name d) (deployment_as k jf name d)" by (simp add: upsert_deployment_def)
  show "(KDeployment, jf_namespace jf, name) \<in> K \<Longrightarrow> writes_in view K (upsert_deployment k jf name d)"
    unfolding upsert_deployment_def by (intro writes_intros deployments.upsert_writes)
  show "deployment_as k jf name d (view s) \<Longrightarrow> still (upsert_deployment k jf name d) s"
    unfolding upsert_deployment_def deployment_as_def by (rule deployments.upsert_still)
qed

lemma achieves_raise: "achieves view (raise e) D"
  by (simp add: achieves_def post_raise)

lemma server_rules:
  "achieves view (reconcileDeployment k jf plugins) (server_ready k jf plugins)"
  "writes_in view (server_keys jf) (reconcileDeployment k jf plugins)"
  "server_ready k jf plugins (view s) \<Longrightarrow> still (reconcileDeployment k jf plugins) s"
proof -
  show "achieves view (reconcileDeployment k jf plugins) (server_ready k jf plugins)"
  proof (cases "BuildDeployment jf plugins")
    case (Inl e)
    then show ?thesis by (simp add: reconcileDeployment_def achieves_def post_bind post_lift)
  next
    case (Inr d)
    then show ?thesis using upsert_deployment_rules(1)
      by (simp add: reconcileDeployment_def server_ready_def [abs_def] achieves_def post_bind post_lift)
  qed
  show "writes_in view (server_keys jf) (reconcileDeployment k jf plugins)"
    unfolding reconcileDeployment_def by (intro writes_intros upsert_deployment_rules) (simp add: server_keys_def)
  show "server_ready k jf plugins (view s) \<Longrightarrow> still (reconcileDeployment k jf plugins) s"
    unfolding reconcileDeployment_def server_ready_def using upsert_deployment_rules(3)
    by (auto simp: lift_def intro: still_answered)
qed

lemma upsert_rules:
  assumes "\<And>x y. f x = Inr y \<Longrightarrow> f y = Inr y"
  shows "achieves view (bind_io (CreateOrUpdate OService KService (k_services k) ns n f) (\<lambda>_. ret ())) (has_fixed OService (KService, ns, n) f)"
  using achieves_bind [OF services.upsert_achieves [OF assms] achieves_True preserves_ret] by simp

lemma service_rules:
  "achieves view (reconcileService k jf) (service_ready k jf)"
  "writes_in view (service_keys jf) (reconcileService k jf)"
  "service_ready k jf (view s) \<Longrightarrow> still (reconcileService k jf) s"
proof -
  show "achieves view (reconcileService k jf) (service_ready k jf)"
    unfolding reconcileService_def service_ready_def by (rule upsert_rules) (rule service.settles)
  show "writes_in view (service_keys jf) (reconcileService k jf)"
    unfolding reconcileService_def by (intro writes_intros services.upsert_writes) (simp add: service_keys_def)
  show "service_ready k jf (view s) \<Longrightarrow> still (reconcileService k jf) s"
    unfolding reconcileService_def service_ready_def by (rule services.upsert_still)
qed

lemma ingress_rules:
  "achieves view (reconcileIngress k jf) (ingress_ready k jf)"
  "writes_in view ingress_keys (reconcileIngress k jf)"
  "ingress_ready k jf (view s) \<Longrightarrow> still (reconcileIngress k jf) s"
proof -
  have up: "achieves view (bind_io (CreateOrUpdate OIngress KIngress (k_ingresses k) ns n (ingress_mutate k jf spec)) (\<lambda>_. ret ()))
      (has_fixed OIngress (KIngress, ns, n) (ingress_mutate k jf spec))" for ns n spec
    using achieves_bind [OF ingresses.upsert_achieves [OF ingress.settles] achieves_True preserves_ret] by simp
  show "achieves view (reconcileIngress k jf) (ingress_ready k jf)"
    unfolding reconcileIngress_def ingress_ready_def Let_def
    by (cases "js_ingress (jf_spec jf)") (simp_all add: ingresses.delete_achieves up)
  show "writes_in view ingress_keys (reconcileIngress k jf)"
    unfolding reconcileIngress_def by (intro writes_intros ingresses.upsert_writes ingresses.delete_writes) simp_all
  show "ingress_ready k jf (view s) \<Longrightarrow> still (reconcileIngress k jf) s"
    unfolding reconcileIngress_def ingress_ready_def Let_def
    by (cases "js_ingress (jf_spec jf)") (simp_all add: ingresses.delete_still ingresses.upsert_still)
qed

lemma route_rules:
  "achieves view (reconcileGateway k jf) (route_ready k jf)"
  "writes_in view route_keys (reconcileGateway k jf)"
  "route_ready k jf (view s) \<Longrightarrow> still (reconcileGateway k jf) s"
proof -
  have up: "achieves view (bind_io (CreateOrUpdate ORoute KRoute (k_routes k) ns n (route_mutate k jf d)) (\<lambda>_. ret ()))
      (has_fixed ORoute (KRoute, ns, n) (route_mutate k jf d))" for ns n d
    using achieves_bind [OF routes.upsert_achieves [OF route.settles] achieves_True preserves_ret] by simp
  show "achieves view (reconcileGateway k jf) (route_ready k jf)"
    unfolding reconcileGateway_def route_ready_def [abs_def] Let_def
  proof (cases "js_gateway (jf_spec jf) = None")
    case False
    then show "achieves view (if js_gateway (jf_spec jf) = None then DeleteIfExists KRoute (k_routes k) (jf_namespace jf) (HTTPRouteName jf)
        else case BuildHTTPRoute jf of None \<Rightarrow> raise nil_dereference
           | Some desired \<Rightarrow> bind_io (CreateOrUpdate ORoute KRoute (k_routes k) (jf_namespace jf) (HTTPRouteName jf)
               (route_mutate k jf desired)) (\<lambda>_. ret ()))
      (\<lambda>v. if js_gateway (jf_spec jf) = None then has_none (KRoute, jf_namespace jf, HTTPRouteName jf) v
         else \<exists>d. BuildHTTPRoute jf = Some d \<and> has_fixed ORoute (KRoute, jf_namespace jf, HTTPRouteName jf) (route_mutate k jf d) v)"
      by (cases "BuildHTTPRoute jf") (simp_all add: up achieves_raise del: not_None_eq)
  qed (simp add: routes.delete_achieves)
  show "writes_in view route_keys (reconcileGateway k jf)"
    unfolding reconcileGateway_def by (intro writes_intros routes.upsert_writes routes.delete_writes) simp_all
  show "route_ready k jf (view s) \<Longrightarrow> still (reconcileGateway k jf) s"
    unfolding reconcileGateway_def route_ready_def Let_def
    by (cases "js_gateway (jf_spec jf) = None") (auto intro: routes.delete_still routes.upsert_still)
qed

lemma web_rules:
  "achieves view (reconcileWeb k jf) (web_ready k jf)"
  "writes_in view (web_keys jf) (reconcileWeb k jf)"
  "web_ready k jf (view s) \<Longrightarrow> still (reconcileWeb k jf) s"
proof -
  let ?dep = "(KDeployment, jf_namespace jf, WebDeploymentName jf)" and ?svc = "(KService, jf_namespace jf, WebServiceName jf)"
  let ?f = "web_service_mutate k jf (BuildWebService jf)"
  have frame: "preserves view m D" if "writes_in view {?svc} m" "reads_in {?dep} D" for m :: "('e, unit) act" and D
    using that by (rule preserves_frame) simp
  have none: "achieves view (bind_io (DeleteIfExists KDeployment (k_deployments k) (jf_namespace jf) (WebDeploymentName jf)) (\<lambda>_.
      DeleteIfExists KService (k_services k) (jf_namespace jf) (WebServiceName jf))) (\<lambda>v. has_none ?dep v \<and> has_none ?svc v)"
    by (intro achieves_bind deployments.delete_achieves services.delete_achieves frame services.delete_writes reads_none) simp_all
  have service: "achieves view (bind_io (CreateOrUpdate OService KService (k_services k) (jf_namespace jf) (WebServiceName jf) ?f) (\<lambda>_. ret ()))
      (has_fixed OService ?svc ?f)" by (rule upsert_rules) (rule web_service.settles)
  have some: "achieves view (bind_io (upsert_deployment k jf (WebDeploymentName jf) d) (\<lambda>_.
      bind_io (CreateOrUpdate OService KService (k_services k) (jf_namespace jf) (WebServiceName jf) ?f) (\<lambda>_. ret ())))
     (\<lambda>v. deployment_as k jf (WebDeploymentName jf) d v \<and> has_fixed OService ?svc ?f v)" for d
    unfolding deployment_as_def
    by (intro achieves_bind [OF _ service] frame writes_intros services.upsert_writes reads_fixed
        upsert_deployment_rules(1) [unfolded deployment_as_def]) simp_all
  show "achieves view (reconcileWeb k jf) (web_ready k jf)"
    unfolding reconcileWeb_def web_ready_def [abs_def] Let_def
  proof (cases "js_web (jf_spec jf) = None \<or> EffectiveMode (js_web (jf_spec jf)) = WebModeVolume")
    case False
    then show "achieves view (if js_web (jf_spec jf) = None \<or> EffectiveMode (js_web (jf_spec jf)) = WebModeVolume
         then bind_io (DeleteIfExists KDeployment (k_deployments k) (jf_namespace jf) (WebDeploymentName jf)) (\<lambda>_.
           DeleteIfExists KService (k_services k) (jf_namespace jf) (WebServiceName jf))
         else case BuildWebDeployment jf of None \<Rightarrow> raise nil_dereference
           | Some desired \<Rightarrow> bind_io (upsert_deployment k jf (WebDeploymentName jf) desired) (\<lambda>_.
               bind_io (CreateOrUpdate OService KService (k_services k) (jf_namespace jf) (WebServiceName jf) ?f) (\<lambda>_. ret ())))
      (\<lambda>v. if js_web (jf_spec jf) = None \<or> EffectiveMode (js_web (jf_spec jf)) = WebModeVolume
         then has_none ?dep v \<and> has_none ?svc v
         else \<exists>d. BuildWebDeployment jf = Some d \<and> deployment_as k jf (WebDeploymentName jf) d v \<and> has_fixed OService ?svc ?f v)"
      unfolding if_not_P [OF False]
      by (cases "BuildWebDeployment jf") (simp_all add: some achieves_raise)
  qed (simp add: none)
  show "writes_in view (web_keys jf) (reconcileWeb k jf)"
    unfolding reconcileWeb_def
    by (intro writes_intros upsert_deployment_rules deployments.delete_writes services.upsert_writes services.delete_writes)
      (simp_all add: web_keys_def)
  show "web_ready k jf (view s) \<Longrightarrow> still (reconcileWeb k jf) s"
    unfolding reconcileWeb_def web_ready_def Let_def
    by (cases "js_web (jf_spec jf) = None \<or> EffectiveMode (js_web (jf_spec jf)) = WebModeVolume")
      (auto intro!: still_bind [OF upsert_deployment_rules(3)] still_bind [OF deployments.delete_still]
        deployments.delete_still services.delete_still services.upsert_still)
qed

end

end
