(* ===== verification/Steady.thy ===== *)
theory Steady
  imports Steady_Stages
begin

text \<open>
  The whole reconcile of an instance, run twice. The stages of \<open>Steady_Stages\<close> are put together, the status
  is added, and what the first run leaves is shown to be what the second run is satisfied with.
\<close>

section \<open>All stages but the status\<close>

definition stages_run :: "'e cluster \<Rightarrow> (string \<Rightarrow> string) \<Rightarrow> Jellyfin \<Rightarrow> JellyfinPlugin list \<Rightarrow> ('e, unit) act" where
  "stages_run k quoted jf plugins =
     bind_io (wrapping (Wrap ''storage'') (reconcileStorage k quoted jf)) (\<lambda>_.
     bind_io (wrapping (Wrap ''deployment'') (reconcileDeployment k jf plugins)) (\<lambda>_.
     bind_io (wrapping (Wrap ''service'') (reconcileService k jf)) (\<lambda>_.
     bind_io (wrapping (Wrap ''ingress'') (reconcileIngress k jf)) (\<lambda>_.
     bind_io (wrapping (Wrap ''web'') (reconcileWeb k jf)) (\<lambda>_.
     wrapping (Wrap ''gateway'') (reconcileGateway k jf))))))"

lemma bind_io_assoc: "bind_io (bind_io m f) g = bind_io m (\<lambda>a. bind_io (f a) g)"
  by (auto simp: bind_io_def fun_eq_iff split: prod.split sum.split)

lemma reconcile_instance_stages_run:
  "reconcile_instance k quoted jf = bind_io (BoundPlugins k jf) (\<lambda>bound.
     bind_io (stages_run k quoted jf (HealthyPlugins k bound)) (\<lambda>_. updateInstanceStatus k jf (HealthyPlugins k bound)))"
  by (simp add: reconcile_instance_def stages_run_def bind_io_assoc Let_def)

definition stages_ready :: "'e cluster \<Rightarrow> Jellyfin \<Rightarrow> JellyfinPlugin list \<Rightarrow> objects \<Rightarrow> bool" where
  "stages_ready k jf plugins v \<longleftrightarrow> storage_ready k jf v \<and> server_ready k jf plugins v \<and> service_ready k jf v
     \<and> ingress_ready k jf v \<and> web_ready k jf v \<and> route_ready k jf v"

text \<open>No stage reads or writes instances or plugins, and none writes where another reads.\<close>

definition stage_keys :: "key set" where
  "stage_keys = {key. fst key \<notin> {KJellyfin, KPlugin}}"

lemma reads_weaken: "reads_in L D \<Longrightarrow> L \<subseteq> L' \<Longrightarrow> reads_in L' D"
  unfolding reads_in_def by blast

lemma reads_ready: "reads_in stage_keys (stages_ready k jf plugins)"
proof -
  have "storage_keys \<subseteq> stage_keys" "server_keys jf \<subseteq> stage_keys" "service_keys jf \<subseteq> stage_keys" "ingress_keys \<subseteq> stage_keys"
    "web_keys jf \<subseteq> stage_keys" "route_keys \<subseteq> stage_keys"
    by (auto simp: stage_keys_def server_keys_def service_keys_def web_keys_def)
  then show ?thesis unfolding stages_ready_def [abs_def]
    by (intro reads_in_conj reads_weaken [OF reads_storage] reads_weaken [OF reads_stages(1)] reads_weaken [OF reads_stages(2)]
        reads_weaken [OF reads_stages(3)] reads_weaken [OF reads_stages(4)] reads_weaken [OF reads_stages(5)])
qed

text \<open>
  No two objects of an instance share a key. Only names that have been cut to the length limit could clash: with
  a hash that they end in, or between folders whose names differ in characters that are not allowed in object names.
\<close>

definition distinct_objects :: "Jellyfin \<Rightarrow> bool" where
  "distinct_objects jf \<longleftrightarrow> distinct_volumes jf \<and> WebDeploymentName jf \<noteq> jf_name jf \<and> WebServiceName jf \<noteq> jf_name jf"

lemma keys_disjoint:
  assumes "distinct_objects jf"
  shows
  "storage_keys \<inter> server_keys jf = {}" "storage_keys \<inter> service_keys jf = {}" "storage_keys \<inter> ingress_keys = {}"
  "storage_keys \<inter> web_keys jf = {}" "storage_keys \<inter> route_keys = {}"
  "server_keys jf \<inter> service_keys jf = {}" "server_keys jf \<inter> ingress_keys = {}" "server_keys jf \<inter> web_keys jf = {}"
  "server_keys jf \<inter> route_keys = {}" "service_keys jf \<inter> ingress_keys = {}" "service_keys jf \<inter> web_keys jf = {}"
  "service_keys jf \<inter> route_keys = {}" "ingress_keys \<inter> web_keys jf = {}" "ingress_keys \<inter> route_keys = {}"
  "web_keys jf \<inter> route_keys = {}"
  using assms by (auto simp: server_keys_def service_keys_def web_keys_def distinct_objects_def)

context api_server begin

lemma stages_achieve:
  assumes "distinct_objects jf"
  shows "achieves view (stages_run k quoted jf plugins) (stages_ready k jf plugins)"
proof -
  have volumes: "distinct_volumes jf" using assms by (simp add: distinct_objects_def)
  note keys_disjoint = keys_disjoint [OF assms]
  note frame = preserves_wrapping preserves_bind
    preserves_frame [OF server_rules(2) reads_storage keys_disjoint(1)] preserves_frame [OF service_rules(2) reads_storage keys_disjoint(2)]
    preserves_frame [OF ingress_rules(2) reads_storage keys_disjoint(3)] preserves_frame [OF web_rules(2) reads_storage keys_disjoint(4)]
    preserves_frame [OF route_rules(2) reads_storage keys_disjoint(5)]
    preserves_frame [OF service_rules(2) reads_stages(1) keys_disjoint(6)] preserves_frame [OF ingress_rules(2) reads_stages(1) keys_disjoint(7)]
    preserves_frame [OF web_rules(2) reads_stages(1) keys_disjoint(8)] preserves_frame [OF route_rules(2) reads_stages(1) keys_disjoint(9)]
    preserves_frame [OF ingress_rules(2) reads_stages(2) keys_disjoint(10)] preserves_frame [OF web_rules(2) reads_stages(2) keys_disjoint(11)]
    preserves_frame [OF route_rules(2) reads_stages(2) keys_disjoint(12)]
    preserves_frame [OF web_rules(2) reads_stages(3) keys_disjoint(13)] preserves_frame [OF route_rules(2) reads_stages(3) keys_disjoint(14)]
    preserves_frame [OF route_rules(2) reads_stages(4) keys_disjoint(15)]
  show ?thesis unfolding stages_run_def stages_ready_def [abs_def]
    by (intro achieves_bind achieves_wrapping storage_achieves [OF volumes] server_rules(1) service_rules(1) ingress_rules(1)
        web_rules(1) route_rules(1) frame)
qed

lemma stages_still: "stages_ready k jf plugins (view s) \<Longrightarrow> still (stages_run k quoted jf plugins) s"
  unfolding stages_run_def stages_ready_def
  by (intro still_bind still_wrapping storage_still server_rules service_rules ingress_rules web_rules route_rules) simp_all

lemma writes_weaken: "writes_in view K m \<Longrightarrow> K \<subseteq> K' \<Longrightarrow> writes_in view K' m"
  unfolding writes_in_def post_iff by blast

lemma stages_write: "writes_in view stage_keys (stages_run k quoted jf plugins)"
  unfolding stages_run_def
  by (intro writes_intros writes_weaken [OF storage_writes] writes_weaken [OF server_rules(2)] writes_weaken [OF service_rules(2)]
      writes_weaken [OF ingress_rules(2)] writes_weaken [OF web_rules(2)] writes_weaken [OF route_rules(2)])
    (auto simp: stage_keys_def server_keys_def service_keys_def web_keys_def)

end

section \<open>The status\<close>

text \<open>What a read of the instance's Deployment returns.\<close>

definition deployment_read :: "objects \<Rightarrow> Jellyfin \<Rightarrow> go_error + LiveDeployment" where
  "deployment_read v jf = (case v (KDeployment, jf_namespace jf, jf_name jf) of
     Some (ODeployment d) \<Rightarrow> Inr d | _ \<Rightarrow> Inl NotFound)"

definition wanted_status :: "'e cluster \<Rightarrow> Jellyfin \<Rightarrow> JellyfinPlugin list \<Rightarrow> objects \<Rightarrow> Jellyfin" where
  "wanted_status k jf plugins v = instance_status k jf plugins (deployment_ready (deployment_read v jf))"

text \<open>One attempt to write a status.\<close>

definition status_run :: "'e cluster \<Rightarrow> Jellyfin \<Rightarrow> ('e, unit) act" where
  "status_run k jf = bind_io (get_jellyfin k (jf_namespace jf) (jf_name jf)) (\<lambda>cur.
     StatusUpdate OJellyfin (k_jellyfins k) (cur\<lparr>jf_status := jf_status jf\<rparr>))"

context api_server begin

lemma jellyfin_key_stored:
  assumes "view s (KJellyfin, ns, n) = Some (OJellyfin cur)"
  shows "jf_namespace cur = ns" "jf_name cur = n"
proof -
  have "stored_jellyfin_at ns n cur = cur" using jellyfins.kinds [OF assms] by auto
  then show "jf_namespace cur = ns" "jf_name cur = n" by (cases cur; simp add: stored_jellyfin_at_def)+
qed

lemma get_deployment: "\<exists>es. attempt (Get ODeployment KDeployment (k_deployments k) (jf_namespace jf) (jf_name jf)) s
    = (Inr (deployment_read (view s) jf), es, s)"
proof -
  obtain r es where "Get ODeployment KDeployment (k_deployments k) (jf_namespace jf) (jf_name jf) s = (r, es, s)"
    and "case view s (KDeployment, jf_namespace jf, jf_name jf) of None \<Rightarrow> r = Inl NotFound | Some ob \<Rightarrow> (\<exists>x. ob = ODeployment x \<and> r = Inr x)"
    using deployments.get_answers by blast
  then show ?thesis by (auto simp: attempt_def deployment_read_def split: option.splits)
qed

lemma status_run_once:
  assumes "view s (KJellyfin, jf_namespace jf, jf_name jf) = Some (OJellyfin cur)"
  shows "post (status_run k jf) s (\<lambda>r es s'. if is_ok r
     then view s' = (view s)((KJellyfin, jf_namespace jf, jf_name jf) \<mapsto> OJellyfin (cur\<lparr>jf_status := jf_status jf\<rparr>))
     else view s' = view s)"
    "jf_status cur = jf_status jf \<Longrightarrow> still (status_run k jf) s"
proof -
  let ?x = "cur\<lparr>jf_status := jf_status jf\<rparr>"
  have key: "(KJellyfin, jf_namespace ?x, jf_name ?x) = (KJellyfin, jf_namespace jf, jf_name jf)"
    using jellyfin_key_stored [OF assms] by simp
  have read: "get_jellyfin k (jf_namespace jf) (jf_name jf) s
      = (Inr cur, [Got KJellyfin (jf_namespace jf) (jf_name jf) (Inr (OJellyfin cur))], s)"
    using jellyfins.get_stored [OF assms] by (simp add: get_jellyfin_def Get_def call_def)
  obtain r s' where wrote: "raw_updateStatus (k_jellyfins k) ?x s = (r, s')" by fastforce
  have stored: "view s (KJellyfin, jf_namespace ?x, jf_name ?x) = Some (OJellyfin cur)" using assms key by simp
  have written: "view s' = (view s)((KJellyfin, jf_namespace jf, jf_name jf) \<mapsto> OJellyfin ?x)" if "r = Inr ()"
    using status_written [of ?x s s' cur] wrote that stored key by simp
  have failed: "view s' = view s" if "r = Inl e" for e using status_failed wrote that by blast
  show "post (status_run k jf) s (\<lambda>r es s'. if is_ok r
     then view s' = (view s)((KJellyfin, jf_namespace jf, jf_name jf) \<mapsto> OJellyfin ?x) else view s' = view s)"
    unfolding status_run_def post_iff bind_io_def read StatusUpdate_def call_def wrote
    using written failed by (cases r) (simp_all add: wrote)
  show "still (status_run k jf) s" if "jf_status cur = jf_status jf"
    using status_same [OF stored] that
    unfolding status_run_def still_def bind_io_def read StatusUpdate_def call_def by simp
qed

lemma writeJellyfinStatus_post:
  assumes "view s (KJellyfin, jf_namespace jf, jf_name jf) = Some (OJellyfin cur)"
  shows "post (writeJellyfinStatus k jf) s (\<lambda>r es s'. is_ok r \<longrightarrow>
     view s' = (view s)((KJellyfin, jf_namespace jf, jf_name jf) \<mapsto> OJellyfin (cur\<lparr>jf_status := jf_status jf\<rparr>)))"
    "jf_status cur = jf_status jf \<Longrightarrow> still (writeJellyfinStatus k jf) s"
proof -
  obtain n where n: "RetryOnConflict k = attempts n" using retries by (auto simp: retry_works_def)
  have eq: "writeJellyfinStatus k jf = attempts n (status_run k jf)"
    by (simp add: writeJellyfinStatus_def status_run_def n)
  have "post (attempts n (status_run k jf)) s' (\<lambda>r es s''. is_ok r \<longrightarrow>
     view s'' = (view s)((KJellyfin, jf_namespace jf, jf_name jf) \<mapsto> OJellyfin (cur\<lparr>jf_status := jf_status jf\<rparr>)))"
    if "view s' = view s" for s'
    using that
  proof (induction n arbitrary: s')
    case 0
    have "view s' (KJellyfin, jf_namespace jf, jf_name jf) = Some (OJellyfin cur)" using assms 0 by simp
    from status_run_once(1) [OF this] 0 show ?case by (auto simp: post_iff fun_upd_def split: if_splits)
  next
    case (Suc n)
    have "view s' (KJellyfin, jf_namespace jf, jf_name jf) = Some (OJellyfin cur)" using assms Suc.prems by simp
    note once = status_run_once(1) [OF this]
    show ?case unfolding attempts.simps post_bind post_attempt
      by (rule post_mono [OF once]) (auto simp: post_lift Suc.prems intro: Suc.IH split: if_splits)
  qed
  then show "post (writeJellyfinStatus k jf) s (\<lambda>r es s'. is_ok r \<longrightarrow>
     view s' = (view s)((KJellyfin, jf_namespace jf, jf_name jf) \<mapsto> OJellyfin (cur\<lparr>jf_status := jf_status jf\<rparr>)))"
    unfolding eq by simp
  assume "jf_status cur = jf_status jf"
  from status_run_once(2) [OF assms this] have once: "still (status_run k jf) s" .
  then show "still (writeJellyfinStatus k jf) s" unfolding eq
    by (cases n) (auto simp: still_def bind_io_def attempt_def lift_def split: prod.splits)
qed

lemma updateInstanceStatus_eq:
  "\<exists>es. updateInstanceStatus k jf plugins s = (case writeJellyfinStatus k (wanted_status k jf plugins (view s)) s of (r, es', s') \<Rightarrow> (r, es @ es', s'))"
  using get_deployment [of jf s] unfolding updateInstanceStatus_def wanted_status_def by (auto simp: bind_io_def)

lemma updateInstanceStatus_post:
  assumes "view s (KJellyfin, jf_namespace jf, jf_name jf) = Some (OJellyfin cur)"
  shows "post (updateInstanceStatus k jf plugins) s (\<lambda>r es s'. is_ok r \<longrightarrow>
     view s' = (view s)((KJellyfin, jf_namespace jf, jf_name jf)
       \<mapsto> OJellyfin (cur\<lparr>jf_status := jf_status (wanted_status k jf plugins (view s))\<rparr>)))"
    "jf_status cur = jf_status (wanted_status k jf plugins (view s)) \<Longrightarrow> still (updateInstanceStatus k jf plugins) s"
proof -
  have stored: "view s (KJellyfin, jf_namespace (wanted_status k jf plugins (view s)), jf_name (wanted_status k jf plugins (view s))) = Some (OJellyfin cur)"
    using assms by (simp add: wanted_status_def instance_status_key)
  obtain es where eq: "updateInstanceStatus k jf plugins s
      = (case writeJellyfinStatus k (wanted_status k jf plugins (view s)) s of (r, es', s') \<Rightarrow> (r, es @ es', s'))"
    using updateInstanceStatus_eq by blast
  note wrote = writeJellyfinStatus_post [OF stored]
  show "post (updateInstanceStatus k jf plugins) s (\<lambda>r es s'. is_ok r \<longrightarrow>
     view s' = (view s)((KJellyfin, jf_namespace jf, jf_name jf)
       \<mapsto> OJellyfin (cur\<lparr>jf_status := jf_status (wanted_status k jf plugins (view s))\<rparr>)))"
    using wrote(1) by (auto simp: post_def eq wanted_status_def instance_status_key split: prod.splits)
  show "jf_status cur = jf_status (wanted_status k jf plugins (view s)) \<Longrightarrow> still (updateInstanceStatus k jf plugins) s"
    using wrote(2) by (auto simp: still_def eq split: prod.splits)
qed

text \<open>Reporting the same twice: the second status is the first.\<close>

lemma conditions_again:
  assumes "t \<noteq> u" and "cs' = setCondition k t x m g n (setCondition k u x' m' g' n' cs)"
  shows "setCondition k u x' m' g' n' cs' = cs'" "setCondition k t x m g n cs' = cs'"
proof -
  have "FindStatusCondition k cs' u = Some \<lparr>cond_type = u, cond_status = x', cond_reason = m', cond_message = g', cond_observedGeneration = n'\<rparr>"
    "FindStatusCondition k cs' t = Some \<lparr>cond_type = t, cond_status = x, cond_reason = m, cond_message = g, cond_observedGeneration = n\<rparr>"
    using assms by (simp_all add: find_setCondition [OF conditions])
  then show "setCondition k u x' m' g' n' cs' = cs'" "setCondition k t x m g n cs' = cs'"
    using condition_again by (simp_all add: setCondition_def)
qed

lemma instance_status_again:
  "jf_status (instance_status k (jf\<lparr>jf_status := jf_status (instance_status k jf plugins r)\<rparr>) plugins r)
     = jf_status (instance_status k jf plugins r)"
proof -
  have "conditionPluginsLoaded \<noteq> conditionReady" by (simp add: condition_names)
  note again = conditions_again [OF this refl]
  show ?thesis
    by (cases r) (simp_all add: instance_status_def set_jf_condition_def Let_def server_port_def again split: option.split)
qed

lemma wanted_status_again:
  assumes "st = jf_status (wanted_status k jf plugins v)" and "deployment_read v' jf = deployment_read v jf"
  shows "jf_status (wanted_status k (jf\<lparr>jf_status := st\<rparr>) plugins v') = st"
proof -
  have "deployment_read v' (jf\<lparr>jf_status := st\<rparr>) = deployment_read v jf"
    using assms(2) by (simp add: deployment_read_def)
  then show ?thesis unfolding wanted_status_def assms(1) by (simp add: instance_status_again)
qed

end

section \<open>What a reconcile reads of its instance\<close>

text \<open>All of it but the status.\<close>

lemma ignores_status_names [simp]:
  "InstanceLabels (jf\<lparr>jf_status := st\<rparr>) = InstanceLabels jf"
  "InstanceSelectorLabels (jf\<lparr>jf_status := st\<rparr>) = InstanceSelectorLabels jf"
  "ConfigClaimName (jf\<lparr>jf_status := st\<rparr>) = ConfigClaimName jf"
  "CacheClaimName (jf\<lparr>jf_status := st\<rparr>) = CacheClaimName jf"
  "TrickplayClaimName (jf\<lparr>jf_status := st\<rparr>) = TrickplayClaimName jf"
  "MediaClaimName (jf\<lparr>jf_status := st\<rparr>) = MediaClaimName jf"
  "WebDeploymentName (jf\<lparr>jf_status := st\<rparr>) = WebDeploymentName jf"
  "WebServiceName (jf\<lparr>jf_status := st\<rparr>) = WebServiceName jf"
  "HTTPRouteName (jf\<lparr>jf_status := st\<rparr>) = HTTPRouteName jf"
  "instance_owner (jf\<lparr>jf_status := st\<rparr>) = instance_owner jf"
  "server_port (jf\<lparr>jf_status := st\<rparr>) = server_port jf"
  "pv_name_of (jf\<lparr>jf_status := st\<rparr>) = pv_name_of jf"
  by (simp_all add: InstanceLabels_def InstanceSelectorLabels_def ConfigClaimName_def CacheClaimName_def TrickplayClaimName_def
      MediaClaimName_def [abs_def] WebDeploymentName_def WebServiceName_def HTTPRouteName_def instance_owner_def server_port_def
      pv_name_of_def [abs_def] fun_eq_iff Let_def split: option.split)

lemma ignores_status_mutations [simp]:
  "claim_mutate k (jf\<lparr>jf_status := st\<rparr>) = claim_mutate k jf"
  "nfs_claim_mutate k (jf\<lparr>jf_status := st\<rparr>) = nfs_claim_mutate k jf"
  "volume_mutate (jf\<lparr>jf_status := st\<rparr>) = volume_mutate jf"
  "deployment_mutate k (jf\<lparr>jf_status := st\<rparr>) = deployment_mutate k jf"
  "instance_service_mutate k (jf\<lparr>jf_status := st\<rparr>) = instance_service_mutate k jf"
  "web_service_mutate k (jf\<lparr>jf_status := st\<rparr>) = web_service_mutate k jf"
  "ingress_mutate k (jf\<lparr>jf_status := st\<rparr>) = ingress_mutate k jf"
  "route_mutate k (jf\<lparr>jf_status := st\<rparr>) = route_mutate k jf"
  "migration_error quoted (jf\<lparr>jf_status := st\<rparr>) = migration_error quoted jf"
  by (simp_all add: fun_eq_iff claim_mutate_def nfs_claim_mutate_def volume_mutate_def deployment_mutate_def instance_service_mutate_def
      web_service_mutate_def ingress_mutate_def route_mutate_def migration_error_def
      cong: option.case_cong)

lemma ignores_status_builders [simp]:
  "BuildDeployment (jf\<lparr>jf_status := st\<rparr>) = BuildDeployment jf"
  "BuildWebDeployment (jf\<lparr>jf_status := st\<rparr>) = BuildWebDeployment jf"
  "BuildWebService (jf\<lparr>jf_status := st\<rparr>) = BuildWebService jf"
  "BuildHTTPRoute (jf\<lparr>jf_status := st\<rparr>) = BuildHTTPRoute jf"
proof -
  have media: "add_media (jf\<lparr>jf_status := st\<rparr>) mfs x = add_media jf mfs x" for mfs x
    by (induction mfs arbitrary: x) (auto simp: mediaVolumeAndMount_def split: prod.split)
  show "BuildDeployment (jf\<lparr>jf_status := st\<rparr>) = BuildDeployment jf"
    by (simp add: fun_eq_iff BuildDeployment_def BuildPodTemplateSpec_def base_pod_def configVolume_def server_image_def media
        add_cache_def add_trickplay_def add_web_def finish_pod_def Let_def cong: option.case_cong prod.case_cong)
  show "BuildWebDeployment (jf\<lparr>jf_status := st\<rparr>) = BuildWebDeployment jf"
    by (simp add: BuildWebDeployment_def WebLabels_def WebSelectorLabels_def Let_def cong: option.case_cong prod.case_cong)
  show "BuildWebService (jf\<lparr>jf_status := st\<rparr>) = BuildWebService jf"
    by (simp add: BuildWebService_def WebLabels_def WebSelectorLabels_def)
  show "BuildHTTPRoute (jf\<lparr>jf_status := st\<rparr>) = BuildHTTPRoute jf"
    by (simp add: BuildHTTPRoute_def route_rules_def [abs_def] default_rule_def split_rules_def split_mode_def Let_def
        cong: option.case_cong if_cong)
qed

lemma ignores_status_stages [simp]:
  "reconcileStorage k quoted (jf\<lparr>jf_status := st\<rparr>) = reconcileStorage k quoted jf"
  "reconcileDeployment k (jf\<lparr>jf_status := st\<rparr>) = reconcileDeployment k jf"
  "reconcileService k (jf\<lparr>jf_status := st\<rparr>) = reconcileService k jf"
  "reconcileIngress k (jf\<lparr>jf_status := st\<rparr>) = reconcileIngress k jf"
  "reconcileWeb k (jf\<lparr>jf_status := st\<rparr>) = reconcileWeb k jf"
  "reconcileGateway k (jf\<lparr>jf_status := st\<rparr>) = reconcileGateway k jf"
proof -
  have pvc: "ensurePVC k (jf\<lparr>jf_status := st\<rparr>) = ensurePVC k jf"
    by (simp add: fun_eq_iff ensurePVC_def)
  have nfs: "ensureProvisionedNFS k quoted (jf\<lparr>jf_status := st\<rparr>) = ensureProvisionedNFS k quoted jf"
    by (simp add: fun_eq_iff ensureProvisionedNFS_def replace_drifted_def Let_def cong: sum.case_cong if_cong)
  have media: "reconcile_media k quoted (jf\<lparr>jf_status := st\<rparr>) = reconcile_media k quoted jf"
    by (simp add: fun_eq_iff reconcile_media_def pvc nfs Let_def cong: option.case_cong if_cong)
  show "reconcileStorage k quoted (jf\<lparr>jf_status := st\<rparr>) = reconcileStorage k quoted jf"
    by (simp add: reconcileStorage_def pvc media Let_def cong: option.case_cong if_cong)
  show "reconcileDeployment k (jf\<lparr>jf_status := st\<rparr>) = reconcileDeployment k jf"
    "reconcileService k (jf\<lparr>jf_status := st\<rparr>) = reconcileService k jf"
    "reconcileIngress k (jf\<lparr>jf_status := st\<rparr>) = reconcileIngress k jf"
    "reconcileWeb k (jf\<lparr>jf_status := st\<rparr>) = reconcileWeb k jf"
    "reconcileGateway k (jf\<lparr>jf_status := st\<rparr>) = reconcileGateway k jf"
    by (simp_all add: fun_eq_iff reconcileDeployment_def upsert_deployment_def reconcileService_def reconcileIngress_def
        reconcileWeb_def reconcileGateway_def cong: option.case_cong if_cong)
qed

lemma ignores_status_plugins [simp]: "BoundPlugins k (jf\<lparr>jf_status := st\<rparr>) = BoundPlugins k jf"
  by (simp add: BoundPlugins_def pluginBinds_def [abs_def])

section \<open>Twice\<close>

definition bound_in :: "'e cluster \<Rightarrow> Jellyfin \<Rightarrow> 'e \<Rightarrow> go_error + JellyfinPlugin list" where
  "bound_in k jf s = map_ok (\<lambda>items. sort_key jp_name (filter (pluginBinds k jf) items)) (fst (raw_list (k_plugins k) (jf_namespace jf) [] s))"

context api_server begin

lemma bound_plugins: "\<exists>es. BoundPlugins k jf s = (bound_in k jf s, es, s)"
proof -
  obtain r where "raw_list (k_plugins k) (jf_namespace jf) [] s = (r, s)" using list_reads by blast
  then show ?thesis
    by (cases r) (simp_all add: BoundPlugins_def list_plugins_def List_in_def bind_io_def call_def bound_in_def ret_def)
qed

lemma bound_stable:
  assumes "\<And>n. view s' (KPlugin, jf_namespace jf, n) = view s (KPlugin, jf_namespace jf, n)"
  shows "bound_in k jf s' = bound_in k jf s"
  using list_stable [OF assms] by (simp add: bound_in_def)

text \<open>What a successful run over an instance leaves.\<close>

lemma reconcile_leaves:
  assumes run: "reconcile_instance k quoted jf s = (Inr (), es, s')" and unrefused: "list_all unrefused es"
    and stored: "view s (KJellyfin, jf_namespace jf, jf_name jf) = Some (OJellyfin jf)" and distinct: "distinct_objects jf"
  obtains bound v where "bound_in k jf s = Inr bound" and "stages_ready k jf (HealthyPlugins k bound) v"
    and "\<forall>key. key \<notin> stage_keys \<longrightarrow> v key = view s key"
    and "view s' = v((KJellyfin, jf_namespace jf, jf_name jf)
      \<mapsto> OJellyfin (jf\<lparr>jf_status := jf_status (wanted_status k jf (HealthyPlugins k bound) v)\<rparr>))"
proof -
  obtain es0 where "BoundPlugins k jf s = (bound_in k jf s, es0, s)" using bound_plugins by blast
  with run obtain bound es' where bound: "bound_in k jf s = Inr bound" and es': "es = es0 @ es'"
    and rest: "bind_io (stages_run k quoted jf (HealthyPlugins k bound)) (\<lambda>_. updateInstanceStatus k jf (HealthyPlugins k bound)) s
      = (Inr (), es', s')"
    by (auto simp: reconcile_instance_stages_run bind_io_def split: sum.splits prod.splits)
  from rest obtain es1 s1 es2 where stages: "stages_run k quoted jf (HealthyPlugins k bound) s = (Inr (), es1, s1)"
    and status: "updateInstanceStatus k jf (HealthyPlugins k bound) s1 = (Inr (), es2, s')" and "es' = es1 @ es2"
    by (auto simp: bind_io_def split: sum.splits prod.splits)
  have "list_all unrefused es1" using unrefused es' \<open>es' = es1 @ es2\<close> by simp
  then have ready: "stages_ready k jf (HealthyPlugins k bound) (view s1)"
    using stages_achieve [OF distinct, of quoted "HealthyPlugins k bound", unfolded achieves_def, rule_format, of s] stages
    by (simp add: post_def)
  have kept: "\<forall>key. key \<notin> stage_keys \<longrightarrow> view s1 key = view s key"
    using stages_write [of quoted jf "HealthyPlugins k bound", unfolded writes_in_def, rule_format, of s] stages by (simp add: post_def)
  then have "view s1 (KJellyfin, jf_namespace jf, jf_name jf) = Some (OJellyfin jf)" using stored by (simp add: stage_keys_def)
  from updateInstanceStatus_post(1) [OF this, of "HealthyPlugins k bound"] status
  have "view s' = (view s1)((KJellyfin, jf_namespace jf, jf_name jf)
      \<mapsto> OJellyfin (jf\<lparr>jf_status := jf_status (wanted_status k jf (HealthyPlugins k bound) (view s1))\<rparr>))"
    by (auto simp: post_def)
  with bound ready kept that show thesis by blast
qed

lemma reconcile_instance_again:
  assumes "reconcile_instance k quoted jf s = (Inr (), es, s')" and "list_all unrefused es"
    and "view s (KJellyfin, jf_namespace jf, jf_name jf) = Some (OJellyfin jf)" and "distinct_objects jf"
  shows "\<exists>st. view s' (KJellyfin, jf_namespace jf, jf_name jf) = Some (OJellyfin (jf\<lparr>jf_status := st\<rparr>))
    \<and> still (reconcile_instance k quoted (jf\<lparr>jf_status := st\<rparr>)) s'"
proof -
  obtain bound v where bound: "bound_in k jf s = Inr bound" and ready: "stages_ready k jf (HealthyPlugins k bound) v"
    and kept: "\<forall>key. key \<notin> stage_keys \<longrightarrow> v key = view s key"
    and after: "view s' = v((KJellyfin, jf_namespace jf, jf_name jf)
      \<mapsto> OJellyfin (jf\<lparr>jf_status := jf_status (wanted_status k jf (HealthyPlugins k bound) v)\<rparr>))"
    using reconcile_leaves [OF assms] by blast
  define plugins where "plugins = HealthyPlugins k bound"
  define st where "st = jf_status (wanted_status k jf plugins v)"
  let ?jf = "jf\<lparr>jf_status := st\<rparr>"
  have stored: "view s' (KJellyfin, jf_namespace ?jf, jf_name ?jf) = Some (OJellyfin ?jf)"
    using after by (simp add: st_def plugins_def)
  have "bound_in k jf s' = bound_in k jf s" by (rule bound_stable) (use kept after in \<open>simp add: stage_keys_def\<close>)
  then obtain es0 where plugins_again: "BoundPlugins k jf s' = (Inr bound, es0, s')"
    using bound_plugins [of jf s'] bound by auto
  have "\<forall>key \<in> stage_keys. view s' key = v key" using after by (auto simp: stage_keys_def)
  then have "stages_ready k jf plugins (view s')"
    using reads_ready [of k jf plugins] ready unfolding reads_in_def plugins_def by blast
  then have stages: "still (stages_run k quoted ?jf plugins) s'"
    using stages_still by (simp add: stages_run_def)
  have "deployment_read (view s') jf = deployment_read v jf" using after by (simp add: deployment_read_def)
  from wanted_status_again [OF st_def this] have "jf_status ?jf = jf_status (wanted_status k ?jf plugins (view s'))" by simp
  from updateInstanceStatus_post(2) [OF stored this] have "still (updateInstanceStatus k ?jf plugins) s'" .
  with stages have "still (reconcile_instance k quoted ?jf) s'"
    unfolding reconcile_instance_stages_run
    by (intro still_answered [of _ s' bound es0, OF _ still_bind]) (simp_all add: plugins_again plugins_def)
  with stored show ?thesis by auto
qed

lemma InstanceReconcile_again:
  assumes run: "InstanceReconcile k quoted ns name s = (Inr (), es, s')" and unrefused: "list_all unrefused es"
    and distinct: "\<And>jf. view s (KJellyfin, ns, name) = Some (OJellyfin jf) \<Longrightarrow> distinct_objects jf"
  shows "still (InstanceReconcile k quoted ns name) s'"
proof -
  have read: "get_jellyfin k ns name t = (case view t (KJellyfin, ns, name) of Some (OJellyfin jf) \<Rightarrow>
      (Inr jf, [Got KJellyfin ns name (Inr (OJellyfin jf))], t) | _ \<Rightarrow> (Inl NotFound, [Got KJellyfin ns name (Inl NotFound)], t))" for t
    using jellyfins.get_missing [of t ns name] jellyfins.get_stored [of t ns name] jellyfins.kinds [of t ns name]
    by (auto simp: get_jellyfin_def Get_def call_def split: option.split)
  consider "\<nexists>jf. view s (KJellyfin, ns, name) = Some (OJellyfin jf) \<and> \<not> jf_deleting jf"
    | jf where "view s (KJellyfin, ns, name) = Some (OJellyfin jf)" "\<not> jf_deleting jf" by blast
  then show ?thesis
  proof cases
    case 1
    then have "final (InstanceReconcile k quoted ns name s) = s"
      by (auto simp: InstanceReconcile_def bind_io_def attempt_def read lift_def ret_def split: option.splits obj.splits)
    then show ?thesis using run by (simp add: still_def)
  next
    case 2
    note key = jellyfin_key_stored [OF 2(1)]
    obtain es' where "reconcile_instance k quoted jf s = (Inr (), es', s')" and "list_all unrefused es'"
      using run unrefused 2 by (auto simp: InstanceReconcile_def bind_io_def attempt_def read split: prod.splits)
    from reconcile_instance_again [OF this _ distinct [OF 2(1)]] 2(1) key
    obtain st where stored: "view s' (KJellyfin, ns, name) = Some (OJellyfin (jf\<lparr>jf_status := st\<rparr>))"
      and again: "still (reconcile_instance k quoted (jf\<lparr>jf_status := st\<rparr>)) s'" by auto
    have answer: "attempt (get_jellyfin k ns name) s'
        = (Inr (Inr (jf\<lparr>jf_status := st\<rparr>)), [Got KJellyfin ns name (Inr (OJellyfin (jf\<lparr>jf_status := st\<rparr>)))], s')"
      by (simp add: attempt_def read stored)
    show ?thesis unfolding InstanceReconcile_def by (rule still_answered, rule answer) (use again 2(2) in simp)
  qed
qed

end

text \<open>
  C1. Reconciling an instance twice is reconciling it once. On any API server that stores what it is given, after a run of
  the reconciler that reports success and whose requests to grow claims were not refused, a second run succeeds as well and leaves
  the whole cluster exactly as it is: claims, volumes, Deployments, Services, Ingress, route and the status, with the
  plugins and every option of the spec arbitrary. The names of the instance's objects have to differ, which they can fail
  to do only when they are cut to the length limit.
\<close>

theorem InstanceReconcile_twice:
  assumes "api_server k view" and "InstanceReconcile k quoted ns name s = (Inr (), es, s')" and "list_all unrefused es"
    and "\<And>jf. view s (KJellyfin, ns, name) = Some (OJellyfin jf) \<Longrightarrow> distinct_objects jf"
  shows "result (InstanceReconcile k quoted ns name s') = Inr () \<and> final (InstanceReconcile k quoted ns name s') = s'"
  using api_server.InstanceReconcile_again [OF assms] by (simp add: still_def)

section \<open>A run on the map\<close>

definition smooth :: "('e, 'a) act \<Rightarrow> 'e \<Rightarrow> bool" where
  "smooth m s \<longleftrightarrow> is_ok (result (m s)) \<and> list_all unrefused (events (m s))"

lemma smooth_bind: "smooth m s \<Longrightarrow> (\<And>a. result (m s) = Inr a \<Longrightarrow> smooth (f a) (final (m s))) \<Longrightarrow> smooth (bind_io m f) s"
  by (auto simp: smooth_def bind_io_def is_ok_iff split: prod.splits sum.splits)

lemma smooth_wrapping: "smooth m s \<Longrightarrow> smooth (wrapping f m) s"
  by (simp add: smooth_def run_wrapping)

lemma smooth_ret: "smooth (ret a) s"
  by (simp add: smooth_def ret_def)

lemma smooth_upsert:
  assumes "raw_upsert st = raw_upsert (memory_store mk un kd kept blank)" and "\<And>x. is_ok (f x)"
  shows "smooth (CreateOrUpdate mk kd' st ns n f) s"
  using assms(2) [of "case memory_view s (kd, ns, n) of None \<Rightarrow> blank ns n | Some ob \<Rightarrow> un ob"]
  by (auto simp: smooth_def CreateOrUpdate_def call_def assms(1) memory_store_def is_ok_iff)

lemma smooth_delete:
  assumes "raw_delete st = raw_delete (memory_store mk un kd kept blank)"
  shows "smooth (DeleteIfExists kd' st ns n) s"
  by (simp add: smooth_def DeleteIfExists_def Delete_def bind_io_def attempt_def call_def lift_def IgnoreNotFound_def assms memory_store_def)

text \<open>The stages for the sample instance: one claim, the Deployment and the Service; the rest is deleted.\<close>

definition sample_world :: objects where
  "sample_world = [(KJellyfin, ''media'', ''jf'') \<mapsto> OJellyfin sample_jf]"

lemma owner_set: "SetControllerReference (memory_cluster names) owner owners = Inr (if owner \<in> set owners then owners else owners @ [owner])"
  by (simp add: memory_cluster_def empty_cluster_def)

lemma sample_stages:
  "smooth (reconcileStorage (memory_cluster []) quoted sample_jf) sample_world"
  "smooth (reconcileDeployment (memory_cluster []) sample_jf []) s" "smooth (reconcileService (memory_cluster []) sample_jf) s"
  "smooth (reconcileIngress (memory_cluster []) sample_jf) s" "smooth (reconcileWeb (memory_cluster []) sample_jf) s"
  "smooth (reconcileGateway (memory_cluster []) sample_jf) s"
proof -
  let ?k = "memory_cluster []"
  have claim: "CreateOrUpdate OClaim KClaim (k_claims ?k) ''media'' n (claim_mutate ?k sample_jf no_pvc [ReadWriteOnce] (Gi 10)) sample_world
    = (Inr c, es, s') \<Longrightarrow> map_of (claim_requests c) ResourceStorage = Some (Gi 10)" for n c es s'
    by (auto simp: CreateOrUpdate_def call_def memory_cluster_def memory_store_def sample_world_def memory_view_def claim_mutate_def
        new_claim_def empty_cluster_def stored_claim_at_def Let_def split: if_splits)
  have "smooth (ensurePVC ?k sample_jf n no_pvc [ReadWriteOnce] (Gi 10)) sample_world" for n
    unfolding ensurePVC_def Let_def
  proof (rule smooth_bind, goal_cases)
    case 1 show ?case
      by (rule smooth_upsert) (auto simp: memory_cluster_def claim_mutate_def empty_cluster_def is_ok_iff Let_def)
  next
    case (2 c)
    have "pvc_size_or (Gi 10) no_pvc = Gi 10" "(if pvc_accessModes no_pvc = [] then [ReadWriteOnce] else pvc_accessModes no_pvc) = [ReadWriteOnce]"
      "jf_namespace sample_jf = ''media''" by (simp_all add: pvc_size_or_def sample_defs)
    with 2 claim [of n c] show ?case
      by (cases "CreateOrUpdate OClaim KClaim (k_claims ?k) ''media'' n (claim_mutate ?k sample_jf no_pvc [ReadWriteOnce] (Gi 10)) sample_world")
        (simp add: growPVC_def smooth_ret)
  qed
  then show "smooth (reconcileStorage ?k quoted sample_jf) sample_world"
    unfolding reconcileStorage_def Let_def by (intro smooth_bind) (simp_all add: sample_defs smooth_ret)
  obtain d where d: "BuildDeployment sample_jf [] = Inr d" using BuildDeployment_returns [of "[]" sample_jf] by auto
  show "smooth (reconcileDeployment ?k sample_jf []) s"
    unfolding reconcileDeployment_def upsert_deployment_def
    by (intro smooth_bind smooth_ret smooth_upsert)
      (auto simp: d smooth_def lift_def memory_cluster_def deployment_mutate_def empty_cluster_def is_ok_iff)
  show "smooth (reconcileService ?k sample_jf) s"
    unfolding reconcileService_def
    by (intro smooth_bind smooth_ret smooth_upsert)
      (auto simp: memory_cluster_def instance_service_mutate_def empty_cluster_def is_ok_iff Let_def)
  show "smooth (reconcileIngress ?k sample_jf) s"
    unfolding reconcileIngress_def by (simp add: sample_defs, rule smooth_delete) (simp add: memory_cluster_def)
  show "smooth (reconcileWeb ?k sample_jf) s"
    unfolding reconcileWeb_def by (simp add: sample_defs, intro smooth_bind smooth_delete) (simp_all add: memory_cluster_def)
  show "smooth (reconcileGateway ?k sample_jf) s"
    unfolding reconcileGateway_def by (simp add: sample_defs, rule smooth_delete) (simp add: memory_cluster_def)
qed

lemma smooth_attempts: "smooth m s \<Longrightarrow> smooth (attempts n m) s"
  by (cases n) (auto simp: smooth_def bind_io_def attempt_def lift_def is_ok_iff split: prod.splits)

lemma sample_status:
  assumes "memory_view s (KJellyfin, jf_namespace jf, jf_name jf) = Some (OJellyfin cur)"
  shows "smooth (updateInstanceStatus (memory_cluster names) jf plugins) s"
proof -
  let ?k = "memory_cluster names"
  have run: "smooth (status_run ?k x) t"
    if "memory_view t (KJellyfin, jf_namespace x, jf_name x) = Some (OJellyfin cur)" for x t
  proof -
    have key: "jf_namespace cur = jf_namespace x" "jf_name cur = jf_name x" using memory.jellyfin_key_stored [OF that] by simp_all
    have "get_jellyfin ?k (jf_namespace x) (jf_name x) t
        = (Inr cur, [Got KJellyfin (jf_namespace x) (jf_name x) (Inr (OJellyfin cur))], t)"
      using memory.jellyfins.get_stored [OF that] by (simp add: get_jellyfin_def Get_def call_def)
    moreover have "smooth (StatusUpdate OJellyfin (k_jellyfins ?k) (cur\<lparr>jf_status := jf_status x\<rparr>)) t"
      using that key by (simp add: smooth_def StatusUpdate_def call_def memory_cluster_def write_status_def jellyfin_key_def)
    ultimately show ?thesis unfolding status_run_def by (intro smooth_bind) (simp_all add: smooth_def)
  qed
  have "RetryOnConflict ?k = attempts 4" by (simp add: memory_cluster_def empty_cluster_def)
  then have accepted: "smooth (writeJellyfinStatus ?k x) t"
    if "memory_view t (KJellyfin, jf_namespace x, jf_name x) = Some (OJellyfin cur)" for x t
    using smooth_attempts [OF run [OF that]] by (simp add: writeJellyfinStatus_def status_run_def)
  obtain es where get: "attempt (Get ODeployment KDeployment (k_deployments ?k) (jf_namespace jf) (jf_name jf)) s
      = (Inr (deployment_read (memory_view s) jf), es, s)" using memory.get_deployment by blast
  then have "list_all unrefused es" by (auto simp: attempt_def Get_def call_def split: prod.splits)
  with get have "smooth (attempt (Get ODeployment KDeployment (k_deployments ?k) (jf_namespace jf) (jf_name jf))) s" by (simp add: smooth_def)
  then show ?thesis unfolding updateInstanceStatus_def
    by (rule smooth_bind) (use get assms in \<open>simp add: accepted instance_status_key\<close>)
qed

lemma sample_distinct: "distinct_objects sample_jf"
proof -
  have "WebDeploymentName sample_jf \<noteq> jf_name sample_jf" "WebServiceName sample_jf \<noteq> jf_name sample_jf" by code_simp+
  then show ?thesis by (simp add: distinct_objects_def distinct_volumes_def sample_defs)
qed

lemma sample_run:
  obtains es s' where "InstanceReconcile (memory_cluster []) quoted ''media'' ''jf'' sample_world = (Inr (), es, s')"
    and "list_all unrefused es" and "s' (KDeployment, ''media'', ''jf'') \<noteq> None"
proof -
  let ?k = "memory_cluster []"
  have key: "jf_namespace sample_jf = ''media''" "jf_name sample_jf = ''jf''" by (simp_all add: sample_jf_def)
  have stored: "memory_view sample_world (KJellyfin, jf_namespace sample_jf, jf_name sample_jf) = Some (OJellyfin sample_jf)"
    by (simp add: sample_world_def memory_view_def stored_jellyfin_at_def sample_jf_def)
  have "bound_in ?k sample_jf sample_world = Inr []"
    by (simp add: bound_in_def memory_cluster_def list_named_def map_filter_simps)
  then obtain es0 where bound: "BoundPlugins ?k sample_jf sample_world = (Inr [], es0, sample_world)"
    using memory.bound_plugins [of "[]" sample_jf sample_world] by auto
  then have "list_all unrefused es0"
    by (auto simp: BoundPlugins_def list_plugins_def List_in_def bind_io_def call_def ret_def split: sum.splits prod.splits)
  have stages: "smooth (stages_run ?k quoted sample_jf []) sample_world"
    unfolding stages_run_def by (intro smooth_bind smooth_wrapping sample_stages)
  have "memory_view (final (stages_run ?k quoted sample_jf [] sample_world)) (KJellyfin, jf_namespace sample_jf, jf_name sample_jf)
      = Some (OJellyfin sample_jf)"
    using memory.stages_write [of "[]" quoted sample_jf "[]"] stored by (simp add: writes_in_def post_iff stage_keys_def)
  then have "smooth (updateInstanceStatus ?k sample_jf []) (final (stages_run ?k quoted sample_jf [] sample_world))"
    by (rule sample_status)
  with stages bound \<open>list_all unrefused es0\<close> have "smooth (reconcile_instance ?k quoted sample_jf) sample_world"
    unfolding reconcile_instance_stages_run by (intro smooth_bind) (simp_all add: smooth_def HealthyPlugins_def)
  then obtain es s' where run: "reconcile_instance ?k quoted sample_jf sample_world = (Inr (), es, s')" "list_all unrefused es"
    by (cases "reconcile_instance ?k quoted sample_jf sample_world") (auto simp: smooth_def is_ok_iff)
  obtain b v where "stages_ready ?k sample_jf (HealthyPlugins ?k b) v"
    and "memory_view s' = v((KJellyfin, jf_namespace sample_jf, jf_name sample_jf)
      \<mapsto> OJellyfin (sample_jf\<lparr>jf_status := jf_status (wanted_status ?k sample_jf (HealthyPlugins ?k b) v)\<rparr>))"
    by (rule memory.reconcile_leaves [OF run stored sample_distinct])
  then have "memory_view s' (KDeployment, ''media'', ''jf'') \<noteq> None"
    by (auto simp: stages_ready_def server_ready_def deployment_as_def has_fixed_def key)
  then have "s' (KDeployment, ''media'', ''jf'') \<noteq> None" by (auto simp: memory_view_def split: option.splits)
  moreover have "InstanceReconcile ?k quoted ''media'' ''jf'' sample_world
      = (Inr (), Got KJellyfin ''media'' ''jf'' (Inr (OJellyfin sample_jf)) # es, s')"
    using memory.jellyfins.get_stored [OF stored] run(1) key
    by (simp add: InstanceReconcile_def get_jellyfin_def Get_def call_def bind_io_def attempt_def sample_jf_def)
  ultimately show thesis using that run(2) by auto
qed

theorem InstanceReconcile_twice_witness:
  "\<exists>es s'. InstanceReconcile (memory_cluster []) (\<lambda>t. t) ''media'' ''jf'' sample_world = (Inr (), es, s')
     \<and> s' (KDeployment, ''media'', ''jf'') \<noteq> None
     \<and> final (InstanceReconcile (memory_cluster []) (\<lambda>t. t) ''media'' ''jf'' s') = s'"
proof -
  obtain es s' where run: "InstanceReconcile (memory_cluster []) (\<lambda>t. t) ''media'' ''jf'' sample_world = (Inr (), es, s')"
    "list_all unrefused es" and there: "s' (KDeployment, ''media'', ''jf'') \<noteq> None" by (rule sample_run)
  have "distinct_objects jf" if "memory_view sample_world (KJellyfin, ''media'', ''jf'') = Some (OJellyfin jf)" for jf
    using that sample_distinct by (simp add: sample_world_def memory_view_def stored_jellyfin_at_def sample_jf_def)
  from InstanceReconcile_twice [OF memory.api_server_axioms run this] run(1) there show ?thesis by blast
qed

end
