(* ===== verification/Plugin_Steady.thy ===== *)
theory Plugin_Steady
  imports Steady
begin

text \<open>
  The whole reconcile of a plugin, run twice: finalizer, companion workloads with the pruning of removed ones, Services and status. What
  a successful run leaves is what the next one is satisfied with, as for instances in \<open>Steady\<close>.
\<close>

section \<open>The server, as the plugin reconciler uses it\<close>

text \<open>
  A list returns the stored objects that it is asked for; \<open>listed\<close> says which Deployments these are, and may leave out any. An update
  of a plugin does not touch its status.
\<close>

locale plugin_server = api_server k view +
  plugins: object_store view OPlugin KPlugin stored_plugin_at "k_plugins k"
  for k :: "'e cluster" and view :: "'e \<Rightarrow> objects" +
  fixes listed :: "string \<Rightarrow> labels \<Rightarrow> LiveDeployment \<Rightarrow> bool"
  assumes deployments_listed: "\<exists>items. raw_list (k_deployments k) ns ls s = (Inr items, s)
      \<and> set items = {d. listed ns ls d \<and> d_namespace d = ns \<and> view s (KDeployment, ns, d_name d) = Some (ODeployment d)}"
    and jellyfins_list_reads: "\<exists>r. raw_list (k_jellyfins k) ns ls s = (r, s)"
    and jellyfins_list_stable: "(\<And>n. view s' (KJellyfin, ns, n) = view s (KJellyfin, ns, n)) \<Longrightarrow>
        fst (raw_list (k_jellyfins k) ns ls s') = fst (raw_list (k_jellyfins k) ns ls s)"
    and plugin_updated: "raw_update (k_plugins k) x s = (Inr y, s') \<Longrightarrow>
        view s (KPlugin, jp_namespace x, jp_name x) = Some (OPlugin cur) \<Longrightarrow>
        y = x\<lparr>jp_status := jp_status cur\<rparr> \<and> view s' = (view s)((KPlugin, jp_namespace x, jp_name x) \<mapsto> OPlugin y)"
    and plugin_status_written: "raw_updateStatus (k_plugins k) x s = (Inr (), s') \<Longrightarrow>
        view s (KPlugin, jp_namespace x, jp_name x) = Some (OPlugin cur) \<Longrightarrow>
        view s' = (view s)((KPlugin, jp_namespace x, jp_name x) \<mapsto> OPlugin (cur\<lparr>jp_status := jp_status x\<rparr>))"
    and plugin_status_same: "view s (KPlugin, jp_namespace x, jp_name x) = Some (OPlugin cur) \<Longrightarrow> jp_status cur = jp_status x \<Longrightarrow>
        raw_updateStatus (k_plugins k) x s = (Inr (), s)"
    and finalizer_added: "ContainsFinalizer k (AddFinalizer k fs f) f"

section \<open>Companions\<close>

definition workload_ready :: "'e cluster \<Rightarrow> JellyfinPlugin \<Rightarrow> Jellyfin option \<Rightarrow> PluginWorkload \<Rightarrow> objects \<Rightarrow> bool" where
  "workload_ready k p jfo w = has_fixed ODeployment (KDeployment, jp_namespace p, WorkloadName p w)
     (workload_mutate k p (BuildWorkloadDeployment jfo p w))"

definition service_ready_for :: "'e cluster \<Rightarrow> JellyfinPlugin \<Rightarrow> Jellyfin option \<Rightarrow> PluginService \<Rightarrow> objects \<Rightarrow> bool" where
  "service_ready_for k p jfo svc v \<longleftrightarrow> (\<exists>desired. BuildPluginService p svc (case jfo of None \<Rightarrow> '''' | Some jf \<Rightarrow> jf_name jf) = Inr desired
     \<and> has_fixed OService (KService, jp_namespace p, pls_name svc) (service_mutate k p desired) v)"

definition spec_workloads :: "JellyfinPlugin \<Rightarrow> (string, bool) go_map" where
  "spec_workloads p = string_set (map w_name (jps_workloads (jp_spec p)))"

text \<open>No stored Deployment that the pruning would find is one that it would delete.\<close>

definition none_stale :: "(string \<Rightarrow> labels \<Rightarrow> LiveDeployment \<Rightarrow> bool) \<Rightarrow> JellyfinPlugin \<Rightarrow> objects \<Rightarrow> bool" where
  "none_stale listed p v \<longleftrightarrow> (\<forall>d. listed (jp_namespace p) [(PluginLabel, jp_name p)] d \<longrightarrow> d_namespace d = jp_namespace p \<longrightarrow>
     v (KDeployment, jp_namespace p, d_name d) = Some (ODeployment d) \<longrightarrow> \<not> stale_workload (spec_workloads p) d)"

text \<open>Companions have different names; workload names that only the length limit makes equal would break this.\<close>

definition distinct_companions :: "JellyfinPlugin \<Rightarrow> bool" where
  "distinct_companions p \<longleftrightarrow> distinct (map (WorkloadName p) (jps_workloads (jp_spec p)))
     \<and> distinct (map pls_name (jps_services (jp_spec p)))"

lemma companion_place:
  "d_namespace (BuildWorkloadDeployment jfo p w) = jp_namespace p" "d_name (BuildWorkloadDeployment jfo p w) = WorkloadName p w"
  by (simp_all add: BuildWorkloadDeployment_def Let_def split_beta)

lemma plugin_service_place: "BuildPluginService p svc n = Inr desired \<Longrightarrow> s_namespace desired = jp_namespace p \<and> s_name desired = pls_name svc"
  by (auto simp: BuildPluginService_def Let_def)

text \<open>A companion that is as its workload says is not stale.\<close>

lemma workload_mutate_labels: "workload_mutate k p dep d = Inr d' \<Longrightarrow> d_labels d' = d_labels dep"
  by (auto simp: workload_mutate_def)

lemma ready_not_stale:
  assumes "workload_ready k p jfo w v" and "w \<in> set (jps_workloads (jp_spec p))"
    and "v (KDeployment, jp_namespace p, WorkloadName p w) = Some (ODeployment d)"
  shows "\<not> stale_workload (spec_workloads p) d"
proof -
  have "workload_mutate k p (BuildWorkloadDeployment jfo p w) d = Inr d" using assms(1,3) by (simp add: workload_ready_def has_fixed_def)
  then have "d_labels d = d_labels (BuildWorkloadDeployment jfo p w)" by (rule workload_mutate_labels)
  moreover have "map_of (d_labels (BuildWorkloadDeployment jfo p w)) WorkloadLabel = Some (w_name w)"
    by (simp add: BuildWorkloadDeployment_def Let_def split_beta map_of_map_put workloadSelectorLabels_def label_consts ManagedByLabel_def)
  ultimately show ?thesis using assms(2) by (auto simp: spec_workloads_def stale_workload_iff)
qed

lemma bind_lift: "bind_io (lift (Inr a)) f = f a"
  by (auto simp: bind_io_def lift_def fun_eq_iff split: prod.split)

text \<open>The keys that a pruning of some items deletes.\<close>

definition stale_keys :: "JellyfinPlugin \<Rightarrow> LiveDeployment list \<Rightarrow> key set" where
  "stale_keys p items = (\<lambda>d. (KDeployment, d_namespace d, d_name d)) ` set (filter (stale_workload (spec_workloads p)) items)"

definition companion_keys :: "JellyfinPlugin \<Rightarrow> key set" where
  "companion_keys p = {key. fst key = KDeployment}"

abbreviation plugin_service_keys :: "key set" where "plugin_service_keys \<equiv> {key. fst key = KService}"

definition workloads_ready :: "'e cluster \<Rightarrow> JellyfinPlugin \<Rightarrow> Jellyfin option \<Rightarrow> objects \<Rightarrow> bool" where
  "workloads_ready k p jfo v \<longleftrightarrow> (\<forall>w \<in> set (jps_workloads (jp_spec p)). workload_ready k p jfo w v)"

definition services_ready :: "'e cluster \<Rightarrow> JellyfinPlugin \<Rightarrow> Jellyfin option \<Rightarrow> objects \<Rightarrow> bool" where
  "services_ready k p jfo v \<longleftrightarrow> (\<forall>svc \<in> set (jps_services (jp_spec p)). service_ready_for k p jfo svc v)"

definition companions_run :: "'e cluster \<Rightarrow> JellyfinPlugin \<Rightarrow> Jellyfin option \<Rightarrow> ('e, unit) act" where
  "companions_run k p jfo = bind_io (wrapping (Wrap ''workloads'') (reconcileWorkloads k p jfo)) (\<lambda>_.
     wrapping (Wrap ''services'') (reconcileServices k p jfo))"

lemma reads_companions:
  "reads_in {(KDeployment, jp_namespace p, WorkloadName p w)} (workload_ready k p jfo w)"
  "reads_in {(KService, jp_namespace p, pls_name svc)} (service_ready_for k p jfo svc)"
  "reads_in {key. fst key = KDeployment} (workloads_ready k p jfo)"
  "reads_in {key. fst key = KDeployment} (none_stale listed p)"
  "reads_in {key. fst key = KService} (services_ready k p jfo)"
  by (auto simp: reads_in_def workload_ready_def service_ready_for_def workloads_ready_def services_ready_def none_stale_def has_fixed_def) 

context plugin_server begin

definition workload_upsert :: "JellyfinPlugin \<Rightarrow> Jellyfin option \<Rightarrow> PluginWorkload \<Rightarrow> ('e, unit) act" where
  "workload_upsert p jfo w = bind_io (CreateOrUpdate ODeployment KDeployment (k_deployments k) (jp_namespace p) (WorkloadName p w)
     (workload_mutate k p (BuildWorkloadDeployment jfo p w))) (\<lambda>_. ret ())"

lemma workload_upsert_rules:
  "achieves view (workload_upsert p jfo w) (workload_ready k p jfo w)"
  "writes_in view {(KDeployment, jp_namespace p, WorkloadName p w)} (workload_upsert p jfo w)"
  "workload_ready k p jfo w (view s) \<Longrightarrow> still (workload_upsert p jfo w) s"
proof -
  have "achieves view (CreateOrUpdate ODeployment KDeployment (k_deployments k) (jp_namespace p) (WorkloadName p w)
     (workload_mutate k p (BuildWorkloadDeployment jfo p w))) (workload_ready k p jfo w)"
    unfolding workload_ready_def by (rule deployments.upsert_achieves) (rule workload.settles)
  from achieves_bind [OF this achieves_True preserves_ret]
  show "achieves view (workload_upsert p jfo w) (workload_ready k p jfo w)" by (simp add: workload_upsert_def)
  show "writes_in view {(KDeployment, jp_namespace p, WorkloadName p w)} (workload_upsert p jfo w)"
    unfolding workload_upsert_def by (intro writes_intros deployments.upsert_writes) simp
  show "workload_ready k p jfo w (view s) \<Longrightarrow> still (workload_upsert p jfo w) s"
    unfolding workload_upsert_def workload_ready_def by (rule deployments.upsert_still)
qed

text \<open>Writes at other keys keep a companion.\<close>

lemma workloads_achieve:
  assumes "distinct_companions p"
  shows "achieves view (each (workload_upsert p jfo) (jps_workloads (jp_spec p))) (workloads_ready k p jfo)"
  unfolding workloads_ready_def [abs_def]
proof (rule achieves_each)
  fix w w' assume w: "w \<in> set (jps_workloads (jp_spec p))" "w' \<in> set (jps_workloads (jp_spec p))"
  show "preserves view (workload_upsert p jfo w') (workload_ready k p jfo w)"
  proof (cases "WorkloadName p w' = WorkloadName p w")
    case True
    then have "w' = w" using assms w by (auto simp: distinct_companions_def distinct_map dest: inj_onD)
    moreover have "preserves view (workload_upsert p jfo w) (workload_ready k p jfo w)"
      unfolding preserves_def
    proof (intro allI impI)
      fix s assume "workload_ready k p jfo w (view s)"
      then show "post (workload_upsert p jfo w) s (\<lambda>r es s'. workload_ready k p jfo w (view s'))"
        using workload_upsert_rules(3) by (simp add: post_iff still_def)
    qed
    ultimately show ?thesis by simp
  next
    case False
    then show ?thesis by (intro preserves_frame [OF workload_upsert_rules(2) reads_companions(1)]) simp
  qed
qed (rule workload_upsert_rules)

lemma prune_items:
  "achieves view (each (prune_item k (spec_workloads p)) items) (\<lambda>v. \<forall>d \<in> set items. stale_workload (spec_workloads p) d \<longrightarrow>
     has_none (KDeployment, d_namespace d, d_name d) v)"
  "writes_in view (stale_keys p items) (each (prune_item k (spec_workloads p)) items)"
proof -
  have keeps: "preserves view (prune_item k (spec_workloads p) d') (has_none (KDeployment, d_namespace d, d_name d))" for d d'
  proof (cases "d_namespace d' = d_namespace d \<and> d_name d' = d_name d")
    case True
    then show ?thesis
      using deployments.delete_still [of "d_namespace d" "d_name d"] by (auto simp: preserves_def post_iff still_def prune_item_def ret_def)
  next
    case False
    have "writes_in view {(KDeployment, d_namespace d', d_name d')} (prune_item k (spec_workloads p) d')"
      unfolding prune_item_def by (intro writes_intros deployments.delete_writes) simp
    then show ?thesis by (rule preserves_frame [OF _ reads_none]) (use False in auto)
  qed
  show "achieves view (each (prune_item k (spec_workloads p)) items) (\<lambda>v. \<forall>d \<in> set items. stale_workload (spec_workloads p) d \<longrightarrow>
     has_none (KDeployment, d_namespace d, d_name d) v)"
  proof (rule achieves_each)
    fix d show "achieves view (prune_item k (spec_workloads p) d) (\<lambda>v. stale_workload (spec_workloads p) d \<longrightarrow>
        has_none (KDeployment, d_namespace d, d_name d) v)"
      by (simp add: prune_item_def achieves_True deployments.delete_achieves)
  qed (rule preserves_cond, rule keeps)
  show "writes_in view (stale_keys p items) (each (prune_item k (spec_workloads p)) items)"
    unfolding prune_item_def by (intro writes_intros deployments.delete_writes) (auto simp: stale_keys_def)
qed

lemma prune_rules:
  "workloads_ready k p jfo (view s) \<Longrightarrow> post (pruneWorkloads k p (spec_workloads p)) s (\<lambda>r es s'.
     is_ok r \<longrightarrow> list_all unrefused es \<longrightarrow> workloads_ready k p jfo (view s') \<and> none_stale listed p (view s'))"
  "writes_in view {key. fst key = KDeployment} (pruneWorkloads k p (spec_workloads p))"
  "none_stale listed p (view s) \<Longrightarrow> still (pruneWorkloads k p (spec_workloads p)) s"
proof -
  have run: "\<exists>items es. list_workloads k p t = (Inr items, es, t)
      \<and> set items = {d. listed (jp_namespace p) [(PluginLabel, jp_name p)] d \<and> d_namespace d = jp_namespace p
          \<and> view t (KDeployment, jp_namespace p, d_name d) = Some (ODeployment d)}" for t
    using deployments_listed [of "jp_namespace p" "[(PluginLabel, jp_name p)]" t] by (auto simp: list_workloads_def List_in_def call_def)
  have prune: "pruneWorkloads k p (spec_workloads p) = bind_io (list_workloads k p) (each (prune_item k (spec_workloads p)))"
    by (simp add: pruneWorkloads_def prune_item_def [abs_def])
  show "post (pruneWorkloads k p (spec_workloads p)) s (\<lambda>r es s'.
     is_ok r \<longrightarrow> list_all unrefused es \<longrightarrow> workloads_ready k p jfo (view s') \<and> none_stale listed p (view s'))"
    if ready: "workloads_ready k p jfo (view s)"
  proof -
    obtain items es0 where items: "list_workloads k p s = (Inr items, es0, s)"
      "set items = {d. listed (jp_namespace p) [(PluginLabel, jp_name p)] d \<and> d_namespace d = jp_namespace p
        \<and> view s (KDeployment, jp_namespace p, d_name d) = Some (ODeployment d)}" using run by blast
    have apart: "(KDeployment, jp_namespace p, WorkloadName p w) \<notin> stale_keys p items" if "w \<in> set (jps_workloads (jp_spec p))" for w
      using ready that items(2) by (auto simp: stale_keys_def workloads_ready_def dest!: ready_not_stale)
    obtain r es s' where each: "each (prune_item k (spec_workloads p)) items s = (r, es, s')" by (cases "each (prune_item k (spec_workloads p)) items s")
    have "\<forall>key. key \<notin> stale_keys p items \<longrightarrow> view s' key = view s key"
      using prune_items(2) [of p items, unfolded writes_in_def, rule_format, of s] each by (simp add: post_def)
    then have kept: "view s' key = view s key" if "key \<notin> stale_keys p items" for key using that by blast
    have "workloads_ready k p jfo (view s')"
      using ready kept [OF apart] by (simp add: workloads_ready_def workload_ready_def has_fixed_def)
    moreover have "none_stale listed p (view s')" if "is_ok r" "list_all unrefused es"
    proof -
      have gone: "view s' (KDeployment, d_namespace d, d_name d) = None" if "d \<in> set items" "stale_workload (spec_workloads p) d" for d
        using prune_items(1) [of p items, unfolded achieves_def, rule_format, of s] each \<open>is_ok r\<close> \<open>list_all unrefused es\<close> that
        by (simp add: post_def has_none_def)
      show ?thesis unfolding none_stale_def
      proof (intro allI impI notI)
        fix d assume d: "listed (jp_namespace p) [(PluginLabel, jp_name p)] d" "d_namespace d = jp_namespace p"
          "view s' (KDeployment, jp_namespace p, d_name d) = Some (ODeployment d)" "stale_workload (spec_workloads p) d"
        have "(KDeployment, jp_namespace p, d_name d) \<notin> stale_keys p items"
          using d(3) gone by (auto simp: stale_keys_def)
        from kept [OF this] d items(2) have "d \<in> set items" by simp
        from gone [OF this d(4)] d(2,3) show False by simp
      qed
    qed
    ultimately show ?thesis unfolding prune post_def bind_io_def by (simp add: items(1) each)
  qed
  show "writes_in view {key. fst key = KDeployment} (pruneWorkloads k p (spec_workloads p))"
    unfolding pruneWorkloads_def
  proof (intro writes_intros deployments.delete_writes)
    show "writes_in view {key. fst key = KDeployment} (list_workloads k p)"
      unfolding writes_in_def post_iff using run by (metis snd_conv)
  qed simp
  show "still (pruneWorkloads k p (spec_workloads p)) s" if "none_stale listed p (view s)"
  proof -
    obtain items es0 where items: "list_workloads k p s = (Inr items, es0, s)"
      "set items = {d. listed (jp_namespace p) [(PluginLabel, jp_name p)] d \<and> d_namespace d = jp_namespace p
        \<and> view s (KDeployment, jp_namespace p, d_name d) = Some (ODeployment d)}" using run by blast
    have "still (each (prune_item k (spec_workloads p)) items) s"
      by (rule still_each) (use that items(2) in \<open>auto simp: prune_item_def none_stale_def still_ret\<close>)
    then show ?thesis unfolding prune by (rule still_answered [of "list_workloads k p" s items es0, OF items(1)])
  qed
qed

lemma reconcileWorkloads_run: "reconcileWorkloads k p jfo
    = bind_io (each (workload_upsert p jfo) (jps_workloads (jp_spec p))) (\<lambda>_. pruneWorkloads k p (spec_workloads p))"
  by (simp add: reconcileWorkloads_def workload_upsert_def [abs_def] spec_workloads_def companion_place Let_def)

lemma workloads_rules:
  "distinct_companions p \<Longrightarrow>
    achieves view (reconcileWorkloads k p jfo) (\<lambda>v. workloads_ready k p jfo v \<and> none_stale listed p v)"
  "writes_in view {key. fst key = KDeployment} (reconcileWorkloads k p jfo)"
  "workloads_ready k p jfo (view s) \<Longrightarrow> none_stale listed p (view s) \<Longrightarrow> still (reconcileWorkloads k p jfo) s"
proof -
  show "achieves view (reconcileWorkloads k p jfo) (\<lambda>v. workloads_ready k p jfo v \<and> none_stale listed p v)" if "distinct_companions p"
    unfolding achieves_def reconcileWorkloads_run
  proof
    fix s
    have first: "post (each (workload_upsert p jfo) (jps_workloads (jp_spec p))) s
        (\<lambda>r es s'. is_ok r \<longrightarrow> list_all unrefused es \<longrightarrow> workloads_ready k p jfo (view s'))"
      using workloads_achieve [OF that] by (simp add: achieves_def)
    show "post (bind_io (each (workload_upsert p jfo) (jps_workloads (jp_spec p))) (\<lambda>_. pruneWorkloads k p (spec_workloads p))) s
        (\<lambda>r es s'. is_ok r \<longrightarrow> list_all unrefused es \<longrightarrow> workloads_ready k p jfo (view s') \<and> none_stale listed p (view s'))"
    proof (rule post_bindI [OF first])
      fix a es s' assume ready: "is_ok (Inr a :: go_error + unit) \<longrightarrow> list_all unrefused es \<longrightarrow> workloads_ready k p jfo (view s')"
      show "post (pruneWorkloads k p (spec_workloads p)) s' (\<lambda>r es' s'. is_ok r \<longrightarrow> list_all unrefused (es @ es') \<longrightarrow>
          workloads_ready k p jfo (view s') \<and> none_stale listed p (view s'))"
        using ready prune_rules(1) [of p jfo s'] by (cases "list_all unrefused es") (simp_all add: post_iff)
    qed simp
  qed
  show "writes_in view {key. fst key = KDeployment} (reconcileWorkloads k p jfo)"
    unfolding reconcileWorkloads_run workload_upsert_def by (intro writes_intros deployments.upsert_writes prune_rules(2)) simp
  show "still (reconcileWorkloads k p jfo) s" if "workloads_ready k p jfo (view s)" "none_stale listed p (view s)"
    unfolding reconcileWorkloads_run
    by (intro still_bind still_each prune_rules(3) workload_upsert_rules(3)) (use that in \<open>auto simp: workloads_ready_def\<close>)
qed

text \<open>Services.\<close>

definition service_upsert :: "JellyfinPlugin \<Rightarrow> Jellyfin option \<Rightarrow> PluginService \<Rightarrow> ('e, unit) act" where
  "service_upsert p jfo svc = bind_io (lift (map_err ServiceErr (BuildPluginService p svc (case jfo of None \<Rightarrow> '''' | Some jf \<Rightarrow> jf_name jf)))) (\<lambda>desired.
     bind_io (CreateOrUpdate OService KService (k_services k) (s_namespace desired) (s_name desired) (service_mutate k p desired)) (\<lambda>_. ret ()))"

lemma service_upsert_run:
  assumes "BuildPluginService p svc (case jfo of None \<Rightarrow> '''' | Some jf \<Rightarrow> jf_name jf) = Inr desired"
  shows "service_upsert p jfo svc = bind_io (CreateOrUpdate OService KService (k_services k) (jp_namespace p) (pls_name svc)
    (service_mutate k p desired)) (\<lambda>_. ret ())"
  using plugin_service_place [OF assms] by (simp add: service_upsert_def assms bind_lift)

lemma service_upsert_rules:
  "achieves view (service_upsert p jfo svc) (service_ready_for k p jfo svc)"
  "writes_in view {(KService, jp_namespace p, pls_name svc)} (service_upsert p jfo svc)"
  "service_ready_for k p jfo svc (view s) \<Longrightarrow> still (service_upsert p jfo svc) s"
proof -
  let ?build = "BuildPluginService p svc (case jfo of None \<Rightarrow> '''' | Some jf \<Rightarrow> jf_name jf)"
  show "achieves view (service_upsert p jfo svc) (service_ready_for k p jfo svc)"
  proof (cases ?build)
    case (Inl e)
    then show ?thesis by (simp add: service_upsert_def achieves_def post_bind post_lift)
  next
    case (Inr desired)
    have "achieves view (service_upsert p jfo svc) (has_fixed OService (KService, jp_namespace p, pls_name svc) (service_mutate k p desired))"
      unfolding service_upsert_run [OF Inr] by (rule upsert_rules) (rule plugin_service.settles)
    then show ?thesis by (simp add: service_ready_for_def [abs_def] Inr)
  qed
  show "writes_in view {(KService, jp_namespace p, pls_name svc)} (service_upsert p jfo svc)"
  proof (cases ?build)
    case (Inl e)
    then show ?thesis by (simp add: service_upsert_def writes_in_def post_bind post_lift)
  next
    case (Inr desired)
    show ?thesis unfolding service_upsert_run [OF Inr] by (intro writes_intros services.upsert_writes) simp
  qed
  show "still (service_upsert p jfo svc) s" if ready: "service_ready_for k p jfo svc (view s)"
  proof -
    obtain desired where d: "?build = Inr desired"
      "has_fixed OService (KService, jp_namespace p, pls_name svc) (service_mutate k p desired) (view s)"
      using ready unfolding service_ready_for_def by blast
    show ?thesis unfolding service_upsert_run [OF d(1)] by (rule services.upsert_still [OF d(2)])
  qed
qed

lemma services_rules:
  "distinct_companions p \<Longrightarrow> achieves view (reconcileServices k p jfo) (services_ready k p jfo)"
  "writes_in view {key. fst key = KService} (reconcileServices k p jfo)"
  "services_ready k p jfo (view s) \<Longrightarrow> still (reconcileServices k p jfo) s"
proof -
  have run: "reconcileServices k p jfo = each (service_upsert p jfo) (jps_services (jp_spec p))"
    by (simp add: reconcileServices_def service_upsert_def [abs_def])
  show "achieves view (reconcileServices k p jfo) (services_ready k p jfo)" if "distinct_companions p"
    unfolding run services_ready_def [abs_def]
  proof (rule achieves_each)
    fix x y assume xy: "x \<in> set (jps_services (jp_spec p))" "y \<in> set (jps_services (jp_spec p))"
    show "preserves view (service_upsert p jfo y) (service_ready_for k p jfo x)"
    proof (cases "pls_name y = pls_name x")
      case True
      then have "y = x" using that xy by (auto simp: distinct_companions_def distinct_map dest: inj_onD)
      then show ?thesis using service_upsert_rules(3) [of p jfo x] by (auto simp: preserves_def post_iff still_def)
    next
      case False
      then show ?thesis by (intro preserves_frame [OF service_upsert_rules(2) reads_companions(2)]) simp
    qed
  qed (rule service_upsert_rules)
  show "writes_in view {key. fst key = KService} (reconcileServices k p jfo)"
    unfolding run by (intro writes_each writes_weaken [OF service_upsert_rules(2)]) simp
  show "still (reconcileServices k p jfo) s" if "services_ready k p jfo (view s)"
    unfolding run by (intro still_each service_upsert_rules(3)) (use that in \<open>simp add: services_ready_def\<close>)
qed

text \<open>Both.\<close>

definition companions_ready :: "JellyfinPlugin \<Rightarrow> Jellyfin option \<Rightarrow> objects \<Rightarrow> bool" where
  "companions_ready p jfo v \<longleftrightarrow> (workloads_ready k p jfo v \<and> none_stale listed p v) \<and> services_ready k p jfo v"

lemma companions_rules:
  "distinct_companions p \<Longrightarrow> achieves view (companions_run k p jfo) (companions_ready p jfo)"
  "writes_in view {key. fst key \<in> {KDeployment, KService}} (companions_run k p jfo)"
  "companions_ready p jfo (view s) \<Longrightarrow> still (companions_run k p jfo) s"
proof -
  have reads: "reads_in {key. fst key = KDeployment} (\<lambda>v. workloads_ready k p jfo v \<and> none_stale listed p v)"
    by (intro reads_in_conj reads_companions)
  show "achieves view (companions_run k p jfo) (companions_ready p jfo)" if "distinct_companions p"
    unfolding companions_run_def companions_ready_def [abs_def]
    by (intro achieves_bind achieves_wrapping workloads_rules(1) services_rules(1) preserves_wrapping
        preserves_frame [OF services_rules(2) reads] that) auto
  show "writes_in view {key. fst key \<in> {KDeployment, KService}} (companions_run k p jfo)"
    unfolding companions_run_def
    by (intro writes_intros writes_weaken [OF workloads_rules(2)] writes_weaken [OF services_rules(2)]) auto
  show "still (companions_run k p jfo) s" if "companions_ready p jfo (view s)"
    unfolding companions_run_def
    by (intro still_bind still_wrapping workloads_rules(3) services_rules(3)) (use that in \<open>simp_all add: companions_ready_def\<close>)
qed

end

section \<open>The status\<close>

text \<open>The replica counts of the stored companions.\<close>

definition counts_in :: "objects \<Rightarrow> JellyfinPlugin \<Rightarrow> PluginWorkload list \<Rightarrow> int32 \<times> int32 \<Rightarrow> int32 \<times> int32" where
  "counts_in v p ws = fold (\<lambda>w (desiredWL, readyWL). case v (KDeployment, jp_namespace p, WorkloadName p w) of
     Some (ODeployment dep) \<Rightarrow> (desiredWL + deref (d_replicas dep) 0, readyWL + ld_readyReplicas dep)
   | _ \<Rightarrow> (desiredWL, readyWL)) ws"

definition plugin_status_in :: "'e cluster \<Rightarrow> JellyfinPlugin \<Rightarrow> Jellyfin option \<Rightarrow> bool \<times> string \<times> string \<Rightarrow> objects \<Rightarrow> JellyfinPluginStatus" where
  "plugin_status_in k p jfo abi v = jp_status (plugin_status k p jfo abi (counts_in v p (jps_workloads (jp_spec p)) (0, 0)))"

lemma plugin_status_key:
  "jp_namespace (plugin_status k p jfo abi counts) = jp_namespace p" "jp_name (plugin_status k p jfo abi counts) = jp_name p"
  by (cases abi; cases counts; simp add: status_updates Let_def)+

context plugin_server begin

lemma counts_read: "\<exists>es. fold_io (count_one k p) ws a s = (Inr (counts_in (view s) p ws a), es, s)"
proof (induction ws arbitrary: a)
  case Nil
  then show ?case by (simp add: counts_in_def ret_def)
next
  case (Cons w ws)
  obtain d y where a: "a = (d, y)" by (cases a)
  obtain r es where get: "get_workload k p w s = (r, es, s)"
    and r: "case view s (KDeployment, jp_namespace p, WorkloadName p w) of None \<Rightarrow> r = Inl NotFound | Some ob \<Rightarrow> (\<exists>x. ob = ODeployment x \<and> r = Inr x)"
    using deployments.get_answers [where ns = "jp_namespace p" and n = "WorkloadName p w" and s = s] unfolding get_workload_def by blast
  have "count_one k p w a s = (Inr (counts_in (view s) p [w] a), es, s)"
    using r by (auto simp: count_one_def a bind_io_def attempt_def get ret_def counts_in_def split: option.splits)
  then show ?case using Cons.IH [of "counts_in (view s) p [w] a"] by (auto simp: bind_io_def counts_in_def)
qed

lemma updateStatus_run:
  assumes stored: "view s (KPlugin, jp_namespace p, jp_name p) = Some (OPlugin cur)"
  shows "updateStatus k p jfo abi s = (Inr (), es, s') \<Longrightarrow>
      view s' = (view s)((KPlugin, jp_namespace p, jp_name p) \<mapsto> OPlugin (cur\<lparr>jp_status := plugin_status_in k p jfo abi (view s)\<rparr>))"
    and "jp_status cur = plugin_status_in k p jfo abi (view s) \<Longrightarrow> still (updateStatus k p jfo abi) s"
proof -
  let ?x = "plugin_status k p jfo abi (counts_in (view s) p (jps_workloads (jp_spec p)) (0, 0))"
  have stored': "view s (KPlugin, jp_namespace ?x, jp_name ?x) = Some (OPlugin cur)" using stored by (simp add: plugin_status_key)
  obtain es0 where "fold_io (count_one k p) (jps_workloads (jp_spec p)) (0, 0) s
      = (Inr (counts_in (view s) p (jps_workloads (jp_spec p)) (0, 0)), es0, s)" using counts_read by blast
  then have run: "updateStatus k p jfo abi s = (case StatusUpdate OPlugin (k_plugins k) ?x s of (r, es', s') \<Rightarrow> (r, es0 @ es', s'))"
    by (simp add: updateStatus_def bind_io_def)
  show "view s' = (view s)((KPlugin, jp_namespace p, jp_name p) \<mapsto> OPlugin (cur\<lparr>jp_status := plugin_status_in k p jfo abi (view s)\<rparr>))"
    if "updateStatus k p jfo abi s = (Inr (), es, s')"
    using that plugin_status_written [OF _ stored', of s']
    by (auto simp: run StatusUpdate_def call_def plugin_status_key plugin_status_in_def split: prod.splits)
  show "still (updateStatus k p jfo abi) s" if "jp_status cur = plugin_status_in k p jfo abi (view s)"
    using plugin_status_same [OF stored'] that
    by (simp add: still_def run StatusUpdate_def call_def plugin_status_in_def)
qed

end

section \<open>Reporting twice\<close>

text \<open>The conditions that a status sets, with status, reason and message, in order.\<close>

fun plugin_sets ::
  "JellyfinPlugin \<Rightarrow> Jellyfin option \<Rightarrow> bool \<times> string \<times> string \<Rightarrow> int32 \<times> int32 \<Rightarrow> (string \<times> string \<times> string \<times> string) list" where
  "plugin_sets p jfo (ok, reason, msg) (d, y) =
     (conditionABICompatible, if ok then ConditionTrue else ConditionFalse, reason, msg) #
     (if \<not> ok then [(conditionWorkersAvailable, ConditionFalse, ''ABIMismatch'', ''Plugin not injected due to ABI mismatch'')]
      else if jfo = None then [(conditionWorkersAvailable, ConditionFalse, ''NoInstance'', ''Not bound to an instance'')]
      else (conditionInjected, ConditionTrue, ''Bound'', ''Plugin bound and injected into the instance pod template'') #
        (if jps_install (jp_spec p) = None then [(conditionInstalled, ConditionTrue, ''NoInstallStep'', ''No install step declared'')] else []) @
        [if workloadsReady p d y then (conditionWorkersAvailable, ConditionTrue, ''Ready'', ready_text y d)
         else (conditionWorkersAvailable, ConditionFalse, ''Scaling'', ready_text y d)])"

definition set_all :: "'e cluster \<Rightarrow> int \<Rightarrow> (string \<times> string \<times> string \<times> string) list \<Rightarrow> Condition list \<Rightarrow> Condition list" where
  "set_all k n sets cs = fold (\<lambda>(t, x, m, g). setCondition k t x m g n) sets cs"

lemma distinct_sets: "distinct (map fst (plugin_sets p jfo abi counts))"
  by (cases abi; cases counts) (auto simp: condition_names)

lemma plugin_status_shape:
  "jp_status (plugin_status k p jfo (ok, reason, msg) (d, y)) = (jp_status p)
     \<lparr>jpst_observedGeneration := jp_generation p, jpst_abiCompatible := ok, jpst_loadedVersion := pm_version (jps_meta (jp_spec p)),
      jpst_workloadReadyReplicas := y,
      jpst_phase := (if \<not> ok then PluginPhaseFailed else if jfo = None then PluginPhasePending
        else if workloadsReady p d y then PluginPhaseLoaded else PluginPhaseWorkloadsReady),
      jpst_injected := (if \<not> ok then False else if jfo = None then jpst_injected (jp_status p) else True),
      jpst_installed := (if ok \<and> jfo \<noteq> None then jps_install (jp_spec p) = None else jpst_installed (jp_status p)),
      jpst_conditions := set_all k (jp_generation p) (plugin_sets p jfo (ok, reason, msg) (d, y)) (jpst_conditions (jp_status p))\<rparr>"
  by (cases "jp_status p"; cases ok; cases jfo; cases "jps_install (jp_spec p)"; cases "workloadsReady p d y")
    (simp_all add: status_updates Let_def set_all_def)

lemma status_ignored:
  "workloadsReady (p\<lparr>jp_status := st\<rparr>) = workloadsReady p" "plugin_sets (p\<lparr>jp_status := st\<rparr>) = plugin_sets p"
proof -
  show ready: "workloadsReady (p\<lparr>jp_status := st\<rparr>) = workloadsReady p" by (simp add: fun_eq_iff workloadsReady_def)
  have "plugin_sets (p\<lparr>jp_status := st\<rparr>) jfo abi counts = plugin_sets p jfo abi counts" for jfo abi counts
    by (cases abi; cases counts) (simp add: ready)
  then show "plugin_sets (p\<lparr>jp_status := st\<rparr>) = plugin_sets p" by (simp add: fun_eq_iff)
qed

context plugin_server begin

text \<open>Conditions that say the same already are not touched.\<close>

lemma condition_kept:
  "FindStatusCondition k cs t = Some \<lparr>cond_type = t, cond_status = x, cond_reason = m, cond_message = g, cond_observedGeneration = n\<rparr>
   \<Longrightarrow> setCondition k t x m g n cs = cs"
  using condition_again by (simp add: setCondition_def)

lemma find_set_all:
  assumes "distinct (map fst sets)" and "(t, x, m, g) \<in> set sets"
  shows "FindStatusCondition k (set_all k n sets cs) t
    = Some \<lparr>cond_type = t, cond_status = x, cond_reason = m, cond_message = g, cond_observedGeneration = n\<rparr>"
  using assms
proof (induction sets rule: rev_induct)
  case (snoc y sets)
  obtain t' x' m' g' where y: "y = (t', x', m', g')" by (cases y)
  show ?case
  proof (cases "(t, x, m, g) = y")
    case True
    then show ?thesis by (simp add: set_all_def y find_setCondition [OF conditions])
  next
    case False
    with snoc.prems have "(t, x, m, g) \<in> set sets" "t \<noteq> t'" by (force simp: y)+
    then show ?thesis using snoc by (simp add: set_all_def y find_setCondition [OF conditions])
  qed
qed simp

lemma set_all_again:
  assumes "distinct (map fst sets)"
  shows "set_all k n sets (set_all k n sets cs) = set_all k n sets cs"
proof -
  have "fold (\<lambda>(t, x, m, g). setCondition k t x m g n) sets' (set_all k n sets cs) = set_all k n sets cs"
    if "set sets' \<subseteq> set sets" for sets'
    using that by (induction sets') (auto simp: condition_kept find_set_all [OF assms])
  from this [of sets] show ?thesis by (simp add: set_all_def)
qed

lemma plugin_status_again:
  "jp_status (plugin_status k (p\<lparr>jp_status := jp_status (plugin_status k p jfo abi counts)\<rparr>) jfo abi counts)
    = jp_status (plugin_status k p jfo abi counts)"
proof -
  obtain ok reason msg d y where abi: "abi = (ok, reason, msg)" "counts = (d, y)" by (cases abi, cases counts) blast
  show ?thesis
    unfolding abi plugin_status_shape
    by (simp add: status_ignored set_all_again [OF distinct_sets] del: plugin_sets.simps cong: if_cong)
qed

end

section \<open>What a reconcile reads of its plugin\<close>

lemma plugin_ignores [simp]:
  "plugin_owner (p\<lparr>jp_status := st\<rparr>) = plugin_owner p"
  "WorkloadName (p\<lparr>jp_status := st\<rparr>) = WorkloadName p"
  "BuildWorkloadDeployment jfo (p\<lparr>jp_status := st\<rparr>) = BuildWorkloadDeployment jfo p"
  "BuildPluginService (p\<lparr>jp_status := st\<rparr>) = BuildPluginService p"
  "validateABI abiText (p\<lparr>jp_status := st\<rparr>) = validateABI abiText p"
  "pluginBinds k jf (p\<lparr>jp_status := st\<rparr>) = pluginBinds k jf p"
  by (simp_all add: fun_eq_iff plugin_owner_def WorkloadName_def BuildWorkloadDeployment_def workloadSelectorLabels_def BuildPluginService_def
      resolveServiceSelector_def validateABI_def pluginBinds_def Let_def cong: option.case_cong sum.case_cong if_cong)

lemma plugin_ignores_runs [simp]:
  "workload_mutate k (p\<lparr>jp_status := st\<rparr>) = workload_mutate k p" "service_mutate k (p\<lparr>jp_status := st\<rparr>) = service_mutate k p"
  "boundInstance k (p\<lparr>jp_status := st\<rparr>) = boundInstance k p" "counts_in v (p\<lparr>jp_status := st\<rparr>) = counts_in v p"
  "companions_run k (p\<lparr>jp_status := st\<rparr>) jfo = companions_run k p jfo"
proof -
  show mutate: "workload_mutate k (p\<lparr>jp_status := st\<rparr>) = workload_mutate k p" "service_mutate k (p\<lparr>jp_status := st\<rparr>) = service_mutate k p"
    by (simp_all add: fun_eq_iff workload_mutate_def service_mutate_def)
  show "boundInstance k (p\<lparr>jp_status := st\<rparr>) = boundInstance k p" by (simp add: boundInstance_def Let_def cong: option.case_cong sum.case_cong if_cong)
  show "counts_in v (p\<lparr>jp_status := st\<rparr>) = counts_in v p" by (simp add: fun_eq_iff counts_in_def)
  show "companions_run k (p\<lparr>jp_status := st\<rparr>) jfo = companions_run k p jfo"
    by (simp add: companions_run_def reconcileWorkloads_def reconcileServices_def pruneWorkloads_def list_workloads_def mutate)
qed

section \<open>Twice\<close>

lemma reconcile_plugin_run: "reconcile_plugin k abiText p = bind_io (boundInstance k p) (\<lambda>jfo. bind_io
    (if fst (validateABI abiText p jfo) then companions_run k p jfo else ret ()) (\<lambda>_.
    bind_io (updateStatus k p jfo (validateABI abiText p jfo)) (\<lambda>_. ret 0)))"
  by (simp add: reconcile_plugin_def companions_run_def Let_def cong: if_cong)

context plugin_server begin

lemma bound_instance: "\<exists>jfo es. boundInstance k p s = (Inr jfo, es, s)"
  "(\<And>ns n. view s' (KJellyfin, ns, n) = view s (KJellyfin, ns, n)) \<Longrightarrow> result (boundInstance k p s') = result (boundInstance k p s)"
proof -
  have get: "get_jellyfin k ns n t = (case view t (KJellyfin, ns, n) of Some (OJellyfin jf) \<Rightarrow>
      (Inr jf, [Got KJellyfin ns n (Inr (OJellyfin jf))], t) | _ \<Rightarrow> (Inl NotFound, [Got KJellyfin ns n (Inl NotFound)], t))" for ns n t
    using jellyfins.get_missing [of t ns n] jellyfins.get_stored [of t ns n] jellyfins.kinds [of t ns n]
    by (auto simp: get_jellyfin_def Get_def call_def split: option.split)
  have list: "list_jellyfins k ns t = (fst (raw_list (k_jellyfins k) ns [] t),
      [Listed KJellyfin ns [] (map_ok (map OJellyfin) (fst (raw_list (k_jellyfins k) ns [] t)))], t)" for ns t
    using jellyfins_list_reads [of ns "[]" t] by (auto simp: list_jellyfins_def List_in_def call_def)
  show "\<exists>jfo es. boundInstance k p s = (Inr jfo, es, s)"
    by (auto simp: boundInstance_def Let_def bind_io_def attempt_def get list ret_def split: option.splits obj.splits)
  show "result (boundInstance k p s') = result (boundInstance k p s)" if "\<And>ns n. view s' (KJellyfin, ns, n) = view s (KJellyfin, ns, n)"
    using jellyfins_list_stable [of s' "jp_namespace p" s "[]"] that
    by (auto simp: boundInstance_def Let_def bind_io_def attempt_def get list ret_def split: option.splits obj.splits)
qed

lemma unrefused_companions: "emits unrefused (companions_run k p jfo)"
  unfolding companions_run_def reconcileWorkloads_def pruneWorkloads_def list_workloads_def reconcileServices_def
    List_in_def CreateOrUpdate_def DeleteIfExists_def Delete_def Let_def
  by (intro emits_intros; simp)

lemma reconcile_plugin_again:
  assumes run: "reconcile_plugin k abiText p s = (Inr n, es, s')" and distinct: "distinct_companions p"
    and stored: "view s (KPlugin, jp_namespace p, jp_name p) = Some (OPlugin p)"
  shows "\<exists>st. view s' (KPlugin, jp_namespace p, jp_name p) = Some (OPlugin (p\<lparr>jp_status := st\<rparr>))
    \<and> result (reconcile_plugin k abiText (p\<lparr>jp_status := st\<rparr>) s') = Inr 0 \<and> final (reconcile_plugin k abiText (p\<lparr>jp_status := st\<rparr>) s') = s'"
proof -
  let ?key = "(KPlugin, jp_namespace p, jp_name p)"
  obtain jfo es0 where bound: "boundInstance k p s = (Inr jfo, es0, s)" using bound_instance(1) by blast
  let ?abi = "validateABI abiText p jfo"
  let ?companions = "if fst ?abi then companions_run k p jfo else ret ()"
  from run obtain es1 s1 es2 where companions: "?companions s = (Inr (), es1, s1)"
    and status: "updateStatus k p jfo ?abi s1 = (Inr (), es2, s')"
    by (auto simp: reconcile_plugin_run bind_io_def bound ret_def split: sum.splits prod.splits)
  have elsewhere: "view s1 key = view s key" if "fst key \<notin> {KDeployment, KService}" for key
  proof (cases "fst ?abi")
    case True
    then have "companions_run k p jfo s = (Inr (), es1, s1)" using companions by simp
    moreover have "\<forall>key. key \<notin> {key. fst key \<in> {KDeployment, KService}} \<longrightarrow>
        view (final (companions_run k p jfo s)) key = view s key"
      using companions_rules(2) [of p jfo] unfolding writes_in_def post_iff by blast
    ultimately show ?thesis using that by (cases key) simp
  qed (use companions in \<open>simp add: ret_def\<close>)
  have ready: "fst ?abi \<longrightarrow> companions_ready p jfo (view s1)"
  proof
    assume "fst ?abi"
    with companions have c: "companions_run k p jfo s = (Inr (), es1, s1)" by simp
    have "list_all unrefused es1" using unrefused_companions [of p jfo, unfolded emits_def, rule_format, of s] c by simp
    then show "companions_ready p jfo (view s1)"
      using companions_rules(1) [OF distinct, of jfo, unfolded achieves_def, rule_format, of s] c by (simp add: post_def)
  qed
  define st where "st = plugin_status_in k p jfo ?abi (view s1)"
  have stored1: "view s1 ?key = Some (OPlugin p)" using elsewhere stored by simp
  from updateStatus_run(1) [OF this status] have after: "view s' = (view s1)(?key \<mapsto> OPlugin (p\<lparr>jp_status := st\<rparr>))" by (simp add: st_def)
  let ?p = "p\<lparr>jp_status := st\<rparr>"
  have "result (boundInstance k p s') = Inr jfo"
    using bound_instance(2) [of s' s p] after elsewhere bound by simp
  then obtain es3 where bound': "boundInstance k p s' = (Inr jfo, es3, s')" using bound_instance(1) [of p s'] by auto
  have "fst ?abi \<longrightarrow> companions_ready p jfo (view s')"
  proof
    assume "fst ?abi"
    then have "companions_ready p jfo (view s1)" using ready by simp
    moreover have "reads_in {key. fst key \<in> {KDeployment, KService}} (companions_ready p jfo)"
      unfolding companions_ready_def [abs_def]
      by (intro reads_in_conj reads_weaken [OF reads_companions(3)] reads_weaken [OF reads_companions(4)] reads_weaken [OF reads_companions(5)]) auto
    moreover have "\<forall>key \<in> {key. fst key \<in> {KDeployment, KService}}. view s' key = view s1 key" using after by auto
    ultimately show "companions_ready p jfo (view s')" unfolding reads_in_def by blast
  qed
  then have "still ?companions s'" using companions_rules(3) [of p jfo s'] by (simp add: still_ret)
  then obtain es4 where again: "?companions s' = (Inr (), es4, s')" by (cases "?companions s'") (auto simp: still_def)
  have counts: "counts_in (view s') p ws a = counts_in (view s1) p ws a" for ws a
    by (simp add: counts_in_def after)
  have "view s' (KPlugin, jp_namespace ?p, jp_name ?p) = Some (OPlugin ?p)" using after by simp
  moreover have "jp_status ?p = plugin_status_in k ?p jfo ?abi (view s')"
    using plugin_status_again [of p jfo ?abi] by (simp add: plugin_status_in_def counts st_def)
  ultimately have "still (updateStatus k ?p jfo ?abi) s'" by (rule updateStatus_run(2))
  then obtain es5 where "updateStatus k ?p jfo ?abi s' = (Inr (), es5, s')"
    by (cases "updateStatus k ?p jfo ?abi s'") (auto simp: still_def)
  with again have "result (reconcile_plugin k abiText ?p s') = Inr 0 \<and> final (reconcile_plugin k abiText ?p s') = s'"
    by (cases "fst ?abi") (simp_all add: reconcile_plugin_run bind_io_def bound' ret_def)
  then show ?thesis using after by auto
qed

lemma plugin_key_stored: "view s (KPlugin, ns, n) = Some (OPlugin p) \<Longrightarrow> jp_namespace p = ns \<and> jp_name p = n"
  using plugins.kinds [of s ns n] by (cases p) (force simp: stored_plugin_at_def)

text \<open>The finalizer is there afterwards, and nothing else has changed.\<close>

lemma finalizer_ensured:
  assumes run: "ensure_finalizer k p s = (Inr p', es, s')"
    and stored: "view s (KPlugin, jp_namespace p, jp_name p) = Some (OPlugin p)"
  shows "\<exists>fs. p' = p\<lparr>jp_finalizers := fs\<rparr> \<and> ContainsFinalizer k fs pluginFinalizer
    \<and> view s' (KPlugin, jp_namespace p', jp_name p') = Some (OPlugin p')"
proof (cases "ContainsFinalizer k (jp_finalizers p) pluginFinalizer")
  case True
  with run stored show ?thesis by (intro exI [of _ "jp_finalizers p"]) (simp add: ensure_finalizer_def ret_def)
next
  case False
  let ?x = "p\<lparr>jp_finalizers := AddFinalizer k (jp_finalizers p) pluginFinalizer\<rparr>"
  have "view s (KPlugin, jp_namespace ?x, jp_name ?x) = Some (OPlugin p)" using stored by simp
  moreover have "raw_update (k_plugins k) ?x s = (Inr p', s')"
    using run False by (auto simp: ensure_finalizer_def Update_def call_def split: prod.splits)
  ultimately have "p' = ?x\<lparr>jp_status := jp_status p\<rparr> \<and> view s' = (view s)((KPlugin, jp_namespace ?x, jp_name ?x) \<mapsto> OPlugin p')"
    using plugin_updated by blast
  moreover have "?x\<lparr>jp_status := jp_status p\<rparr> = ?x" by (cases p) simp
  ultimately show ?thesis using finalizer_added by auto
qed

lemma PluginReconcile_again:
  assumes run: "PluginReconcile k abiText ns name s = (Inr n, es, s')"
    and stored: "view s (KPlugin, ns, name) = Some (OPlugin p)" and live: "\<not> jp_deleting p" and distinct: "distinct_companions p"
  shows "result (PluginReconcile k abiText ns name s') = Inr 0 \<and> final (PluginReconcile k abiText ns name s') = s'"
proof -
  have key: "jp_namespace p = ns" "jp_name p = name" using plugin_key_stored [OF stored] by simp_all
  have get: "attempt (Get OPlugin KPlugin (k_plugins k) ns name) t = (Inr (Inr q), [Got KPlugin ns name (Inr (OPlugin q))], t)"
    if "view t (KPlugin, ns, name) = Some (OPlugin q)" for t q
    using plugins.get_stored [OF that] by (simp add: attempt_def Get_def call_def)
  from run live obtain p1 es1 s1 es2 where finalizer: "ensure_finalizer k p s = (Inr p1, es1, s1)"
    and rest: "reconcile_plugin k abiText p1 s1 = (Inr n, es2, s')"
    by (auto simp: PluginReconcile_def bind_io_def get [OF stored] split: sum.splits prod.splits)
  from finalizer_ensured [OF finalizer] stored key obtain fs where p1: "p1 = p\<lparr>jp_finalizers := fs\<rparr>"
    and fs: "ContainsFinalizer k fs pluginFinalizer" and stored1: "view s1 (KPlugin, jp_namespace p1, jp_name p1) = Some (OPlugin p1)"
    by auto
  have "WorkloadName p1 = WorkloadName p" by (simp add: fun_eq_iff WorkloadName_def p1)
  then have "distinct_companions p1" using distinct by (simp add: distinct_companions_def p1)
  from reconcile_plugin_again [OF rest this stored1] obtain st where
    st: "view s' (KPlugin, ns, name) = Some (OPlugin (p1\<lparr>jp_status := st\<rparr>))"
    "result (reconcile_plugin k abiText (p1\<lparr>jp_status := st\<rparr>) s') = Inr 0"
    "final (reconcile_plugin k abiText (p1\<lparr>jp_status := st\<rparr>) s') = s'"
    by (auto simp: p1 key)
  have "ensure_finalizer k (p1\<lparr>jp_status := st\<rparr>) = ret (p1\<lparr>jp_status := st\<rparr>)" using fs by (simp add: ensure_finalizer_def p1)
  with live st(2, 3) show ?thesis
    by (cases "reconcile_plugin k abiText (p1\<lparr>jp_status := st\<rparr>) s'") (simp add: PluginReconcile_def bind_io_def get [OF st(1)] ret_def p1)
qed

end

section \<open>The theorem\<close>

text \<open>
  C2. A successful reconcile of a plugin that is not being deleted has nothing left to do: on an unchanged server the next one succeeds,
  asks for no requeue and changes nothing. The finalizer is not added again, no companion is rewritten or deleted, the status is the same.
  The names of the companions are to be different; two that differ only beyond the length limit share one object.
\<close>

theorem PluginReconcile_twice:
  assumes "plugin_server k view listed" and "PluginReconcile k abiText ns name s = (Inr n, es, s')"
    and "view s (KPlugin, ns, name) = Some (OPlugin p)" and "\<not> jp_deleting p" and "distinct_companions p"
  shows "result (PluginReconcile k abiText ns name s') = Inr 0 \<and> final (PluginReconcile k abiText ns name s') = s'"
  using plugin_server.PluginReconcile_again [OF assms] .

section \<open>On the map\<close>

lemma memory_listed:
  "set (projr (fst (list_deployments names ns ls s))) = {d. listed_deployment names ns ls d \<and> d_namespace d = ns
     \<and> memory_view s (KDeployment, ns, d_name d) = Some (ODeployment d)}"
  by (force simp: list_deployments_def listed_deployment_def List.map_filter_def split: option.splits obj.splits if_splits)

lemma memory_plugin_keyed: "memory_view s (KPlugin, ns, n) = Some (OPlugin p) \<Longrightarrow> stored_plugin_at ns n p = p"
  using object_store.kinds [OF memory_stores(8)] by fastforce

lemma memory_put_plugin:
  "ns = jp_namespace p \<Longrightarrow> n = jp_name p \<Longrightarrow> memory_view (s((KPlugin, ns, n) \<mapsto> OPlugin p)) = (memory_view s)((KPlugin, ns, n) \<mapsto> OPlugin p)"
  by (cases p) (auto simp: fun_eq_iff memory_view_def stored_plugin_at_def)

interpretation memory_plugins: plugin_server "memory_cluster names" memory_view "listed_deployment names" for names
proof (intro plugin_server.intro memory.api_server_axioms memory_stores plugin_server_axioms.intro, goal_cases)
  case (1 ns ls s)
  then show ?case using memory_listed [of names ns ls s] by (auto simp: memory_cluster_def list_deployments_def)
next
  case 2 show ?case by (simp add: memory_cluster_def list_named_def)
next
  case 3 then show ?case by (simp add: memory_cluster_def list_named_def)
next
  case 4 then show ?case by (auto simp: memory_cluster_def update_plugin_def plugin_key_def memory_put_plugin)
next
  case (5 x s s' cur)
  have "stored_plugin_at (jp_namespace x) (jp_name x) cur = cur" by (rule memory_plugin_keyed [OF 5(2)])
  then have "jp_namespace cur = jp_namespace x" "jp_name cur = jp_name x" by (cases cur; simp add: stored_plugin_at_def)+
  moreover have "cur\<lparr>jp_status := jp_status cur\<rparr> = cur" by simp
  ultimately show ?case using 5
    by (auto simp: memory_cluster_def write_plugin_status_def plugin_key_def memory_put_plugin fun_upd_idem split: if_splits)
next
  case 6 then show ?case by (simp add: memory_cluster_def write_plugin_status_def plugin_key_def)
next
  case 7 show ?case by (simp add: memory_cluster_def empty_cluster_def)
qed

text \<open>A reconcile on the map succeeds when every Service can be built.\<close>

lemma smooth_each: "(\<And>x t. x \<in> set xs \<Longrightarrow> smooth (f x) t) \<Longrightarrow> smooth (each f xs) s"
  by (induction xs arbitrary: s) (auto intro!: smooth_bind smooth_ret)

lemma smooth_companions:
  assumes "\<And>svc n. svc \<in> set (jps_services (jp_spec p)) \<Longrightarrow> is_ok (BuildPluginService p svc n)"
  shows "smooth (companions_run (memory_cluster names) p jfo) s"
proof -
  let ?k = "memory_cluster names"
  have deleted: "smooth (DeleteIfExists KDeployment (k_deployments ?k) ns n) t" for ns n t
    by (rule smooth_delete) (simp add: memory_cluster_def)
  have "smooth (list_workloads ?k p) t" for t
    by (simp add: smooth_def list_workloads_def List_in_def call_def memory_cluster_def list_deployments_def)
  then have pruned: "smooth (pruneWorkloads ?k p ws) t" for ws t
    unfolding pruneWorkloads_def by (intro smooth_bind smooth_each) (simp_all add: deleted smooth_ret)
  have "smooth (reconcileWorkloads ?k p jfo) t" for t
    unfolding reconcileWorkloads_def Let_def
    by (intro smooth_bind smooth_each smooth_ret pruned smooth_upsert) (auto simp: memory_cluster_def workload_mutate_def is_ok_iff empty_cluster_def)
  moreover have "smooth (reconcileServices ?k p jfo) t" for t
    unfolding reconcileServices_def
  proof (intro smooth_each smooth_bind smooth_ret smooth_upsert, goal_cases)
    case (1 svc t)
    with assms show ?case by (fastforce simp: smooth_def lift_def is_ok_iff)
  qed (auto simp: memory_cluster_def service_mutate_def is_ok_iff empty_cluster_def)
  ultimately show ?thesis unfolding companions_run_def by (intro smooth_bind smooth_wrapping)
qed

lemma plugin_status_accepted:
  assumes "memory_view s (KPlugin, jp_namespace p, jp_name p) = Some (OPlugin cur)"
  shows "is_ok (result (updateStatus (memory_cluster names) p jfo abi s))"
proof -
  let ?k = "memory_cluster names"
  obtain es where "fold_io (count_one ?k p) (jps_workloads (jp_spec p)) (0, 0) s
      = (Inr (counts_in (memory_view s) p (jps_workloads (jp_spec p)) (0, 0)), es, s)" using memory_plugins.counts_read by blast
  then show ?thesis using assms
    by (simp add: updateStatus_def bind_io_def StatusUpdate_def call_def memory_cluster_def write_plugin_status_def plugin_key_def
        plugin_status_key split: prod.split)
qed

lemma reconcile_plugin_succeeds:
  assumes stored: "memory_view s (KPlugin, jp_namespace p, jp_name p) = Some (OPlugin p)"
    and built: "\<And>svc n. svc \<in> set (jps_services (jp_spec p)) \<Longrightarrow> is_ok (BuildPluginService p svc n)"
  shows "\<exists>es s'. reconcile_plugin (memory_cluster names) abiText p s = (Inr 0, es, s')"
proof -
  let ?k = "memory_cluster names"
  obtain jfo es0 where bound: "boundInstance ?k p s = (Inr jfo, es0, s)" using memory_plugins.bound_instance(1) by blast
  let ?companions = "if fst (validateABI abiText p jfo) then companions_run ?k p jfo else ret ()"
  have "smooth ?companions s" by (simp add: smooth_companions [OF built] smooth_ret)
  then obtain es1 s1 where companions: "?companions s = (Inr (), es1, s1)" by (cases "?companions s") (auto simp: smooth_def is_ok_iff)
  have "writes_in memory_view {key. fst key \<in> {KDeployment, KService}} ?companions"
    using memory_plugins.companions_rules(2) by (simp add: writes_intros)
  then have "memory_view (final (?companions s)) (KPlugin, jp_namespace p, jp_name p) = Some (OPlugin p)"
    unfolding writes_in_def post_iff using stored by simp
  then have "is_ok (result (updateStatus ?k p jfo (validateABI abiText p jfo) s1))" by (simp add: companions plugin_status_accepted)
  then obtain es2 s2 where "updateStatus ?k p jfo (validateABI abiText p jfo) s1 = (Inr (), es2, s2)"
    by (cases "updateStatus ?k p jfo (validateABI abiText p jfo) s1") (auto simp: is_ok_iff)
  with companions bound show ?thesis
    by (cases "fst (validateABI abiText p jfo)") (simp_all add: reconcile_plugin_run bind_io_def ret_def)
qed

text \<open>A plugin with a workload and a Service for it, and the Deployment of a workload that it no longer declares.\<close>

definition scanner :: JellyfinPlugin where
  "scanner = (sample_plugin ''scanner'')\<lparr>jp_spec := no_plugin_spec
     \<lparr>jps_workloads := [sample_workload ''scan''],
      jps_services := [\<lparr>pls_name = ''scan'', pls_selector = ''workload:scan'', pls_ports = [], pls_type = ''''\<rparr>]\<rparr>\<rparr>"

definition scanner_world :: objects where
  "scanner_world = [(KPlugin, ''media'', ''scanner'') \<mapsto> OPlugin scanner,
     (KDeployment, ''media'', ''old'') \<mapsto> ODeployment ((new_deployment ''media'' ''old'')
       \<lparr>d_labels := [(ManagedByLabel, ManagedByValue), (PluginLabel, ''scanner''), (WorkloadLabel, ''gone'')]\<rparr>)]"

lemma scanner_simps:
  "jp_namespace scanner = ''media''" "jp_name scanner = ''scanner''" "\<not> jp_deleting scanner" "jp_finalizers scanner = []"
  "distinct_companions scanner"
  by (simp_all add: scanner_def sample_defs distinct_companions_def)

lemma scanner_stored: "memory_view scanner_world (KPlugin, ''media'', ''scanner'') = Some (OPlugin scanner)"
  using scanner_simps(1, 2) by (cases scanner) (simp add: scanner_world_def memory_view_def stored_plugin_at_def)

lemma scanner_run: "\<exists>es s'. PluginReconcile (memory_cluster [''old'']) abiText ''media'' ''scanner'' scanner_world = (Inr 0, es, s')"
proof -
  let ?k = "memory_cluster [''old'']"
  have "is_ok (result (ensure_finalizer ?k scanner scanner_world))"
    using scanner_stored scanner_simps by (simp add: ensure_finalizer_def Update_def call_def memory_cluster_def empty_cluster_def update_plugin_def plugin_key_def)
  then obtain p es1 s1 where finalizer: "ensure_finalizer ?k scanner scanner_world = (Inr p, es1, s1)"
    by (cases "ensure_finalizer ?k scanner scanner_world") (auto simp: is_ok_iff)
  with memory_plugins.finalizer_ensured scanner_stored scanner_simps(1, 2) obtain fs where p: "p = scanner\<lparr>jp_finalizers := fs\<rparr>"
    and stored1: "memory_view s1 (KPlugin, jp_namespace p, jp_name p) = Some (OPlugin p)" by metis
  have "is_ok (BuildPluginService p svc n)" if "svc \<in> set (jps_services (jp_spec p))" for svc n
  proof -
    have "svc = \<lparr>pls_name = ''scan'', pls_selector = ''workload:scan'', pls_ports = [], pls_type = ''''\<rparr>"
      using that by (simp add: p scanner_def)
    then have "resolveServiceSelector p svc n = Inr [(NameLabel, ''scan''), (PluginLabel, jp_name p), (WorkloadLabel, ''scan'')]"
      by (simp add: resolveServiceSelector_def ServiceTargetInstance_def workload_prefix_def has_prefix_def trim_prefix_def Let_def)
    then show ?thesis by (simp add: BuildPluginService_def)
  qed
  with reconcile_plugin_succeeds [OF stored1] obtain es2 s2 where "reconcile_plugin ?k abiText p s1 = (Inr 0, es2, s2)" by blast
  then show ?thesis
    using memory_plugins.plugins.get_stored [OF scanner_stored] scanner_simps(3)
    by (simp add: PluginReconcile_def bind_io_def attempt_def Get_def call_def finalizer)
qed

theorem PluginReconcile_twice_witness:
  "\<exists>es s'. PluginReconcile (memory_cluster [''old'']) (\<lambda>e. '''') ''media'' ''scanner'' scanner_world = (Inr 0, es, s')
     \<and> result (PluginReconcile (memory_cluster [''old'']) (\<lambda>e. '''') ''media'' ''scanner'' s') = Inr 0
     \<and> final (PluginReconcile (memory_cluster [''old'']) (\<lambda>e. '''') ''media'' ''scanner'' s') = s'"
proof -
  from scanner_run [where abiText = "\<lambda>e. ''''"] obtain es s'
    where run: "PluginReconcile (memory_cluster [''old'']) (\<lambda>e. '''') ''media'' ''scanner'' scanner_world = (Inr 0, es, s')" by (elim exE)
  note again = PluginReconcile_twice [OF memory_plugins.plugin_server_axioms, OF run, OF scanner_stored, OF scanner_simps(3, 5)]
  from run again [THEN conjunct1] again [THEN conjunct2] show ?thesis by (intro exI conjI)
qed

end
