(* ===== verification/Watches.thy ===== *)
theory Watches
  imports Steady
begin

text \<open>
  What wakes a reconciler: the \<open>SetupWithManager\<close> functions of \<open>internal/controller\<close> register watches, and the
  controller-runtime library turns changes of stored objects into reconcile requests. Shown: everything that a reconcile of an
  instance or of a plugin's companions writes is watched by its owner, so a change of it by somebody else is undone; but for the
  two kinds that the instance reconciler writes without watching.
\<close>

section \<open>The registrations\<close>

datatype 'e watch =
    For kind
  | Owns kind
  | Maps kind "obj \<Rightarrow> ('e, (string \<times> string) list) act"

fun watched :: "'e watch \<Rightarrow> kind" where
  "watched (For kd) = kd"
| "watched (Owns kd) = kd"
| "watched (Maps kd f) = kd"

text \<open>The mappers get any object and answer for one type only.\<close>

definition plugin_mapper :: "'e cluster \<Rightarrow> obj \<Rightarrow> ('e, (string \<times> string) list) act" where
  "plugin_mapper k ob = (case ob of OPlugin p \<Rightarrow> mapPluginToInstances k p | _ \<Rightarrow> ret [])"

definition instance_mapper :: "'e cluster \<Rightarrow> obj \<Rightarrow> ('e, (string \<times> string) list) act" where
  "instance_mapper k ob = (case ob of OJellyfin jf \<Rightarrow> mapInstanceToPlugins k jf | _ \<Rightarrow> ret [])"

definition instance_watches :: "'e cluster \<Rightarrow> 'e watch list" where
  "instance_watches k = [For KJellyfin, Owns KDeployment, Owns KService, Owns KClaim, Owns KIngress, Maps KPlugin (plugin_mapper k)]"

definition plugin_watches :: "'e cluster \<Rightarrow> 'e watch list" where
  "plugin_watches k = [For KPlugin, Owns KDeployment, Owns KService, Maps KJellyfin (instance_mapper k)]"

definition api_watches :: "'e watch list" where
  "api_watches = [For KJellyfin, Owns KSecret]"

section \<open>The library\<close>

text \<open>An owner reference of the model is a text, the kind and the name of the owner.\<close>

fun owners_of :: "obj \<Rightarrow> string list" where
  "owners_of (ODeployment d) = ld_owners d"
| "owners_of (OService svc) = lsvc_owners svc"
| "owners_of (ORoute r) = lr_owners r"
| "owners_of (OClaim c) = claim_owners c"
| "owners_of (OIngress i) = ing_owners i"
| "owners_of (OSecret s) = sec_owners s"
| "owners_of ob = []"

definition owner_text :: "string \<Rightarrow> string \<Rightarrow> string" where
  "owner_text T n = T @ ''/'' @ n"

text \<open>
  \<open>requests T ws key ob s\<close> are the namespaced names that a controller for the type \<open>T\<close> with the watches \<open>ws\<close> is asked to reconcile
  when the object under \<open>key\<close> has become, or has been, \<open>ob\<close>, in the world \<open>s\<close>.
\<close>

locale controller_runtime =
  fixes requests :: "string \<Rightarrow> 'e watch list \<Rightarrow> key \<Rightarrow> obj \<Rightarrow> 'e \<Rightarrow> (string \<times> string) set"
  assumes own: "For kd \<in> set ws \<Longrightarrow> (ns, n) \<in> requests T ws (kd, ns, n) ob s"
    and owned: "Owns kd \<in> set ws \<Longrightarrow> owner_text T n' \<in> set (owners_of ob) \<Longrightarrow> (ns, n') \<in> requests T ws (kd, ns, n) ob s"
    and mapped: "Maps kd f \<in> set ws \<Longrightarrow> result (f ob s) = Inr rs \<Longrightarrow> set rs \<subseteq> requests T ws (kd, ns, n) ob s"
    and unwatched: "kd \<notin> watched ` set ws \<Longrightarrow> requests T ws (kd, ns, n) ob s = {}"

text \<open>A library that asks for nothing else.\<close>

definition owner_names :: "string \<Rightarrow> string list \<Rightarrow> string list" where
  "owner_names T owners = map (drop (length T + 1)) (filter (\<lambda>x. take (length T + 1) x = T @ ''/'') owners)"

definition requests_of :: "string \<Rightarrow> 'e watch \<Rightarrow> key \<Rightarrow> obj \<Rightarrow> 'e \<Rightarrow> (string \<times> string) list" where
  "requests_of T w key ob s = (case key of (kd, ns, n) \<Rightarrow>
     if watched w \<noteq> kd then [] else case w of
       For _ \<Rightarrow> [(ns, n)]
     | Owns _ \<Rightarrow> map (Pair ns) (owner_names T (owners_of ob))
     | Maps _ f \<Rightarrow> (case result (f ob s) of Inl e \<Rightarrow> [] | Inr rs \<Rightarrow> rs))"

definition delivered :: "string \<Rightarrow> 'e watch list \<Rightarrow> key \<Rightarrow> obj \<Rightarrow> 'e \<Rightarrow> (string \<times> string) set" where
  "delivered T ws key ob s = set (concat (map (\<lambda>w. requests_of T w key ob s) ws))"

lemma owner_names: "owner_text T n \<in> set owners \<Longrightarrow> n \<in> set (owner_names T owners)"
  by (force simp: owner_names_def owner_text_def image_iff)

interpretation delivery: controller_runtime "delivered :: string \<Rightarrow> 'e watch list \<Rightarrow> key \<Rightarrow> obj \<Rightarrow> 'e \<Rightarrow> (string \<times> string) set"
proof (unfold_locales, goal_cases)
  case 1
  then show ?case by (force simp: delivered_def requests_of_def)
next
  case (2 kd ws T n' ob ns n s)
  then show ?case using owner_names [OF 2(2)] by (force simp: delivered_def requests_of_def)
next
  case 3
  then show ?case by (force simp: delivered_def requests_of_def)
next
  case 4
  then show ?case by (force simp: delivered_def requests_of_def)
qed

section \<open>Plugins and instances wake each other\<close>

context controller_runtime begin

lemma bound_pairs_watched:
  assumes "lists (k_jellyfins k) jf_namespace jf_name s jfs" and "lists (k_plugins k) jp_namespace jp_name s ps"
    and "jf \<in> jfs" and "p \<in> ps" and "pluginBinds k jf p"
  shows "(jf_namespace jf, jf_name jf) \<in> requests ''Jellyfin'' (instance_watches k) (KPlugin, jp_namespace p, jp_name p) (OPlugin p) s"
    and "(jp_namespace p, jp_name p) \<in> requests ''JellyfinPlugin'' (plugin_watches k) (KJellyfin, jf_namespace jf, jf_name jf) (OJellyfin jf) s"
proof -
  have same: "jp_namespace p = jf_namespace jf" using assms(5) by (simp add: pluginBinds_def split: if_splits)
  obtain bound where bound: "result (BoundPlugins k jf s) = Inr bound" "p \<in> set bound"
    using BoundPlugins_result [OF assms(2), of jf] assms(4,5) by auto
  obtain names where names: "result (InstancesForPlugin k p s) = Inr names" "jf_name jf \<in> set names"
    using InstancesForPlugin_result [OF assms(1), of p] assms(3,5) by auto
  have "result (attempt (BoundPlugins k jf) s) = Inr (Inr bound)" "result (attempt (InstancesForPlugin k p) s) = Inr (Inr names)"
    using bound(1) names(1) by (simp_all add: attempt_def split_beta)
  then have to_instances: "result (plugin_mapper k (OPlugin p) s) = Inr (map (Pair (jp_namespace p)) names)"
    and to_plugins: "result (instance_mapper k (OJellyfin jf) s) = Inr (map (\<lambda>p. (jp_namespace p, jp_name p)) bound)"
    unfolding plugin_mapper_def instance_mapper_def mapInstanceToPlugins_def mapPluginToInstances_def by (simp_all add: run_bind_ret)
  have "Maps KPlugin (plugin_mapper k) \<in> set (instance_watches k)" "Maps KJellyfin (instance_mapper k) \<in> set (plugin_watches k)"
    by (simp_all add: instance_watches_def plugin_watches_def)
  note subset = mapped [OF this(1) to_instances] mapped [OF this(2) to_plugins]
  show "(jf_namespace jf, jf_name jf) \<in> requests ''Jellyfin'' (instance_watches k) (KPlugin, jp_namespace p, jp_name p) (OPlugin p) s"
    using names(2) same by (auto intro!: subsetD [OF subset(1)])
  show "(jp_namespace p, jp_name p) \<in> requests ''JellyfinPlugin'' (plugin_watches k) (KJellyfin, jf_namespace jf, jf_name jf) (OJellyfin jf) s"
    using bound(2) by (auto intro!: subsetD [OF subset(2)])
qed

end

section \<open>What a reconcile writes is watched\<close>

text \<open>An object that has been written wakes its owner in whatever world, or, of the kinds named, nobody in any.\<close>

fun wakes :: "(key \<Rightarrow> obj \<Rightarrow> 'e \<Rightarrow> (string \<times> string) set) \<Rightarrow> kind set \<Rightarrow> string \<times> string \<Rightarrow> event \<Rightarrow> bool" where
  "wakes asks unseen owner (Upserted kd ns n (Inr ob)) =
     (if kd \<in> unseen then \<forall>ob t. asks (kd, ns, n) ob t = {} else \<forall>t. owner \<in> asks (kd, ns, n) ob t)"
| "wakes asks unseen owner ev = True"

definition owners_set :: "'e cluster \<Rightarrow> bool" where
  "owners_set k \<longleftrightarrow> (\<forall>owner owners owners'. SetControllerReference k owner owners = Inr owners' \<longrightarrow> owner \<in> set owners')"

text \<open>The functions given to \<open>CreateOrUpdate\<close> set the owner.\<close>

lemma owner_written:
  assumes "owners_set k"
  shows "claim_mutate k jf spec modes q c = Inr c' \<Longrightarrow> instance_owner jf \<in> set (claim_owners c')"
    "nfs_claim_mutate k jf nfs pv c = Inr c' \<Longrightarrow> instance_owner jf \<in> set (claim_owners c')"
    "deployment_mutate k jf dep d = Inr d' \<Longrightarrow> instance_owner jf \<in> set (ld_owners d')"
    "instance_service_mutate k jf svc = Inr svc' \<Longrightarrow> instance_owner jf \<in> set (lsvc_owners svc')"
    "web_service_mutate k jf desired svc = Inr svc' \<Longrightarrow> instance_owner jf \<in> set (lsvc_owners svc')"
    "ingress_mutate k jf ing i = Inr i' \<Longrightarrow> instance_owner jf \<in> set (ing_owners i')"
    "workload_mutate k p dep d = Inr d' \<Longrightarrow> plugin_owner p \<in> set (ld_owners d')"
    "service_mutate k p desired svc = Inr svc' \<Longrightarrow> plugin_owner p \<in> set (lsvc_owners svc')"
  using assms
  by (auto simp: owners_set_def claim_mutate_def nfs_claim_mutate_def deployment_mutate_def instance_service_mutate_def
      web_service_mutate_def ingress_mutate_def workload_mutate_def service_mutate_def Let_def)

lemma workload_place: "d_namespace (BuildWorkloadDeployment jfo p w) = jp_namespace p"
  by (simp add: BuildWorkloadDeployment_def Let_def split_beta)

lemma service_place: "BuildPluginService p svc n = Inr desired \<Longrightarrow> s_namespace desired = jp_namespace p"
  by (auto simp: BuildPluginService_def Let_def)

context object_store begin

lemma emits_written:
  assumes "\<And>e. P (Upserted kd ns n (Inl e))" and "\<And>x z. f x = Inr z \<Longrightarrow> P (Upserted kd ns n (Inr (mk (kept ns n z))))"
  shows "emits P (CreateOrUpdate mk kd st ns n f)"
  unfolding emits_def
proof
  fix s
  obtain r s' where run: "raw_upsert st ns n f s = (r, s')" by fastforce
  show "list_all P (events (CreateOrUpdate mk kd st ns n f s))"
  proof (cases r)
    case (Inl e)
    then show ?thesis using run assms(1) by (simp add: CreateOrUpdate_def call_def)
  next
    case (Inr y)
    with run obtain x z where "f x = Inr z" "y = kept ns n z" using upsert_stores by blast
    then show ?thesis using run Inr assms(2) by (simp add: CreateOrUpdate_def call_def)
  qed
qed

end

lemma emits_unseen:
  "emits (wakes asks unseen owner) (DeleteIfExists kd st ns n)" "emits (wakes asks unseen owner) (Get mk kd st ns n)"
  "emits (wakes asks unseen owner) (List_in mk kd st ns ls)" "emits (wakes asks unseen owner) (Patch mk st new base)"
  "emits (wakes asks unseen owner) (StatusUpdate mk st x)"
  unfolding DeleteIfExists_def Delete_def Get_def List_in_def Patch_def StatusUpdate_def by (intro emits_intros; simp)+

lemma emits_retried: "retry_works k \<Longrightarrow> emits (wakes asks unseen owner) (writeJellyfinStatus k jf)"
  by (rule emits_writeJellyfinStatus) simp_all

lemma emits_checked: "(\<And>a. r = Inr a \<Longrightarrow> emits P (f a)) \<Longrightarrow> emits P (bind_io (lift r) f)"
  by (cases r) (auto simp: emits_def bind_io_def lift_def split: prod.split)

definition instance_asks ::
  "(string \<Rightarrow> 'e watch list \<Rightarrow> key \<Rightarrow> obj \<Rightarrow> 'e \<Rightarrow> (string \<times> string) set) \<Rightarrow> 'e cluster \<Rightarrow> key \<Rightarrow> obj \<Rightarrow> 'e \<Rightarrow> (string \<times> string) set" where
  "instance_asks requests k = requests ''Jellyfin'' (instance_watches k)"

definition plugin_asks ::
  "(string \<Rightarrow> 'e watch list \<Rightarrow> key \<Rightarrow> obj \<Rightarrow> 'e \<Rightarrow> (string \<times> string) set) \<Rightarrow> 'e cluster \<Rightarrow> key \<Rightarrow> obj \<Rightarrow> 'e \<Rightarrow> (string \<times> string) set" where
  "plugin_asks requests k = requests ''JellyfinPlugin'' (plugin_watches k)"

definition unwatched_kinds :: "kind set" where
  "unwatched_kinds = {KVolume, KRoute}"

context controller_runtime begin

lemma instance_asks:
  "instance_owner jf \<in> set (owners_of ob) \<Longrightarrow> kd \<in> {KDeployment, KService, KClaim, KIngress} \<Longrightarrow>
    (ns, jf_name jf) \<in> instance_asks requests k (kd, ns, n) ob t"
  "kd \<in> unwatched_kinds \<Longrightarrow> instance_asks requests k (kd, ns, n) ob t = {}"
proof -
  show "(ns, jf_name jf) \<in> instance_asks requests k (kd, ns, n) ob t"
    if "instance_owner jf \<in> set (owners_of ob)" "kd \<in> {KDeployment, KService, KClaim, KIngress}"
    unfolding instance_asks_def
    by (rule owned) (use that in \<open>auto simp: instance_watches_def owner_text_def instance_owner_def\<close>)
  show "instance_asks requests k (kd, ns, n) ob t = {}" if "kd \<in> unwatched_kinds"
    unfolding instance_asks_def by (rule unwatched) (use that in \<open>auto simp: instance_watches_def unwatched_kinds_def\<close>)
qed

lemma plugin_asks:
  assumes "plugin_owner p \<in> set (owners_of ob)" and "kd \<in> {KDeployment, KService}"
  shows "(ns, jp_name p) \<in> plugin_asks requests k (kd, ns, n) ob t"
  unfolding plugin_asks_def
  by (rule owned) (use assms in \<open>auto simp: plugin_watches_def owner_text_def plugin_owner_def\<close>)

end

text \<open>Every stage of the two reconcilers, on a server that stores what it is given.\<close>

locale watched_server = api_server k view + controller_runtime requests
  for k :: "'e cluster" and view :: "'e \<Rightarrow> objects"
    and requests :: "string \<Rightarrow> 'e watch list \<Rightarrow> key \<Rightarrow> obj \<Rightarrow> 'e \<Rightarrow> (string \<times> string) set" +
  assumes owners_set: "owners_set k"
begin

abbreviation seen :: "Jellyfin \<Rightarrow> event \<Rightarrow> bool" where
  "seen jf \<equiv> wakes (instance_asks requests k) unwatched_kinds (jf_namespace jf, jf_name jf)"

lemma emits_written_stages:
  "emits (seen jf) (CreateOrUpdate OClaim KClaim (k_claims k) (jf_namespace jf) n (claim_mutate k jf spec modes q))"
  "emits (seen jf) (CreateOrUpdate OClaim KClaim (k_claims k) (jf_namespace jf) n (nfs_claim_mutate k jf nfs pv))"
  "emits (seen jf) (CreateOrUpdate OVolume KVolume (k_volumes k) '''' n f)"
  "emits (seen jf) (CreateOrUpdate ODeployment KDeployment (k_deployments k) (jf_namespace jf) n (deployment_mutate k jf dep))"
  "emits (seen jf) (CreateOrUpdate OService KService (k_services k) (jf_namespace jf) n (instance_service_mutate k jf))"
  "emits (seen jf) (CreateOrUpdate OService KService (k_services k) (jf_namespace jf) n (web_service_mutate k jf svc))"
  "emits (seen jf) (CreateOrUpdate OIngress KIngress (k_ingresses k) (jf_namespace jf) n (ingress_mutate k jf ing))"
  "emits (seen jf) (CreateOrUpdate ORoute KRoute (k_routes k) (jf_namespace jf) n g)"
  by (intro claims.emits_written volumes.emits_written deployments.emits_written services.emits_written ingresses.emits_written
      routes.emits_written; use owner_written [OF owners_set] in
      \<open>auto simp: instance_asks unwatched_kinds_def stored_claim_at_def stored_deployment_def\<close>)+

lemma emits_instance: "emits (seen jf) (reconcile_instance k quoted jf)"
proof -
  note intros = emits_intros emits_written_stages emits_unseen emits_retried [OF retries]
  have status: "emits (seen jf) (updateInstanceStatus k jf plugins)" for plugins
    unfolding updateInstanceStatus_def by (intro intros)
  have storage: "emits (seen jf) (reconcileStorage k quoted jf)"
    unfolding reconcileStorage_def reconcile_media_def [abs_def] ensureProvisionedNFS_def replace_drifted_def ensurePVC_def growPVC_def Let_def
    by (intro intros)
  show ?thesis
    unfolding reconcile_instance_def BoundPlugins_def list_plugins_def reconcileDeployment_def upsert_deployment_def
      reconcileService_def reconcileIngress_def reconcileWeb_def reconcileGateway_def Let_def
    by (intro intros storage status)
qed
abbreviation plugin_seen :: "JellyfinPlugin \<Rightarrow> event \<Rightarrow> bool" where
  "plugin_seen p \<equiv> wakes (plugin_asks requests k) {} (jp_namespace p, jp_name p)"

lemma emits_companions:
  "emits (plugin_seen p) (CreateOrUpdate ODeployment KDeployment (k_deployments k) (jp_namespace p) n (workload_mutate k p dep))"
  "emits (plugin_seen p) (CreateOrUpdate OService KService (k_services k) (jp_namespace p) n (service_mutate k p svc))"
  by (intro deployments.emits_written services.emits_written; use owner_written [OF owners_set] in
      \<open>auto simp: plugin_asks stored_deployment_def\<close>)+

lemma emits_plugin: "emits (plugin_seen p) (reconcile_plugin k abiText p)"
proof -
  have status: "emits (plugin_seen p) (updateStatus k p jfo abi)" for jfo abi
    unfolding updateStatus_def count_one_def [abs_def] get_workload_def case_prod_beta' by (intro emits_intros emits_unseen)
  have workloads: "emits (plugin_seen p) (reconcileWorkloads k p jfo)" for jfo
    unfolding reconcileWorkloads_def pruneWorkloads_def list_workloads_def Let_def workload_place
    by (intro emits_intros emits_unseen emits_companions)
  have "emits (plugin_seen p) (reconcileServices k p jfo)" for jfo
    unfolding reconcileServices_def
    by (intro emits_each emits_checked) (auto simp: map_err_Inr service_place intro!: emits_intros emits_companions)
  then show ?thesis
    unfolding reconcile_plugin_def boundInstance_def list_jellyfins_def get_jellyfin_def Let_def
    by (intro emits_intros emits_unseen status workloads)
qed

lemma emits_InstanceReconcile: "list_all (wakes (instance_asks requests k) unwatched_kinds (ns, name)) (events (InstanceReconcile k quoted ns name s))"
proof -
  let ?P = "wakes (instance_asks requests k) unwatched_kinds (ns, name)"
  have "post (attempt (get_jellyfin k ns name)) s (\<lambda>r es s'. list_all ?P es
      \<and> (\<forall>jf. r = Inr (Inr jf) \<longrightarrow> jf_namespace jf = ns \<and> jf_name jf = name))"
    unfolding get_jellyfin_def post_attempt
    using jellyfins.get_missing [of s ns name] jellyfins.get_stored [of s ns name] jellyfins.kinds [of s ns name]
      jellyfin_key_stored [of s ns name]
    by (cases "view s (KJellyfin, ns, name)") (fastforce simp: Get_def post_call)+
  then have "post (InstanceReconcile k quoted ns name) s (\<lambda>r es s'. list_all ?P es)"
    unfolding InstanceReconcile_def
  proof (rule post_bindI)
    fix r es and s' :: 'e
    assume read: "list_all ?P es \<and> (\<forall>jf. Inr r = (Inr (Inr jf) :: go_error + go_error + Jellyfin) \<longrightarrow> jf_namespace jf = ns \<and> jf_name jf = name)"
    have "emits ?P (reconcile_instance k quoted jf)" if "r = Inr jf" for jf
      using emits_instance [of jf quoted] read that by simp
    then have "emits ?P (case r of Inl e \<Rightarrow> lift (IgnoreNotFound (Inl e))
      | Inr jf \<Rightarrow> if jf_deleting jf then ret () else reconcile_instance k quoted jf)" by (intro emits_intros)
    then show "post (case r of Inl e \<Rightarrow> lift (IgnoreNotFound (Inl e))
      | Inr jf \<Rightarrow> if jf_deleting jf then ret () else reconcile_instance k quoted jf) s' (\<lambda>r' es'. \<lambda>s''. list_all ?P (es @ es'))"
      using read by (simp add: emits_def post_iff)
  qed simp
  then show ?thesis by (simp add: post_iff)
qed

end

text \<open>
  C10. Drift is noticed. Whatever a reconcile of an instance or of a plugin writes with \<open>CreateOrUpdate\<close> belongs to a kind that its
  controller watches and carries the owner reference that the watch follows: when the object changes later, in whatever
  state of the cluster, the owner is reconciled again. The exceptions are the persistent volumes and the route of an instance: no change of
  these asks for a reconcile of anything.
\<close>

theorem written_objects_wake_owner:
  assumes "api_server k view" and "controller_runtime requests" and "owners_set k"
  shows "list_all (wakes (requests ''Jellyfin'' (instance_watches k)) {KVolume, KRoute} (ns, name)) (events (InstanceReconcile k quoted ns name s))
    \<and> list_all (wakes (requests ''JellyfinPlugin'' (plugin_watches k)) {} (jp_namespace p, jp_name p)) (events (reconcile_plugin k abiText p s))"
proof -
  have server: "watched_server k view requests" using assms by (simp add: watched_server_def watched_server_axioms_def)
  show ?thesis
    using watched_server.emits_InstanceReconcile [OF server, of ns name quoted s] watched_server.emits_plugin [OF server, of p abiText]
    by (simp add: instance_asks_def plugin_asks_def unwatched_kinds_def emits_def)
qed

lemma memory_owners: "owners_set (memory_cluster names)"
  by (auto simp: owners_set_def owner_set)

interpretation watched_memory: watched_server "memory_cluster names" memory_view delivered for names
  by (intro watched_server.intro memory.api_server_axioms delivery.controller_runtime_axioms watched_server_axioms.intro memory_owners)

theorem written_objects_wake_owner_witness:
  "list_all (wakes (delivered ''Jellyfin'' (instance_watches (memory_cluster []))) {KVolume, KRoute} (''media'', ''jf''))
     (events (InstanceReconcile (memory_cluster []) (\<lambda>t. t) ''media'' ''jf'' sample_world))"
  using written_objects_wake_owner [OF memory.api_server_axioms delivery.controller_runtime_axioms memory_owners,
      where ns = "''media''" and name = "''jf''" and quoted = "\<lambda>t. t" and s = sample_world] by blast

end
