(* ===== verification/Races.thy ===== *)
theory Races
  imports Api_Report Library_Sync Plugin_Teardown Instance_Correct
begin

text \<open>
  Two controllers write the status of an instance (\<open>internal/controller/statusupdate.go\<close>), each computing it from what it has read
  some time before. Their runs are interleaved here: a step is a read of the instance, or a write that one of the two
  handlers makes in some run from something that has been read, however much has been stored in between. Shown by induction over the steps: an
  instance is never stored as ready by accident.
\<close>

section \<open>Interleaved reads and writes\<close>

text \<open>The status stored, those that unfinished runs hold, and what reads of the Deployment have returned.\<close>

record race =
  stored :: JellyfinStatus
  held :: "JellyfinStatus list"
  seen_deployments :: "(go_error + LiveDeployment) list"

inductive status_step :: "'e APIReconciler \<Rightarrow> string \<Rightarrow> string \<Rightarrow> race \<Rightarrow> race \<Rightarrow> bool" for R ns name where
  reads: "status_step R ns name st (st\<lparr>held := stored st # held st\<rparr>)"
| instance_writes: "jf_status jf \<in> set (held st) \<Longrightarrow>
    events (updateInstanceStatus (rec_cluster R) jf plugins s) = Got KDeployment (jf_namespace jf) (jf_name jf) (map_ok ODeployment x) # es \<Longrightarrow>
    StatusUpdated (OJellyfin j) True \<in> set es \<Longrightarrow>
    status_step R ns name st (st\<lparr>stored := jf_status j, seen_deployments := x # seen_deployments st\<rparr>)"
| api_writes: "jf_status jf \<in> set (held st) \<Longrightarrow>
    events (ApiReconcile R ns name s) = Got KJellyfin ns name (Inr (OJellyfin jf)) # es \<Longrightarrow>
    StatusUpdated (OJellyfin j) True \<in> set es \<Longrightarrow>
    status_step R ns name st (st\<lparr>stored := jf_status j\<rparr>)"

section \<open>Who changes the ready condition\<close>

definition ready_in :: "'e cluster \<Rightarrow> JellyfinStatus \<Rightarrow> bool" where
  "ready_in k st \<longleftrightarrow> map_option cond_status (FindStatusCondition k (jst_conditions st) conditionReady) = Some ConditionTrue"

lemma instance_ready_in: "instance_ready R jf \<longleftrightarrow> ready_in (rec_cluster R) (jf_status jf)"
  by (auto simp: instance_ready_def ready_in_def split: option.split)

lemma condition_ready_in: "ready_in k (jf_status jf) \<longleftrightarrow> condition_of k jf conditionReady = Some ConditionTrue"
  by (simp add: ready_in_def condition_of_def)

lemma map_ok_inject: "inj f \<Longrightarrow> map_ok f r = map_ok f r' \<longleftrightarrow> r = r'"
  by (cases r; cases r') (auto simp: inj_eq)

text \<open>The instance reconciler writes it according to the read of the Deployment.\<close>

lemma instance_write_ready:
  assumes "conditions_work k" and "retry_works k"
    and "events (updateInstanceStatus k jf plugins s) = Got KDeployment (jf_namespace jf) (jf_name jf) (map_ok ODeployment x) # es"
    and "StatusUpdated (OJellyfin j) good \<in> set es"
  shows "ready_in k (jf_status j) \<longleftrightarrow> deployment_ready x"
proof -
  have "reports_instance k jf plugins (is_ok (result (updateInstanceStatus k jf plugins s))) (events (updateInstanceStatus k jf plugins s))"
    using reports_instance_run [OF assms(1,2)] by (simp add: post_iff)
  then obtain y st where "map_ok ODeployment y = map_ok ODeployment x" and "status_for k jf plugins y st" and "list_all (written_status st) es"
    unfolding reports_instance_def assms(3) by auto
  moreover have "inj ODeployment" by (simp add: inj_def)
  ultimately have "status_for k jf plugins x st" "jf_status j = st"
    using assms(4) by (auto simp: map_ok_inject list_all_iff)
  then show ?thesis
    by (cases x) (auto simp: status_for_def ready_in_def deployment_ready_def Let_def ConditionTrue_def ConditionFalse_def split: if_splits)
qed

text \<open>The API reconciler keeps the one it has read.\<close>

lemma api_write_ready:
  assumes "conditions_work (rec_cluster R)" and "retry_works (rec_cluster R)"
    and "events (ApiReconcile R ns name s) = Got KJellyfin ns name (Inr (OJellyfin jf)) # es"
    and "StatusUpdated (OJellyfin j) good \<in> set es"
  shows "ready_in (rec_cluster R) (jf_status j) \<longleftrightarrow> ready_in (rec_cluster R) (jf_status jf)"
proof -
  let ?k = "rec_cluster R"
  have "all_written (loop_write R (Inr (OJellyfin jf))) es"
    using ApiReconcile_run [OF assms(1,2), of ns name s] assms(3) by (simp add: post_iff)
  then obtain apispec where "ready_write R apispec jf j"
    using assms(4) by (auto simp: all_written_def loop_write_def)
  moreover have "condition_of ?k j conditionReady = condition_of ?k jf conditionReady" if "api_false ?k jf j"
    using that by (simp add: api_false_def condition_names)
  moreover have "condition_of ?k j conditionReady = condition_of ?k jf conditionReady"
    if "told ?k (stage_plan apispec jf) (condition_of ?k jf) j" for apispec
  proof -
    have "conditionReady \<noteq> conditionAPIReady \<and> conditionReady \<notin> snd ` set (stage_plan apispec jf)"
      by (simp add: stage_plan_def condition_names)
    then show ?thesis using that unfolding told_def by blast
  qed
  ultimately have "condition_of ?k j conditionReady = condition_of ?k jf conditionReady"
    unfolding ready_write_def by blast
  then show ?thesis by (simp add: condition_ready_in)
qed

section \<open>The invariant\<close>

definition seen_ready :: "'e cluster \<Rightarrow> race \<Rightarrow> bool" where
  "seen_ready k st \<longleftrightarrow> ((\<exists>s \<in> set (stored st # held st). ready_in k s) \<longrightarrow> (\<exists>x \<in> set (seen_deployments st). deployment_ready x))"

lemma status_step_invariant:
  assumes "conditions_work (rec_cluster R)" and "retry_works (rec_cluster R)"
    and "status_step R ns name st st'" and "seen_ready (rec_cluster R) st"
  shows "seen_ready (rec_cluster R) st'"
  using assms(3)
proof cases
  case reads
  then show ?thesis using assms(4) by (auto simp: seen_ready_def)
next
  case (instance_writes jf plugins s x es j)
  then show ?thesis using assms(4) instance_write_ready [OF assms(1,2) instance_writes(3,4)] by (auto simp: seen_ready_def)
next
  case (api_writes jf s es j)
  then show ?thesis using assms(4) api_write_ready [OF assms(1,2) api_writes(3,4)] by (auto simp: seen_ready_def)
qed

lemma reachable_invariant:
  assumes "conditions_work (rec_cluster R)" and "retry_works (rec_cluster R)"
    and "(status_step R ns name)\<^sup>*\<^sup>* st0 st" and "seen_ready (rec_cluster R) st0"
  shows "seen_ready (rec_cluster R) st"
  using assms(3,4) by (induction rule: rtranclp_induct) (auto intro: status_step_invariant [OF assms(1,2)])

text \<open>What the instance reconciler writes has the fields of the other controller as it has read them, whatever is stored by then.\<close>

lemma instance_write_restores:
  assumes "conditions_work k" and "retry_works k"
    and "events (updateInstanceStatus k jf plugins s) = Got KDeployment (jf_namespace jf) (jf_name jf) (map_ok ODeployment x) # es"
    and "StatusUpdated (OJellyfin j) good \<in> set es"
  shows "jst_managedLibraries (jf_status j) = jst_managedLibraries (jf_status jf)"
    and "FindStatusCondition k (jst_conditions (jf_status j)) conditionAPIReady = FindStatusCondition k (jst_conditions (jf_status jf)) conditionAPIReady"
proof -
  obtain y st where "status_for k jf plugins y st" and "list_all (written_status st) es"
    using reports_instance_run [OF assms(1,2), of jf plugins s] unfolding reports_instance_def post_iff assms(3) by auto
  moreover from this(2) assms(4) have "jf_status j = st" by (auto simp: list_all_iff)
  ultimately have "status_for k jf plugins y (jf_status j)" by simp
  moreover have "conditionAPIReady \<noteq> conditionReady" "conditionAPIReady \<noteq> conditionPluginsLoaded" by (simp_all add: condition_names)
  ultimately show "jst_managedLibraries (jf_status j) = jst_managedLibraries (jf_status jf)"
    and "FindStatusCondition k (jst_conditions (jf_status j)) conditionAPIReady = FindStatusCondition k (jst_conditions (jf_status jf)) conditionAPIReady"
    unfolding status_for_def Let_def by blast+
qed

text \<open>
  C9. The two controllers may race. Let reads of the instance and writes of its status by the instance reconciler and by the API
  reconciler follow each other in any order, every write computed from some earlier read and replacing whatever is stored by
  then, starting from statuses that do not say ready. Then a run of the API reconciler on a status that has been read or stored
  calls the server only if some read of the Deployment so far has found one that wants at least one replica and has all available.
\<close>

theorem day2_waits_under_races:
  assumes "conditions_work (rec_cluster R)" and "retry_works (rec_cluster R)"
    and "(status_step R ns name)\<^sup>*\<^sup>* st0 st" and "\<And>s. s \<in> set (stored st0 # held st0) \<Longrightarrow> \<not> ready_in (rec_cluster R) s"
    and "events (ApiReconcile R ns name s) = Got KJellyfin ns name (Inr (OJellyfin jf)) # es"
    and "jf_status jf \<in> set (stored st # held st)" and "filter is_api es \<noteq> []"
  shows "\<exists>dep. Inr dep \<in> set (seen_deployments st) \<and> 0 < sint (deref (d_replicas dep) 1)
    \<and> sint (deref (d_replicas dep) 1) \<le> sint (ld_availableReplicas dep)"
proof -
  have "loop_run R (Inr (OJellyfin jf)) (result (ApiReconcile R ns name s)) es"
    using ApiReconcile_run [OF assms(1,2), of ns name s] assms(5) by (simp add: post_iff)
  then have "ready_in (rec_cluster R) (jf_status jf)"
    using assms(7) by (auto simp: loop_run_def reports_false_def instance_ready_in split: option.splits if_splits)
  moreover have "seen_ready (rec_cluster R) st0" using assms(4) by (auto simp: seen_ready_def)
  note reachable_invariant [OF assms(1-3) this]
  ultimately obtain x where "x \<in> set (seen_deployments st)" "deployment_ready x"
    using assms(6) unfolding seen_ready_def by blast
  moreover from this(2) obtain dep where "x = Inr dep" "0 < sint (deref (d_replicas dep) 1)"
    "sint (deref (d_replicas dep) 1) \<le> sint (ld_availableReplicas dep)"
    by (cases x) (auto simp: deployment_ready_def Let_def)
  ultimately show ?thesis by blast
qed

text \<open>A world in which the Deployment is available and the instance has been reported as ready.\<close>

definition race_jf :: Jellyfin where
  "race_jf = sample_jf\<lparr>jf_spec := no_jf_spec\<lparr>js_api := Some sample_api\<rparr>\<rparr>"

definition race_cluster :: "'e cluster" where
  "race_cluster = empty_cluster
     \<lparr>k_deployments := empty_store\<lparr>raw_get := (\<lambda>ns n s. (Inr (live_deployment n (Some 1) 1), s))\<rparr>,
      k_jellyfins := empty_store\<lparr>raw_get := (\<lambda>ns n s. (Inr (instance_status (empty_cluster :: unit cluster) race_jf [] True), s)),
        raw_updateStatus := (\<lambda>x s. (Inr (), s))\<rparr>\<rparr>"

definition race_reconciler :: "server APIReconciler" where
  "race_reconciler = sample_reconciler\<lparr>rec_cluster := race_cluster\<rparr>"

definition race_ready :: Jellyfin where
  "race_ready = instance_status (empty_cluster :: unit cluster) race_jf [] True"

lemma race_works: "conditions_work (race_cluster :: 'e cluster)" "retry_works (race_cluster :: 'e cluster)"
proof -
  have "FindStatusCondition (race_cluster :: 'e cluster) = FindStatusCondition (empty_cluster :: 'e cluster)"
    "SetStatusCondition (race_cluster :: 'e cluster) = SetStatusCondition (empty_cluster :: 'e cluster)"
    "RetryOnConflict (race_cluster :: 'e cluster) = RetryOnConflict (empty_cluster :: 'e cluster)" by (simp_all add: race_cluster_def)
  moreover have "conditions_work (empty_cluster :: 'e cluster)" "retry_works (empty_cluster :: 'e cluster)"
    by (rule empty_cluster_works)+
  ultimately show "conditions_work (race_cluster :: 'e cluster)" "retry_works (race_cluster :: 'e cluster)"
    unfolding conditions_work_def retry_works_def by simp_all
qed

lemma race_status: "instance_status race_cluster race_jf [] True = race_ready"
  by (simp add: race_ready_def instance_status_def set_jf_condition_def setCondition_def Let_def race_cluster_def empty_cluster_def)

lemma race_ready_fields: "jf_namespace race_ready = ''media''" "jf_name race_ready = ''jf''" "jf_deleting race_ready = False"
    "js_api (jf_spec race_ready) = Some sample_api" "ready_in race_cluster (jf_status race_ready)"
  by (simp_all add: race_ready_def instance_status_key)
    (simp_all add: race_jf_def sample_defs instance_status_def set_jf_condition_def setCondition_def Let_def race_cluster_def empty_cluster_def
      ready_in_def condition_names)

lemma race_instance_write:
  obtains j es where "events (updateInstanceStatus race_cluster race_jf [] s)
      = Got KDeployment (jf_namespace race_jf) (jf_name race_jf) (map_ok ODeployment (Inr (live_deployment ''jf'' (Some 1) 1))) # es"
    and "StatusUpdated (OJellyfin j) True \<in> set es" and "jf_status j = jf_status race_ready"
proof -
  let ?k = "race_cluster :: 'a cluster"
  have name: "jf_namespace race_jf = ''media''" "jf_name race_jf = ''jf''" by (simp_all add: race_jf_def sample_jf_def)
  have ready: "deployment_ready (Inr (live_deployment ''jf'' (Some 1) 1))" by (simp add: deployment_ready_def live_deployment_def)
  have "RetryOnConflict ?k = attempts 4"
    and "raw_get (k_jellyfins ?k) (jf_namespace race_ready) (jf_name race_ready) s = (Inr race_ready, s)"
    and "raw_updateStatus (k_jellyfins ?k) (race_ready\<lparr>jf_status := jf_status race_ready\<rparr>) s = (Inr (), s)"
    by (simp_all add: race_cluster_def empty_cluster_def race_ready_def)
  note accepted = status_write_overwrites(2) [OF this]
  have "events (updateInstanceStatus ?k race_jf [] s)
      = Got KDeployment (jf_namespace race_jf) (jf_name race_jf) (map_ok ODeployment (Inr (live_deployment ''jf'' (Some 1) 1)))
        # events (writeJellyfinStatus ?k race_ready s)"
    unfolding updateInstanceStatus_def
    by (simp add: bind_io_def attempt_def Get_def call_def split_beta name ready race_status)
      (simp add: race_cluster_def ready race_status [unfolded race_cluster_def])
  from that [OF this accepted] show thesis by simp
qed

lemma race_run: "(status_step race_reconciler ''media'' ''jf'')\<^sup>*\<^sup>*
    \<lparr>stored = no_jf_status, held = [], seen_deployments = []\<rparr>
    \<lparr>stored = jf_status race_ready, held = [no_jf_status], seen_deployments = [Inr (live_deployment ''jf'' (Some 1) 1)]\<rparr>"
proof -
  let ?st = "\<lparr>stored = no_jf_status, held = [], seen_deployments = []\<rparr>"
  let ?st1 = "\<lparr>stored = no_jf_status, held = [no_jf_status], seen_deployments = []\<rparr>"
  obtain j es where w: "events (updateInstanceStatus race_cluster race_jf [] (([], RawEmpty) :: server))
      = Got KDeployment (jf_namespace race_jf) (jf_name race_jf) (map_ok ODeployment (Inr (live_deployment ''jf'' (Some 1) 1))) # es"
    "StatusUpdated (OJellyfin j) True \<in> set es" and j: "jf_status j = jf_status race_ready"
    by (rule race_instance_write)
  have "status_step race_reconciler ''media'' ''jf'' ?st ?st1"
    using status_step.reads [of race_reconciler "''media''" "''jf''" ?st] by simp
  moreover have "status_step race_reconciler ''media'' ''jf'' ?st1 (?st1\<lparr>stored := jf_status j,
      seen_deployments := Inr (live_deployment ''jf'' (Some 1) 1) # seen_deployments ?st1\<rparr>)"
    by (rule status_step.instance_writes [where jf = race_jf and plugins = "[]" and s = "([], RawEmpty) :: server", OF _ _ w(2)])
      (use w(1) in \<open>simp_all add: race_reconciler_def race_jf_def sample_jf_def\<close>)
  ultimately show ?thesis using j by (simp add: rtranclp.rtrancl_into_rtrancl)
qed

lemma race_calls:
  obtains es where "events (ApiReconcile race_reconciler ''media'' ''jf'' s) = Got KJellyfin ''media'' ''jf'' (Inr (OJellyfin race_ready)) # es"
    and "filter is_api es \<noteq> []"
proof -
  let ?R = "race_reconciler"
  have api: "filter is_api (events (bind_io (api c f) g s)) \<noteq> []" for c f and g :: "unit \<Rightarrow> (server, int) act" and s
    by (auto simp: api_def call_def bind_io_def split: prod.split sum.split)
  have ready: "instance_ready ?R race_ready"
    using race_ready_fields(5) by (simp add: instance_ready_in race_reconciler_def)
  have "attempt (get_jellyfin (rec_cluster ?R) ''media'' ''jf'') s
      = (Inr (Inr race_ready), [Got KJellyfin ''media'' ''jf'' (Inr (OJellyfin race_ready))], s)"
    by (simp add: attempt_def get_jellyfin_def Get_def call_def race_reconciler_def race_cluster_def race_ready_def)
  then have "events (ApiReconcile ?R ''media'' ''jf'' s) = Got KJellyfin ''media'' ''jf'' (Inr (OJellyfin race_ready))
      # events (reconcile_ready ?R sample_api race_ready s)"
    by (simp add: ApiReconcile_def bind_io_def ready race_ready_fields split_beta)
  from that [OF this] show thesis unfolding reconcile_ready_def using api by blast
qed

theorem day2_waits_under_races_witness:
  "\<exists>dep. Inr dep \<in> set [Inr (live_deployment ''jf'' (Some 1) 1) :: go_error + LiveDeployment] \<and> 0 < sint (deref (d_replicas dep) 1)"
proof -
  obtain es where "events (ApiReconcile race_reconciler ''media'' ''jf'' ([], RawEmpty))
      = Got KJellyfin ''media'' ''jf'' (Inr (OJellyfin race_ready)) # es" "filter is_api es \<noteq> []" by (rule race_calls)
  moreover have "conditions_work (rec_cluster race_reconciler)" "retry_works (rec_cluster race_reconciler)"
    using race_works by (simp_all add: race_reconciler_def)
  moreover have "\<not> ready_in (rec_cluster race_reconciler) s"
    if "s \<in> set (stored \<lparr>stored = no_jf_status, held = [], seen_deployments = []\<rparr> # held \<lparr>stored = no_jf_status, held = [], seen_deployments = []\<rparr>)" for s
    using that by (simp add: ready_in_def no_jf_status_def race_reconciler_def race_cluster_def empty_cluster_def)
  ultimately show ?thesis using day2_waits_under_races [OF _ _ race_run] by fastforce
qed

end
