(* ===== verification/Spec2Isabelle.thy ===== *)
theory Spec2Isabelle
  imports Builder_Correct Gateway Libraries First_Run Library_Sync Api_Report Plugin_Correct Instance_Correct Convergence Manager
    Deepcopy Plugin_Steady Watches Races
begin

text \<open>
  Verification of jellyops, a Kubernetes operator for Jellyfin media servers.

  The program.
  Two custom resources describe what the user wants: a \<open>Jellyfin\<close> (an instance: image, storage, service, ingress, gateway,
  web tier, transcoding device, server settings) and a \<open>JellyfinPlugin\<close> (an image to mount into the server, an install step,
  companion workloads and services). Three reconcilers run over them. The instance reconciler
  (\<open>internal/controller/jellyfin_controller.go\<close>) provisions claims and volumes, and keeps the Deployment, Service, Ingress, web
  tier and HTTPRoute equal to what the builders of \<open>internal/plugins\<close> compute. The plugin reconciler
  (\<open>jellyfinplugin_controller.go\<close>) checks a plugin's ABI against the server, owns its companions and drains them on deletion.
  The API reconciler (\<open>jellyfinapi_controller.go\<close>) talks to the running server with the client of \<open>internal/jellyfinapi\<close>: first-run
  wizard, credentials, libraries and configuration stores. The reconcilers meet in the status of the resources:
  the instance reconciler leaves out plugins that the plugin reconciler has reported as failed, and the API reconciler
  waits for the \<open>Ready\<close> condition of the instance reconciler. All paths below are relative to \<open>src\<close>.

  How code is modelled.
  A Go struct is a record with one field per Go field, a nilable pointer an option, a string a byte list, an \<open>int32\<close> a
  \<open>32 word\<close>, a map an association list (\<open>Prelude\<close>). A pure function that can fail returns a sum. A function that talks to the
  outside returns, for every state of the world, an error or a value, the list of calls it has made, and the new world
  (\<open>Effects\<close>); the world's type is a variable, and the Kubernetes client and the HTTP transport are records of functions on
  it (\<open>World\<close>, \<open>Client\<close>). What is proved therefore holds for every answer of the servers, including failures between any two
  calls; safety properties are stated on the list of calls. The operators \<open>bind_io\<close>, \<open>attempt\<close>, \<open>wrapping\<close>, \<open>each\<close> and
  \<open>fold_io\<close> are the error handling and the loops of the source, and \<open>post\<close> and \<open>emits\<close> have one rule for each of them.

  The theories.
  \<^item> \<open>Prelude\<close>, \<open>Go_Strings\<close>, \<open>Go_Path\<close>, \<open>Go_Sha256\<close>, \<open>Json\<close>: results, maps, and the parts of Go's standard library that the source
    calls (\<open>strings\<close>, \<open>strconv\<close>, \<open>regexp\<close> on the patterns used, \<open>path\<close>, \<open>crypto/sha256\<close>, \<open>encoding/json\<close>).
  \<^item> \<open>Api_Types\<close>, \<open>Samples\<close>: the resources of \<open>api/v1alpha1\<close>, and small concrete ones.
  \<^item> \<open>Naming\<close> (\<open>naming.go\<close>), \<open>Shell\<close> (\<open>shell.go\<close>), \<open>Meta\<close> (\<open>meta.go\<close>), \<open>Podsecurity\<close> (\<open>podsecurity.go\<close>), \<open>Hwaccel\<close> (\<open>hwaccel.go\<close>),
    \<open>Builder\<close> and \<open>Builder_Correct\<close> (\<open>builder.go\<close>), \<open>Workloads\<close> (\<open>workloads.go\<close>), \<open>Web\<close> (\<open>web.go\<close>), \<open>Gateway\<close> (\<open>gateway.go\<close>): the builders of
    \<open>internal/plugins\<close>. Shown: names are DNS labels and do not collide; quoting and version parsing are inverse to a shell and a
    printer; every container of a built pod is hardened, every mount resolves, init containers run in the documented order, the
    result does not depend on the listing order; Services select exactly their own pods; where a conformant gateway sends
    each request.
  \<^item> \<open>Overlay\<close>, \<open>Configuration\<close>, \<open>Libraries\<close> (\<open>configuration.go\<close>, \<open>encoding.go\<close>, \<open>libraries.go\<close>): full-object configuration writes keep
    unmanaged keys and are idempotent; merging of library options; the library diff, carried out once, leaves nothing to do.
  \<^item> \<open>Effects\<close>, \<open>World\<close>, \<open>Client\<close>, \<open>First_Run\<close> (\<open>client.go\<close>, \<open>startup.go\<close>, the requests of the other files, \<open>statusupdate.go\<close>,
    \<open>conditions.go\<close>): effects, stored objects, the HTTP client; the request sequence of the first-run wizard for every behaviour of
    the server.
  \<^item> \<open>Api_Controller\<close>, \<open>Api_Correct\<close>, \<open>Library_Sync\<close>, \<open>Api_Report\<close> (\<open>jellyfinapi_controller.go\<close>): how a token is obtained and where it
    is kept, call by call; that the calls of the library reconcile implement the abstract \<open>carry_out\<close>; that a configuration store settles;
    which conditions are reported in which outcome, and that a status is always written.
  \<^item> \<open>Bindings\<close> (\<open>bindings.go\<close> and the two watch mappers), \<open>Plugin_Controller\<close>, \<open>Plugin_Teardown\<close>, \<open>Plugin_Correct\<close>
    (\<open>jellyfinplugin_controller.go\<close>): the mappers are inverse to each other; companions are drained before they are deleted and the
    finalizer goes last; draining ends in spite of failures; pruning deletes exactly the companions of removed workloads; replica sums and phases.
  \<^item> \<open>Instance_Controller\<close>, \<open>Instance_Claims\<close>, \<open>Instance_Storage\<close>, \<open>Instance_Correct\<close> (\<open>jellyfin_controller.go\<close>, \<open>util.go\<close>): claims never
    shrink and keep what is immutable; a volume in use is neither deleted nor rebound; the claims that the built pod mounts
    exist; order and scope of a whole reconcile; the reported status.
  \<^item> \<open>Convergence\<close>: the functions given to \<open>CreateOrUpdate\<close> by both reconcilers change nothing the second time. \<open>Api_Server\<close>,
    \<open>Steady_Stages\<close>, \<open>Steady\<close>, \<open>Plugin_Steady\<close>: an API server as an interface, with a map as one; for every stage of the instance and
    plugin reconcilers the stored objects it is satisfied with; and that a second reconcile of an instance or of a plugin that is
    not being deleted leaves everything as the first has left it.
  \<^item> \<open>Watches\<close> (the \<open>SetupWithManager\<close> functions): what wakes a reconciler; that everything the reconcilers write with
    \<open>CreateOrUpdate\<close> is watched by its owner, but for volumes and the route.
  \<^item> \<open>Races\<close> (\<open>statusupdate.go\<close>): the two writers of an instance's status interleaved in any order, as a step relation with an
    invariant of its reachable states.
  \<^item> \<open>Go_Heap\<close>, \<open>Deepcopy\<close> (\<open>zz_generated.deepcopy.go\<close>): a heap of pointers, slices and maps, the types of the resources as
    descriptors, and every generated copy function on it: it copies all fields of its type, and its result shares nothing with the original.
  \<^item> \<open>Manager\<close> (\<open>cmd/main.go\<close>): server options as functions of the flags; nothing starts before everything is registered.
  \<^item> This theory: what the reconcilers tell each other through the status of the resources. The instance runs exactly the plugins
    that fit its server, if they have been checked against its image, and the day-2 loop waits for the Deployment.
  \<^item> \<open>Fakes\<close> and the \<open>memory_...\<close> definitions of the theories above: concrete worlds on which the properties with hypotheses are
    evaluated.

  Parameters and hypotheses.
  Code outside the repository is a parameter: the Kubernetes client with \<open>CreateOrUpdate\<close>, \<open>SetControllerReference\<close>, finalizer and
  condition helpers, label selectors and \<open>RetryOnConflict\<close> (record \<open>cluster\<close>); the HTTP transport; the random source; number
  formatting of \<open>encoding/json\<close>; the texts of \<open>%q\<close> and of wrapped errors; the order in which Go ranges over a map; a Gateway API
  implementation. Where a property needs documented behaviour of one of these it is a named hypothesis:
  \<open>conditions_work\<close> and \<open>retry_works\<close> (\<open>World\<close>), \<open>lists\<close> (\<open>Bindings\<close>), \<open>drain_cluster\<close> (a call does what it says when it succeeds) and
  \<open>fair\<close> (reconciles go through again and again, nobody scales up, pods of a Deployment at zero stop eventually) (\<open>Plugin_Teardown\<close>), \<open>claim_store\<close> and
  \<open>volume_cluster\<close> (\<open>Instance_Claims\<close>), \<open>conformant\<close> (\<open>Gateway\<close>), \<open>number_codec\<close> (\<open>Configuration\<close>), \<open>api_server\<close> (\<open>Api_Server\<close>), \<open>plugin_server\<close> (\<open>Plugin_Steady\<close>),
  \<open>controller_runtime\<close> and   \<open>owners_set\<close> (\<open>Watches\<close>), \<open>library_copies\<close> (\<open>Deepcopy\<close>, the copy functions of library types), and those of \<open>Library_Sync\<close> and
  \<open>Api_Correct\<close> on the Jellyfin server. Each is shown to hold of a concrete world.

  Interfaces as locales: \<open>namer\<close> (name generators), \<open>security_pass\<close> (hardening passes), \<open>selector\<close> (labels and their owners),
  \<open>serving\<close> (gateways), \<open>enforcer\<close> and \<open>number_codec\<close> (configuration overlays), \<open>settling\<close> and \<open>owner_refs\<close> (functions given to
  \<open>CreateOrUpdate\<close>), \<open>object_store\<close>, \<open>api_server\<close> and \<open>plugin_server\<close> (stored objects), \<open>controller_runtime\<close> and \<open>watched_server\<close> (watches),
  interpreted on the definitions of the code or on a model of the server that the code talks to.

  Bounds and fuel.
  Every loop of the source is over a slice and is modelled by structural recursion. Fuel occurs in \<open>drop_pats\<close> only (prefix
  stripping, with the length of the text as fuel, which \<open>Go_Strings\<close> proves to be enough). \<open>RetryOnConflict\<close> is any bounded number of
  attempts. Replica counts are \<open>int32\<close> words whose sums wrap around. A teardown that is requeued is an infinite sequence of reconciles
  (\<open>rounds\<close>, \<open>Plugin_Teardown\<close>) between which the world moves on; that one of them is the last is shown without a bound, because pods may take any time to stop.

  Not modelled.
  \<open>groupversion_info.go\<close>: registration with the client library. The flag parser, the manager and its work
  queues. \<open>test/utils\<close>: helpers of the end-to-end tests. Log messages. Cancellation of a context and time-outs appear only as
  errors of the calls they abort. Reconciles that run at the same time are interleaved where they share data, on the status of an instance
  (\<open>Races\<close>); elsewhere what one does between the calls of another is part of what the world may answer. Outside
  \<open>Deepcopy\<close> a value is immutable, so aliasing of pointers and slices does not occur; in particular \<open>setResourceLimitOne\<close> returns the
  container with the limit, while the source writes into a map that the container shares with the custom resource read. The
  error of \<open>http.NewRequestWithContext\<close> is left out of \<open>new_request\<close>: the method is a constant and the URL is printed from a parsed one. \<open>go_quote\<close> leaves bytes above 127 as they are, which
  matters for the text of error messages only.
\<close>

section \<open>What the reconcilers tell each other\<close>

text \<open>A plugin fits an instance: it declares no target ABI, or one that the server version of the instance's image satisfies.\<close>

definition runs_on :: "JellyfinPlugin \<Rightarrow> Jellyfin \<Rightarrow> bool" where
  "runs_on p jf \<longleftrightarrow> (let target = pm_targetABI (jps_meta (jp_spec p)); v = ServerVersionFromImage (js_image (jf_spec jf)) in
     target = '''' \<or> ABICompatible target (if v = '''' then DefaultServerVersion else v) = Inr True)"

lemma validateABI_runs_on:
  assumes "js_image (jf_spec jf') = js_image (jf_spec jf)"
  shows "fst (validateABI abiText p (Some jf')) \<longleftrightarrow> runs_on p jf"
  by (auto simp: validateABI_def runs_on_def Let_def assms split: sum.split)

text \<open>
  A plugin as its reconciler leaves it: its status is the one that some run of the plugin reconciler has written, the write was accepted, and
  the instance that this run found for the plugin had the image of the given one. A plugin that is bound by its reference has
  been checked against the instance it names; one that a selector binds as well may have been checked against another (\<open>selector_binds_foreign_plugin\<close>).
\<close>

definition reported_for :: "'e cluster \<Rightarrow> (abi_error \<Rightarrow> string) \<Rightarrow> Jellyfin \<Rightarrow> JellyfinPlugin \<Rightarrow> bool" where
  "reported_for k abiText jf q \<longleftrightarrow> (\<exists>p s jf'. StatusUpdated (OPlugin q) True \<in> set (events (reconcile_plugin k abiText p s))
     \<and> result (boundInstance k p s) = Inr (Some jf') \<and> js_image (jf_spec jf') = js_image (jf_spec jf))"

text \<open>What a run of the plugin reconciler writes is the status of the instance it has found and of the check against it.\<close>

definition unreported :: "event \<Rightarrow> bool" where
  "unreported e \<longleftrightarrow> (\<forall>q good. e \<noteq> StatusUpdated (OPlugin q) good)"

lemma unreported_steps:
  "emits unreported (boundInstance k p)" "emits unreported (companions_run k p jfo)" "emits unreported (count_one k p w c)"
  unfolding boundInstance_def list_jellyfins_def get_jellyfin_def get_workload_def companions_run_def reconcileWorkloads_def
    pruneWorkloads_def list_workloads_def reconcileServices_def count_one_def Get_def
    List_in_def CreateOrUpdate_def DeleteIfExists_def Delete_def Let_def split_beta
  by (intro emits_intros; simp add: unreported_def)+

definition reports_check :: "'e cluster \<Rightarrow> (abi_error \<Rightarrow> string) \<Rightarrow> JellyfinPlugin \<Rightarrow> Jellyfin option \<Rightarrow> event \<Rightarrow> bool" where
  "reports_check k abiText p jfo e \<longleftrightarrow> (\<forall>q good. e = StatusUpdated (OPlugin q) good \<longrightarrow>
     (\<exists>counts. q = plugin_status k p jfo (validateABI abiText p jfo) counts))"

lemma unreported_check: "unreported e \<Longrightarrow> reports_check k abiText p jfo e"
  by (simp add: unreported_def reports_check_def)

lemma written_check:
  assumes "StatusUpdated (OPlugin q) good \<in> set (events (reconcile_plugin k abiText p s))" and "result (boundInstance k p s) = Inr jfo"
  shows "\<exists>counts. q = plugin_status k p jfo (validateABI abiText p jfo) counts"
proof -
  let ?rest = "\<lambda>jfo. bind_io (if fst (validateABI abiText p jfo) then companions_run k p jfo else ret ()) (\<lambda>_.
    bind_io (updateStatus k p jfo (validateABI abiText p jfo)) (\<lambda>_. ret 0 :: ('a, int) act))"
  have "emits (reports_check k abiText p jfo) (updateStatus k p jfo (validateABI abiText p jfo))" for jfo
    unfolding updateStatus_def StatusUpdate_def
    by (intro emits_bind emits_fold emits_call emits_mono [OF unreported_steps(3) unreported_check]) (auto simp: reports_check_def)
  then have rest: "emits (reports_check k abiText p jfo) (?rest jfo)" for jfo
    by (intro emits_bind emits_if emits_ret emits_mono [OF unreported_steps(2) unreported_check])
  have "post (reconcile_plugin k abiText p) s (\<lambda>r es s'. list_all (reports_check k abiText p jfo) es)"
    unfolding reconcile_plugin_run
  proof (rule post_bindI [where P = "\<lambda>r es s'. r = Inr jfo \<and> list_all (reports_check k abiText p jfo) es"])
    show "post (boundInstance k p) s (\<lambda>r es s'. r = Inr jfo \<and> list_all (reports_check k abiText p jfo) es)"
      by (rule post_mono [OF post_conj [OF _ emits_post [OF emits_mono [OF unreported_steps(1) unreported_check]]]])
        (auto simp: post_iff assms(2))
  next
    fix jfo' es and s' :: 'a
    assume "Inr jfo' = Inr jfo \<and> list_all (reports_check k abiText p jfo) es"
    then show "post (?rest jfo') s' (\<lambda>r es' s''. list_all (reports_check k abiText p jfo) (es @ es'))"
      by (intro post_mono [OF emits_post [OF rest]]) simp
  qed simp
  then have "reports_check k abiText p jfo (StatusUpdated (OPlugin q) good)"
    using assms(1) by (auto simp: post_iff list_all_iff)
  then show ?thesis by (simp add: reports_check_def)
qed

lemma healthy_reported:
  assumes "conditions_work k" and "reported_for k abiText jf q"
  shows "healthy k q \<longleftrightarrow> runs_on q jf"
proof -
  obtain p s jf' where written: "StatusUpdated (OPlugin q) True \<in> set (events (reconcile_plugin k abiText p s))"
    and found: "result (boundInstance k p s) = Inr (Some jf')" and image: "js_image (jf_spec jf') = js_image (jf_spec jf)"
    using assms(2) by (auto simp: reported_for_def)
  obtain counts where q: "q = plugin_status k p (Some jf') (validateABI abiText p (Some jf')) counts"
    using written_check [OF written found] by blast
  obtain ok reason msg d y where abi: "validateABI abiText p (Some jf') = (ok, reason, msg)" "counts = (d, y)"
    by (cases "validateABI abiText p (Some jf')", cases counts)
  have "jp_spec q = jp_spec p" unfolding q abi by (simp add: status_updates Let_def)
  then have "runs_on q jf = runs_on p jf" by (simp add: runs_on_def)
  then show ?thesis
    using validateABI_runs_on [OF image, of abiText p] by (simp add: q abi healthy_plugin_status [OF assms(1)])
qed

text \<open>The volumes and the init containers of a pod are those of the instance and of the given plugins, in name order, and no others.\<close>

definition runs_just :: "Jellyfin \<Rightarrow> JellyfinPlugin list \<Rightarrow> PodSpec \<Rightarrow> bool" where
  "runs_just jf ps pod \<longleftrightarrow>
     ps_volumes pod = map fst (storage_parts jf) @ map imageVolume (sort_key jp_name ps) @ accel_volumes (js_hardwareAcceleration (jf_spec jf))
     \<and> ps_initContainers pod = map (\<lambda>ic. applyContainerSecurity ic (js_podSecurity (jf_spec jf)))
         (concat (map (plugin_inits (server_image jf)) (sort_key jp_name ps)))"

text \<open>
  C8. Only compatible plugins run. Let every plugin bound to an instance be as its reconciler leaves it, checked
  against this instance or one of the same image. Then the plugins that the instance reconciler keeps
  are exactly those that declare no target ABI or one that the version of the instance's image satisfies; and the
  volumes and the init containers of the Deployment it builds are those of the instance and of these plugins, in name order, and no others.
\<close>

theorem only_compatible_plugins_run:
  assumes "conditions_work k" and "\<And>q. q \<in> set qs \<Longrightarrow> reported_for k abiText jf q"
  shows "HealthyPlugins k qs = filter (\<lambda>q. runs_on q jf) qs
    \<and> (\<forall>d. BuildDeployment jf (HealthyPlugins k qs) = Inr d \<longrightarrow> runs_just jf (filter (\<lambda>q. runs_on q jf) qs) (pt_spec (d_template d)))"
proof -
  have kept: "HealthyPlugins k qs = filter (\<lambda>q. runs_on q jf) qs"
    unfolding HealthyPlugins_def by (rule filter_cong [OF refl]) (rule healthy_reported [OF assms(1,2)])
  have "runs_just jf ps (pt_spec (d_template d))" if "BuildDeployment jf ps = Inr d" for ps d
    using that by (rule BuildDeployment_Inr) (simp add: runs_just_def sorted_plugins_def)
  with kept show ?thesis by simp
qed

text \<open>A server of version 10.9.11, a plugin made for 10.8 and one for 11, each with the status that its reconciler writes.\<close>

definition abi_instance :: Jellyfin where
  "abi_instance = sample_jf\<lparr>jf_spec := no_jf_spec\<lparr>js_image := ''jellyfin/jellyfin:10.9.11''\<rparr>\<rparr>"

definition abi_cluster :: "unit cluster" where
  "abi_cluster = empty_cluster\<lparr>k_jellyfins := empty_store\<lparr>raw_get := (\<lambda>ns n s. (Inr abi_instance, s))\<rparr>,
     k_plugins := empty_store\<lparr>raw_updateStatus := (\<lambda>x s. (Inr (), s))\<rparr>\<rparr>"

definition abi_plugin :: "string \<Rightarrow> string \<Rightarrow> JellyfinPlugin" where
  "abi_plugin n target = (sample_plugin n)\<lparr>jp_spec := no_plugin_spec\<lparr>jps_jellyfinRef := Some ''jf'',
     jps_meta := no_meta\<lparr>pm_targetABI := target\<rparr>\<rparr>\<rparr>"

definition abi_reported :: "JellyfinPlugin \<Rightarrow> JellyfinPlugin" where
  "abi_reported p = plugin_status abi_cluster p (Some abi_instance) (validateABI (\<lambda>e. ''unparsable'') p (Some abi_instance)) (0, 0)"

lemma abi_cluster_works: "conditions_work abi_cluster"
proof -
  have "FindStatusCondition abi_cluster = FindStatusCondition (empty_cluster :: unit cluster)"
    "SetStatusCondition abi_cluster = SetStatusCondition (empty_cluster :: unit cluster)" by (simp_all add: abi_cluster_def)
  moreover have "conditions_work (empty_cluster :: unit cluster)" by (rule empty_cluster_works(1))
  ultimately show ?thesis by (simp only: conditions_work_def simp_thms)
qed

lemma abi_reported_for: "reported_for abi_cluster (\<lambda>e. ''unparsable'') abi_instance (abi_reported (abi_plugin n target))"
proof -
  let ?p = "abi_plugin n target"
  let ?abi = "validateABI (\<lambda>e. ''unparsable'') ?p (Some abi_instance)"
  have bound: "boundInstance abi_cluster ?p () = (Inr (Some abi_instance), [Got KJellyfin ''media'' ''jf'' (Inr (OJellyfin abi_instance))], ())"
    by (simp add: boundInstance_def Let_def abi_plugin_def abi_cluster_def get_jellyfin_def Get_def call_def bind_io_def attempt_def
        ret_def sample_plugin_def no_plugin_spec_def)
  have "\<exists>es. companions_run abi_cluster ?p (Some abi_instance) () = (Inr (), es, ())"
    by (simp add: companions_run_def reconcileWorkloads_def reconcileServices_def pruneWorkloads_def list_workloads_def List_in_def call_def
        wrapping_def bind_io_def ret_def Let_def abi_plugin_def abi_cluster_def empty_cluster_def empty_store_def sample_plugin_def no_plugin_spec_def)
  then obtain es where companions: "(if fst ?abi then companions_run abi_cluster ?p (Some abi_instance) else ret ()) () = (Inr (), es, ())"
    by (cases "fst ?abi") (auto simp: ret_def)
  have "jps_workloads (jp_spec ?p) = []" and "raw_updateStatus (k_plugins abi_cluster) = (\<lambda>x s. (Inr (), s))"
    by (simp_all add: abi_plugin_def abi_cluster_def sample_plugin_def no_plugin_spec_def)
  then have status: "updateStatus abi_cluster ?p (Some abi_instance) ?abi () = (Inr (), [StatusUpdated (OPlugin (abi_reported ?p)) True], ())"
    by (simp add: updateStatus_def StatusUpdate_def call_def bind_io_def ret_def abi_reported_def)
  have "StatusUpdated (OPlugin (abi_reported ?p)) True \<in> set (events (reconcile_plugin abi_cluster (\<lambda>e. ''unparsable'') ?p ()))"
    unfolding reconcile_plugin_run bind_io_def [of "boundInstance abi_cluster ?p"] bound
    by (simp add: bind_io_def companions status ret_def)
  then show ?thesis
    unfolding reported_for_def using bound by (intro exI [of _ ?p] exI [of _ "()"] exI [of _ abi_instance]) simp
qed

theorem only_compatible_plugins_run_witness:
  "HealthyPlugins abi_cluster [abi_reported (abi_plugin ''new'' ''11.0.0.0''), abi_reported (abi_plugin ''old'' ''10.8.0.0'')]
   = [abi_reported (abi_plugin ''old'' ''10.8.0.0'')]"
proof -
  have "\<not> runs_on (abi_reported (abi_plugin ''new'' ''11.0.0.0'')) abi_instance" by code_simp
  moreover have "runs_on (abi_reported (abi_plugin ''old'' ''10.8.0.0'')) abi_instance" by code_simp
  ultimately show ?thesis
    using only_compatible_plugins_run [OF abi_cluster_works, of "[abi_reported (abi_plugin ''new'' ''11.0.0.0''),
        abi_reported (abi_plugin ''old'' ''10.8.0.0'')]" "\<lambda>e. ''unparsable''" abi_instance] abi_reported_for by auto
qed

text \<open>
  The day-2 loop waits for the Deployment. When the status that the API reconciler reads is one that the instance reconciler
  has written after a read \<open>x\<close> of the Deployment, it calls the server only if \<open>x\<close> was a Deployment that wants at least one
  replica and has all of them available.
\<close>

definition waits_for :: "'e APIReconciler \<Rightarrow> Jellyfin \<Rightarrow> JellyfinPlugin list \<Rightarrow> go_error + LiveDeployment \<Rightarrow> event list \<Rightarrow> bool" where
  "waits_for R jf plugins x es \<longleftrightarrow> (let jf' = instance_status (rec_cluster R) jf plugins (deployment_ready x) in
     (\<exists>dep. x = Inr dep \<and> 0 < sint (deref (d_replicas dep) 1) \<and> sint (deref (d_replicas dep) 1) \<le> sint (ld_availableReplicas dep))
     \<or> hd es \<noteq> Got KJellyfin (jf_namespace jf') (jf_name jf') (Inr (OJellyfin jf')) \<or> filter is_api es = [])"

lemma instance_ready_status:
  assumes "conditions_work (rec_cluster R)"
  shows "instance_ready R (instance_status (rec_cluster R) jf plugins ready) \<longleftrightarrow> ready"
  by (simp add: instance_ready_def instance_status_def set_jf_condition_def Let_def find_setCondition [OF assms] condition_names
      ConditionTrue_def ConditionFalse_def)

theorem day2_waits_for_deployment:
  assumes "conditions_work (rec_cluster R)" and "retry_works (rec_cluster R)"
  shows "post (ApiReconcile R ns name) s (\<lambda>r es s'. waits_for R jf plugins x es)"
proof (rule post_mono [OF ApiReconcile_run [OF assms]])
  fix r es s'
  let ?jf = "instance_status (rec_cluster R) jf plugins (deployment_ready x)"
  assume "\<exists>got rest. es = Got KJellyfin ns name got # rest \<and> loop_run R got r rest \<and> all_written (loop_write R got) rest"
  then obtain got rest where es: "es = Got KJellyfin ns name got # rest" and run: "loop_run R got r rest" by blast
  have "filter is_api es = []" if "got = Inr (OJellyfin ?jf)" "\<not> deployment_ready x"
  proof -
    have "\<not> instance_ready R ?jf" using that(2) instance_ready_status [OF assms(1)] by simp
    then show ?thesis using run that(1) by (auto simp: es loop_run_def reports_false_def split: option.splits if_splits)
  qed
  moreover have "\<exists>dep. x = Inr dep \<and> 0 < sint (deref (d_replicas dep) 1) \<and> sint (deref (d_replicas dep) 1) \<le> sint (ld_availableReplicas dep)"
    if "deployment_ready x" using that by (cases x) (auto simp: deployment_ready_def Let_def)
  ultimately show "waits_for R jf plugins x es"
    unfolding waits_for_def Let_def by (cases "deployment_ready x") (auto simp: es)
qed

theorem day2_waits_for_deployment_witness:
  "post (ApiReconcile sample_reconciler ''media'' ''jf'') ([], RawEmpty)
    (\<lambda>r es s'. waits_for sample_reconciler sample_jf [] (Inl NotFound) es)"
  by (rule day2_waits_for_deployment) (simp_all add: sample_reconciler_def empty_cluster_works)

end
